(* ===== verification/Prelude.thy ===== *)
theory Prelude
  imports Main "HOL-Library.AList"
begin

text \<open>
  What every component of the development shares: the types of the Rust standard library
  the code uses (\<open>Instant\<close>, \<open>Duration\<close>, fixed-width unsigned counters), concurrent hash
  maps as association lists with distinct keys, and the lemmas about them that carry the
  component proofs.

  An \<open>Instant\<close> is the number of nanoseconds since an arbitrary origin of the monotonic
  clock and a \<open>Duration\<close> a number of nanoseconds, so that \<open>duration_since\<close> and
  \<open>saturating_duration_since\<close>, which both return zero when the clock did not advance, are
  subtraction on \<open>nat\<close>.

  A \<open>DashMap\<close> or \<open>HashMap\<close> is an association list without a repeated key. The order of
  the list is the order in which an iteration visits the entries.
\<close>

section \<open>Collections of facts\<close>

named_theorems dash_simps \<open>equations about the association-list maps\<close>
named_theorems step_simps \<open>equations that unfold one operation of a component\<close>

section \<open>Time and counters\<close>

type_synonym instant = nat
type_synonym duration = nat

definition ns_per_sec :: nat where
  "ns_per_sec = 1000000000"

abbreviation secs :: "nat \<Rightarrow> duration" where
  "secs n \<equiv> n * ns_per_sec"

definition as_secs :: "duration \<Rightarrow> nat" where
  "as_secs d = d div ns_per_sec"

definition as_millis :: "duration \<Rightarrow> nat" where
  "as_millis d = d div 1000000"

lemma ns_per_sec_pos [simp]: "0 < ns_per_sec"
  by (simp add: ns_per_sec_def)

lemma as_secs_secs [simp]: "as_secs (secs n) = n"
  by (simp add: as_secs_def)

lemma as_secs_mono: "a \<le> b \<Longrightarrow> as_secs a \<le> as_secs b"
  by (simp add: as_secs_def div_le_mono)

text \<open>Saturating arithmetic at a width, as \<open>u32\<close> and \<open>u64\<close> have it.\<close>

definition u32_max :: nat where "u32_max = 2 ^ 32 - 1"
definition u64_max :: nat where "u64_max = 2 ^ 64 - 1"

definition sat_add :: "nat \<Rightarrow> nat \<Rightarrow> nat \<Rightarrow> nat" where
  "sat_add lim a b = min lim (a + b)"

definition sat_mul :: "nat \<Rightarrow> nat \<Rightarrow> nat \<Rightarrow> nat" where
  "sat_mul lim a b = min lim (a * b)"

lemma sat_add_le [simp]: "sat_add lim a b \<le> lim"
  by (simp add: sat_add_def)

lemma sat_mul_mono: "a \<le> a' \<Longrightarrow> b \<le> b' \<Longrightarrow> sat_mul lim a b \<le> sat_mul lim a' b'"
  by (auto simp: sat_mul_def min_def intro: mult_le_mono le_trans [OF _ mult_le_mono])

section \<open>Options and vectors\<close>

definition unwrap_or :: "'a \<Rightarrow> 'a option \<Rightarrow> 'a" where
  "unwrap_or d x = (case x of Some v \<Rightarrow> v | None \<Rightarrow> d)"

text \<open>\<open>a.or_else(|| b)\<close>.\<close>

definition or_else :: "'a option \<Rightarrow> 'a option \<Rightarrow> 'a option" where
  "or_else a b = (case a of Some _ \<Rightarrow> a | None \<Rightarrow> b)"

text \<open>\<open>rposition\<close>, \<open>Vec::remove\<close> and \<open>Vec::insert\<close>; the index is within the bounds where the code uses them.\<close>

fun rposition :: "('a \<Rightarrow> bool) \<Rightarrow> 'a list \<Rightarrow> nat option" where
  "rposition P [] = None"
| "rposition P (x # xs) =
     (case rposition P xs of Some i \<Rightarrow> Some (Suc i) | None \<Rightarrow> if P x then Some 0 else None)"

definition vec_remove :: "nat \<Rightarrow> 'a list \<Rightarrow> 'a list" where
  "vec_remove i xs = take i xs @ drop (Suc i) xs"

definition vec_insert :: "nat \<Rightarrow> 'a \<Rightarrow> 'a list \<Rightarrow> 'a list" where
  "vec_insert i x xs = take i xs @ x # drop i xs"

lemma rposition_None: "rposition P xs = None \<longleftrightarrow> (\<forall>x \<in> set xs. \<not> P x)"
  by (induction xs) (auto split: option.splits)

lemma rposition_append: "P x \<Longrightarrow> (\<forall>z \<in> set zs. \<not> P z) \<Longrightarrow> rposition P (ys @ x # zs) = Some (length ys)"
proof (induction ys)
  case Nil
  then have "rposition P zs = None" by (simp add: rposition_None)
  then show ?case using Nil by simp
qed simp

lemma rposition_SomeD:
  "rposition P xs = Some i \<Longrightarrow> \<exists>ys x zs. xs = ys @ x # zs \<and> length ys = i \<and> P x \<and> (\<forall>z \<in> set zs. \<not> P z)"
proof (induction xs arbitrary: i)
  case (Cons a xs)
  show ?case
  proof (cases "rposition P xs")
    case None
    then have "\<forall>z \<in> set xs. \<not> P z" by (simp add: rposition_None)
    moreover have "P a" "i = 0" using Cons.prems None by (auto split: if_splits)
    ultimately show ?thesis by (intro exI [of _ "[]"]) auto
  next
    case (Some j)
    then obtain ys x zs where "xs = ys @ x # zs" "length ys = j" "P x" "\<forall>z \<in> set zs. \<not> P z"
      using Cons.IH by blast
    moreover have "i = Suc j" using Cons.prems Some by simp
    ultimately show ?thesis by (intro exI [of _ "a # ys"] exI [of _ x] exI [of _ zs]) simp
  qed
qed simp

lemma vec_remove_at [simp]: "vec_remove (length ys) (ys @ x # zs) = ys @ zs"
  by (simp add: vec_remove_def)

lemma vec_insert_0 [simp]: "vec_insert 0 x xs = x # xs"
  by (simp add: vec_insert_def)

section \<open>Concurrent hash maps\<close>

type_synonym ('k, 'v) dash = "('k \<times> 'v) list"

definition dash_ok :: "('k, 'v) dash \<Rightarrow> bool" where
  "dash_ok m = distinct (map fst m)"

abbreviation dash_get :: "('k, 'v) dash \<Rightarrow> 'k \<Rightarrow> 'v option" where
  "dash_get \<equiv> map_of"

abbreviation dash_put :: "'k \<Rightarrow> 'v \<Rightarrow> ('k, 'v) dash \<Rightarrow> ('k, 'v) dash" where
  "dash_put \<equiv> AList.update"

abbreviation dash_remove :: "'k \<Rightarrow> ('k, 'v) dash \<Rightarrow> ('k, 'v) dash" where
  "dash_remove \<equiv> AList.delete"

definition dash_retain :: "('k \<Rightarrow> 'v \<Rightarrow> bool) \<Rightarrow> ('k, 'v) dash \<Rightarrow> ('k, 'v) dash" where
  "dash_retain P m = filter (\<lambda>(k, v). P k v) m"

text \<open>\<open>entry(key).or_insert_with(fresh)\<close> followed by an update of the entry in place.\<close>

definition dash_entry :: "'b \<Rightarrow> ('b \<Rightarrow> 'b \<times> 'd) \<Rightarrow> 'k \<Rightarrow> ('k, 'b) dash \<Rightarrow> ('k, 'b) dash \<times> 'd" where
  "dash_entry fresh f k m =
     (let b = (case dash_get m k of Some b \<Rightarrow> b | None \<Rightarrow> fresh);
          (b', d) = f b
      in (dash_put k b' m, d))"

text \<open>\<open>get_mut(key)\<close> followed by an update: nothing happens when the key is absent.\<close>

definition dash_modify :: "('b \<Rightarrow> 'b) \<Rightarrow> 'k \<Rightarrow> ('k, 'b) dash \<Rightarrow> ('k, 'b) dash" where
  "dash_modify f k m = (case dash_get m k of None \<Rightarrow> m | Some b \<Rightarrow> dash_put k (f b) m)"

lemma dash_ok_Nil [simp]: "dash_ok []"
  by (simp add: dash_ok_def)

lemma dash_get_put [dash_simps]: "dash_get (dash_put k v m) = (dash_get m)(k \<mapsto> v)"
  by (simp add: update_conv')

lemma dash_get_remove [dash_simps]: "dash_get (dash_remove k m) = (dash_get m)(k := None)"
  by (simp add: delete_conv')

lemma dash_ok_put [simp]: "dash_ok m \<Longrightarrow> dash_ok (dash_put k v m)"
  by (simp add: dash_ok_def distinct_update)

lemma dash_ok_remove [simp]: "dash_ok m \<Longrightarrow> dash_ok (dash_remove k m)"
  by (simp add: dash_ok_def distinct_delete)

lemma dash_get_Some_iff: "dash_ok m \<Longrightarrow> dash_get m k = Some v \<longleftrightarrow> (k, v) \<in> set m"
  by (auto simp: dash_ok_def)

lemma map_of_filter_None: "k \<notin> fst ` set m \<Longrightarrow> map_of (filter P m) k = None"
  by (auto simp: map_of_eq_None_iff)

lemma dash_get_retain [dash_simps]:
  "dash_ok m \<Longrightarrow> dash_get (dash_retain P m) k =
     (case dash_get m k of None \<Rightarrow> None | Some v \<Rightarrow> if P k v then Some v else None)"
proof (induction m)
  case Nil
  then show ?case by (simp add: dash_retain_def)
next
  case (Cons kv m)
  obtain a b where kv: "kv = (a, b)" by (cases kv)
  from Cons.prems kv have fresh: "a \<notin> fst ` set m" and ok: "dash_ok m"
    by (auto simp: dash_ok_def)
  show ?case
    using Cons.IH [OF ok] fresh kv
    by (auto simp: dash_retain_def map_of_filter_None split: option.splits)
qed

lemma dash_ok_retain [simp]: "dash_ok m \<Longrightarrow> dash_ok (dash_retain P m)"
  by (auto simp: dash_ok_def dash_retain_def distinct_map intro: inj_on_subset)

lemma dash_retain_Nil [simp]: "dash_retain P [] = []"
  by (simp add: dash_retain_def)

lemma dash_retain_length: "length (dash_retain P m) \<le> length m"
  by (simp add: dash_retain_def)

lemma dash_retain_all: "\<forall>(k, v) \<in> set m. P k v \<Longrightarrow> dash_retain P m = m"
  by (auto simp: dash_retain_def intro!: filter_True)

lemma dash_remove_length:
  "dash_ok m \<Longrightarrow> k \<in> fst ` set m \<Longrightarrow> Suc (length (dash_remove k m)) = length m"
proof (induction m)
  case (Cons kv m)
  obtain a b where kv: "kv = (a, b)" by (cases kv)
  show ?case
  proof (cases "a = k")
    case True
    with Cons.prems kv have "k \<notin> fst ` set m" by (auto simp: dash_ok_def)
    then have "dash_remove k m = m" by (force simp: AList.delete_eq filter_id_conv)
    with True kv show ?thesis by simp
  next
    case False
    with Cons kv show ?thesis by (auto simp: dash_ok_def)
  qed
qed simp

lemma dash_put_length_new: "k \<notin> fst ` set m \<Longrightarrow> length (dash_put k v m) = Suc (length m)"
  by (induction m) auto

lemma dash_put_length_old: "k \<in> fst ` set m \<Longrightarrow> length (dash_put k v m) = length m"
  by (induction m) auto

lemma dash_entry_get [dash_simps]:
  "dash_get (fst (dash_entry fresh f k m)) =
     (dash_get m)(k \<mapsto> fst (f (case dash_get m k of Some b \<Rightarrow> b | None \<Rightarrow> fresh)))"
  by (simp add: dash_entry_def Let_def case_prod_beta dash_get_put)

lemma dash_entry_result [dash_simps]:
  "snd (dash_entry fresh f k m) = snd (f (case dash_get m k of Some b \<Rightarrow> b | None \<Rightarrow> fresh))"
  by (simp add: dash_entry_def Let_def case_prod_beta)

lemma dash_entry_ok [simp]: "dash_ok m \<Longrightarrow> dash_ok (fst (dash_entry fresh f k m))"
  by (simp add: dash_entry_def Let_def case_prod_beta)

lemma dash_modify_get [dash_simps]:
  "dash_get (dash_modify f k m) = (dash_get m)(k := map_option f (dash_get m k))"
  by (auto simp: dash_modify_def dash_get_put fun_eq_iff split: option.splits)

lemma dash_modify_ok [simp]: "dash_ok m \<Longrightarrow> dash_ok (dash_modify f k m)"
  by (auto simp: dash_modify_def split: option.splits)

text \<open>A predicate that holds of every entry is kept by the operations that keep it.\<close>

definition dash_all :: "('v \<Rightarrow> bool) \<Rightarrow> ('k, 'v) dash \<Rightarrow> bool" where
  "dash_all P m = list_all (\<lambda>(k, v). P v) m"

lemma dash_all_Nil [simp]: "dash_all P []"
  by (simp add: dash_all_def)

lemma dash_all_get: "dash_all P m \<Longrightarrow> dash_get m k = Some v \<Longrightarrow> P v"
  by (auto simp: dash_all_def list_all_iff dest: map_of_SomeD)

lemma dash_all_put: "dash_all P m \<Longrightarrow> P v \<Longrightarrow> dash_all P (dash_put k v m)"
  by (induction m) (auto simp: dash_all_def)

lemma dash_all_retain: "dash_all P m \<Longrightarrow> dash_all P (dash_retain Q m)"
  by (auto simp: dash_all_def dash_retain_def list_all_iff)

lemma dash_all_remove: "dash_all P m \<Longrightarrow> dash_all P (dash_remove k m)"
  by (auto simp: dash_all_def list_all_iff AList.delete_eq)

lemma dash_all_entry:
  assumes "dash_all P m" and "P fresh" and "\<And>b. P b \<Longrightarrow> Q (fst (f b))"
    and "\<And>b. P b \<Longrightarrow> Q b"
  shows "dash_all Q (fst (dash_entry fresh f k m))"
proof -
  have "P (case dash_get m k of Some b \<Rightarrow> b | None \<Rightarrow> fresh)"
    using assms(1,2) by (auto split: option.splits dest: dash_all_get)
  then have "Q (fst (f (case dash_get m k of Some b \<Rightarrow> b | None \<Rightarrow> fresh)))"
    by (rule assms(3))
  moreover have "dash_all Q m"
    using assms(1,4) by (auto simp: dash_all_def list_all_iff)
  ultimately show ?thesis
    by (simp add: dash_entry_def Let_def case_prod_beta dash_all_put)
qed

section \<open>Keyed families of buckets\<close>

text \<open>
  Both rate limiters keep one bucket per key and touch only the entry of the key they are
  asked about. The contract is stated once; the token-bucket map and the fixed-window map
  are its two providers.
\<close>

fun keyed_run ::
  "('k \<Rightarrow> instant \<Rightarrow> 'm \<Rightarrow> 'm \<times> 'd) \<Rightarrow> ('k \<times> instant) list \<Rightarrow> 'm \<Rightarrow> 'm \<times> ('k \<times> 'd) list" where
  "keyed_run chk [] m = (m, [])"
| "keyed_run chk ((k, now) # ops) m =
     (let (m', d) = chk k now m; (m'', ds) = keyed_run chk ops m' in (m'', (k, d) # ds))"

fun bucket_run ::
  "(instant \<Rightarrow> 'b) \<Rightarrow> (instant \<Rightarrow> 'b \<Rightarrow> 'b \<times> 'd) \<Rightarrow> instant list \<Rightarrow> 'b option \<Rightarrow> 'b option \<times> 'd list" where
  "bucket_run fresh touch [] ob = (ob, [])"
| "bucket_run fresh touch (now # ts) ob =
     (let (b, d) = touch now (case ob of Some b \<Rightarrow> b | None \<Rightarrow> fresh now);
          (ob', ds) = bucket_run fresh touch ts (Some b)
      in (ob', d # ds))"

definition for_key :: "'k \<Rightarrow> ('k \<times> 'a) list \<Rightarrow> 'a list" where
  "for_key k xs = map snd (filter (\<lambda>x. fst x = k) xs)"

lemma for_key_simps [simp]:
  "for_key k [] = []"
  "for_key k ((k', x) # xs) = (if k' = k then x # for_key k xs else for_key k xs)"
  by (simp_all add: for_key_def)

lemma for_key_set: "x \<in> set (for_key k xs) \<longleftrightarrow> (k, x) \<in> set xs"
  by (force simp: for_key_def)

locale keyed_buckets =
  fixes fresh :: "instant \<Rightarrow> 'b"
    and touch :: "instant \<Rightarrow> 'b \<Rightarrow> 'b \<times> 'd"
    and check :: "'k \<Rightarrow> instant \<Rightarrow> ('k, 'b) dash \<Rightarrow> ('k, 'b) dash \<times> 'd"
  assumes check_get: "dash_get (fst (check k now m)) =
        (dash_get m)(k \<mapsto> fst (touch now (case dash_get m k of Some b \<Rightarrow> b | None \<Rightarrow> fresh now)))"
    and check_result: "snd (check k now m) =
        snd (touch now (case dash_get m k of Some b \<Rightarrow> b | None \<Rightarrow> fresh now))"
begin

lemma isolation: "k' \<noteq> k \<Longrightarrow> dash_get (fst (check k now m)) k' = dash_get m k'"
  by (simp add: check_get)

lemma decision_local:
  "dash_get m k = dash_get m' k \<Longrightarrow> snd (check k now m) = snd (check k now m')"
  by (simp add: check_result)

lemma independent_keys:
  "k' \<noteq> k \<Longrightarrow> snd (check k' now' (fst (check k now m))) = snd (check k' now' m)"
  by (rule decision_local) (simp add: isolation)

text \<open>
  What a run of checks decides about one key is what that key's bucket alone decides about
  the attempts made under the key.
\<close>

lemma run_for_key:
  "(dash_get (fst (keyed_run check ops m)) k, for_key k (snd (keyed_run check ops m))) =
     bucket_run fresh touch (for_key k ops) (dash_get m k)"
proof (induction ops arbitrary: m)
  case Nil
  then show ?case by simp
next
  case (Cons op ops)
  obtain k' now where op: "op = (k', now)" by (cases op)
  let ?m = "fst (check k' now m)"
  have IH: "(dash_get (fst (keyed_run check ops ?m)) k, for_key k (snd (keyed_run check ops ?m))) =
     bucket_run fresh touch (for_key k ops) (dash_get ?m k)"
    by (rule Cons.IH)
  show ?case
  proof (cases "k' = k")
    case True
    then show ?thesis using IH
      by (simp add: op Let_def case_prod_beta check_get check_result prod_eq_iff)
  next
    case False
    then show ?thesis using IH
      by (simp add: op Let_def case_prod_beta check_get prod_eq_iff)
  qed
qed

end

end
