(* ===== verification/Stt_Proto.thy ===== *)
theory Stt_Proto
  imports Prelude "HOL-Library.Word"
begin

text \<open>
  The wire protocol of the speech service (\<open>crates/stt-proto/src/lib.rs\<close>): a tag byte and the
  \<open>postcard\<close> serialisation of the struct the tag selects.

  Parameter: \<open>postcard\<close>, the serialiser and deserialiser of each struct, which are not part of
  the repository. What the frames rely on, that deserialising what was serialised gives the
  value back, is the hypothesis \<open>codec_ok\<close>. An \<open>f32\<close> is its 32 bits.
\<close>

type_synonym f32 = "32 word"
type_synonym bytes = "8 word list"

section \<open>Tags and payloads\<close>

datatype tag =
    TagAudioFrame | TagStartSession | TagStopSession | TagConfig | TagPartialTranscript
  | TagFinalTranscript | TagError | TagBackendInfo

fun tag_byte :: "tag \<Rightarrow> 8 word" where
  "tag_byte TagAudioFrame = 0x01"
| "tag_byte TagStartSession = 0x10"
| "tag_byte TagStopSession = 0x11"
| "tag_byte TagConfig = 0x12"
| "tag_byte TagPartialTranscript = 0x20"
| "tag_byte TagFinalTranscript = 0x21"
| "tag_byte TagError = 0x30"
| "tag_byte TagBackendInfo = 0x31"

definition tag_from_u8 :: "8 word \<Rightarrow> tag option" where
  "tag_from_u8 byte =
     (if byte = 0x01 then Some TagAudioFrame
      else if byte = 0x10 then Some TagStartSession
      else if byte = 0x11 then Some TagStopSession
      else if byte = 0x12 then Some TagConfig
      else if byte = 0x20 then Some TagPartialTranscript
      else if byte = 0x21 then Some TagFinalTranscript
      else if byte = 0x30 then Some TagError
      else if byte = 0x31 then Some TagBackendInfo
      else None)"

record audio_frame = af_samples :: "f32 list"

record start_session =
  lang_hint :: "string option"
  sample_rate :: nat

record config_update =
  cu_language :: "string option"
  cu_translate :: bool

record segment =
  sg_text :: string
  sg_t0_ms :: nat
  sg_t1_ms :: nat
  sg_no_speech_prob :: f32

record partial_transcript =
  pt_text :: string
  pt_t0_ms :: nat
  pt_t1_ms :: nat
  pt_lang :: string

record final_transcript =
  ft_text :: string
  ft_segments :: "segment list"
  ft_lang :: string

record error_message =
  em_code :: nat
  em_message :: string

record backend_info =
  bi_model_id :: string
  bi_gpu_backend :: string

datatype payload =
    PAudio audio_frame | PStart start_session | PStop | PConfig config_update
  | PPartial partial_transcript | PFinal final_transcript | PError error_message | PBackend backend_info

datatype codec_error = EmptyFrame | UnknownTag "8 word" | PostcardError

fun payload_tag :: "payload \<Rightarrow> tag" where
  "payload_tag (PAudio _) = TagAudioFrame"
| "payload_tag (PStart _) = TagStartSession"
| "payload_tag PStop = TagStopSession"
| "payload_tag (PConfig _) = TagConfig"
| "payload_tag (PPartial _) = TagPartialTranscript"
| "payload_tag (PFinal _) = TagFinalTranscript"
| "payload_tag (PError _) = TagError"
| "payload_tag (PBackend _) = TagBackendInfo"

section \<open>The codec\<close>

record postcard =
  ser_audio :: "audio_frame \<Rightarrow> bytes option"
  ser_start :: "start_session \<Rightarrow> bytes option"
  ser_stop :: "bytes option"
  ser_config :: "config_update \<Rightarrow> bytes option"
  ser_partial :: "partial_transcript \<Rightarrow> bytes option"
  ser_final :: "final_transcript \<Rightarrow> bytes option"
  ser_error :: "error_message \<Rightarrow> bytes option"
  ser_backend :: "backend_info \<Rightarrow> bytes option"
  de_audio :: "bytes \<Rightarrow> audio_frame option"
  de_start :: "bytes \<Rightarrow> start_session option"
  de_stop :: "bytes \<Rightarrow> bool"
  de_config :: "bytes \<Rightarrow> config_update option"
  de_partial :: "bytes \<Rightarrow> partial_transcript option"
  de_final :: "bytes \<Rightarrow> final_transcript option"
  de_error :: "bytes \<Rightarrow> error_message option"
  de_backend :: "bytes \<Rightarrow> backend_info option"

fun ser_payload :: "postcard \<Rightarrow> payload \<Rightarrow> bytes option" where
  "ser_payload pc (PAudio p) = ser_audio pc p"
| "ser_payload pc (PStart p) = ser_start pc p"
| "ser_payload pc PStop = ser_stop pc"
| "ser_payload pc (PConfig p) = ser_config pc p"
| "ser_payload pc (PPartial p) = ser_partial pc p"
| "ser_payload pc (PFinal p) = ser_final pc p"
| "ser_payload pc (PError p) = ser_error pc p"
| "ser_payload pc (PBackend p) = ser_backend pc p"

fun from_tagged :: "postcard \<Rightarrow> tag \<Rightarrow> bytes \<Rightarrow> payload option" where
  "from_tagged pc TagAudioFrame tail = map_option PAudio (de_audio pc tail)"
| "from_tagged pc TagStartSession tail = map_option PStart (de_start pc tail)"
| "from_tagged pc TagStopSession tail = (if de_stop pc tail then Some PStop else None)"
| "from_tagged pc TagConfig tail = map_option PConfig (de_config pc tail)"
| "from_tagged pc TagPartialTranscript tail = map_option PPartial (de_partial pc tail)"
| "from_tagged pc TagFinalTranscript tail = map_option PFinal (de_final pc tail)"
| "from_tagged pc TagError tail = map_option PError (de_error pc tail)"
| "from_tagged pc TagBackendInfo tail = map_option PBackend (de_backend pc tail)"

definition encode_frame :: "postcard \<Rightarrow> payload \<Rightarrow> codec_error + bytes" where
  "encode_frame pc p =
     (case ser_payload pc p of
        None \<Rightarrow> Inl PostcardError
      | Some buf \<Rightarrow> Inr (tag_byte (payload_tag p) # buf))"

definition decode_frame :: "postcard \<Rightarrow> bytes \<Rightarrow> codec_error + payload" where
  "decode_frame pc bytes =
     (case bytes of
        [] \<Rightarrow> Inl EmptyFrame
      | head # tail \<Rightarrow>
          (case tag_from_u8 head of
             None \<Rightarrow> Inl (UnknownTag head)
           | Some t \<Rightarrow>
               (case from_tagged pc t tail of None \<Rightarrow> Inl PostcardError | Some p \<Rightarrow> Inr p)))"

text \<open>Each struct deserialises to what was serialised.\<close>

definition codec_ok :: "postcard \<Rightarrow> bool" where
  "codec_ok pc \<longleftrightarrow>
     (\<forall>x bs. ser_audio pc x = Some bs \<longrightarrow> de_audio pc bs = Some x)
     \<and> (\<forall>x bs. ser_start pc x = Some bs \<longrightarrow> de_start pc bs = Some x)
     \<and> (\<forall>bs. ser_stop pc = Some bs \<longrightarrow> de_stop pc bs)
     \<and> (\<forall>x bs. ser_config pc x = Some bs \<longrightarrow> de_config pc bs = Some x)
     \<and> (\<forall>x bs. ser_partial pc x = Some bs \<longrightarrow> de_partial pc bs = Some x)
     \<and> (\<forall>x bs. ser_final pc x = Some bs \<longrightarrow> de_final pc bs = Some x)
     \<and> (\<forall>x bs. ser_error pc x = Some bs \<longrightarrow> de_error pc bs = Some x)
     \<and> (\<forall>x bs. ser_backend pc x = Some bs \<longrightarrow> de_backend pc bs = Some x)"

section \<open>Frames\<close>

lemma tag_from_u8_byte [simp]: "tag_from_u8 (tag_byte t) = Some t"
  by (cases t) (simp_all add: tag_from_u8_def)

lemma tag_from_u8_Some: "tag_from_u8 b = Some t \<Longrightarrow> b = tag_byte t"
  by (auto simp: tag_from_u8_def split: if_splits)

lemma from_tagged_ser:
  "codec_ok pc \<Longrightarrow> ser_payload pc p = Some bs \<Longrightarrow> from_tagged pc (payload_tag p) bs = Some p"
  by (cases p) (auto simp: codec_ok_def)

lemma from_tagged_tag: "from_tagged pc t bs = Some p \<Longrightarrow> payload_tag p = t"
  by (cases t) (auto split: if_splits)

text \<open>
  With a codec that reads back what it writes, decoding an encoded frame gives the payload
  back; two payloads never share a frame. Whatever the codec, a frame that decodes begins with
  the tag of the payload it gives, and exactly the eight tag bytes of the protocol are
  accepted: any other first byte is reported as unknown, an empty frame as empty.
\<close>

theorem frame_roundtrip:
  "(codec_ok pc \<longrightarrow> encode_frame pc p = Inr frame \<longrightarrow> decode_frame pc frame = Inr p)
   \<and> (codec_ok pc \<longrightarrow> encode_frame pc p = Inr frame \<longrightarrow> encode_frame pc q = Inr frame \<longrightarrow> p = q)
   \<and> (decode_frame pc (b # rest) = Inr p \<longrightarrow> b = tag_byte (payload_tag p))
   \<and> (decode_frame pc (b # rest) = Inl (UnknownTag b) \<longleftrightarrow> b \<notin> tag_byte ` UNIV)
   \<and> decode_frame pc [] = Inl EmptyFrame"
proof -
  have rt: "decode_frame pc frame = Inr p" if "codec_ok pc" "encode_frame pc p = Inr frame" for p
    using that from_tagged_ser [OF that(1), of p]
    by (auto simp: encode_frame_def decode_frame_def split: option.splits)
  moreover have "b = tag_byte (payload_tag p)" if "decode_frame pc (b # rest) = Inr p"
    using that by (auto simp: decode_frame_def dest: tag_from_u8_Some from_tagged_tag split: option.splits)
  moreover have "decode_frame pc (b # rest) = Inl (UnknownTag b) \<longleftrightarrow> b \<notin> tag_byte ` UNIV"
  proof (cases "tag_from_u8 b")
    case None
    then have "b \<notin> tag_byte ` UNIV" by auto
    with None show ?thesis by (simp add: decode_frame_def)
  next
    case (Some t)
    then have "b \<in> tag_byte ` UNIV" by (auto dest: tag_from_u8_Some)
    with Some show ?thesis by (auto simp: decode_frame_def split: option.splits)
  qed
  moreover have "p = q" if "codec_ok pc" "encode_frame pc p = Inr frame" "encode_frame pc q = Inr frame"
    using rt [OF that(1,2)] rt [OF that(1,3)] by simp
  moreover have "decode_frame pc [] = Inl EmptyFrame" by (simp add: decode_frame_def)
  ultimately show ?thesis by blast
qed

text \<open>A codec for the witnesses that knows only the stop message and one error code.\<close>

definition small_codec :: postcard where
  "small_codec =
     \<lparr>ser_audio = \<lambda>_. None, ser_start = \<lambda>_. None, ser_stop = Some [], ser_config = \<lambda>_. None,
      ser_partial = \<lambda>_. None, ser_final = \<lambda>_. None,
      ser_error = \<lambda>e. if em_message e = [] \<and> em_code e < 256 then Some [of_nat (em_code e)] else None,
      ser_backend = \<lambda>b. if bi_model_id b = [] \<and> bi_gpu_backend b = [] then Some [] else None,
      de_audio = \<lambda>_. None, de_start = \<lambda>_. None, de_stop = \<lambda>bs. bs = [], de_config = \<lambda>_. None,
      de_partial = \<lambda>_. None, de_final = \<lambda>_. None,
      de_error = \<lambda>bs. (case bs of [b] \<Rightarrow> Some \<lparr>em_code = unat b, em_message = []\<rparr> | _ \<Rightarrow> None),
      de_backend = \<lambda>bs. Some \<lparr>bi_model_id = [], bi_gpu_backend = []\<rparr>\<rparr>"

lemma small_codec_ok: "codec_ok small_codec"
  by (auto simp: codec_ok_def small_codec_def unat_of_nat split: if_splits)

lemma frame_roundtrip_witness:
  "decode_frame small_codec [0x30, 4] = Inr (PError \<lparr>em_code = 4, em_message = []\<rparr>)"
proof -
  have "encode_frame small_codec (PError \<lparr>em_code = 4, em_message = []\<rparr>) = Inr [0x30, 4]"
    by (simp add: encode_frame_def small_codec_def)
  with small_codec_ok show ?thesis
    using frame_roundtrip [of small_codec "PError \<lparr>em_code = 4, em_message = []\<rparr>" "[0x30, 4]"] by blast
qed

end
