(* ===== verification/Rust_Str.thy ===== *)
theory Rust_Str
  imports Prelude
begin

text \<open>
  The string operations of the Rust standard library that the code uses. A \<open>str\<close> is its
  UTF-8 bytes, so a HOL \<open>string\<close> (a list of 8-bit characters) is the byte sequence and
  \<open>length\<close> is \<open>len()\<close>. Operations that look at code points (\<open>trim\<close>, \<open>chars().take(n)\<close>)
  recognise the encoded sequences.
\<close>

section \<open>Bytes and characters\<close>

definition byte :: "char \<Rightarrow> nat" where
  "byte c = of_char c"

definition is_ascii_alphanumeric :: "char \<Rightarrow> bool" where
  "is_ascii_alphanumeric c \<longleftrightarrow>
     (48 \<le> byte c \<and> byte c \<le> 57) \<or> (65 \<le> byte c \<and> byte c \<le> 90) \<or> (97 \<le> byte c \<and> byte c \<le> 122)"

definition ascii_lower :: "char \<Rightarrow> char" where
  "ascii_lower c = (if 65 \<le> byte c \<and> byte c \<le> 90 then char_of (byte c + 32) else c)"

definition to_ascii_lowercase :: "string \<Rightarrow> string" where
  "to_ascii_lowercase s = map ascii_lower s"

lemma ascii_lower_idem [simp]: "ascii_lower (ascii_lower c) = ascii_lower c"
  by (auto simp: ascii_lower_def byte_def)

lemma to_ascii_lowercase_idem [simp]: "to_ascii_lowercase (to_ascii_lowercase s) = to_ascii_lowercase s"
  by (simp add: to_ascii_lowercase_def)

lemma to_ascii_lowercase_length [simp]: "length (to_ascii_lowercase s) = length s"
  by (simp add: to_ascii_lowercase_def)

section \<open>Prefixes and pieces\<close>

fun strip_prefix :: "string \<Rightarrow> string \<Rightarrow> string option" where
  "strip_prefix [] s = Some s"
| "strip_prefix (p # ps) [] = None"
| "strip_prefix (p # ps) (c # s) = (if p = c then strip_prefix ps s else None)"

definition starts_with :: "string \<Rightarrow> string \<Rightarrow> bool" where
  "starts_with p s = (strip_prefix p s \<noteq> None)"

lemma strip_prefix_iff: "strip_prefix p s = Some r \<longleftrightarrow> s = p @ r"
  by (induction p s rule: strip_prefix.induct) auto

lemma strip_prefix_append [simp]: "strip_prefix p (p @ r) = Some r"
  by (simp add: strip_prefix_iff)

lemma starts_with_append [simp]: "starts_with p (p @ r)"
  by (simp add: starts_with_def)

text \<open>\<open>find(c)\<close> with the slices before and after the match.\<close>

fun split_at_char :: "char \<Rightarrow> string \<Rightarrow> (string \<times> string) option" where
  "split_at_char c [] = None"
| "split_at_char c (x # s) =
     (if x = c then Some ([], s)
      else map_option (\<lambda>(a, b). (x # a, b)) (split_at_char c s))"

lemma split_at_char_Some: "split_at_char c s = Some (a, b) \<Longrightarrow> s = a @ c # b \<and> c \<notin> set a"
  by (induction s arbitrary: a) (auto split: if_splits)

lemma split_at_char_append: "c \<notin> set a \<Longrightarrow> split_at_char c (a @ c # b) = Some (a, b)"
  by (induction a) auto

lemma split_at_char_None: "split_at_char c s = None \<longleftrightarrow> c \<notin> set s"
  by (induction s) auto

text \<open>\<open>split(c)\<close>: every piece, the empty ones included; the pieces are never empty as a list.\<close>

fun split_char :: "char \<Rightarrow> string \<Rightarrow> string list" where
  "split_char c [] = [[]]"
| "split_char c (x # s) =
     (if x = c then [] # split_char c s
      else (case split_char c s of [] \<Rightarrow> [[x]] | p # ps \<Rightarrow> (x # p) # ps))"

lemma split_char_nonempty [simp]: "split_char c s \<noteq> []"
  by (induction s) (auto split: list.splits)

lemma split_char_none: "c \<notin> set s \<Longrightarrow> split_char c s = [s]"
  by (induction s) auto

lemma split_char_append: "c \<notin> set a \<Longrightarrow> split_char c (a @ c # b) = a # split_char c b"
  by (induction a) auto

definition first_piece :: "char \<Rightarrow> string \<Rightarrow> string" where
  "first_piece c s = takeWhile (\<lambda>x. x \<noteq> c) s"

lemma hd_split_char: "hd (split_char c s) = first_piece c s"
  by (induction s) (auto simp: first_piece_def split: list.splits)

text \<open>\<open>split_once(pat)\<close>.\<close>

fun split_once :: "string \<Rightarrow> string \<Rightarrow> (string \<times> string) option" where
  "split_once p [] = (if p = [] then Some ([], []) else None)"
| "split_once p (c # s) =
     (case strip_prefix p (c # s) of
        Some r \<Rightarrow> Some ([], r)
      | None \<Rightarrow> map_option (\<lambda>(a, b). (c # a, b)) (split_once p s))"

text \<open>\<open>join(sep)\<close>.\<close>

fun join_with :: "string \<Rightarrow> string list \<Rightarrow> string" where
  "join_with sep [] = []"
| "join_with sep [l] = l"
| "join_with sep (l # l' # ls) = l @ sep @ join_with sep (l' # ls)"

text \<open>\<open>contains(pat)\<close>.\<close>

definition contains :: "string \<Rightarrow> string \<Rightarrow> bool" where
  "contains pat s \<longleftrightarrow> split_once pat s \<noteq> None"

definition trim_end_matches :: "char \<Rightarrow> string \<Rightarrow> string" where
  "trim_end_matches c s = rev (dropWhile (\<lambda>x. x = c) (rev s))"

lemma trim_end_matches_last: "s \<noteq> [] \<Longrightarrow> last s \<noteq> c \<Longrightarrow> trim_end_matches c s = s"
  by (cases s rule: rev_cases) (simp_all add: trim_end_matches_def)

section \<open>White space\<close>

text \<open>
  The length of the encoded \<open>White_Space\<close> code point at the head of the bytes, 0 when the
  head is something else; the second function reads the same sequences backwards.
\<close>

definition ascii_ws :: "nat \<Rightarrow> bool" where
  "ascii_ws n \<longleftrightarrow> (9 \<le> n \<and> n \<le> 13) \<or> n = 32"

definition ws2 :: "nat \<Rightarrow> nat \<Rightarrow> bool" where
  "ws2 a b \<longleftrightarrow> a = 194 \<and> (b = 133 \<or> b = 160)"

definition ws3 :: "nat \<Rightarrow> nat \<Rightarrow> nat \<Rightarrow> bool" where
  "ws3 a b c \<longleftrightarrow>
     (a = 225 \<and> b = 154 \<and> c = 128)
     \<or> (a = 226 \<and> b = 128 \<and> ((128 \<le> c \<and> c \<le> 138) \<or> c = 168 \<or> c = 169 \<or> c = 175))
     \<or> (a = 226 \<and> b = 129 \<and> c = 159)
     \<or> (a = 227 \<and> b = 128 \<and> c = 128)"

fun ws_head :: "string \<Rightarrow> nat" where
  "ws_head [] = 0"
| "ws_head [a] = (if ascii_ws (byte a) then 1 else 0)"
| "ws_head [a, b] = (if ascii_ws (byte a) then 1 else if ws2 (byte a) (byte b) then 2 else 0)"
| "ws_head (a # b # c # s) =
     (if ascii_ws (byte a) then 1 else if ws2 (byte a) (byte b) then 2
      else if ws3 (byte a) (byte b) (byte c) then 3 else 0)"

fun ws_head_rev :: "string \<Rightarrow> nat" where
  "ws_head_rev [] = 0"
| "ws_head_rev [a] = (if ascii_ws (byte a) then 1 else 0)"
| "ws_head_rev [a, b] = (if ascii_ws (byte a) then 1 else if ws2 (byte b) (byte a) then 2 else 0)"
| "ws_head_rev (a # b # c # s) =
     (if ascii_ws (byte a) then 1 else if ws2 (byte b) (byte a) then 2
      else if ws3 (byte c) (byte b) (byte a) then 3 else 0)"

function drop_ws :: "(string \<Rightarrow> nat) \<Rightarrow> string \<Rightarrow> string" where
  "drop_ws h s = (if h s = 0 \<or> s = [] then s else drop_ws h (drop (h s) s))"
  by pat_completeness auto
termination
  by (relation "measure (\<lambda>(h, s). length s)") auto

declare drop_ws.simps [simp del]

definition trim_start :: "string \<Rightarrow> string" where
  "trim_start s = drop_ws ws_head s"

definition trim_end :: "string \<Rightarrow> string" where
  "trim_end s = rev (drop_ws ws_head_rev (rev s))"

definition trim :: "string \<Rightarrow> string" where
  "trim s = trim_end (trim_start s)"

lemma drop_ws_Nil [simp]: "drop_ws h [] = []"
  by (simp add: drop_ws.simps)

lemma trim_Nil [simp]: "trim_start [] = []" "trim_end [] = []" "trim [] = []"
  by (simp_all add: trim_def trim_start_def trim_end_def)

lemma drop_ws_idem: "drop_ws h (drop_ws h s) = drop_ws h s"
proof (induction h s rule: drop_ws.induct)
  case (1 h s)
  then show ?case by (cases "h s = 0 \<or> s = []") (simp_all add: drop_ws.simps [of h s])
qed

lemma drop_ws_suffix: "\<exists>a. s = a @ drop_ws h s"
proof (induction h s rule: drop_ws.induct)
  case (1 h s)
  show ?case
  proof (cases "h s = 0 \<or> s = []")
    case True
    then show ?thesis by (simp add: drop_ws.simps [of h s])
  next
    case False
    with "1.IH" obtain a where "drop (h s) s = a @ drop_ws h (drop (h s) s)" by auto
    then have "s = (take (h s) s @ a) @ drop_ws h (drop (h s) s)" by (metis append.assoc append_take_drop_id)
    moreover have "drop_ws h s = drop_ws h (drop (h s) s)" using False by (simp add: drop_ws.simps [of h s])
    ultimately show ?thesis by metis
  qed
qed

lemma trim_start_idem [simp]: "trim_start (trim_start s) = trim_start s"
  by (simp add: trim_start_def drop_ws_idem)

lemma trim_start_no_ws: "ws_head s = 0 \<Longrightarrow> trim_start s = s"
  by (simp add: trim_start_def drop_ws.simps [of ws_head s])

lemma ws_head_ascii:
  "ascii_ws (byte a) \<Longrightarrow> ws_head (a # s) = 1"
  "\<not> ascii_ws (byte a) \<Longrightarrow> byte a < 128 \<Longrightarrow> ws_head (a # s) = 0"
  by (cases "a # s" rule: ws_head.cases; simp add: ws2_def ws3_def)+

lemma trim_start_ascii:
  "ascii_ws (byte a) \<Longrightarrow> trim_start (a # s) = trim_start s"
  "\<not> ascii_ws (byte a) \<Longrightarrow> byte a < 128 \<Longrightarrow> trim_start (a # s) = a # s"
  by (simp_all add: trim_start_def drop_ws.simps [of ws_head "a # s"] ws_head_ascii)

lemma trim_end_ascii: "\<not> ascii_ws (byte c) \<Longrightarrow> byte c < 128 \<Longrightarrow> trim_end (s @ [c]) = s @ [c]"
proof -
  assume "\<not> ascii_ws (byte c)" and "byte c < 128"
  then have "ws_head_rev (c # rev s) = 0"
    by (cases "c # rev s" rule: ws_head_rev.cases) (auto simp: ws2_def ws3_def)
  then show ?thesis by (simp add: trim_end_def drop_ws.simps [of ws_head_rev "c # rev s"])
qed

lemma trim_ascii:
  assumes "\<not> ascii_ws (byte a)" "byte a < 128" "\<not> ascii_ws (byte z)" "byte z < 128"
  shows "trim (a # s @ [z]) = a # s @ [z]"
  using trim_end_ascii [OF assms(3,4), of "a # s"] by (simp add: trim_def trim_start_ascii(2) [OF assms(1,2)])

section \<open>Code points\<close>

text \<open>A byte that continues a code point has its two top bits \<open>10\<close>.\<close>

definition is_continuation :: "char \<Rightarrow> bool" where
  "is_continuation c \<longleftrightarrow> 128 \<le> byte c \<and> byte c < 192"

text \<open>\<open>chars().take(n).collect()\<close>.\<close>

fun take_chars :: "nat \<Rightarrow> string \<Rightarrow> string" where
  "take_chars n [] = []"
| "take_chars n (c # s) =
     (if is_continuation c then c # take_chars n s
      else if n = 0 then [] else c # take_chars (n - 1) s)"

definition char_count :: "string \<Rightarrow> nat" where
  "char_count s = length (filter (\<lambda>c. \<not> is_continuation c) s)"

lemma take_chars_bound: "char_count (take_chars n s) \<le> n"
  by (induction n s rule: take_chars.induct) (auto simp: char_count_def)

lemma take_chars_all: "char_count s \<le> n \<Longrightarrow> take_chars n s = s"
  by (induction n s rule: take_chars.induct) (auto simp: char_count_def split: if_splits)

section \<open>Printing numbers\<close>

text \<open>The digits of a number in a base up to 16, in lower case, as \<open>{}\<close> and \<open>{:x}\<close> print them.\<close>

definition digit :: "nat \<Rightarrow> char" where
  "digit d = char_of (if d < 10 then 48 + d else 87 + d)"

fun digits_of :: "nat \<Rightarrow> nat \<Rightarrow> string \<Rightarrow> string" where
  "digits_of base n acc =
     (let acc' = digit (n mod base) # acc in if n < base \<or> base < 2 then acc' else digits_of base (n div base) acc')"

declare digits_of.simps [simp del]

definition nat_to_string :: "nat \<Rightarrow> string" where
  "nat_to_string n = digits_of 10 n []"

definition nat_to_hex :: "nat \<Rightarrow> string" where
  "nat_to_hex n = digits_of 16 n []"

definition lower_hex :: "char \<Rightarrow> bool" where
  "lower_hex c \<longleftrightarrow> (48 \<le> byte c \<and> byte c \<le> 57) \<or> (97 \<le> byte c \<and> byte c \<le> 102)"

lemma byte_char_of: "n < 256 \<Longrightarrow> byte (char_of n) = n"
  by (simp add: byte_def)

lemma byte_digit: "d < 10 \<Longrightarrow> byte (digit d) = 48 + d"
  by (simp add: digit_def byte_char_of)

lemma digit_hex: "d < 16 \<Longrightarrow> lower_hex (digit d)"
  by (auto simp: lower_hex_def digit_def byte_char_of)

lemma digits_of_hex: "2 \<le> base \<Longrightarrow> base \<le> 16 \<Longrightarrow> list_all lower_hex acc \<Longrightarrow> list_all lower_hex (digits_of base n acc)"
proof (induction base n acc rule: digits_of.induct)
  case (1 base n acc)
  have "n mod base < 16" using "1.prems"(1,2) by (meson mod_less_divisor less_le_trans zero_less_numeral)
  then have "lower_hex (digit (n mod base))" by (rule digit_hex)
  with 1 show ?case by (auto simp: digits_of.simps [of base n acc] Let_def)
qed

lemma digits_of_nonempty: "digits_of base n acc \<noteq> []"
proof (induction base n acc rule: digits_of.induct)
  case (1 base n acc)
  then show ?case by (simp add: digits_of.simps [of base n acc] Let_def)
qed

lemma nat_to_string_hex: "list_all lower_hex (nat_to_string n)" "list_all lower_hex (nat_to_hex n)"
  by (simp_all add: nat_to_string_def nat_to_hex_def digits_of_hex)

lemma nat_to_string_nonempty [simp]: "nat_to_string n \<noteq> []" "nat_to_hex n \<noteq> []"
  by (simp_all add: nat_to_string_def nat_to_hex_def digits_of_nonempty)

end
