(* ===== verification/Ip_Addr.thy ===== *)
theory Ip_Addr
  imports Rust_Str "HOL-Library.Word"
begin

text \<open>
  The address types of \<open>std::net\<close>: an IPv4 address is its four octets, an IPv6 address its
  eight 16-bit segments. The classification functions are those of the standard library
  that the code calls.
\<close>

unbundle bit_operations_syntax

datatype ipv4 = IPv4 "8 word" "8 word" "8 word" "8 word"

datatype ipv6 = IPv6 "16 word" "16 word" "16 word" "16 word" "16 word" "16 word" "16 word" "16 word"

datatype ip_addr = V4 ipv4 | V6 ipv6

fun octet0 :: "ipv4 \<Rightarrow> 8 word" where "octet0 (IPv4 a b c d) = a"
fun octet1 :: "ipv4 \<Rightarrow> 8 word" where "octet1 (IPv4 a b c d) = b"
fun segment0 :: "ipv6 \<Rightarrow> 16 word" where "segment0 (IPv6 a b c d e f g h) = a"

fun v4_is_loopback :: "ipv4 \<Rightarrow> bool" where
  "v4_is_loopback (IPv4 a b c d) \<longleftrightarrow> a = 127"

fun v4_is_private :: "ipv4 \<Rightarrow> bool" where
  "v4_is_private (IPv4 a b c d) \<longleftrightarrow>
     a = 10 \<or> (a = 172 \<and> 16 \<le> b \<and> b \<le> 31) \<or> (a = 192 \<and> b = 168)"

fun v4_is_link_local :: "ipv4 \<Rightarrow> bool" where
  "v4_is_link_local (IPv4 a b c d) \<longleftrightarrow> a = 169 \<and> b = 254"

fun v4_is_multicast :: "ipv4 \<Rightarrow> bool" where
  "v4_is_multicast (IPv4 a b c d) \<longleftrightarrow> 224 \<le> a \<and> a \<le> 239"

fun v4_is_broadcast :: "ipv4 \<Rightarrow> bool" where
  "v4_is_broadcast (IPv4 a b c d) \<longleftrightarrow> a = 255 \<and> b = 255 \<and> c = 255 \<and> d = 255"

fun v4_is_unspecified :: "ipv4 \<Rightarrow> bool" where
  "v4_is_unspecified (IPv4 a b c d) \<longleftrightarrow> a = 0 \<and> b = 0 \<and> c = 0 \<and> d = 0"

definition v6_is_loopback :: "ipv6 \<Rightarrow> bool" where
  "v6_is_loopback v6 \<longleftrightarrow> v6 = IPv6 0 0 0 0 0 0 0 1"

definition v6_is_unspecified :: "ipv6 \<Rightarrow> bool" where
  "v6_is_unspecified v6 \<longleftrightarrow> v6 = IPv6 0 0 0 0 0 0 0 0"

text \<open>\<open>::ffff:a.b.c.d\<close>: the last two segments hold the four octets, high byte first.\<close>

fun to_ipv4_mapped :: "ipv6 \<Rightarrow> ipv4 option" where
  "to_ipv4_mapped (IPv6 a b c d e f g h) =
     (if a = 0 \<and> b = 0 \<and> c = 0 \<and> d = 0 \<and> e = 0 \<and> f = 0xffff
      then Some (IPv4 (ucast (drop_bit 8 g)) (ucast g) (ucast (drop_bit 8 h)) (ucast h))
      else None)"

fun ip_is_loopback :: "ip_addr \<Rightarrow> bool" where
  "ip_is_loopback (V4 v4) = v4_is_loopback v4"
| "ip_is_loopback (V6 v6) = v6_is_loopback v6"

section \<open>Printing addresses\<close>

fun show_v4 :: "ipv4 \<Rightarrow> string" where
  "show_v4 (IPv4 a b c d) =
     nat_to_string (unat a) @ ''.'' @ nat_to_string (unat b) @ ''.'' @ nat_to_string (unat c) @ ''.'' @ nat_to_string (unat d)"

text \<open>The first longest run of zero segments, as start and length.\<close>

fun zero_runs :: "nat \<Rightarrow> 16 word list \<Rightarrow> nat \<times> nat \<Rightarrow> nat \<times> nat \<Rightarrow> nat \<times> nat" where
  "zero_runs i [] longest current = longest"
| "zero_runs i (s # ss) longest current =
     (if s = 0
      then (let current' = (if snd current = 0 then (i, 1) else (fst current, snd current + 1))
            in zero_runs (i + 1) ss (if snd longest < snd current' then current' else longest) current')
      else zero_runs (i + 1) ss longest (0, 0))"

fun show_segments :: "16 word list \<Rightarrow> string" where
  "show_segments [] = []"
| "show_segments [s] = nat_to_hex (unat s)"
| "show_segments (s # ss) = nat_to_hex (unat s) @ '':'' @ show_segments ss"

fun show_v6 :: "ipv6 \<Rightarrow> string" where
  "show_v6 (IPv6 a b c d e f g h) =
     (case to_ipv4_mapped (IPv6 a b c d e f g h) of
        Some v4 \<Rightarrow> ''::ffff:'' @ show_v4 v4
      | None \<Rightarrow>
          (let segs = [a, b, c, d, e, f, g, h]; (start, len) = zero_runs 0 segs (0, 0) (0, 0)
           in if 1 < len
              then show_segments (take start segs) @ ''::'' @ show_segments (drop (start + len) segs)
              else show_segments segs))"

fun show_ip :: "ip_addr \<Rightarrow> string" where
  "show_ip (V4 v4) = show_v4 v4"
| "show_ip (V6 v6) = show_v6 v6"

text \<open>Digits, letters, points and colons: nothing that trimming, lower-casing or a slash could touch.\<close>

definition addr_char :: "char \<Rightarrow> bool" where
  "addr_char c \<longleftrightarrow> lower_hex c \<or> c = CHR ''.'' \<or> c = CHR '':''"

lemma hex_addr: "list_all lower_hex s \<Longrightarrow> list_all addr_char s"
  by (auto simp: list_all_iff addr_char_def)

lemma numbers_addr [simp]: "list_all addr_char (nat_to_string n)" "list_all addr_char (nat_to_hex n)"
  by (simp_all add: hex_addr nat_to_string_hex)

lemma literals_addr [simp]: "addr_char CHR ''.''" "addr_char CHR '':''" "addr_char CHR ''f''"
  by (simp_all add: addr_char_def lower_hex_def byte_def)

lemma show_segments_addr [simp]: "list_all addr_char (show_segments ss)"
  by (induction ss rule: show_segments.induct) simp_all

lemma show_v4_addr [simp]: "list_all addr_char (show_v4 v4)"
  by (cases v4) simp

lemma show_ip_addr: "list_all addr_char (show_ip ip)"
proof (cases ip)
  case (V6 v6)
  then show ?thesis
    by (cases v6) (auto simp: Let_def split: option.splits prod.splits)
qed simp

section \<open>Reading addresses\<close>

text \<open>
  The parser of \<open>core::net\<close>: each function returns what it read and the rest. A number is the
  longest run of digits; too many of them, a leading zero where none is allowed, or a value
  out of range is a failure.
\<close>

definition digit_value :: "nat \<Rightarrow> char \<Rightarrow> nat option" where
  "digit_value radix c =
     (let n = byte c;
          v = (if 48 \<le> n \<and> n \<le> 57 then n - 48
               else if 97 \<le> n \<and> n \<le> 122 then n - 87
               else if 65 \<le> n \<and> n \<le> 90 then n - 55 else 36)
      in if v < radix then Some v else None)"

fun read_digits :: "nat \<Rightarrow> string \<Rightarrow> nat list \<times> string" where
  "read_digits radix [] = ([], [])"
| "read_digits radix (c # s) =
     (case digit_value radix c of
        None \<Rightarrow> ([], c # s)
      | Some v \<Rightarrow> (let (ds, rest) = read_digits radix s in (v # ds, rest)))"

definition read_number :: "nat \<Rightarrow> nat \<Rightarrow> bool \<Rightarrow> nat \<Rightarrow> string \<Rightarrow> (nat \<times> string) option" where
  "read_number radix max_digits allow_zero_prefix limit s =
     (let (ds, rest) = read_digits radix s; v = foldl (\<lambda>a d. a * radix + d) 0 ds
      in if ds = [] \<or> max_digits < length ds \<or> limit < v
            \<or> (\<not> allow_zero_prefix \<and> hd ds = 0 \<and> 1 < length ds)
         then None else Some (v, rest))"

definition read_separator :: "char \<Rightarrow> nat \<Rightarrow> (string \<Rightarrow> ('a \<times> string) option) \<Rightarrow> string \<Rightarrow> ('a \<times> string) option" where
  "read_separator sep index inner s =
     (if index = 0 then inner s
      else (case s of [] \<Rightarrow> None | c # rest \<Rightarrow> if c = sep then inner rest else None))"

definition read_octet :: "nat \<Rightarrow> string \<Rightarrow> (8 word \<times> string) option" where
  "read_octet index s =
     map_option (\<lambda>(v, rest). (of_nat v, rest))
       (read_separator CHR ''.'' index (read_number 10 3 False 255) s)"

definition read_ipv4_addr :: "string \<Rightarrow> (ipv4 \<times> string) option" where
  "read_ipv4_addr s =
     (case read_octet 0 s of None \<Rightarrow> None | Some (a, s1) \<Rightarrow>
      (case read_octet 1 s1 of None \<Rightarrow> None | Some (b, s2) \<Rightarrow>
       (case read_octet 2 s2 of None \<Rightarrow> None | Some (c, s3) \<Rightarrow>
        (case read_octet 3 s3 of None \<Rightarrow> None | Some (d, s4) \<Rightarrow> Some (IPv4 a b c d, s4)))))"

text \<open>Reads groups until \<open>limit\<close> of them are there or one fails; an embedded IPv4 address counts for two.\<close>

fun read_groups :: "nat \<Rightarrow> nat \<Rightarrow> nat \<Rightarrow> string \<Rightarrow> 16 word list \<times> bool \<times> string" where
  "read_groups 0 i limit s = ([], False, s)"
| "read_groups (Suc n) i limit s =
     (case (if i + 1 < limit then read_separator CHR '':'' i read_ipv4_addr s else None) of
        Some (IPv4 a b c d, rest) \<Rightarrow>
          ([push_bit 8 (ucast a) OR ucast b, push_bit 8 (ucast c) OR ucast d], True, rest)
      | None \<Rightarrow>
          (case read_separator CHR '':'' i (read_number 16 4 True 65535) s of
             None \<Rightarrow> ([], False, s)
           | Some (v, rest) \<Rightarrow>
               (let (gs, v4, rest') = read_groups n (i + 1) limit rest in (of_nat v # gs, v4, rest'))))"

fun ipv6_of_segments :: "16 word list \<Rightarrow> ipv6 option" where
  "ipv6_of_segments [a, b, c, d, e, f, g, h] = Some (IPv6 a b c d e f g h)"
| "ipv6_of_segments _ = None"

definition read_ipv6_addr :: "string \<Rightarrow> (ipv6 \<times> string) option" where
  "read_ipv6_addr s =
     (let (head, head_v4, rest) = read_groups 8 0 8 s
      in if length head = 8 then map_option (\<lambda>a. (a, rest)) (ipv6_of_segments head)
         else if head_v4 then None
         else (case strip_prefix ''::'' rest of
                 None \<Rightarrow> None
               | Some rest1 \<Rightarrow>
                   (let limit = 7 - length head; (tail, tail_v4, rest2) = read_groups limit 0 limit rest1
                    in map_option (\<lambda>a. (a, rest2))
                         (ipv6_of_segments (head @ replicate (8 - length head - length tail) 0 @ tail)))))"

definition parse_ip :: "string \<Rightarrow> ip_addr option" where
  "parse_ip s =
     (case read_ipv4_addr s of
        Some (v4, rest) \<Rightarrow> if rest = [] then Some (V4 v4) else None
      | None \<Rightarrow>
          (case read_ipv6_addr s of
             Some (v6, rest) \<Rightarrow> if rest = [] then Some (V6 v6) else None
           | None \<Rightarrow> None))"

end
