(* ===== verification/Ws_Concurrency.thy ===== *)
theory Ws_Concurrency
  imports Prelude Ip_Addr
begin

text \<open>
  The WebSocket concurrency counter (\<open>crates/nagent-server/src/stt/ws_concurrency.rs\<close>): a
  global count and a count per source address, both taken at the upgrade and given back when
  the connection ends.

  First the operations as a caller sees them, each run to its end. Then the same code with its
  atomic accesses interleaved: a step relation over any number of threads, in which a load, a
  compare-and-exchange, a read-modify-write and a visit of a map entry under its shard lock
  are single steps and everything else can come in between. The caps and the absence of leaks
  are proved of the interleavings by rule induction.
\<close>

section \<open>The operations\<close>

datatype admit_decision = Admitted | GlobalFull | PerIpFull

record ws_concurrency =
  global_cap :: nat
  per_ip_cap :: nat
  global_count :: nat
  per_ip :: "(ip_addr, nat) dash"

definition wsc_new :: "nat \<Rightarrow> nat \<Rightarrow> ws_concurrency" where
  "wsc_new g p = \<lparr>global_cap = max g 1, per_ip_cap = max p 1, global_count = 0, per_ip = []\<rparr>"

definition per_ip_in_use :: "ip_addr \<Rightarrow> ws_concurrency \<Rightarrow> nat" where
  "per_ip_in_use ip w = (case dash_get (per_ip w) ip of None \<Rightarrow> 0 | Some n \<Rightarrow> n)"

definition try_admit :: "ip_addr option \<Rightarrow> ws_concurrency \<Rightarrow> ws_concurrency \<times> admit_decision" where
  "try_admit ip w =
     (if global_cap w \<le> global_count w then (w, GlobalFull)
      else (let w1 = w\<lparr>global_count := global_count w + 1\<rparr>
            in case ip of
                 None \<Rightarrow> (w1, Admitted)
               | Some addr \<Rightarrow>
                   (let current = per_ip_in_use addr w1
                    in if per_ip_cap w1 \<le> current
                       then (w1\<lparr>per_ip := dash_put addr current (per_ip w1),
                                global_count := global_count w1 - 1\<rparr>, PerIpFull)
                       else (w1\<lparr>per_ip := dash_put addr (current + 1) (per_ip w1)\<rparr>, Admitted))))"

definition release_global :: "ws_concurrency \<Rightarrow> ws_concurrency" where
  "release_global w = w\<lparr>global_count := global_count w - 1\<rparr>"

definition evict_zero_entries :: "ws_concurrency \<Rightarrow> ws_concurrency" where
  "evict_zero_entries w = w\<lparr>per_ip := dash_retain (\<lambda>_ v. 0 < v) (per_ip w)\<rparr>"

definition release_with_ip :: "ip_addr \<Rightarrow> ws_concurrency \<Rightarrow> ws_concurrency" where
  "release_with_ip ip w =
     (let w1 = release_global w
      in evict_zero_entries (w1\<lparr>per_ip := dash_modify (\<lambda>v. v - 1) ip (per_ip w1)\<rparr>))"

section \<open>The code of a thread, access by access\<close>

datatype pc =
    Idle
  | Start "ip_addr option"
  | Loaded "ip_addr option" nat
  | Reserved ip_addr
  | RollBack ip_addr
  | Holding "ip_addr option"
  | ReleasingIp ip_addr
  | Evicting
  | Turned admit_decision

record ws_system =
  counters :: ws_concurrency
  threads :: "pc list"

abbreviation at :: "ws_system \<Rightarrow> nat \<Rightarrow> pc \<Rightarrow> bool" where
  "at s i p \<equiv> i < length (threads s) \<and> threads s ! i = p"

definition goto :: "nat \<Rightarrow> pc \<Rightarrow> ws_system \<Rightarrow> ws_system" where
  "goto i p s = s\<lparr>threads := (threads s)[i := p]\<rparr>"

definition set_global :: "nat \<Rightarrow> ws_system \<Rightarrow> ws_system" where
  "set_global n s = s\<lparr>counters := (counters s)\<lparr>global_count := n\<rparr>\<rparr>"

definition set_per_ip :: "(ip_addr, nat) dash \<Rightarrow> ws_system \<Rightarrow> ws_system" where
  "set_per_ip m s = s\<lparr>counters := (counters s)\<lparr>per_ip := m\<rparr>\<rparr>"

abbreviation "gcount s \<equiv> global_count (counters s)"
abbreviation "gcap s \<equiv> global_cap (counters s)"
abbreviation "ipcap s \<equiv> per_ip_cap (counters s)"
abbreviation "ipcount s a \<equiv> per_ip_in_use a (counters s)"
abbreviation "ipmap s \<equiv> per_ip (counters s)"

text \<open>
  \<open>fetch_sub\<close> wraps around; the two releases saturate. The eviction visits the shards one by
  one, so a step drops the zero entries of one shard, given as a set of keys.
\<close>

inductive ws_step :: "ws_system \<Rightarrow> ws_system \<Rightarrow> bool" where
  arrive: "at s i Idle \<Longrightarrow> ws_step s (goto i (Start ip) s)"
| load_full: "at s i (Start ip) \<Longrightarrow> gcap s \<le> gcount s \<Longrightarrow> ws_step s (goto i (Turned GlobalFull) s)"
| load: "at s i (Start ip) \<Longrightarrow> gcount s < gcap s \<Longrightarrow> ws_step s (goto i (Loaded ip (gcount s)) s)"
| cas_fail: "at s i (Loaded ip c) \<Longrightarrow> gcount s \<noteq> c \<Longrightarrow> ws_step s (goto i (Start ip) s)"
| cas_none: "at s i (Loaded None c) \<Longrightarrow> gcount s = c \<Longrightarrow>
    ws_step s (goto i (Holding None) (set_global (c + 1) s))"
| cas_some: "at s i (Loaded (Some a) c) \<Longrightarrow> gcount s = c \<Longrightarrow>
    ws_step s (goto i (Reserved a) (set_global (c + 1) s))"
| ip_full: "at s i (Reserved a) \<Longrightarrow> ipcap s \<le> ipcount s a \<Longrightarrow>
    ws_step s (goto i (RollBack a) (set_per_ip (dash_put a (ipcount s a) (ipmap s)) s))"
| ip_ok: "at s i (Reserved a) \<Longrightarrow> ipcount s a < ipcap s \<Longrightarrow>
    ws_step s (goto i (Holding (Some a)) (set_per_ip (dash_put a (ipcount s a + 1) (ipmap s)) s))"
| roll_back: "at s i (RollBack a) \<Longrightarrow>
    ws_step s (goto i (Turned PerIpFull) (set_global ((gcount s + (2 ^ 64 - 1)) mod 2 ^ 64) s))"
| release_none: "at s i (Holding None) \<Longrightarrow> ws_step s (goto i Idle (set_global (gcount s - 1) s))"
| release_some: "at s i (Holding (Some a)) \<Longrightarrow>
    ws_step s (goto i (ReleasingIp a) (set_global (gcount s - 1) s))"
| release_ip: "at s i (ReleasingIp a) \<Longrightarrow>
    ws_step s (goto i Evicting (set_per_ip (dash_modify (\<lambda>v. v - 1) a (ipmap s)) s))"
| evict_shard: "at s i Evicting \<Longrightarrow>
    ws_step s (set_per_ip (dash_retain (\<lambda>k v. k \<in> shard \<longrightarrow> 0 < v) (ipmap s)) s)"
| evict_done: "at s i Evicting \<Longrightarrow> ws_step s (goto i Idle s)"
| turned: "at s i (Turned d) \<Longrightarrow> ws_step s (goto i Idle s)"

inductive ws_reachable :: "ws_system \<Rightarrow> ws_system \<Rightarrow> bool" for s0 where
  init: "ws_reachable s0 s0"
| step: "ws_reachable s0 s \<Longrightarrow> ws_step s s' \<Longrightarrow> ws_reachable s0 s'"

definition ws_init :: "nat \<Rightarrow> nat \<Rightarrow> nat \<Rightarrow> ws_system" where
  "ws_init g p n = \<lparr>counters = wsc_new g p, threads = replicate n Idle\<rparr>"

section \<open>Slots\<close>

text \<open>The global slots and the slots of an address that a thread owns at a point of its code.\<close>

fun gslot :: "pc \<Rightarrow> nat" where
  "gslot (Reserved a) = 1" | "gslot (RollBack a) = 1" | "gslot (Holding ip) = 1" | "gslot _ = 0"

fun islot :: "ip_addr \<Rightarrow> pc \<Rightarrow> nat" where
  "islot a (Holding (Some b)) = (if a = b then 1 else 0)"
| "islot a (ReleasingIp b) = (if a = b then 1 else 0)"
| "islot a _ = 0"

definition slot_total :: "(pc \<Rightarrow> nat) \<Rightarrow> ws_system \<Rightarrow> nat" where
  "slot_total f s = sum_list (map f (threads s))"

lemma slot_total_goto:
  assumes "i < length (threads s)"
  shows "slot_total f (goto i p s) = slot_total f s + f p - f (threads s ! i)"
  using assms by (simp add: slot_total_def goto_def map_update sum_list_update)

lemma slot_total_ge: "i < length (threads s) \<Longrightarrow> f (threads s ! i) \<le> slot_total f s"
  unfolding slot_total_def by (rule elem_le_sum_list [of i "map f (threads s)", simplified])

lemma slot_total_set [simp]:
  "slot_total f (set_global n s) = slot_total f s" "slot_total f (set_per_ip m s) = slot_total f s"
  by (simp_all add: slot_total_def set_global_def set_per_ip_def)

lemma system_simps [simp]:
  "counters (goto i p s) = counters s" "threads (set_global n s) = threads s" "threads (set_per_ip m s) = threads s"
  "counters (set_global n s) = (counters s)\<lparr>global_count := n\<rparr>"
  "counters (set_per_ip m s) = (counters s)\<lparr>per_ip := m\<rparr>"
  "length (threads (goto i p s)) = length (threads s)"
  by (simp_all add: goto_def set_global_def set_per_ip_def)

definition loaded_below :: "ws_system \<Rightarrow> bool" where
  "loaded_below s \<longleftrightarrow> (\<forall>ip c. Loaded ip c \<in> set (threads s) \<longrightarrow> c < gcap s)"

text \<open>
  The invariant: the counts are the slots owned, the counts respect the caps, and a value
  loaded on the way to a compare-and-exchange was below the cap.
\<close>

definition ws_inv :: "ws_system \<Rightarrow> bool" where
  "ws_inv s \<longleftrightarrow> gcount s = slot_total gslot s \<and> (\<forall>a. ipcount s a = slot_total (islot a) s)
     \<and> gcount s \<le> gcap s \<and> (\<forall>a. ipcount s a \<le> ipcap s) \<and> loaded_below s \<and> dash_ok (ipmap s)
     \<and> gcap s < 2 ^ 64"

lemma per_ip_in_use_put [simp]:
  "per_ip_in_use b (w\<lparr>per_ip := dash_put a n m\<rparr>) = (if b = a then n else per_ip_in_use b (w\<lparr>per_ip := m\<rparr>))"
  by (simp add: per_ip_in_use_def dash_get_put)

lemma per_ip_in_use_modify:
  "per_ip_in_use b (w\<lparr>per_ip := dash_modify (\<lambda>v. v - Suc 0) a (per_ip w)\<rparr>)
     = (if b = a then per_ip_in_use a w - 1 else per_ip_in_use b w)"
  by (auto simp: per_ip_in_use_def dash_modify_get split: option.splits)

lemma per_ip_in_use_evict:
  assumes "dash_ok (per_ip w)"
  shows "per_ip_in_use b (w\<lparr>per_ip := dash_retain (\<lambda>k v. k \<in> shard \<longrightarrow> 0 < v) (per_ip w)\<rparr>) = per_ip_in_use b w"
  using assms by (auto simp: per_ip_in_use_def dash_get_retain split: option.splits)

lemma per_ip_in_use_global [simp]: "per_ip_in_use b (w\<lparr>global_count := n\<rparr>) = per_ip_in_use b w"
  by (simp add: per_ip_in_use_def)

lemma loaded_below_goto:
  assumes "loaded_below s" and "\<And>ip c. p = Loaded ip c \<Longrightarrow> c < gcap s"
  shows "loaded_below (goto i p s)"
  using assms set_update_subset_insert [of "threads s" i p]
  by (auto simp: loaded_below_def goto_def)

lemma loaded_below_set [simp]:
  "loaded_below (set_global n s) = loaded_below s" "loaded_below (set_per_ip m s) = loaded_below s"
  by (simp_all add: loaded_below_def)

lemma wrap_pred: "0 < n \<Longrightarrow> n < 2 ^ 64 \<Longrightarrow> (n + (2 ^ 64 - 1)) mod 2 ^ 64 = n - (1 :: nat)"
proof -
  assume "0 < n" and "n < 2 ^ 64"
  then have "n + (2 ^ 64 - 1) = (n - 1) + 2 ^ 64" by simp
  then have "(n + (2 ^ 64 - 1)) mod 2 ^ 64 = (n - 1) mod 2 ^ 64" by (metis mod_add_self2)
  also have "\<dots> = n - 1" using \<open>n < 2 ^ 64\<close> by simp
  finally show ?thesis .
qed

lemma ws_inv_goto:
  assumes "ws_inv s" and "i < length (threads s)"
    and "gslot p = gslot (threads s ! i)" and "\<And>a. islot a p = islot a (threads s ! i)"
    and "\<And>ip c. p = Loaded ip c \<Longrightarrow> c < gcap s"
  shows "ws_inv (goto i p s)"
proof -
  have "slot_total gslot (goto i p s) = slot_total gslot s"
    using assms(2,3) slot_total_goto [OF assms(2), of gslot p] by simp
  moreover have "slot_total (islot a) (goto i p s) = slot_total (islot a) s" for a
    using assms(2,4) slot_total_goto [OF assms(2), of "islot a" p] by simp
  moreover have "loaded_below (goto i p s)"
    using assms(1,5) by (intro loaded_below_goto) (auto simp: ws_inv_def)
  ultimately show ?thesis using assms(1) by (simp add: ws_inv_def) metis
qed

lemma ws_inv_set_global:
  assumes "ws_inv s" and "i < length (threads s)" and "\<And>a. islot a p = islot a (threads s ! i)"
    and "n + gslot (threads s ! i) = gcount s + gslot p" and "n \<le> gcap s" and "\<And>ip c. p \<noteq> Loaded ip c"
  shows "ws_inv (goto i p (set_global n s))"
proof -
  let ?s = "goto i p (set_global n s)"
  have "slot_total gslot ?s = n"
    using assms(1,2,4) slot_total_goto [of i "set_global n s" gslot p] by (simp add: ws_inv_def)
  moreover have "slot_total (islot a) ?s = slot_total (islot a) s" for a
    using assms(2,3) slot_total_goto [of i "set_global n s" "islot a" p] by simp
  moreover have "loaded_below ?s"
    using assms(1,6) by (intro loaded_below_goto) (auto simp: ws_inv_def)
  ultimately show ?thesis using assms(1,5) by (auto simp: ws_inv_def)
qed

lemma loaded_below_at: "ws_inv s \<Longrightarrow> at s i (Loaded ip c) \<Longrightarrow> c < gcap s"
  by (metis ws_inv_def loaded_below_def nth_mem)

lemma ws_step_inv: "ws_step s s' \<Longrightarrow> ws_inv s \<Longrightarrow> ws_inv s'"
proof (induction rule: ws_step.induct)
  case (arrive s i ip)
  then show ?case by (intro ws_inv_goto) auto
next
  case (load_full s i ip)
  then show ?case by (intro ws_inv_goto) auto
next
  case (load s i ip)
  then show ?case by (intro ws_inv_goto) auto
next
  case (cas_fail s i ip c)
  then show ?case by (intro ws_inv_goto) auto
next
  case (cas_none s i c)
  then have "c < gcap s" by (auto dest: loaded_below_at)
  then show ?case using cas_none by (intro ws_inv_set_global) auto
next
  case (cas_some s i a c)
  then have "c < gcap s" by (auto dest: loaded_below_at)
  then show ?case using cas_some by (intro ws_inv_set_global) auto
next
  case (ip_full s i a)
  have "ws_inv (set_per_ip (dash_put a (ipcount s a) (ipmap s)) s)"
    using ip_full by (auto simp: ws_inv_def intro: antisym)
  then show ?case using ip_full by (intro ws_inv_goto) auto
next
  case (ip_ok s i a)
  let ?s = "goto i (Holding (Some a)) (set_per_ip (dash_put a (ipcount s a + 1) (ipmap s)) s)"
  have "slot_total gslot ?s = slot_total gslot s" using ip_ok by (simp add: slot_total_goto)
  moreover have "slot_total (islot b) ?s = (if b = a then slot_total (islot a) s + 1 else slot_total (islot b) s)" for b
    using ip_ok by (simp add: slot_total_goto)
  moreover have "loaded_below ?s" using ip_ok by (intro loaded_below_goto) (auto simp: ws_inv_def)
  ultimately show ?case using ip_ok by (auto simp: ws_inv_def)
next
  case (roll_back s i a)
  have "0 < gcount s" using roll_back slot_total_ge [of i s gslot] by (auto simp: ws_inv_def)
  then have dec: "(gcount s + (2 ^ 64 - 1)) mod 2 ^ 64 = gcount s - 1"
    using roll_back by (intro wrap_pred) (auto simp: ws_inv_def)
  show ?case unfolding dec using roll_back \<open>0 < gcount s\<close> by (intro ws_inv_set_global) (auto simp: ws_inv_def)
next
  case (release_none s i)
  then have "0 < gcount s" using slot_total_ge [of i s gslot] by (auto simp: ws_inv_def)
  then show ?case using release_none by (intro ws_inv_set_global) (auto simp: ws_inv_def)
next
  case (release_some s i a)
  then have "0 < gcount s" using slot_total_ge [of i s gslot] by (auto simp: ws_inv_def)
  then show ?case using release_some by (intro ws_inv_set_global) (auto simp: ws_inv_def)
next
  case (release_ip s i a)
  let ?s = "goto i Evicting (set_per_ip (dash_modify (\<lambda>v. v - 1) a (ipmap s)) s)"
  have "slot_total gslot ?s = slot_total gslot s" using release_ip by (simp add: slot_total_goto)
  moreover have "slot_total (islot b) ?s = (if b = a then slot_total (islot a) s - 1 else slot_total (islot b) s)" for b
    using release_ip by (simp add: slot_total_goto)
  moreover have "loaded_below ?s" using release_ip by (intro loaded_below_goto) (auto simp: ws_inv_def)
  ultimately show ?case using release_ip
    by (auto simp: ws_inv_def per_ip_in_use_modify intro: le_trans [OF diff_le_self])
next
  case (evict_shard s i shard)
  then show ?case by (auto simp: ws_inv_def per_ip_in_use_evict)
next
  case (evict_done s i)
  then show ?case by (intro ws_inv_goto) auto
next
  case (turned s i d)
  then show ?case by (intro ws_inv_goto) auto
qed

lemma ws_init_inv: "max g 1 < 2 ^ 64 \<Longrightarrow> ws_inv (ws_init g p n)"
  by (simp add: ws_inv_def ws_init_def wsc_new_def slot_total_def per_ip_in_use_def loaded_below_def sum_list_replicate)

lemma ws_reachable_inv: "ws_reachable s0 s \<Longrightarrow> ws_inv s0 \<Longrightarrow> ws_inv s"
  by (induction rule: ws_reachable.induct) (auto intro: ws_step_inv)

lemma ws_reachable_caps: "ws_reachable s0 s \<Longrightarrow> gcap s = gcap s0 \<and> ipcap s = ipcap s0"
proof (induction rule: ws_reachable.induct)
  case (step s s')
  from step.hyps(2) step.IH show ?case by (cases rule: ws_step.cases) auto
qed simp

section \<open>Properties\<close>

text \<open>
  C12: However the threads interleave, the global count never exceeds its cap and no address
  exceeds its own, the number of connections held open is bounded by both, and the counts are
  exactly the slots the threads own: when every thread is idle or turned away, every count is
  zero.
\<close>

theorem ws_caps_hold:
  assumes "ws_reachable (ws_init g p n) s" and "max g 1 < 2 ^ 64"
  shows "gcount s \<le> max g 1 \<and> ipcount s a \<le> max p 1
    \<and> length (filter (\<lambda>t. \<exists>ip. t = Holding ip) (threads s)) \<le> gcount s
    \<and> length (filter (\<lambda>t. t = Holding (Some a)) (threads s)) \<le> ipcount s a
    \<and> ((\<forall>t \<in> set (threads s). t = Idle \<or> (\<exists>d. t = Turned d)) \<longrightarrow> gcount s = 0 \<and> ipcount s a = 0)"
proof -
  have inv: "ws_inv s" using assms(1) ws_init_inv [OF assms(2)] by (rule ws_reachable_inv)
  have caps: "gcap s = max g 1" "ipcap s = max p 1"
    using ws_reachable_caps [OF assms(1)] by (simp_all add: ws_init_def wsc_new_def)
  have count: "length (filter P ts) \<le> sum_list (map f ts)" if "\<And>t. P t \<Longrightarrow> 0 < f t" for P :: "pc \<Rightarrow> bool" and f ts
    using that by (induction ts) (auto simp: Suc_le_eq add_strict_increasing)
  have g: "length (filter (\<lambda>t. \<exists>ip. t = Holding ip) (threads s)) \<le> slot_total gslot s"
    unfolding slot_total_def by (rule count) auto
  have i: "length (filter (\<lambda>t. t = Holding (Some a)) (threads s)) \<le> slot_total (islot a) s"
    unfolding slot_total_def by (rule count) auto
  have "slot_total gslot s = 0 \<and> slot_total (islot a) s = 0" if "\<forall>t \<in> set (threads s). t = Idle \<or> (\<exists>d. t = Turned d)"
    using that by (auto simp: slot_total_def)
  then show ?thesis using inv caps g i by (auto simp: ws_inv_def)
qed

lemma ws_caps_hold_witness:
  "gcount (goto 0 (Holding None) (set_global 1 (goto 0 (Loaded None 0) (goto 0 (Start None) (ws_init 1 1 1))))) \<le> 1"
proof -
  let ?s1 = "goto 0 (Start None) (ws_init 1 1 1)" and ?s2 = "goto 0 (Loaded None 0) (goto 0 (Start None) (ws_init 1 1 1))"
  have 1: "ws_step (ws_init 1 1 1) ?s1" by (rule ws_step.arrive) (simp add: ws_init_def)
  have z: "gcount ?s1 = 0" "gcap ?s1 = 1" by (simp_all add: ws_init_def wsc_new_def)
  have 2: "ws_step ?s1 ?s2"
    using ws_step.load [of 0 ?s1 None] z by (simp add: ws_init_def goto_def)
  have 3: "ws_step ?s2 (goto 0 (Holding None) (set_global 1 ?s2))"
    using ws_step.cas_none [of 0 ?s2 0] z by (simp add: ws_init_def goto_def)
  have "ws_reachable (ws_init 1 1 1) (goto 0 (Holding None) (set_global 1 ?s2))"
    by (intro ws_reachable.step [OF ws_reachable.step [OF ws_reachable.step [OF ws_reachable.init 1] 2] 3])
  from ws_caps_hold [OF this, of "V4 (IPv4 1 1 1 1)"] show ?thesis by simp
qed

text \<open>
  A thread that is turned away because its own address is full holds a global slot for the
  time between its compare-and-exchange and its roll-back. With a global cap of two and one
  connection open, an address with no connection at all can then be turned away by the global
  cap: the refusal depends on the interleaving, not on the connections that are open.
\<close>

theorem ws_spurious_global_full:
  "\<exists>s s'. ws_reachable (ws_init 2 1 3) s
     \<and> threads s = [Holding (Some (V4 (IPv4 10 0 0 1))), RollBack (V4 (IPv4 10 0 0 1)), Start (Some (V4 (IPv4 10 0 0 2)))]
     \<and> ipcount s (V4 (IPv4 10 0 0 2)) = 0
     \<and> ws_step s s' \<and> threads s' ! 2 = Turned GlobalFull"
proof -
  define a where "a = V4 (IPv4 10 0 0 1)"
  define b where "b = V4 (IPv4 10 0 0 2)"
  define st where "st ts g m = \<lparr>counters = \<lparr>global_cap = 2, per_ip_cap = 1, global_count = g, per_ip = m\<rparr>, threads = ts\<rparr>" for ts g m
  have s0: "ws_init 2 1 3 = st [Idle, Idle, Idle] 0 []"
    by (simp add: st_def ws_init_def wsc_new_def numeral_eq_Suc)
  have go: "goto 0 p (st [x, y, z] g m) = st [p, y, z] g m" "goto (Suc 0) p (st [x, y, z] g m) = st [x, p, z] g m"
    "goto 2 p (st [x, y, z] g m) = st [x, y, p] g m" "set_global n (st ts g m) = st ts n m" "set_per_ip m' (st ts g m) = st ts g m'"
    for p x y z g m n ts m'
    by (simp_all add: goto_def st_def set_global_def set_per_ip_def numeral_eq_Suc)
  have at: "at (st [x, y, z] g m) 0 x" "at (st [x, y, z] g m) 1 y" "at (st [x, y, z] g m) 2 z" for x y z g m
    by (simp_all add: st_def numeral_eq_Suc)
  have get: "gcount (st ts g m) = g" "gcap (st ts g m) = 2" "ipcap (st ts g m) = 1" "ipmap (st ts g m) = m"
    "ipcount (st ts g m) c = (case dash_get m c of None \<Rightarrow> 0 | Some n \<Rightarrow> n)" for ts g m c
    by (simp_all add: st_def per_ip_in_use_def)
  have s1: "ws_step (st [Idle, Idle, Idle] 0 []) (st [Start (Some a), Idle, Idle] 0 [])"
    using ws_step.arrive [OF at(1) [of "Idle" "Idle" "Idle" "0" "[]"], where ip = "Some a"] by (simp add: go get)
  have s2: "ws_step (st [Start (Some a), Idle, Idle] 0 []) (st [Loaded (Some a) 0, Idle, Idle] 0 [])"
    using ws_step.load [OF at(1) [of "Start (Some a)" "Idle" "Idle" "0" "[]"]] by (simp add: go get)
  have s3: "ws_step (st [Loaded (Some a) 0, Idle, Idle] 0 []) (st [Reserved a, Idle, Idle] 1 [])"
    using ws_step.cas_some [OF at(1) [of "Loaded (Some a) 0" "Idle" "Idle" "0" "[]"]] by (simp add: go get)
  have s4: "ws_step (st [Reserved a, Idle, Idle] 1 []) (st [Holding (Some a), Idle, Idle] 1 [(a, 1)])"
    using ws_step.ip_ok [OF at(1) [of "Reserved a" "Idle" "Idle" "1" "[]"]] by (simp add: go get)
  have s5: "ws_step (st [Holding (Some a), Idle, Idle] 1 [(a, 1)]) (st [Holding (Some a), Start (Some a), Idle] 1 [(a, 1)])"
    using ws_step.arrive [OF at(2) [of "Holding (Some a)" "Idle" "Idle" "1" "[(a, 1)]"], where ip = "Some a"] by (simp add: go get)
  have s6: "ws_step (st [Holding (Some a), Start (Some a), Idle] 1 [(a, 1)]) (st [Holding (Some a), Loaded (Some a) 1, Idle] 1 [(a, 1)])"
    using ws_step.load [OF at(2) [of "Holding (Some a)" "Start (Some a)" "Idle" "1" "[(a, 1)]"]] by (simp add: go get)
  have s7: "ws_step (st [Holding (Some a), Loaded (Some a) 1, Idle] 1 [(a, 1)]) (st [Holding (Some a), Reserved a, Idle] 2 [(a, 1)])"
    using ws_step.cas_some [OF at(2) [of "Holding (Some a)" "Loaded (Some a) 1" "Idle" "1" "[(a, 1)]"]] by (simp add: go get numeral_2_eq_2)
  have s8: "ws_step (st [Holding (Some a), Reserved a, Idle] 2 [(a, 1)]) (st [Holding (Some a), RollBack a, Idle] 2 [(a, 1)])"
    using ws_step.ip_full [OF at(2) [of "Holding (Some a)" "Reserved a" "Idle" "2" "[(a, 1)]"]] by (simp add: go get)
  have s9: "ws_step (st [Holding (Some a), RollBack a, Idle] 2 [(a, 1)]) (st [Holding (Some a), RollBack a, Start (Some b)] 2 [(a, 1)])"
    using ws_step.arrive [OF at(3) [of "Holding (Some a)" "RollBack a" "Idle" "2" "[(a, 1)]"], where ip = "Some b"] by (simp add: go get)
  have s10: "ws_step (st [Holding (Some a), RollBack a, Start (Some b)] 2 [(a, 1)]) (st [Holding (Some a), RollBack a, Turned GlobalFull] 2 [(a, 1)])"
    using ws_step.load_full [OF at(3) [of "Holding (Some a)" "RollBack a" "Start (Some b)" "2" "[(a, 1)]"]] by (simp add: go get)
  have "ws_reachable (ws_init 2 1 3) (st [Holding (Some a), RollBack a, Start (Some b)] 2 [(a, 1)])"
    unfolding s0
    by (rule ws_reachable.step, rule ws_reachable.step, rule ws_reachable.step, rule ws_reachable.step, rule ws_reachable.step,
        rule ws_reachable.step, rule ws_reachable.step, rule ws_reachable.step, rule ws_reachable.step,
        rule ws_reachable.init, (rule s1 s2 s3 s4 s5 s6 s7 s8 s9)+)
  moreover have "threads (st [Holding (Some a), RollBack a, Start (Some b)] 2 [(a, 1)]) = [Holding (Some a), RollBack a, Start (Some b)]" "threads (st [Holding (Some a), RollBack a, Turned GlobalFull] 2 [(a, 1)]) ! 2 = Turned GlobalFull"
    by (simp_all add: st_def)
  moreover have "ipcount (st [Holding (Some a), RollBack a, Start (Some b)] 2 [(a, 1)]) b = 0" by (simp add: get a_def b_def)
  ultimately show ?thesis using s10 unfolding a_def b_def by blast
qed

end
