(* ===== verification/Float_Round.thy ===== *)
theory Float_Round
  imports Complex_Main Prelude
begin

text \<open>
  The arithmetic of \<open>f64\<close> as the token buckets use it. Every IEEE operation computes the
  exact result and rounds it to a representable number, so the models take the rounding as
  a parameter and apply it after each operation, over exact rationals. The interface
  \<open>f64_rounding\<close> states what the proofs need of it; \<open>f64_round\<close> is the rounding the
  hardware performs, to nearest with ties to even and a 53-bit significand.

  The exponent range is unbounded here: no value the code computes with (token counts up
  to \<open>2 ^ 32\<close>, elapsed milliseconds, refill rates) comes near overflow or the subnormal
  numbers.
\<close>

section \<open>The interface\<close>

locale f64_rounding =
  fixes rnd :: "rat \<Rightarrow> rat"
  assumes rnd_mono: "x \<le> y \<Longrightarrow> rnd x \<le> rnd y"
    and rnd_int: "\<bar>i\<bar> \<le> 2 ^ 53 \<Longrightarrow> rnd (of_int i) = of_int i"
    and rnd_idem: "rnd (rnd x) = rnd x"
begin

lemma rnd_zero [simp]: "rnd 0 = 0"
  using rnd_int [of 0] by simp

lemma rnd_one [simp]: "rnd 1 = 1"
  using rnd_int [of 1] by simp

lemma rnd_le_int: "x \<le> of_int i \<Longrightarrow> \<bar>i\<bar> \<le> 2 ^ 53 \<Longrightarrow> rnd x \<le> of_int i"
  using rnd_mono [of x "of_int i"] rnd_int [of i] by simp

lemma rnd_ge_int: "of_int i \<le> x \<Longrightarrow> \<bar>i\<bar> \<le> 2 ^ 53 \<Longrightarrow> of_int i \<le> rnd x"
  using rnd_mono [of "of_int i" x] rnd_int [of i] by simp

lemma rnd_nonneg: "0 \<le> x \<Longrightarrow> 0 \<le> rnd x"
  using rnd_ge_int [of 0 x] by simp

end

section \<open>Rounding to nearest, ties to even\<close>

definition rhe :: "rat \<Rightarrow> int" where
  "rhe x = (let f = floor x; d = x - of_int f
            in if d < 1/2 then f else if 1/2 < d then f + 1
               else if even f then f else f + 1)"

lemma rhe_cases: "rhe x = floor x \<or> rhe x = floor x + 1"
  by (simp add: rhe_def Let_def)

lemma rhe_of_int [simp]: "rhe (of_int i) = i"
  by (simp add: rhe_def)

lemma rhe_mono:
  assumes "x \<le> y"
  shows "rhe x \<le> rhe y"
proof (cases "floor x = floor y")
  case True
  then show ?thesis using assms by (auto simp: rhe_def Let_def)
next
  case False
  with floor_mono [OF assms] have "floor x + 1 \<le> floor y" by simp
  then show ?thesis using rhe_cases [of x] rhe_cases [of y] by linarith
qed

fun ilog2 :: "nat \<Rightarrow> nat" where
  "ilog2 n = (if n \<le> 1 then 0 else Suc (ilog2 (n div 2)))"

declare ilog2.simps [simp del]

lemma ilog2_bounds: "0 < n \<Longrightarrow> 2 ^ ilog2 n \<le> n \<and> n < 2 ^ Suc (ilog2 n)"
proof (induction n rule: ilog2.induct)
  case (1 n)
  show ?case
  proof (cases "n \<le> 1")
    case True
    with "1.prems" have "n = 1" by simp
    then show ?thesis by (simp add: ilog2.simps)
  next
    case False
    with "1.IH" have "2 ^ ilog2 (n div 2) \<le> n div 2 \<and> n div 2 < 2 ^ Suc (ilog2 (n div 2))"
      by simp
    with False show ?thesis by (auto simp: ilog2.simps [of n])
  qed
qed

text \<open>The binary exponent of a positive rational: \<open>2 powi e \<le> x < 2 powi (e + 1)\<close>.\<close>

definition f64_exponent :: "rat \<Rightarrow> int" where
  "f64_exponent x =
     (let (p, q) = quotient_of x; e = int (ilog2 (nat p)) - int (ilog2 (nat q))
      in if 2 powi e \<le> x then e else e - 1)"

definition f64_pos :: "rat \<Rightarrow> rat" where
  "f64_pos x = (let u = 2 powi (f64_exponent x - 52) in of_int (rhe (x / u)) * u)"

definition f64_round :: "rat \<Rightarrow> rat" where
  "f64_round x = (if x = 0 then 0 else if 0 < x then f64_pos x else - f64_pos (- x))"

lemma powi_le: "(i::int) \<le> j \<Longrightarrow> (2::rat) powi i \<le> 2 powi j"
  by (simp add: power_int_increasing)

lemma powi_pos [simp]: "0 < (2::rat) powi i"
  by simp

lemma powi_plus: "(2::rat) powi (i + j) = 2 powi i * 2 powi j"
  by (simp add: power_int_add)

lemma powi_suc: "(2::rat) powi (i + 1) = 2 * 2 powi i"
  by (simp add: power_int_add)

lemma rat_ratio_bounds:
  fixes p q :: nat
  assumes "0 < p" "0 < q"
  shows "2 powi (int (ilog2 p) - int (ilog2 q) - 1) \<le> (of_nat p / of_nat q :: rat)"
    and "(of_nat p / of_nat q :: rat) < 2 powi (int (ilog2 p) - int (ilog2 q) + 1)"
proof -
  let ?a = "ilog2 p" and ?b = "ilog2 q"
  have p: "(2::rat) ^ ?a \<le> of_nat p" "of_nat p < (2::rat) ^ Suc ?a"
    using ilog2_bounds [OF assms(1)]
    by (metis of_nat_le_iff of_nat_numeral of_nat_power, metis of_nat_less_iff of_nat_numeral of_nat_power)
  have q: "(2::rat) ^ ?b \<le> of_nat q" "of_nat q < (2::rat) ^ Suc ?b"
    using ilog2_bounds [OF assms(2)]
    by (metis of_nat_le_iff of_nat_numeral of_nat_power, metis of_nat_less_iff of_nat_numeral of_nat_power)
  have "(2::rat) ^ ?a * of_nat q \<le> of_nat p * 2 ^ Suc ?b"
    using p(1) q(2) by (intro mult_mono) auto
  then show "2 powi (int ?a - int ?b - 1) \<le> (of_nat p / of_nat q :: rat)"
    using assms by (simp add: power_int_diff power_int_add field_simps)
  have "of_nat p * (2::rat) ^ ?b < 2 ^ Suc ?a * of_nat q"
    using p(2) q(1) assms by (intro mult_less_le_imp_less) auto
  then show "(of_nat p / of_nat q :: rat) < 2 powi (int ?a - int ?b + 1)"
    using assms by (simp add: power_int_diff power_int_add field_simps)
qed

lemma f64_exponent_bounds:
  assumes "0 < x"
  shows "2 powi f64_exponent x \<le> x" and "x < 2 powi (f64_exponent x + 1)"
proof -
  obtain p q where pq: "quotient_of x = (p, q)" by (cases "quotient_of x")
  have q: "0 < q" using pq by (rule quotient_of_denom_pos)
  have x: "x = of_int p / of_int q" using pq by (rule quotient_of_div)
  with assms q have p: "0 < p" by (simp add: zero_less_divide_iff)
  have eq: "x = of_nat (nat p) / of_nat (nat q)" using x p q by simp
  let ?e = "int (ilog2 (nat p)) - int (ilog2 (nat q))"
  have b: "2 powi (?e - 1) \<le> x" "x < 2 powi (?e + 1)"
    using rat_ratio_bounds [of "nat p" "nat q"] p q eq by simp_all
  have e: "f64_exponent x = (if 2 powi ?e \<le> x then ?e else ?e - 1)"
    by (simp add: f64_exponent_def pq)
  show "2 powi f64_exponent x \<le> x" and "x < 2 powi (f64_exponent x + 1)"
    using b e by (auto split: if_splits)
qed

lemma f64_pos_range:
  assumes "0 < x"
  shows "2 powi f64_exponent x \<le> f64_pos x" and "f64_pos x \<le> 2 powi (f64_exponent x + 1)"
proof -
  let ?e = "f64_exponent x"
  let ?u = "2 powi (?e - 52) :: rat"
  have lo: "2 powi ?e = of_int (2 ^ 52) * ?u" and hi: "2 powi (?e + 1) = of_int (2 ^ 53) * ?u"
    by (simp_all add: power_int_diff power_int_add)
  have "of_int (2 ^ 52) \<le> x / ?u" and "x / ?u \<le> of_int (2 ^ 53)"
    using f64_exponent_bounds [OF assms] lo hi by (simp_all add: field_simps)
  then have "2 ^ 52 \<le> rhe (x / ?u)" and "rhe (x / ?u) \<le> 2 ^ 53"
    using rhe_mono [of "of_int (2 ^ 52)" "x / ?u"] rhe_mono [of "x / ?u" "of_int (2 ^ 53)"]
    by (simp_all only: rhe_of_int)
  then have "of_int (2 ^ 52) \<le> (of_int (rhe (x / ?u)) :: rat)"
    and "(of_int (rhe (x / ?u)) :: rat) \<le> of_int (2 ^ 53)"
    by (simp_all only: of_int_le_iff)
  then have "of_int (2 ^ 52) * ?u \<le> of_int (rhe (x / ?u)) * ?u"
    and "of_int (rhe (x / ?u)) * ?u \<le> of_int (2 ^ 53) * ?u"
    by (simp_all only: mult_right_mono less_imp_le [OF powi_pos])
  then show "2 powi ?e \<le> f64_pos x" and "f64_pos x \<le> 2 powi (?e + 1)"
    by (simp_all only: f64_pos_def Let_def lo hi)
qed

lemma f64_pos_mono:
  assumes "0 < x" and "x \<le> y"
  shows "f64_pos x \<le> f64_pos y"
proof (cases "f64_exponent x = f64_exponent y")
  case True
  let ?u = "2 powi (f64_exponent y - 52) :: rat"
  have "rhe (x / ?u) \<le> rhe (y / ?u)"
    using assms(2) by (intro rhe_mono divide_right_mono) simp_all
  then have "of_int (rhe (x / ?u)) * ?u \<le> of_int (rhe (y / ?u)) * ?u"
    by (intro mult_right_mono) simp_all
  then show ?thesis by (simp only: f64_pos_def Let_def True)
next
  case False
  have "2 powi f64_exponent x < (2::rat) powi (f64_exponent y + 1)"
    using f64_exponent_bounds [of x] f64_exponent_bounds [of y] assms by linarith
  then have "f64_exponent x < f64_exponent y + 1"
    using powi_le [of "f64_exponent y + 1" "f64_exponent x"] by linarith
  with False have "(2::rat) powi (f64_exponent x + 1) \<le> 2 powi f64_exponent y"
    by (intro powi_le) simp
  then show ?thesis
    using f64_pos_range(2) [of x] f64_pos_range(1) [of y] assms by linarith
qed

lemma f64_pos_exact:
  assumes "0 < m" and "m \<le> 2 ^ 53" and x: "x = of_int m * 2 powi k"
  shows "f64_pos x = x"
proof -
  let ?e = "f64_exponent x"
  let ?u = "2 powi (?e - 52) :: rat"
  have pos: "0 < x" using assms by simp
  have mul: "x / ?u = of_int m * 2 powi (k - (?e - 52))"
    by (simp add: x power_int_diff)
  have "\<exists>i. x / ?u = of_int i"
  proof (cases "?e - 52 \<le> k")
    case True
    then obtain n where "k - (?e - 52) = int n" using zle_iff_zadd by force
    then have "x / ?u = of_int (m * 2 ^ n)" using mul by simp
    then show ?thesis by blast
  next
    case False
    have "(2::rat) powi ?e \<le> of_int m * 2 powi k"
      using f64_exponent_bounds(1) [OF pos] x by simp
    also have "\<dots> \<le> of_int (2 ^ 53) * 2 powi k"
      using assms(2) by (intro mult_right_mono) (simp_all only: of_int_le_iff, simp)
    also have "\<dots> = 2 powi (k + 53)" by (simp add: power_int_add)
    finally have le: "(2::rat) powi ?e \<le> 2 powi (k + 53)" .
    have k: "k = ?e - 53"
    proof (rule ccontr)
      assume "k \<noteq> ?e - 53"
      with False have "k + 53 + 1 \<le> ?e" by linarith
      then have "(2::rat) powi (k + 53 + 1) \<le> 2 powi ?e" by (rule powi_le)
      with le have "2 * (2::rat) powi (k + 53) \<le> 2 powi (k + 53)" by (simp only: powi_suc)
      then show False using powi_pos [of "k + 53"] by linarith
    qed
    have "2 powi ?e = of_int (2 ^ 53) * (2::rat) powi k" by (simp add: k power_int_diff)
    then have "of_int (2 ^ 53) * (2::rat) powi k \<le> of_int m * 2 powi k"
      using f64_exponent_bounds(1) [OF pos] x by (simp only:)
    then have "2 ^ 53 \<le> m"
      by (simp only: mult_le_cancel_right_pos [OF powi_pos] of_int_le_iff)
    with assms(2) have "m = 2 ^ 53" by (rule antisym)
    then have "x / ?u = of_int (2 ^ 53) * 2 powi (- 1)" using mul k by simp
    then have "x / ?u = of_int (2 ^ 52)" by (simp add: power_int_minus)
    then show ?thesis by blast
  qed
  then obtain i where i: "x / ?u = of_int i" by blast
  have "f64_pos x = of_int (rhe (x / ?u)) * ?u" by (simp add: f64_pos_def Let_def)
  also have "\<dots> = (x / ?u) * ?u" by (simp only: i rhe_of_int)
  also have "\<dots> = x" by simp
  finally show ?thesis .
qed

lemma f64_pos_idem:
  assumes "0 < x"
  shows "f64_pos (f64_pos x) = f64_pos x"
proof -
  let ?u = "2 powi (f64_exponent x - 52) :: rat"
  have eq: "f64_pos x = of_int (rhe (x / ?u)) * ?u" by (simp add: f64_pos_def Let_def)
  have hi: "2 powi (f64_exponent x + 1) = of_int (2 ^ 53) * ?u"
    by (simp add: power_int_diff power_int_add)
  have pos: "0 < f64_pos x"
    using f64_pos_range(1) [OF assms] powi_pos [of "f64_exponent x"] by linarith
  then have "0 < of_int (rhe (x / ?u)) * ?u" by (simp only: eq)
  then have "0 < (of_int (rhe (x / ?u)) :: rat)" by (rule zero_less_mult_pos2) simp
  then have "0 < rhe (x / ?u)" by simp
  moreover have "of_int (rhe (x / ?u)) * ?u \<le> of_int (2 ^ 53) * ?u"
    using f64_pos_range(2) [OF assms] eq hi by simp
  then have "rhe (x / ?u) \<le> 2 ^ 53"
    by (simp only: mult_le_cancel_right_pos [OF powi_pos] of_int_le_iff)
  ultimately show ?thesis using eq by (rule f64_pos_exact)
qed

lemma f64_pos_gt0: "0 < x \<Longrightarrow> 0 < f64_pos x"
  using f64_pos_range(1) [of x] powi_pos [of "f64_exponent x"] by linarith

interpretation f64: f64_rounding f64_round
proof
  fix x y :: rat
  assume le: "x \<le> y"
  consider "0 < x" | "x \<le> 0" "0 \<le> y" | "y < 0" by linarith
  then show "f64_round x \<le> f64_round y"
  proof cases
    case 1
    with le show ?thesis by (simp add: f64_round_def f64_pos_mono)
  next
    case 2
    then show ?thesis
      using f64_pos_gt0 [of y] f64_pos_gt0 [of "- x"] by (auto simp: f64_round_def)
  next
    case 3
    with le show ?thesis using f64_pos_mono [of "- y" "- x"] by (auto simp: f64_round_def)
  qed
next
  fix i :: int
  assume "\<bar>i\<bar> \<le> 2 ^ 53"
  then show "f64_round (of_int i) = of_int i"
    using f64_pos_exact [of i "of_int i" 0] f64_pos_exact [of "- i" "of_int (- i)" 0]
    by (auto simp: f64_round_def)
next
  fix x :: rat
  show "f64_round (f64_round x) = f64_round x"
    using f64_pos_idem [of x] f64_pos_idem [of "- x"] f64_pos_gt0 [of x] f64_pos_gt0 [of "- x"]
    by (auto simp: f64_round_def)
qed

end
