(* ===== verification/Window_Buckets.thy ===== *)
theory Window_Buckets
  imports Buckets
begin

text \<open>
  The fixed-window bucket with exponential backoff and its per-key map
  (\<open>WindowedBucket\<close> and \<open>WindowedBucketMap\<close> in \<open>crates/nagent-support/src/ratelimit.rs\<close>).
  Counters are \<open>u32\<close> and retry times \<open>u64\<close>, with the saturating operations of the source
  written out.
\<close>

section \<open>The bucket\<close>

datatype windowed_decision = WinAllow | WinDeny duration

record windowed_bucket =
  w_count :: nat
  window_start :: instant
  w_last_update :: instant
  consecutive_denies :: nat

text \<open>The four arguments every caller passes along with the time.\<close>

record window_policy =
  wp_max :: nat
  wp_window :: duration
  wp_backoff_after :: nat
  wp_max_backoff :: duration

definition windowed_new :: "instant \<Rightarrow> windowed_bucket" where
  "windowed_new now =
     \<lparr>w_count = 0, window_start = now, w_last_update = now, consecutive_denies = 0\<rparr>"

definition refresh_window :: "instant \<Rightarrow> windowed_bucket \<Rightarrow> windowed_bucket" where
  "refresh_window now b =
     b\<lparr>w_count := 0, consecutive_denies := 0, window_start := now, w_last_update := now\<rparr>"

text \<open>\<open>1u64.checked_shl(exp_factor.min(20))\<close> never overflows: the shift is at most 20.\<close>

definition inflated_retry :: "window_policy \<Rightarrow> nat \<Rightarrow> duration \<Rightarrow> nat" where
  "inflated_retry p denies remaining =
     (let base = max (as_secs remaining) 1;
          exp_factor = denies - (wp_backoff_after p - 1);
          multiplier = 2 ^ min exp_factor 20;
          inflated = sat_mul u64_max base multiplier
      in min inflated (as_secs (wp_max_backoff p)))"

definition windowed_check ::
  "window_policy \<Rightarrow> instant \<Rightarrow> windowed_bucket \<Rightarrow> windowed_bucket \<times> windowed_decision" where
  "windowed_check p now b0 =
     (let b = (if wp_window p \<le> now - window_start b0 then refresh_window now b0 else b0)
      in if wp_max p \<le> w_count b
         then (let elapsed = now - window_start b;
                   remaining = wp_window p - elapsed;
                   retry = secs (inflated_retry p (consecutive_denies b) remaining)
               in (b\<lparr>consecutive_denies := sat_add u32_max (consecutive_denies b) 1,
                     w_last_update := now\<rparr>, WinDeny retry))
         else (b\<lparr>w_count := min (sat_add u32_max (w_count b) 1) (wp_max p),
                 consecutive_denies := 0, w_last_update := now\<rparr>, WinAllow))"

definition windowed_bump_deny :: "instant \<Rightarrow> windowed_bucket \<Rightarrow> windowed_bucket" where
  "windowed_bump_deny now b =
     b\<lparr>consecutive_denies := sat_add u32_max (consecutive_denies b) 1, w_last_update := now\<rparr>"

section \<open>The per-key map\<close>

record 'k windowed_bucket_map =
  wbm_buckets :: "('k, windowed_bucket) dash"
  wbm_sweep :: sweep_clock
  wbm_sweep_every :: nat

definition wbm_with_sweep_every :: "nat \<Rightarrow> 'k windowed_bucket_map" where
  "wbm_with_sweep_every n =
     \<lparr>wbm_buckets = [], wbm_sweep = sweep_clock_new, wbm_sweep_every = n\<rparr>"

definition wbm_new :: "'k windowed_bucket_map" where
  "wbm_new = wbm_with_sweep_every default_sweep_every"

definition windowed_entry ::
  "window_policy \<Rightarrow> 'k \<Rightarrow> instant \<Rightarrow> ('k, windowed_bucket) dash
     \<Rightarrow> ('k, windowed_bucket) dash \<times> windowed_decision" where
  "windowed_entry p key now m = dash_entry (windowed_new now) (windowed_check p now) key m"

definition wbm_check ::
  "window_policy \<Rightarrow> 'k \<Rightarrow> instant \<Rightarrow> 'k windowed_bucket_map
     \<Rightarrow> 'k windowed_bucket_map \<times> windowed_decision" where
  "wbm_check p key now m =
     (let (bs, d) = windowed_entry p key now (wbm_buckets m) in (m\<lparr>wbm_buckets := bs\<rparr>, d))"

definition wbm_bump_deny :: "'k \<Rightarrow> instant \<Rightarrow> 'k windowed_bucket_map \<Rightarrow> 'k windowed_bucket_map" where
  "wbm_bump_deny key now m =
     m\<lparr>wbm_buckets := dash_modify (windowed_bump_deny now) key (wbm_buckets m)\<rparr>"

definition wbm_reset :: "'k \<Rightarrow> 'k windowed_bucket_map \<Rightarrow> 'k windowed_bucket_map" where
  "wbm_reset key m = m\<lparr>wbm_buckets := dash_remove key (wbm_buckets m)\<rparr>"

definition wbm_sweep_idle ::
  "instant \<Rightarrow> duration \<Rightarrow> 'k windowed_bucket_map \<Rightarrow> 'k windowed_bucket_map \<times> nat" where
  "wbm_sweep_idle now window m =
     (let bs = dash_retain (\<lambda>_ b. now - window_start b < window) (wbm_buckets m)
      in (m\<lparr>wbm_buckets := bs\<rparr>, length (wbm_buckets m) - length bs))"

definition wbm_should_sweep :: "'k windowed_bucket_map \<Rightarrow> 'k windowed_bucket_map \<times> bool" where
  "wbm_should_sweep m =
     (let (c, due) = sweep_tick (wbm_sweep_every m) (wbm_sweep m) in (m\<lparr>wbm_sweep := c\<rparr>, due))"

lemma windowed_entry_ok [simp]: "dash_ok m \<Longrightarrow> dash_ok (fst (windowed_entry p k now m))"
  by (simp add: windowed_entry_def)

interpretation window: keyed_buckets
  windowed_new "windowed_check p" "windowed_entry p" for p
  by unfold_locales (simp_all add: windowed_entry_def dash_entry_get dash_entry_result)

section \<open>Decisions of one bucket\<close>

definition win_expired :: "window_policy \<Rightarrow> instant \<Rightarrow> windowed_bucket \<Rightarrow> bool" where
  "win_expired p now b = (wp_window p \<le> now - window_start b)"

lemma check_expired: "win_expired p now b \<Longrightarrow> windowed_check p now b = windowed_check p now (windowed_new now)"
  by (simp add: windowed_check_def win_expired_def refresh_window_def windowed_new_def Let_def)

lemma check_live:
  "\<not> win_expired p now b \<Longrightarrow>
     snd (windowed_check p now b) =
       (if wp_max p \<le> w_count b
        then WinDeny (secs (inflated_retry p (consecutive_denies b)
                              (wp_window p - (now - window_start b))))
        else WinAllow)"
  by (simp add: windowed_check_def win_expired_def Let_def)

lemma check_count_bound: "w_count b \<le> wp_max p \<Longrightarrow> w_count (fst (windowed_check p now b)) \<le> wp_max p"
  by (auto simp: windowed_check_def refresh_window_def Let_def)

lemma inflated_retry_le: "inflated_retry p n r \<le> as_secs (wp_max_backoff p)"
  by (simp add: inflated_retry_def Let_def)

lemma inflated_retry_ge: "min 1 (as_secs (wp_max_backoff p)) \<le> inflated_retry p n r"
proof -
  have "1 * 1 \<le> max (as_secs r) 1 * 2 ^ min (n - (wp_backoff_after p - 1)) 20"
    by (intro mult_le_mono) simp_all
  then have "1 \<le> sat_mul u64_max (max (as_secs r) 1) (2 ^ min (n - (wp_backoff_after p - 1)) 20)"
    by (simp add: sat_mul_def u64_max_def)
  then show ?thesis
    unfolding inflated_retry_def Let_def by (rule min.mono) simp
qed

lemma inflated_retry_mono: "n \<le> n' \<Longrightarrow> inflated_retry p n r \<le> inflated_retry p n' r"
  unfolding inflated_retry_def Let_def
  by (intro min.mono sat_mul_mono power_increasing) auto

section \<open>How much a window admits\<close>

definition win_allows :: "windowed_decision list \<Rightarrow> nat" where
  "win_allows ds = length (filter (\<lambda>d. d = WinAllow) ds)"

lemma win_allows_simps [simp]:
  "win_allows [] = 0"
  "win_allows (d # ds) = (if d = WinAllow then Suc (win_allows ds) else win_allows ds)"
  by (simp_all add: win_allows_def)

text \<open>
  All attempts fall within one window length after \<open>t0\<close>. A bucket whose window began in that
  period is never refreshed, so it admits what is left of its budget; an older bucket can be
  refreshed once and then admit one whole budget more.
\<close>

definition win_budget :: "window_policy \<Rightarrow> instant \<Rightarrow> windowed_bucket \<Rightarrow> nat" where
  "win_budget p t0 b =
     (if t0 \<le> window_start b then wp_max p - w_count b
      else (wp_max p - w_count b) + wp_max p)"

lemma check_budget:
  assumes "t0 \<le> now" and "now < t0 + wp_window p" and "wp_max p \<le> u32_max"
  shows "(if snd (windowed_check p now b) = WinAllow then 1 else 0)
           + win_budget p t0 (fst (windowed_check p now b)) \<le> win_budget p t0 b"
proof (cases "win_expired p now b")
  case True
  then have "window_start b < t0" using assms by (auto simp: win_expired_def)
  then show ?thesis using True assms
    by (auto simp: win_budget_def windowed_check_def win_expired_def refresh_window_def Let_def
        sat_add_def min_def u32_max_def)
next
  case False
  then show ?thesis using assms(3)
    by (auto simp: win_budget_def windowed_check_def win_expired_def Let_def sat_add_def min_def)
qed

lemma run_budget:
  assumes "wp_max p \<le> u32_max" and "\<forall>t \<in> set ts. t0 \<le> t \<and> t < t0 + wp_window p"
  shows "win_allows (snd (bucket_run windowed_new (windowed_check p) ts (Some b))) \<le> win_budget p t0 b"
  using assms(2)
proof (induction ts arbitrary: b)
  case Nil
  then show ?case by simp
next
  case (Cons t ts)
  let ?b = "fst (windowed_check p t b)"
  have "win_allows (snd (bucket_run windowed_new (windowed_check p) ts (Some ?b))) \<le> win_budget p t0 ?b"
    using Cons by simp
  moreover have "(if snd (windowed_check p t b) = WinAllow then 1 else 0) + win_budget p t0 ?b
      \<le> win_budget p t0 b"
    using Cons.prems assms(1) by (intro check_budget) simp_all
  ultimately show ?case by (auto simp: Let_def case_prod_beta split: if_splits)
qed

lemma fresh_run_budget:
  assumes "wp_max p \<le> u32_max" and "\<forall>t \<in> set ts. t0 \<le> t \<and> t < t0 + wp_window p"
  shows "win_allows (snd (bucket_run windowed_new (windowed_check p) ts None)) \<le> wp_max p"
proof (cases ts)
  case Nil
  then show ?thesis by simp
next
  case (Cons t ts')
  have "bucket_run windowed_new (windowed_check p) ts None
      = bucket_run windowed_new (windowed_check p) ts (Some (windowed_new t))"
    by (simp add: Cons)
  then have "win_allows (snd (bucket_run windowed_new (windowed_check p) ts None))
      \<le> win_budget p t0 (windowed_new t)"
    using run_budget [OF assms, of "windowed_new t"] by simp
  also have "\<dots> = wp_max p"
    using assms(2) Cons by (simp add: win_budget_def windowed_new_def)
  finally show ?thesis .
qed

text \<open>Per key, in a whole map: at most one budget from a fresh map, at most two from any map.\<close>

lemma keyed_run_budget:
  assumes "wp_max p \<le> u32_max"
    and "\<forall>t \<in> set (for_key k ops). t0 \<le> t \<and> t < t0 + wp_window p"
  shows "win_allows (for_key k (snd (keyed_run (windowed_entry p) ops m)))
           \<le> (if dash_get m k = None then wp_max p else 2 * wp_max p)"
proof -
  let ?ds = "for_key k (snd (keyed_run (windowed_entry p) ops m))"
  have eq: "?ds = snd (bucket_run windowed_new (windowed_check p) (for_key k ops) (dash_get m k))"
    using window.run_for_key [of p ops m k] by (metis snd_conv)
  show ?thesis
  proof (cases "dash_get m k")
    case None
    then show ?thesis using fresh_run_budget [OF assms] eq by simp
  next
    case (Some b)
    have "win_budget p t0 b \<le> 2 * wp_max p" by (auto simp: win_budget_def)
    then show ?thesis using run_budget [OF assms, of b] eq Some by simp
  qed
qed

section \<open>Dropping an expired bucket cannot be observed\<close>

text \<open>
  Two maps look the same from time \<open>now\<close> on when every key holds the same bucket in both, a
  bucket whose window has run out counting as absent.
\<close>

definition win_view :: "window_policy \<Rightarrow> instant \<Rightarrow> ('k, windowed_bucket) dash \<Rightarrow> 'k \<Rightarrow> windowed_bucket option" where
  "win_view p now m k =
     (case dash_get m k of None \<Rightarrow> None | Some b \<Rightarrow> if win_expired p now b then None else Some b)"

lemma win_view_later:
  assumes "win_view p now m = win_view p now m'" and "now \<le> now'"
  shows "win_view p now' m = win_view p now' m'"
proof
  fix k
  have later: "win_expired p now b \<Longrightarrow> win_expired p now' b" for b
    using assms(2) by (simp add: win_expired_def)
  show "win_view p now' m k = win_view p now' m' k"
    using fun_cong [OF assms(1), of k] later
    by (auto simp: win_view_def split: option.splits if_splits)
qed

lemma check_view:
  "windowed_check p now (case dash_get m k of Some b \<Rightarrow> b | None \<Rightarrow> windowed_new now)
     = windowed_check p now (case win_view p now m k of Some b \<Rightarrow> b | None \<Rightarrow> windowed_new now)"
  by (auto simp: win_view_def check_expired split: option.splits)

lemma entry_view:
  assumes "win_view p now m = win_view p now m'"
  shows "snd (windowed_entry p k now m) = snd (windowed_entry p k now m')"
    and "win_view p now (fst (windowed_entry p k now m)) = win_view p now (fst (windowed_entry p k now m'))"
proof -
  have same: "windowed_check p now (case dash_get m k of Some b \<Rightarrow> b | None \<Rightarrow> windowed_new now)
      = windowed_check p now (case dash_get m' k of Some b \<Rightarrow> b | None \<Rightarrow> windowed_new now)"
    using check_view [of p now m k] check_view [of p now m' k] assms by simp
  then show "snd (windowed_entry p k now m) = snd (windowed_entry p k now m')"
    by (simp add: window.check_result)
  show "win_view p now (fst (windowed_entry p k now m)) = win_view p now (fst (windowed_entry p k now m'))"
  proof
    fix k'
    show "win_view p now (fst (windowed_entry p k now m)) k' = win_view p now (fst (windowed_entry p k now m')) k'"
      using same fun_cong [OF assms, of k'] by (simp add: win_view_def window.check_get)
  qed
qed

lemma bump_view:
  assumes "win_view p now m = win_view p now m'"
  shows "win_view p now (dash_modify (windowed_bump_deny now) k m)
       = win_view p now (dash_modify (windowed_bump_deny now) k m')"
proof
  fix k'
  show "win_view p now (dash_modify (windowed_bump_deny now) k m) k'
      = win_view p now (dash_modify (windowed_bump_deny now) k m') k'"
    using fun_cong [OF assms, of k']
    by (auto simp: win_view_def dash_modify_get win_expired_def windowed_bump_deny_def
        split: option.splits if_splits)
qed

lemma remove_view:
  assumes "win_view p now m = win_view p now m'"
  shows "win_view p now (dash_remove k m) = win_view p now (dash_remove k m')"
proof
  fix k'
  show "win_view p now (dash_remove k m) k' = win_view p now (dash_remove k m') k'"
    using fun_cong [OF assms, of k'] by (simp add: win_view_def dash_get_remove)
qed

lemma sweep_view:
  assumes "dash_ok (wbm_buckets m)"
  shows "win_view p now (wbm_buckets (fst (wbm_sweep_idle now (wp_window p) m))) = win_view p now (wbm_buckets m)"
proof
  fix k
  show "win_view p now (wbm_buckets (fst (wbm_sweep_idle now (wp_window p) m))) k = win_view p now (wbm_buckets m) k"
    using assms
    by (auto simp: wbm_sweep_idle_def Let_def win_view_def dash_get_retain win_expired_def
        split: option.splits)
qed

text \<open>A run of the map's operations, each at its own time; only checks decide anything.\<close>

datatype 'k win_op = WCheck 'k | WBump 'k | WReset 'k | WSweep

fun wbm_step ::
  "window_policy \<Rightarrow> instant \<Rightarrow> 'k win_op \<Rightarrow> 'k windowed_bucket_map
     \<Rightarrow> 'k windowed_bucket_map \<times> windowed_decision list" where
  "wbm_step p now (WCheck k) m = (let (m', d) = wbm_check p k now m in (m', [d]))"
| "wbm_step p now (WBump k) m = (wbm_bump_deny k now m, [])"
| "wbm_step p now (WReset k) m = (wbm_reset k m, [])"
| "wbm_step p now WSweep m = (fst (wbm_sweep_idle now (wp_window p) m), [])"

fun wbm_run ::
  "window_policy \<Rightarrow> (instant \<times> 'k win_op) list \<Rightarrow> 'k windowed_bucket_map \<Rightarrow> windowed_decision list" where
  "wbm_run p [] m = []"
| "wbm_run p ((now, op) # ops) m =
     (let (m', ds) = wbm_step p now op m in ds @ wbm_run p ops m')"

definition drop_sweeps :: "(instant \<times> 'k win_op) list \<Rightarrow> (instant \<times> 'k win_op) list" where
  "drop_sweeps ops = filter (\<lambda>x. snd x \<noteq> WSweep) ops"

definition same_view :: "window_policy \<Rightarrow> instant \<Rightarrow> 'k windowed_bucket_map \<Rightarrow> 'k windowed_bucket_map \<Rightarrow> bool" where
  "same_view p now m m' \<longleftrightarrow> dash_ok (wbm_buckets m) \<and> dash_ok (wbm_buckets m')
     \<and> win_view p now (wbm_buckets m) = win_view p now (wbm_buckets m')"

lemma step_same_view:
  assumes "same_view p now m m'" and "op \<noteq> WSweep"
  shows "same_view p now (fst (wbm_step p now op m)) (fst (wbm_step p now op m'))"
    and "snd (wbm_step p now op m) = snd (wbm_step p now op m')"
proof -
  have ok: "dash_ok (wbm_buckets m)" "dash_ok (wbm_buckets m')"
    and view: "win_view p now (wbm_buckets m) = win_view p now (wbm_buckets m')"
    using assms(1) by (simp_all add: same_view_def)
  show "same_view p now (fst (wbm_step p now op m)) (fst (wbm_step p now op m'))"
    using ok view assms(2) entry_view(2) [OF view] bump_view [OF view] remove_view [OF view]
    by (cases op)
      (simp_all add: same_view_def wbm_check_def wbm_bump_deny_def wbm_reset_def Let_def case_prod_beta)
  show "snd (wbm_step p now op m) = snd (wbm_step p now op m')"
    using entry_view(1) [OF view] assms(2)
    by (cases op) (simp_all add: wbm_check_def Let_def case_prod_beta)
qed

lemma sweep_same_view:
  assumes "same_view p now m m'"
  shows "same_view p now (fst (wbm_step p now WSweep m)) m'"
proof -
  have "dash_ok (wbm_buckets m)" using assms by (simp add: same_view_def)
  then have "dash_ok (wbm_buckets (fst (wbm_sweep_idle now (wp_window p) m)))"
    by (simp add: wbm_sweep_idle_def Let_def)
  with assms sweep_view [of m p now] show ?thesis by (simp add: same_view_def)
qed

lemma same_view_later: "same_view p now m m' \<Longrightarrow> now \<le> now' \<Longrightarrow> same_view p now' m m'"
  by (auto simp: same_view_def intro: win_view_later)

lemma run_drop_sweeps:
  assumes "same_view p t m m'" and "sorted (map fst ops)" and "\<forall>x \<in> set ops. t \<le> fst x"
  shows "wbm_run p ops m = wbm_run p (drop_sweeps ops) m'"
  using assms
proof (induction ops arbitrary: m m' t)
  case Nil
  then show ?case by (simp add: drop_sweeps_def)
next
  case (Cons x ops)
  obtain now op where x: "x = (now, op)" by (cases x)
  from Cons.prems x have now: "same_view p now m m'" by (auto intro: same_view_later)
  from Cons.prems(2) x have srt: "sorted (map fst ops)" and ge: "\<forall>y \<in> set ops. now \<le> fst y" by auto
  show ?case
  proof (cases "op = WSweep")
    case True
    have "wbm_run p ops (fst (wbm_step p now WSweep m)) = wbm_run p (drop_sweeps ops) m'"
      using sweep_same_view [OF now] srt ge by (rule Cons.IH)
    then show ?thesis using True x by (simp add: drop_sweeps_def)
  next
    case False
    have "wbm_run p ops (fst (wbm_step p now op m)) = wbm_run p (drop_sweeps ops) (fst (wbm_step p now op m'))"
      using step_same_view(1) [OF now False] srt ge by (rule Cons.IH)
    then show ?thesis using False x step_same_view(2) [OF now False]
      by (simp add: drop_sweeps_def case_prod_beta)
  qed
qed

text \<open>the eviction sweep bounds memory without changing any decision.\<close>

theorem windowed_sweep_unobservable:
  assumes "dash_ok (wbm_buckets m)" and "sorted (map fst ops)"
  shows "wbm_run p ops m = wbm_run p (drop_sweeps ops) m"
proof -
  have "same_view p 0 m m" using assms(1) by (simp add: same_view_def)
  then show ?thesis using assms(2) by (rule run_drop_sweeps) simp
qed

lemma windowed_sweep_unobservable_witness:
  "wbm_run \<lparr>wp_max = 1, wp_window = 10, wp_backoff_after = 1, wp_max_backoff = secs 3\<rparr>
     [(0, WCheck True), (5, WSweep), (12, WSweep), (13, WCheck True)] wbm_new
   = wbm_run \<lparr>wp_max = 1, wp_window = 10, wp_backoff_after = 1, wp_max_backoff = secs 3\<rparr>
     [(0, WCheck True), (13, WCheck True)] wbm_new"
  using windowed_sweep_unobservable [of wbm_new "[(0, WCheck True), (5, WSweep), (12, WSweep), (13, WCheck True)]"
      "\<lparr>wp_max = 1, wp_window = 10, wp_backoff_after = 1, wp_max_backoff = secs 3\<rparr>"]
  by (simp add: drop_sweeps_def wbm_new_def wbm_with_sweep_every_def)

definition win_now :: "window_policy \<Rightarrow> instant \<Rightarrow> windowed_bucket \<Rightarrow> windowed_bucket" where
  "win_now p now b = (if win_expired p now b then refresh_window now b else b)"

definition win_remaining :: "window_policy \<Rightarrow> instant \<Rightarrow> windowed_bucket \<Rightarrow> duration" where
  "win_remaining p now b = wp_window p - (now - window_start (win_now p now b))"

lemma check_deny_form:
  assumes "snd (windowed_check p now b) = WinDeny d"
  shows "d = secs (inflated_retry p (consecutive_denies (win_now p now b)) (win_remaining p now b))"
    and "fst (windowed_check p now b) = (win_now p now b)
      \<lparr>consecutive_denies := sat_add u32_max (consecutive_denies (win_now p now b)) 1, w_last_update := now\<rparr>"
proof -
  have "windowed_check p now b = (let b = win_now p now b in if wp_max p \<le> w_count b
         then (b\<lparr>consecutive_denies := sat_add u32_max (consecutive_denies b) 1, w_last_update := now\<rparr>,
               WinDeny (secs (inflated_retry p (consecutive_denies b) (wp_window p - (now - window_start b)))))
         else (b\<lparr>w_count := min (sat_add u32_max (w_count b) 1) (wp_max p),
                 consecutive_denies := 0, w_last_update := now\<rparr>, WinAllow))"
    by (simp add: windowed_check_def win_now_def win_expired_def Let_def)
  with assms show "d = secs (inflated_retry p (consecutive_denies (win_now p now b)) (win_remaining p now b))"
    and "fst (windowed_check p now b) = (win_now p now b)
      \<lparr>consecutive_denies := sat_add u32_max (consecutive_denies (win_now p now b)) 1, w_last_update := now\<rparr>"
    by (simp_all add: Let_def win_remaining_def split: if_splits)
qed

lemma win_now_again:
  fixes p :: window_policy and now :: instant and b :: windowed_bucket and n :: nat
  defines "b' \<equiv> (win_now p now b)\<lparr>consecutive_denies := n, w_last_update := now\<rparr>"
  shows "win_remaining p now b' = win_remaining p now b"
    and "consecutive_denies (win_now p now b') = (if wp_window p = 0 then 0 else n)"
    and "wp_window p = 0 \<Longrightarrow> consecutive_denies (win_now p now b) = 0"
  by (auto simp: b'_def win_now_def win_remaining_def win_expired_def refresh_window_def)

lemma inflated_retry_remaining: "min (as_secs r) (as_secs (wp_max_backoff p)) \<le> inflated_retry p n r"
  if "as_secs r \<le> u64_max"
proof -
  have "as_secs r * 1 \<le> max (as_secs r) 1 * 2 ^ min (n - (wp_backoff_after p - 1)) 20"
    by (intro mult_le_mono) simp_all
  then have "as_secs r \<le> sat_mul u64_max (max (as_secs r) 1) (2 ^ min (n - (wp_backoff_after p - 1)) 20)"
    using that by (simp add: sat_mul_def)
  then show ?thesis unfolding inflated_retry_def Let_def by (rule min.mono) simp
qed

text \<open>
  A refusal asks for a wait of at least a second and of at least what is left of the window,
  in whole seconds and both up to the configured maximum, and never of more than that maximum;
  another attempt at the same instant is never told to wait less.
\<close>

theorem windowed_retry_bounds:
  assumes "snd (windowed_check p now b) = WinDeny d" and "snd (windowed_check p now (fst (windowed_check p now b))) = WinDeny d'"
    and "consecutive_denies b < u32_max" and "as_secs (wp_window p) \<le> u64_max"
  shows "secs (min 1 (as_secs (wp_max_backoff p))) \<le> d \<and> d \<le> secs (as_secs (wp_max_backoff p)) \<and> d \<le> d'
    \<and> secs (min (as_secs (win_remaining p now b)) (as_secs (wp_max_backoff p))) \<le> d"
proof -
  note d = check_deny_form(1) [OF assms(1)]
  note d' = check_deny_form(1) [OF assms(2), unfolded check_deny_form(2) [OF assms(1)] win_now_again(1,2)]
  have "consecutive_denies (win_now p now b)
      \<le> (if wp_window p = 0 then 0 else sat_add u32_max (consecutive_denies (win_now p now b)) 1)"
    using win_now_again(3) [of p now b] assms(3) by (simp add: win_now_def refresh_window_def sat_add_def)
  then have "d \<le> d'"
    unfolding d d' by (intro mult_le_mono1 inflated_retry_mono)
  moreover have "as_secs (win_remaining p now b) \<le> u64_max"
    using as_secs_mono [of "win_remaining p now b" "wp_window p"] assms(4) by (simp add: win_remaining_def)
  ultimately show ?thesis
    using inflated_retry_ge [of p "consecutive_denies (win_now p now b)" "win_remaining p now b"]
      inflated_retry_le [of p "consecutive_denies (win_now p now b)" "win_remaining p now b"]
      inflated_retry_remaining [of "win_remaining p now b" p "consecutive_denies (win_now p now b)"]
    unfolding d by (simp only: mult_le_mono1 conj_absorb simp_thms)
qed

lemma windowed_retry_bounds_witness:
  "\<exists>d. snd (windowed_check \<lparr>wp_max = 1, wp_window = secs 90, wp_backoff_after = 2, wp_max_backoff = secs 3600\<rparr> (secs 30)
      \<lparr>w_count = 1, window_start = 0, w_last_update = 0, consecutive_denies = 4\<rparr>) = WinDeny d \<and> secs 60 \<le> d"
proof -
  let ?p = "\<lparr>wp_max = 1, wp_window = secs 90, wp_backoff_after = 2, wp_max_backoff = secs 3600\<rparr>"
  let ?b = "\<lparr>w_count = 1, window_start = 0, w_last_update = 0, consecutive_denies = 4\<rparr>"
  have c: "windowed_check ?p (secs 30) ?b = (?b\<lparr>consecutive_denies := 5, w_last_update := secs 30\<rparr>, WinDeny (secs 480))"
    by (simp add: windowed_check_def inflated_retry_def Let_def ns_per_sec_def as_secs_def sat_mul_def sat_add_def u32_max_def u64_max_def)
  have c': "snd (windowed_check ?p (secs 30) (fst (windowed_check ?p (secs 30) ?b))) = WinDeny (secs 960)"
    unfolding c
    by (simp add: windowed_check_def inflated_retry_def Let_def ns_per_sec_def as_secs_def sat_mul_def sat_add_def u32_max_def u64_max_def)
  have one: "snd (windowed_check ?p (secs 30) ?b) = WinDeny (secs 480)"
    by (simp only: c snd_conv)
  have "consecutive_denies ?b < u32_max" "as_secs (wp_window ?p) \<le> u64_max"
    by (simp_all add: u32_max_def u64_max_def)
  from windowed_retry_bounds [OF one c' this]
  have "secs (min (as_secs (win_remaining ?p (secs 30) ?b)) (as_secs (wp_max_backoff ?p))) \<le> secs 480"
    by blast
  then have "secs 60 \<le> secs 480"
    by (simp add: win_remaining_def win_now_def win_expired_def as_secs_def ns_per_sec_def)
  with one show ?thesis by blast
qed

end
