(* ===== verification/Login_Rate_Limit.thy ===== *)
theory Login_Rate_Limit
  imports Window_Buckets Rust_Str Ip_Addr
begin

text \<open>
  The login limiter (\<open>crates/nagent-server/src/auth/login_rate_limit.rs\<close>): three families of
  fixed-window buckets, keyed by (email, address), by email and by address. \<open>lrl_check\<close> and
  \<open>lrl_reset\<close> are the handlers, with the clock reads as arguments (\<open>t_sweep\<close> for the eviction
  sweep, \<open>now\<close> for the decision).

  The lemmas about one family (its budget within a window) come from \<open>Window_Buckets\<close>; the
  properties lift them to runs of logins in which the three families interact.
\<close>

section \<open>Policy and state\<close>

datatype bucket_kind = KPair | KEmail | KIp

datatype login_decision = LoginAllow | LoginDeny nat bucket_kind

record login_policy =
  lp_pair_max :: nat
  lp_pair_window :: duration
  lp_email_max :: nat
  lp_email_window :: duration
  lp_email_backoff_after :: nat
  lp_ip_max :: nat
  lp_ip_window :: duration
  lp_ip_backoff_after :: nat

definition default_login_policy :: login_policy where
  "default_login_policy =
     \<lparr>lp_pair_max = 5, lp_pair_window = secs (15 * 60),
      lp_email_max = 20, lp_email_window = secs (15 * 60), lp_email_backoff_after = 5,
      lp_ip_max = 50, lp_ip_window = secs (15 * 60), lp_ip_backoff_after = 10\<rparr>"

definition max_login_backoff_secs :: nat where
  "max_login_backoff_secs = 3600"

record login_rate_limiter =
  pair_buckets :: "(string \<times> ip_addr) windowed_bucket_map"
  email_buckets :: "string windowed_bucket_map"
  ip_buckets :: "ip_addr windowed_bucket_map"
  lrl_pair_max :: nat
  lrl_pair_window :: duration
  lrl_pair_backoff_after :: nat
  lrl_email_max :: nat
  lrl_email_window :: duration
  lrl_email_backoff_after :: nat
  lrl_ip_max :: nat
  lrl_ip_window :: duration
  lrl_ip_backoff_after :: nat

definition lrl_with_policy :: "login_policy \<Rightarrow> login_rate_limiter" where
  "lrl_with_policy p =
     \<lparr>pair_buckets = wbm_new, email_buckets = wbm_new, ip_buckets = wbm_new,
      lrl_pair_max = lp_pair_max p, lrl_pair_window = lp_pair_window p,
      lrl_pair_backoff_after = max (lp_pair_max p div 5) 1,
      lrl_email_max = lp_email_max p, lrl_email_window = lp_email_window p,
      lrl_email_backoff_after = lp_email_backoff_after p,
      lrl_ip_max = lp_ip_max p, lrl_ip_window = lp_ip_window p,
      lrl_ip_backoff_after = lp_ip_backoff_after p\<rparr>"

definition lrl_new :: login_rate_limiter where
  "lrl_new = lrl_with_policy default_login_policy"

definition lrl_with_limits :: "nat \<Rightarrow> duration \<Rightarrow> login_rate_limiter" where
  "lrl_with_limits pm pw =
     lrl_with_policy (default_login_policy\<lparr>lp_pair_max := pm, lp_pair_window := pw\<rparr>)"

definition normalise_email :: "string \<Rightarrow> string" where
  "normalise_email email = to_ascii_lowercase (trim email)"

text \<open>The arguments each family passes to its map.\<close>

definition pair_policy :: "login_rate_limiter \<Rightarrow> window_policy" where
  "pair_policy l = \<lparr>wp_max = lrl_pair_max l, wp_window = lrl_pair_window l,
     wp_backoff_after = lrl_pair_backoff_after l, wp_max_backoff = secs max_login_backoff_secs\<rparr>"

definition email_policy :: "login_rate_limiter \<Rightarrow> window_policy" where
  "email_policy l = \<lparr>wp_max = lrl_email_max l, wp_window = lrl_email_window l,
     wp_backoff_after = lrl_email_backoff_after l, wp_max_backoff = secs max_login_backoff_secs\<rparr>"

definition ip_policy :: "login_rate_limiter \<Rightarrow> window_policy" where
  "ip_policy l = \<lparr>wp_max = lrl_ip_max l, wp_window = lrl_ip_window l,
     wp_backoff_after = lrl_ip_backoff_after l, wp_max_backoff = secs max_login_backoff_secs\<rparr>"

section \<open>Operations\<close>

definition lrl_sweep_idle_buckets :: "instant \<Rightarrow> login_rate_limiter \<Rightarrow> login_rate_limiter" where
  "lrl_sweep_idle_buckets now l =
     l\<lparr>pair_buckets := fst (wbm_sweep_idle now (lrl_pair_window l) (pair_buckets l)),
       email_buckets := fst (wbm_sweep_idle now (lrl_email_window l) (email_buckets l)),
       ip_buckets := fst (wbm_sweep_idle now (lrl_ip_window l) (ip_buckets l))\<rparr>"

text \<open>The disjunction stops at the first clock that fires; the later clocks then do not tick.\<close>

definition lrl_tick :: "login_rate_limiter \<Rightarrow> login_rate_limiter \<times> bool" where
  "lrl_tick l =
     (let (pb, due1) = wbm_should_sweep (pair_buckets l); l1 = l\<lparr>pair_buckets := pb\<rparr>
      in if due1 then (l1, True)
         else (let (eb, due2) = wbm_should_sweep (email_buckets l1); l2 = l1\<lparr>email_buckets := eb\<rparr>
               in if due2 then (l2, True)
                  else (let (ib, due3) = wbm_should_sweep (ip_buckets l2)
                        in (l2\<lparr>ip_buckets := ib\<rparr>, due3))))"

fun push_longest :: "nat \<Rightarrow> bucket_kind \<Rightarrow> (nat \<times> bucket_kind) option \<Rightarrow> (nat \<times> bucket_kind) option" where
  "push_longest retry kind None = Some (retry, kind)"
| "push_longest retry kind (Some (cur, k)) =
     (if cur < retry then Some (retry, kind) else Some (cur, k))"

fun push_deny :: "windowed_decision \<Rightarrow> bucket_kind \<Rightarrow> (nat \<times> bucket_kind) option \<Rightarrow> (nat \<times> bucket_kind) option" where
  "push_deny WinAllow kind longest = longest"
| "push_deny (WinDeny retry_after) kind longest = push_longest (as_secs retry_after) kind longest"

definition lrl_check ::
  "instant \<Rightarrow> instant \<Rightarrow> string \<Rightarrow> ip_addr \<Rightarrow> login_rate_limiter
     \<Rightarrow> login_rate_limiter \<times> login_decision" where
  "lrl_check t_sweep now email ip l0 =
     (if ip_is_loopback ip then (l0, LoginAllow)
      else
        (let (l1, due) = lrl_tick l0;
             l2 = (if due then lrl_sweep_idle_buckets t_sweep l1 else l1);
             normalised = normalise_email email;
             (pb, d1) = wbm_check (pair_policy l2) (normalised, ip) now (pair_buckets l2);
             longest1 = push_deny d1 KPair None;
             (eb, d2) = wbm_check (email_policy l2) normalised now (email_buckets l2);
             longest2 = push_deny d2 KEmail longest1;
             (ib, d3) = wbm_check (ip_policy l2) ip now (ip_buckets l2);
             longest3 = push_deny d3 KIp longest2;
             l3 = l2\<lparr>pair_buckets := pb, email_buckets := eb, ip_buckets := ib\<rparr>
         in case longest3 of
              Some (retry, kind) \<Rightarrow>
                (l3\<lparr>pair_buckets := wbm_bump_deny (normalised, ip) now (pair_buckets l3),
                    email_buckets := wbm_bump_deny normalised now (email_buckets l3),
                    ip_buckets := wbm_bump_deny ip now (ip_buckets l3)\<rparr>,
                 LoginDeny retry kind)
            | None \<Rightarrow> (l3, LoginAllow)))"

definition lrl_reset :: "string \<Rightarrow> ip_addr \<Rightarrow> login_rate_limiter \<Rightarrow> login_rate_limiter" where
  "lrl_reset email ip l =
     (let normalised = normalise_email email
      in l\<lparr>pair_buckets := wbm_reset (normalised, ip) (pair_buckets l),
           email_buckets := wbm_reset normalised (email_buckets l)\<rparr>)"

section \<open>One check, family by family\<close>

definition lrl_ready :: "instant \<Rightarrow> login_rate_limiter \<Rightarrow> login_rate_limiter" where
  "lrl_ready t_sweep l0 =
     (let (l1, due) = lrl_tick l0 in if due then lrl_sweep_idle_buckets t_sweep l1 else l1)"

text \<open>What a check does to one family: the family's own check, and a bump when any family denies.\<close>

definition family_step ::
  "window_policy \<Rightarrow> 'k \<Rightarrow> instant \<Rightarrow> bool \<Rightarrow> ('k, windowed_bucket) dash \<Rightarrow> ('k, windowed_bucket) dash" where
  "family_step p k now denied m =
     (let m' = fst (windowed_entry p k now m)
      in if denied then dash_modify (windowed_bump_deny now) k m' else m')"

abbreviation "pair_map l \<equiv> wbm_buckets (pair_buckets l)"
abbreviation "email_map l \<equiv> wbm_buckets (email_buckets l)"
abbreviation "ip_map l \<equiv> wbm_buckets (ip_buckets l)"

definition lrl_verdicts :: "instant \<Rightarrow> string \<Rightarrow> ip_addr \<Rightarrow> login_rate_limiter \<Rightarrow> windowed_decision list" where
  "lrl_verdicts now e ip l =
     [snd (windowed_entry (pair_policy l) (e, ip) now (pair_map l)),
      snd (windowed_entry (email_policy l) e now (email_map l)),
      snd (windowed_entry (ip_policy l) ip now (ip_map l))]"

definition all_allow :: "windowed_decision list \<Rightarrow> bool" where
  "all_allow ds = list_all (\<lambda>d. d = WinAllow) ds"

definition longest_deny :: "windowed_decision list \<Rightarrow> bucket_kind list \<Rightarrow> (nat \<times> bucket_kind) option" where
  "longest_deny ds ks = fold (\<lambda>(d, k). push_deny d k) (zip ds ks) None"

lemma push_deny_None: "push_deny d k a = None \<longleftrightarrow> d = WinAllow \<and> a = None"
  by (cases d; cases a) (auto split: if_splits)

lemma longest_deny_None: "longest_deny [d1, d2, d3] [k1, k2, k3] = None \<longleftrightarrow> all_allow [d1, d2, d3]"
  by (auto simp: longest_deny_def push_deny_None all_allow_def)

lemma lrl_check_remote:
  assumes "\<not> ip_is_loopback ip"
  shows "lrl_check t_sweep now email ip l0 =
    (let l = lrl_ready t_sweep l0; e = normalise_email email;
         ds = lrl_verdicts now e ip l; denied = (\<not> all_allow ds)
     in (l\<lparr>pair_buckets := (pair_buckets l)\<lparr>wbm_buckets := family_step (pair_policy l) (e, ip) now denied (pair_map l)\<rparr>,
           email_buckets := (email_buckets l)\<lparr>wbm_buckets := family_step (email_policy l) e now denied (email_map l)\<rparr>,
           ip_buckets := (ip_buckets l)\<lparr>wbm_buckets := family_step (ip_policy l) ip now denied (ip_map l)\<rparr>\<rparr>,
         case longest_deny ds [KPair, KEmail, KIp] of None \<Rightarrow> LoginAllow | Some (r, k) \<Rightarrow> LoginDeny r k))"
proof -
  let ?l = "lrl_ready t_sweep l0" and ?e = "normalise_email email"
  have eq: "lrl_check t_sweep now email ip l0 =
    (let (pb, d1) = wbm_check (pair_policy ?l) (?e, ip) now (pair_buckets ?l);
         (eb, d2) = wbm_check (email_policy ?l) ?e now (email_buckets ?l);
         (ib, d3) = wbm_check (ip_policy ?l) ip now (ip_buckets ?l);
         l3 = ?l\<lparr>pair_buckets := pb, email_buckets := eb, ip_buckets := ib\<rparr>
     in case longest_deny [d1, d2, d3] [KPair, KEmail, KIp] of
          Some (retry, kind) \<Rightarrow>
            (l3\<lparr>pair_buckets := wbm_bump_deny (?e, ip) now (pair_buckets l3),
                email_buckets := wbm_bump_deny ?e now (email_buckets l3),
                ip_buckets := wbm_bump_deny ip now (ip_buckets l3)\<rparr>,
             LoginDeny retry kind)
        | None \<Rightarrow> (l3, LoginAllow))"
    using assms
    by (simp add: lrl_check_def lrl_ready_def longest_deny_def Let_def case_prod_beta split del: if_split)
  show ?thesis
  proof (cases "longest_deny (lrl_verdicts now ?e ip ?l) [KPair, KEmail, KIp]")
    case None
    then have "all_allow (lrl_verdicts now ?e ip ?l)"
      unfolding lrl_verdicts_def longest_deny_None .
    with None show ?thesis unfolding eq
      by (simp add: lrl_verdicts_def wbm_check_def family_step_def Let_def case_prod_beta)
  next
    case (Some rk)
    then have "longest_deny (lrl_verdicts now ?e ip ?l) [KPair, KEmail, KIp] \<noteq> None" by simp
    then have "\<not> all_allow (lrl_verdicts now ?e ip ?l)"
      unfolding lrl_verdicts_def longest_deny_None .
    with Some show ?thesis unfolding eq
      by (simp add: lrl_verdicts_def wbm_check_def wbm_bump_deny_def family_step_def Let_def case_prod_beta)
  qed
qed

section \<open>Budgets of the families\<close>

definition map_budget :: "window_policy \<Rightarrow> instant \<Rightarrow> ('k, windowed_bucket) dash \<Rightarrow> 'k \<Rightarrow> nat" where
  "map_budget p t0 m k = (case dash_get m k of None \<Rightarrow> wp_max p | Some b \<Rightarrow> win_budget p t0 b)"

lemma bump_budget [simp]: "win_budget p t0 (windowed_bump_deny now b) = win_budget p t0 b"
  by (simp add: win_budget_def windowed_bump_deny_def)

lemma family_step_get:
  "dash_get (family_step p k now denied m) k' =
     (if k' = k
      then Some ((if denied then windowed_bump_deny now else id)
             (fst (windowed_check p now (case dash_get m k of Some b \<Rightarrow> b | None \<Rightarrow> windowed_new now))))
      else dash_get m k')"
  by (simp add: family_step_def Let_def dash_modify_get window.check_get)

lemma family_step_ok [simp]: "dash_ok m \<Longrightarrow> dash_ok (family_step p k now denied m)"
  by (simp add: family_step_def Let_def)

lemma family_step_other: "k' \<noteq> k \<Longrightarrow> map_budget p t0 (family_step q k now denied m) k' = map_budget p t0 m k'"
  by (simp add: map_budget_def family_step_get)

lemma family_step_budget:
  assumes "t0 \<le> now" and "now < t0 + wp_window p" and "wp_max p \<le> u32_max"
  shows "(if snd (windowed_entry p k now m) = WinAllow then 1 else 0)
           + map_budget p t0 (family_step p k now denied m) k \<le> map_budget p t0 m k"
proof -
  let ?b = "case dash_get m k of Some b \<Rightarrow> b | None \<Rightarrow> windowed_new now"
  have "(if snd (windowed_check p now ?b) = WinAllow then 1 else 0)
      + win_budget p t0 (fst (windowed_check p now ?b)) \<le> win_budget p t0 ?b"
    using assms by (rule check_budget)
  moreover have "win_budget p t0 ?b = map_budget p t0 m k"
    using assms(1) by (simp add: map_budget_def win_budget_def windowed_new_def split: option.splits)
  ultimately show ?thesis
    by (simp add: map_budget_def family_step_get window.check_result split del: if_split)
      (simp split: if_splits)
qed

lemma family_spends:
  assumes "t0 \<le> now" and "now < t0 + wp_window p" and "wp_max p \<le> u32_max"
    and "allowed \<Longrightarrow> snd (windowed_entry p k now m) = WinAllow"
    and "map_budget p t0 m k \<le> map_budget p t0 m0 k"
  shows "(if allowed then 1 else 0) + map_budget p t0 (family_step p k now denied m) k \<le> map_budget p t0 m0 k"
  using family_step_budget [OF assms(1-3), of k m denied] assms(4,5) by (auto split: if_splits)

text \<open>The sweep drops only buckets whose next attempt starts a whole budget anyway.\<close>

lemma sweep_budget:
  assumes "dash_ok (wbm_buckets m)" and "t0 \<le> t" and "t < t0 + wp_window p"
  shows "map_budget p t0 (wbm_buckets (fst (wbm_sweep_idle t (wp_window p) m))) k \<le> map_budget p t0 (wbm_buckets m) k"
proof -
  have "\<not> t0 \<le> window_start b" if "\<not> t - window_start b < wp_window p" for b
    using that assms(2,3) by linarith
  then show ?thesis using assms(1)
    by (auto simp: map_budget_def wbm_sweep_idle_def Let_def dash_get_retain win_budget_def split: option.splits)
qed

lemma sweep_ok: "dash_ok (wbm_buckets m) \<Longrightarrow> dash_ok (wbm_buckets (fst (wbm_sweep_idle t w m)))"
  by (simp add: wbm_sweep_idle_def Let_def)

section \<open>The limiter's invariant\<close>

definition lrl_ok :: "login_rate_limiter \<Rightarrow> bool" where
  "lrl_ok l \<longleftrightarrow> dash_ok (pair_map l) \<and> dash_ok (email_map l) \<and> dash_ok (ip_map l)"

text \<open>The numbers of the policy never change.\<close>

definition same_limits :: "login_rate_limiter \<Rightarrow> login_rate_limiter \<Rightarrow> bool" where
  "same_limits l l' \<longleftrightarrow>
     pair_policy l = pair_policy l' \<and> email_policy l = email_policy l' \<and> ip_policy l = ip_policy l'"

lemma lrl_tick_maps:
  "pair_map (fst (lrl_tick l)) = pair_map l" "email_map (fst (lrl_tick l)) = email_map l"
  "ip_map (fst (lrl_tick l)) = ip_map l" "same_limits (fst (lrl_tick l)) l"
  by (simp_all add: lrl_tick_def Let_def case_prod_beta wbm_should_sweep_def same_limits_def
      pair_policy_def email_policy_def ip_policy_def)

lemma lrl_ready_limits: "same_limits (lrl_ready t l) l"
proof -
  have "same_limits (lrl_sweep_idle_buckets t l') l'" for l'
    by (simp add: lrl_sweep_idle_buckets_def same_limits_def pair_policy_def email_policy_def ip_policy_def)
  from this [of "fst (lrl_tick l)"] lrl_tick_maps(4) [of l] show ?thesis
    by (simp add: lrl_ready_def Let_def case_prod_beta same_limits_def)
qed

lemma lrl_ready_ok: "lrl_ok l \<Longrightarrow> lrl_ok (lrl_ready t l)"
  by (simp add: lrl_ok_def lrl_ready_def Let_def case_prod_beta lrl_sweep_idle_buckets_def
      lrl_tick_maps sweep_ok)

lemma lrl_ready_budget:
  assumes "lrl_ok l"
  shows "t0 \<le> t \<Longrightarrow> t < t0 + wp_window (pair_policy l) \<Longrightarrow> map_budget (pair_policy l) t0 (pair_map (lrl_ready t l)) pk \<le> map_budget (pair_policy l) t0 (pair_map l) pk"
    and "t0 \<le> t \<Longrightarrow> t < t0 + wp_window (email_policy l) \<Longrightarrow> map_budget (email_policy l) t0 (email_map (lrl_ready t l)) e \<le> map_budget (email_policy l) t0 (email_map l) e"
    and "t0 \<le> t \<Longrightarrow> t < t0 + wp_window (ip_policy l) \<Longrightarrow> map_budget (ip_policy l) t0 (ip_map (lrl_ready t l)) ip \<le> map_budget (ip_policy l) t0 (ip_map l) ip"
proof -
  have w: "lrl_pair_window (fst (lrl_tick l)) = wp_window (pair_policy l)"
      "lrl_email_window (fst (lrl_tick l)) = wp_window (email_policy l)"
      "lrl_ip_window (fst (lrl_tick l)) = wp_window (ip_policy l)"
    using lrl_tick_maps(4) [of l] by (simp_all add: same_limits_def pair_policy_def email_policy_def ip_policy_def)
  have ok: "dash_ok (pair_map (fst (lrl_tick l)))" "dash_ok (email_map (fst (lrl_tick l)))" "dash_ok (ip_map (fst (lrl_tick l)))"
    using assms by (simp_all add: lrl_tick_maps lrl_ok_def)
  show "t0 \<le> t \<Longrightarrow> t < t0 + wp_window (pair_policy l) \<Longrightarrow> map_budget (pair_policy l) t0 (pair_map (lrl_ready t l)) pk \<le> map_budget (pair_policy l) t0 (pair_map l) pk"
    and "t0 \<le> t \<Longrightarrow> t < t0 + wp_window (email_policy l) \<Longrightarrow> map_budget (email_policy l) t0 (email_map (lrl_ready t l)) e \<le> map_budget (email_policy l) t0 (email_map l) e"
    and "t0 \<le> t \<Longrightarrow> t < t0 + wp_window (ip_policy l) \<Longrightarrow> map_budget (ip_policy l) t0 (ip_map (lrl_ready t l)) ip \<le> map_budget (ip_policy l) t0 (ip_map l) ip"
    using sweep_budget [OF ok(1), of t0 t "pair_policy l" pk] sweep_budget [OF ok(2), of t0 t "email_policy l" e]
      sweep_budget [OF ok(3), of t0 t "ip_policy l" ip]
    by (simp_all add: lrl_ready_def Let_def case_prod_beta lrl_sweep_idle_buckets_def w lrl_tick_maps)
qed

text \<open>The state after a check of a remote address, and its verdict.\<close>

lemma lrl_check_state:
  fixes l0 :: login_rate_limiter and ts now :: instant and email :: string and ip :: ip_addr
  assumes "\<not> ip_is_loopback ip"
  defines "l \<equiv> lrl_ready ts l0" and "e \<equiv> normalise_email email"
  defines "l' \<equiv> fst (lrl_check ts now email ip l0)" and "denied \<equiv> \<not> all_allow (lrl_verdicts now e ip l)"
  shows "pair_map l' = family_step (pair_policy l0) (e, ip) now denied (pair_map l)"
    and "email_map l' = family_step (email_policy l0) e now denied (email_map l)"
    and "ip_map l' = family_step (ip_policy l0) ip now denied (ip_map l)"
    and "same_limits l' l0"
    and "(snd (lrl_check ts now email ip l0) = LoginAllow) = (\<not> denied)"
proof -
  have lim: "same_limits l l0" unfolding l_def by (rule lrl_ready_limits)
  then show "pair_map l' = family_step (pair_policy l0) (e, ip) now denied (pair_map l)"
    and "email_map l' = family_step (email_policy l0) e now denied (email_map l)"
    and "ip_map l' = family_step (ip_policy l0) ip now denied (ip_map l)"
    by (simp_all add: l'_def lrl_check_remote [OF assms(1)] Let_def l_def e_def denied_def same_limits_def)
  show "same_limits l' l0"
    using lim by (simp add: l'_def lrl_check_remote [OF assms(1)] Let_def l_def same_limits_def
        pair_policy_def email_policy_def ip_policy_def)
  have "longest_deny (lrl_verdicts now e ip l) [KPair, KEmail, KIp] = None \<longleftrightarrow> \<not> denied"
    unfolding denied_def lrl_verdicts_def longest_deny_None by simp
  then show "(snd (lrl_check ts now email ip l0) = LoginAllow) = (\<not> denied)"
    by (auto simp: lrl_check_remote [OF assms(1)] Let_def l_def e_def split: option.splits)
qed

lemma lrl_check_loopback: "ip_is_loopback ip \<Longrightarrow> lrl_check ts now email ip l = (l, LoginAllow)"
  by (simp add: lrl_check_def)

lemma lrl_check_ok:
  assumes "lrl_ok l"
  shows "lrl_ok (fst (lrl_check ts now email ip l))"
proof (cases "ip_is_loopback ip")
  case True
  with assms show ?thesis by (simp add: lrl_check_loopback)
next
  case False
  show ?thesis using lrl_ready_ok [OF assms, of ts] by (simp add: lrl_ok_def lrl_check_state [OF False])
qed

section \<open>Runs of logins\<close>

text \<open>An attempt carries its two clock readings; a successful login is followed by a reset.\<close>

datatype login_op = LoginCheck instant instant string ip_addr | LoginReset string ip_addr

fun lrl_step :: "login_op \<Rightarrow> login_rate_limiter \<Rightarrow> login_rate_limiter \<times> (string \<times> ip_addr \<times> login_decision) list" where
  "lrl_step (LoginCheck ts now email ip) l = (let (l', d) = lrl_check ts now email ip l in (l', [(email, ip, d)]))"
| "lrl_step (LoginReset email ip) l = (lrl_reset email ip l, [])"

fun lrl_run :: "login_op list \<Rightarrow> login_rate_limiter \<Rightarrow> login_rate_limiter \<times> (string \<times> ip_addr \<times> login_decision) list" where
  "lrl_run [] l = (l, [])"
| "lrl_run (op # ops) l =
     (let (l', out) = lrl_step op l; (l'', outs) = lrl_run ops l' in (l'', out @ outs))"

fun op_within :: "instant \<Rightarrow> duration \<Rightarrow> login_op \<Rightarrow> bool" where
  "op_within t0 w (LoginCheck ts now email ip) \<longleftrightarrow> t0 \<le> ts \<and> ts < t0 + w \<and> t0 \<le> now \<and> now < t0 + w"
| "op_within t0 w (LoginReset email ip) \<longleftrightarrow> True"

fun resets_email :: "string \<Rightarrow> login_op \<Rightarrow> bool" where
  "resets_email e (LoginCheck ts now email ip) \<longleftrightarrow> False"
| "resets_email e (LoginReset email ip) \<longleftrightarrow> normalise_email email = e"

definition admitted_ip :: "ip_addr \<Rightarrow> (string \<times> ip_addr \<times> login_decision) list \<Rightarrow> nat" where
  "admitted_ip ip outs = length (filter (\<lambda>(e, i, d). i = ip \<and> d = LoginAllow) outs)"

definition admitted_email :: "string \<Rightarrow> (string \<times> ip_addr \<times> login_decision) list \<Rightarrow> nat" where
  "admitted_email e outs =
     length (filter (\<lambda>(em, i, d). normalise_email em = e \<and> \<not> ip_is_loopback i \<and> d = LoginAllow) outs)"

lemma admitted_append [simp]:
  "admitted_ip ip (xs @ ys) = admitted_ip ip xs + admitted_ip ip ys"
  "admitted_email e (xs @ ys) = admitted_email e xs + admitted_email e ys"
  by (simp_all add: admitted_ip_def admitted_email_def)

lemma lrl_reset_ok: "lrl_ok l \<Longrightarrow> lrl_ok (lrl_reset email ip l)"
  by (simp add: lrl_ok_def lrl_reset_def Let_def wbm_reset_def)

lemma lrl_step_ok: "lrl_ok l \<Longrightarrow> lrl_ok (fst (lrl_step op l))"
  by (cases op) (simp_all add: Let_def case_prod_beta lrl_check_ok lrl_reset_ok)

lemma lrl_step_limits: "same_limits (fst (lrl_step op l)) l"
proof (cases op)
  case (LoginCheck ts now email ip)
  then show ?thesis
    using lrl_check_state(4) [of ip ts now email l] lrl_check_loopback [of ip ts now email l]
    by (cases "ip_is_loopback ip") (simp_all add: Let_def case_prod_beta same_limits_def)
next
  case (LoginReset email ip)
  then show ?thesis
    by (simp add: lrl_reset_def Let_def same_limits_def pair_policy_def email_policy_def ip_policy_def)
qed

text \<open>A quantity that every admitted attempt of a kind spends bounds the admissions of a run.\<close>

lemma lrl_run_spends:
  assumes "lrl_ok l" and "same_limits l l0"
    and "\<And>op l. lrl_ok l \<Longrightarrow> same_limits l l0 \<Longrightarrow> op \<in> set ops \<Longrightarrow>
           admitted (snd (lrl_step op l)) + B (fst (lrl_step op l)) \<le> B l"
    and "\<And>xs ys. admitted (xs @ ys) = admitted xs + (admitted ys :: nat)" and "admitted [] = 0"
  shows "admitted (snd (lrl_run ops l)) \<le> B l"
  using assms(1-3)
proof (induction ops arbitrary: l)
  case Nil
  then show ?case by (simp add: assms(5))
next
  case (Cons op ops)
  let ?l = "fst (lrl_step op l)"
  have "admitted (snd (lrl_run ops ?l)) \<le> B ?l"
  proof (rule Cons.IH)
    show "lrl_ok ?l" using Cons.prems(1) by (rule lrl_step_ok)
    show "same_limits ?l l0"
      using Cons.prems(2) lrl_step_limits [of op l] by (simp add: same_limits_def)
  qed (use Cons.prems(3) in simp)
  moreover have "admitted (snd (lrl_step op l)) + B ?l \<le> B l"
    using Cons.prems by simp
  ultimately show ?case by (simp add: Let_def case_prod_beta assms(4))
qed

lemma lrl_step_spends_ip:
  assumes "lrl_ok l" and "ip_policy l = p" and "wp_max p \<le> u32_max" and "op_within t0 (wp_window p) op"
    and "\<not> ip_is_loopback ip"
  shows "admitted_ip ip (snd (lrl_step op l)) + map_budget p t0 (ip_map (fst (lrl_step op l))) ip
           \<le> map_budget p t0 (ip_map l) ip"
proof (cases op)
  case (LoginCheck ts now email i)
  show ?thesis
  proof (cases "ip_is_loopback i")
    case True
    then show ?thesis using assms(5) by (auto simp: LoginCheck lrl_check_loopback admitted_ip_def)
  next
    case False
    let ?m = "ip_map (lrl_ready ts l)"
    have ready: "map_budget p t0 ?m ip \<le> map_budget p t0 (ip_map l) ip"
      using lrl_ready_budget(3) [OF assms(1), of t0 ts ip] assms(2,4) LoginCheck by simp
    note st = lrl_check_state(3,5) [OF False, of ts now email l]
    have pol: "ip_policy (lrl_ready ts l) = p"
      using lrl_ready_limits [of ts l] assms(2) by (simp add: same_limits_def)
    show ?thesis
    proof (cases "i = ip")
      case True
      have "snd (lrl_check ts now email i l) = LoginAllow \<Longrightarrow> snd (windowed_entry p i now ?m) = WinAllow"
        using st(2) pol by (simp add: lrl_verdicts_def all_allow_def)
      then have "(if snd (lrl_check ts now email i l) = LoginAllow then 1 else 0)
          + map_budget p t0 (ip_map (fst (lrl_check ts now email i l))) i \<le> map_budget p t0 (ip_map l) i"
        unfolding st(1) assms(2) using assms(3,4) ready LoginCheck True by (intro family_spends) simp_all
      then show ?thesis
        using LoginCheck True by (auto simp: Let_def case_prod_beta admitted_ip_def)
    next
      case other: False
      then show ?thesis
        using ready assms(2) LoginCheck st(1) by (simp add: Let_def case_prod_beta admitted_ip_def family_step_other)
    qed
  qed
next
  case (LoginReset email i)
  then show ?thesis by (simp add: admitted_ip_def lrl_reset_def Let_def)
qed

lemma lrl_step_spends_email:
  assumes "lrl_ok l" and "email_policy l = p" and "wp_max p \<le> u32_max" and "op_within t0 (wp_window p) op"
    and "\<not> resets_email e op"
  shows "admitted_email e (snd (lrl_step op l)) + map_budget p t0 (email_map (fst (lrl_step op l))) e
           \<le> map_budget p t0 (email_map l) e"
proof (cases op)
  case (LoginCheck ts now email i)
  show ?thesis
  proof (cases "ip_is_loopback i")
    case True
    then show ?thesis by (auto simp: LoginCheck lrl_check_loopback admitted_email_def)
  next
    case False
    let ?m = "email_map (lrl_ready ts l)"
    have ready: "map_budget p t0 ?m e \<le> map_budget p t0 (email_map l) e"
      using lrl_ready_budget(2) [OF assms(1), of t0 ts e] assms(2,4) LoginCheck by simp
    note st = lrl_check_state(2,5) [OF False, of ts now email l]
    have pol: "email_policy (lrl_ready ts l) = p"
      using lrl_ready_limits [of ts l] assms(2) by (simp add: same_limits_def)
    show ?thesis
    proof (cases "normalise_email email = e")
      case True
      have "snd (lrl_check ts now email i l) = LoginAllow \<Longrightarrow> snd (windowed_entry p e now ?m) = WinAllow"
        using st(2) pol True by (simp add: lrl_verdicts_def all_allow_def)
      then have "(if snd (lrl_check ts now email i l) = LoginAllow then 1 else 0)
          + map_budget p t0 (email_map (fst (lrl_check ts now email i l))) e \<le> map_budget p t0 (email_map l) e"
        unfolding st(1) assms(2) True using assms(3,4) ready LoginCheck by (intro family_spends) simp_all
      then show ?thesis
        using LoginCheck True False by (auto simp: Let_def case_prod_beta admitted_email_def)
    next
      case other: False
      then show ?thesis
        using ready assms(2) LoginCheck st(1) by (simp add: Let_def case_prod_beta admitted_email_def family_step_other)
    qed
  qed
next
  case (LoginReset email i)
  then show ?thesis using assms(5)
    by (simp add: admitted_email_def lrl_reset_def Let_def wbm_reset_def map_budget_def dash_get_remove)
qed

lemma lrl_fresh:
  "lrl_ok (lrl_with_policy p)" "pair_map (lrl_with_policy p) = []" "email_map (lrl_with_policy p) = []"
  "ip_map (lrl_with_policy p) = []"
  by (simp_all add: lrl_with_policy_def lrl_ok_def wbm_new_def wbm_with_sweep_every_def)

lemma lrl_fresh_policies:
  "wp_max (email_policy (lrl_with_policy p)) = lp_email_max p"
  "wp_window (email_policy (lrl_with_policy p)) = lp_email_window p"
  "wp_max (ip_policy (lrl_with_policy p)) = lp_ip_max p"
  "wp_window (ip_policy (lrl_with_policy p)) = lp_ip_window p"
  "wp_max (pair_policy (lrl_with_policy p)) = lp_pair_max p"
  "wp_window (pair_policy (lrl_with_policy p)) = lp_pair_window p"
  by (simp_all add: lrl_with_policy_def email_policy_def ip_policy_def pair_policy_def)

section \<open>Bursts\<close>

text \<open>\<open>j\<close> attempts were counted under key \<open>k\<close> in the window that began at \<open>now\<close>.\<close>

definition counted :: "window_policy \<Rightarrow> instant \<Rightarrow> ('k, windowed_bucket) dash \<Rightarrow> 'k \<Rightarrow> nat \<Rightarrow> bool" where
  "counted p now m k j \<longleftrightarrow>
     (case dash_get m k of None \<Rightarrow> j = 0 | Some b \<Rightarrow> window_start b = now \<and> w_count b = j)"

lemma counted_Nil [simp]: "counted p now [] k 0"
  by (simp add: counted_def)

lemma counted_step:
  assumes "counted p now m k j" and "0 < wp_window p" and "wp_max p \<le> u32_max" and "j \<le> wp_max p"
  shows "counted p now (family_step p k now denied m) k (min (Suc j) (wp_max p))"
    and "(snd (windowed_entry p k now m) = WinAllow) = (j < wp_max p)"
  using assms
  by (auto simp: counted_def family_step_get window.check_result windowed_check_def windowed_bump_deny_def
      windowed_new_def Let_def sat_add_def split: option.splits)

lemma counted_later:
  assumes "counted p t0 m k j" and "0 < j" and "t0 \<le> now" and "now < t0 + wp_window p" and "wp_max p \<le> j"
  shows "snd (windowed_entry p k now m) \<noteq> WinAllow"
proof -
  obtain b where b: "dash_get m k = Some b" "window_start b = t0" "w_count b = j"
    using assms(1,2) by (auto simp: counted_def split: option.splits)
  have "\<not> wp_window p \<le> now - t0" using assms(3,4) by linarith
  then show ?thesis using b assms(5) by (simp add: window.check_result windowed_check_def Let_def)
qed

lemma counted_sweep:
  assumes "dash_ok (wbm_buckets m)" and "counted p t0 (wbm_buckets m) k j" and "t < t0 + wp_window p"
    and "0 < wp_window p"
  shows "counted p t0 (wbm_buckets (fst (wbm_sweep_idle t (wp_window p) m))) k j"
proof -
  have "t - t0 < wp_window p" using assms(3,4) by linarith
  then show ?thesis using assms(1,2)
    by (auto simp: counted_def wbm_sweep_idle_def Let_def dash_get_retain split: option.splits)
qed

definition lrl_counted :: "login_rate_limiter \<Rightarrow> instant \<Rightarrow> string \<Rightarrow> ip_addr \<Rightarrow> nat \<Rightarrow> login_rate_limiter \<Rightarrow> bool" where
  "lrl_counted l0 now e ip j l \<longleftrightarrow> lrl_ok l \<and> same_limits l l0
     \<and> counted (pair_policy l0) now (pair_map l) (e, ip) (min j (wp_max (pair_policy l0)))
     \<and> counted (email_policy l0) now (email_map l) e (min j (wp_max (email_policy l0)))
     \<and> counted (ip_policy l0) now (ip_map l) ip (min j (wp_max (ip_policy l0)))"

definition sane_policy :: "window_policy \<Rightarrow> bool" where
  "sane_policy p \<longleftrightarrow> 0 < wp_window p \<and> 0 < wp_max p \<and> wp_max p \<le> u32_max"

lemma lrl_ready_counted:
  assumes "lrl_counted l0 t0 e ip j l" and "sane_policy (pair_policy l0)" and "sane_policy (email_policy l0)"
    and "sane_policy (ip_policy l0)"
    and "t < t0 + wp_window (pair_policy l0)" and "t < t0 + wp_window (email_policy l0)" and "t < t0 + wp_window (ip_policy l0)"
  shows "lrl_counted l0 t0 e ip j (lrl_ready t l)"
proof -
  let ?l = "fst (lrl_tick l)"
  have w: "lrl_pair_window ?l = wp_window (pair_policy l0)"
      "lrl_email_window ?l = wp_window (email_policy l0)"
      "lrl_ip_window ?l = wp_window (ip_policy l0)"
    using lrl_tick_maps(4) [of l] assms(1)
    by (simp_all add: lrl_counted_def same_limits_def pair_policy_def email_policy_def ip_policy_def)
  have ok: "dash_ok (pair_map ?l)" "dash_ok (email_map ?l)" "dash_ok (ip_map ?l)"
    using assms(1) by (simp_all add: lrl_tick_maps lrl_ok_def lrl_counted_def)
  note sw = counted_sweep [OF ok(1), of "pair_policy l0" t0 "(e, ip)" "min j (wp_max (pair_policy l0))" t]
    counted_sweep [OF ok(2), of "email_policy l0" t0 e "min j (wp_max (email_policy l0))" t]
    counted_sweep [OF ok(3), of "ip_policy l0" t0 ip "min j (wp_max (ip_policy l0))" t]
  have "counted (pair_policy l0) t0 (pair_map (lrl_ready t l)) (e, ip) (min j (wp_max (pair_policy l0)))
     \<and> counted (email_policy l0) t0 (email_map (lrl_ready t l)) e (min j (wp_max (email_policy l0)))
     \<and> counted (ip_policy l0) t0 (ip_map (lrl_ready t l)) ip (min j (wp_max (ip_policy l0)))"
    using sw assms
    by (simp add: lrl_ready_def Let_def case_prod_beta lrl_sweep_idle_buckets_def w lrl_tick_maps
        lrl_counted_def sane_policy_def)
  then show ?thesis
    using assms(1) lrl_ready_ok [of l t] lrl_ready_limits [of t l] by (simp add: lrl_counted_def same_limits_def)
qed

lemma lrl_check_counted:
  assumes "lrl_counted l0 now e ip j l" and "sane_policy (pair_policy l0)" and "sane_policy (email_policy l0)"
    and "sane_policy (ip_policy l0)" and "\<not> ip_is_loopback ip" and "normalise_email email = e"
  shows "lrl_counted l0 now e ip (Suc j) (fst (lrl_check now now email ip l))"
    and "(snd (lrl_check now now email ip l) = LoginAllow)
       = (j < wp_max (pair_policy l0) \<and> j < wp_max (email_policy l0) \<and> j < wp_max (ip_policy l0))"
proof -
  let ?l = "lrl_ready now l" and ?l' = "fst (lrl_check now now email ip l)"
  have ready: "lrl_counted l0 now e ip j ?l"
    using assms(2-4) by (intro lrl_ready_counted [OF assms(1-4)]) (simp_all add: sane_policy_def)
  have pol: "pair_policy ?l = pair_policy l0" "email_policy ?l = email_policy l0" "ip_policy ?l = ip_policy l0"
    using ready by (simp_all add: lrl_counted_def same_limits_def)
  have pol': "pair_policy l = pair_policy l0" "email_policy l = email_policy l0" "ip_policy l = ip_policy l0"
    using assms(1) by (simp_all add: lrl_counted_def same_limits_def)
  have c1: "counted (pair_policy l0) now (pair_map ?l) (e, ip) (min j (wp_max (pair_policy l0)))"
    and c2: "counted (email_policy l0) now (email_map ?l) e (min j (wp_max (email_policy l0)))"
    and c3: "counted (ip_policy l0) now (ip_map ?l) ip (min j (wp_max (ip_policy l0)))"
    using ready by (simp_all add: lrl_counted_def)
  have sane: "0 < wp_window q \<and> wp_max q \<le> u32_max" if "sane_policy q" for q
    using that by (simp add: sane_policy_def)
  note s1 = counted_step [OF c1] and s2 = counted_step [OF c2] and s3 = counted_step [OF c3]
  note st = lrl_check_state [OF assms(5), of now now email l, unfolded assms(6) pol']
  have suc: "min (Suc (min j n)) n = min (Suc j) n" for n by simp
  show "lrl_counted l0 now e ip (Suc j) ?l'"
    using s1(1) s2(1) s3(1) sane [OF assms(2)] sane [OF assms(3)] sane [OF assms(4)] st(1-4)
      lrl_check_ok [of l now now email ip] assms(1)
    by (simp add: lrl_counted_def same_limits_def suc)
  show "(snd (lrl_check now now email ip l) = LoginAllow)
       = (j < wp_max (pair_policy l0) \<and> j < wp_max (email_policy l0) \<and> j < wp_max (ip_policy l0))"
    unfolding st(5) using s1(2) s2(2) s3(2) sane [OF assms(2)] sane [OF assms(3)] sane [OF assms(4)]
    by (simp add: lrl_verdicts_def pol all_allow_def min_less_iff_disj conj_ac)
qed

lemma lrl_run_counted:
  assumes "lrl_counted l0 now e ip j l" and "sane_policy (pair_policy l0)" and "sane_policy (email_policy l0)"
    and "sane_policy (ip_policy l0)" and "\<not> ip_is_loopback ip" and "normalise_email email = e"
  shows "lrl_counted l0 now e ip (j + k) (fst (lrl_run (replicate k (LoginCheck now now email ip)) l))
       \<and> map (\<lambda>(_, _, d). d = LoginAllow) (snd (lrl_run (replicate k (LoginCheck now now email ip)) l))
         = map (\<lambda>i. i < wp_max (pair_policy l0) \<and> i < wp_max (email_policy l0) \<and> i < wp_max (ip_policy l0)) [j..<j + k]"
  using assms(1)
proof (induction k arbitrary: j l)
  case 0
  then show ?case by simp
next
  case (Suc k)
  let ?l = "fst (lrl_check now now email ip l)"
  note step = lrl_check_counted [OF Suc.prems assms(2-6)]
  show ?case
    using Suc.IH [OF step(1)] step(2) by (simp add: Let_def case_prod_beta upt_conv_Cons del: upt_Suc)
qed

lemma lrl_run_ok: "lrl_ok l \<Longrightarrow> lrl_ok (fst (lrl_run ops l)) \<and> same_limits (fst (lrl_run ops l)) l"
proof (induction ops arbitrary: l)
  case (Cons op ops)
  from Cons.IH [OF lrl_step_ok [OF Cons.prems, of op]] lrl_step_limits [of op l]
  show ?case by (simp add: Let_def case_prod_beta same_limits_def)
qed (simp add: same_limits_def)

lemma map_budget_two: "map_budget p t0 m k \<le> 2 * wp_max p"
  by (auto simp: map_budget_def win_budget_def split: option.split)

text \<open>
  The limiter starts with the policy \<open>p\<close> and has gone through the operations \<open>past\<close>, at whatever
  times: with none it is freshly started, and a running limiter may hold a window that began
  before \<open>t0\<close>, which ends inside the interval.
\<close>

definition lrl_after :: "login_op list \<Rightarrow> login_policy \<Rightarrow> login_rate_limiter" where
  "lrl_after past p = fst (lrl_run past (lrl_with_policy p))"

lemma email_budget_run:
  assumes "lp_email_max p \<le> u32_max"
    and "\<forall>op \<in> set ops. op_within t0 (lp_email_window p) op \<and> \<not> resets_email e op"
  shows "admitted_email e (snd (lrl_run ops (lrl_after past p))) \<le> (if past = [] then 1 else 2) * lp_email_max p"
proof -
  let ?l = "lrl_after past p" and ?p = "email_policy (lrl_with_policy p)"
  have start: "lrl_ok ?l" "same_limits ?l (lrl_with_policy p)"
    using lrl_run_ok [OF lrl_fresh(1), of past p] by (simp_all add: lrl_after_def)
  have "admitted_email e (snd (lrl_run ops ?l)) \<le> map_budget ?p t0 (email_map ?l) e"
  proof (rule lrl_run_spends [where l = ?l and ?l0.0 = "lrl_with_policy p" and B = "\<lambda>l. map_budget ?p t0 (email_map l) e"])
    show "admitted_email e (snd (lrl_step op l)) + map_budget ?p t0 (email_map (fst (lrl_step op l))) e
        \<le> map_budget ?p t0 (email_map l) e" if "lrl_ok l" "same_limits l (lrl_with_policy p)" "op \<in> set ops" for op l
      using that assms by (intro lrl_step_spends_email) (simp_all add: same_limits_def lrl_fresh_policies)
  qed (simp_all add: start admitted_email_def)
  also have "\<dots> \<le> (if past = [] then 1 else 2) * lp_email_max p"
    using map_budget_two [of ?p t0 "email_map ?l" e]
    by (simp add: lrl_after_def map_budget_def lrl_fresh lrl_fresh_policies)
  finally show ?thesis .
qed

section \<open>Properties\<close>

text \<open>
  Within one window a freshly started limiter admits at most \<open>ip_max\<close> attempts from a remote address,
  whatever emails they name, whenever the sweeps run, and however many successful logins
  reset the other two families in between.
\<close>

theorem login_ip_budget:
  assumes "lp_ip_max p \<le> u32_max" and "\<not> ip_is_loopback ip"
    and "\<forall>op \<in> set ops. op_within t0 (lp_ip_window p) op"
  shows "admitted_ip ip (snd (lrl_run ops (lrl_with_policy p))) \<le> lp_ip_max p"
proof -
  let ?l = "lrl_with_policy p" and ?p = "ip_policy (lrl_with_policy p)"
  have "admitted_ip ip (snd (lrl_run ops ?l)) \<le> map_budget ?p t0 (ip_map ?l) ip"
  proof (rule lrl_run_spends [where l = ?l and ?l0.0 = ?l and B = "\<lambda>l. map_budget ?p t0 (ip_map l) ip"])
    show "same_limits ?l ?l" by (simp add: same_limits_def)
    show "admitted_ip ip (snd (lrl_step op l)) + map_budget ?p t0 (ip_map (fst (lrl_step op l))) ip
        \<le> map_budget ?p t0 (ip_map l) ip" if "lrl_ok l" "same_limits l ?l" "op \<in> set ops" for op l
      using that assms by (intro lrl_step_spends_ip) (simp_all add: same_limits_def lrl_fresh_policies)
  qed (simp_all add: lrl_fresh admitted_ip_def)
  then show ?thesis by (simp add: map_budget_def lrl_fresh lrl_fresh_policies)
qed

lemma login_ip_budget_witness:
  "admitted_ip (V4 (IPv4 9 9 9 9)) (snd (lrl_run
     [LoginCheck 10 11 ''a@b'' (V4 (IPv4 9 9 9 9)), LoginReset ''a@b'' (V4 (IPv4 9 9 9 9)),
      LoginCheck 20 21 ''c@d'' (V4 (IPv4 9 9 9 9))] lrl_new)) \<le> 50"
  unfolding lrl_new_def
  using login_ip_budget [of default_login_policy "V4 (IPv4 9 9 9 9)"
      "[LoginCheck 10 11 ''a@b'' (V4 (IPv4 9 9 9 9)), LoginReset ''a@b'' (V4 (IPv4 9 9 9 9)),
        LoginCheck 20 21 ''c@d'' (V4 (IPv4 9 9 9 9))]" 10]
  by (simp add: default_login_policy_def u32_max_def ns_per_sec_def)

text \<open>
  C11: In any interval of the length of the email window the limiter admits at most \<open>email_max\<close>
  attempts on an email from all remote addresses together when it was freshly started, and at most
  twice as many when it is running, whatever came before, as the interval may meet two of its fixed
  windows. Every spelling that normalises to the email counts, and no login on that email succeeds
  in the interval; attempts from loopback addresses are not limited and not counted.
\<close>

theorem login_email_budget:
  assumes "lp_email_max p \<le> u32_max"
    and "\<forall>op \<in> set ops. op_within t0 (lp_email_window p) op \<and> \<not> resets_email e op"
  shows "admitted_email e (snd (lrl_run ops (lrl_after past p))) \<le> (if past = [] then 1 else 2) * lp_email_max p"
  using assms by (rule email_budget_run)

lemma login_email_budget_witness:
  "admitted_email ''a@b'' (snd (lrl_run
     [LoginCheck 10 11 ''a@b'' (V4 (IPv4 9 9 9 9)), LoginCheck 20 21 '' A@b'' (V4 (IPv4 8 9 9 9))]
     (lrl_after [LoginCheck 1 2 ''a@b'' (V4 (IPv4 9 9 9 9))] default_login_policy))) \<le> 40"
  using login_email_budget [of default_login_policy
      "[LoginCheck 10 11 ''a@b'' (V4 (IPv4 9 9 9 9)), LoginCheck 20 21 '' A@b'' (V4 (IPv4 8 9 9 9))]" 10 "''a@b''"
      "[LoginCheck 1 2 ''a@b'' (V4 (IPv4 9 9 9 9))]"]
  by (simp add: default_login_policy_def u32_max_def ns_per_sec_def)

text \<open>
  A burst of attempts on one email from one address on a fresh limiter: exactly the first
  \<open>min pair_max (min email_max ip_max)\<close> pass. The attempts that the pair bucket refuses still
  spend the email's budget: once \<open>email_max\<close> attempts were made, whoever tries the email from any
  other remote address within the window is refused.
\<close>

theorem login_lockout:
  assumes "sane_policy (pair_policy (lrl_with_policy p))" and "sane_policy (email_policy (lrl_with_policy p))"
    and "sane_policy (ip_policy (lrl_with_policy p))"
    and "\<not> ip_is_loopback ip" and "\<not> ip_is_loopback ip'" and "normalise_email email' = normalise_email email"
    and "lp_email_max p \<le> k"
    and "now \<le> later" and "later < now + lp_email_window p"
    and "ts < now + lp_pair_window p" and "ts < now + lp_email_window p" and "ts < now + lp_ip_window p"
  shows "map (\<lambda>(_, _, d). d = LoginAllow) (snd (lrl_run (replicate k (LoginCheck now now email ip)) (lrl_with_policy p)))
           = map (\<lambda>i. i < min (lp_pair_max p) (min (lp_email_max p) (lp_ip_max p))) [0..<k]
       \<and> snd (lrl_check ts later email' ip' (fst (lrl_run (replicate k (LoginCheck now now email ip)) (lrl_with_policy p)))) \<noteq> LoginAllow"
proof
  let ?init = "lrl_with_policy p" and ?e = "normalise_email email"
  let ?l = "fst (lrl_run (replicate k (LoginCheck now now email ip)) ?init)"
  have start: "lrl_counted ?init now ?e ip 0 ?init"
    by (simp add: lrl_counted_def lrl_fresh same_limits_def)
  note run = lrl_run_counted [OF start assms(1-4) refl, of k]
  from run show "map (\<lambda>(_, _, d). d = LoginAllow) (snd (lrl_run (replicate k (LoginCheck now now email ip)) ?init))
           = map (\<lambda>i. i < min (lp_pair_max p) (min (lp_email_max p) (lp_ip_max p))) [0..<k]"
    by (simp add: lrl_fresh_policies)
  have "lrl_counted ?init now ?e ip k (lrl_ready ts ?l)"
    using run assms(10-12) by (intro lrl_ready_counted [OF _ assms(1-3)]) (simp_all add: lrl_fresh_policies)
  then have cnt: "counted (email_policy ?init) now (email_map (lrl_ready ts ?l)) ?e (lp_email_max p)"
    and pol: "email_policy (lrl_ready ts ?l) = email_policy ?init"
    using assms(7) by (simp_all add: lrl_counted_def same_limits_def lrl_fresh_policies)
  have "snd (windowed_entry (email_policy ?init) ?e later (email_map (lrl_ready ts ?l))) \<noteq> WinAllow"
    using assms(2,8,9) by (intro counted_later [OF cnt]) (simp_all add: lrl_fresh_policies sane_policy_def)
  then show "snd (lrl_check ts later email' ip' ?l) \<noteq> LoginAllow"
    unfolding lrl_check_state(5) [OF assms(5)] assms(6)
    by (simp add: lrl_verdicts_def all_allow_def pol)
qed

lemma login_lockout_witness:
  "map (\<lambda>(_, _, d). d = LoginAllow) (snd (lrl_run (replicate 20 (LoginCheck 0 0 ''a@b'' (V4 (IPv4 6 6 6 6)))) lrl_new))
     = replicate 5 True @ replicate 15 False
   \<and> snd (lrl_check 1 (secs 800) ''a@b'' (V4 (IPv4 7 7 7 7))
        (fst (lrl_run (replicate 20 (LoginCheck 0 0 ''a@b'' (V4 (IPv4 6 6 6 6)))) lrl_new))) \<noteq> LoginAllow"
proof -
  have "map (\<lambda>i. i < (5::nat)) [0..<20] = replicate 5 True @ replicate 15 False"
    by (simp add: upt_rec_numeral numeral_eq_Suc)
  then show ?thesis
    unfolding lrl_new_def
    using login_lockout [of default_login_policy "V4 (IPv4 6 6 6 6)" "V4 (IPv4 7 7 7 7)" "''a@b''" "''a@b''" 20 0 "secs 800" 1]
    by (simp add: lrl_with_policy_def pair_policy_def email_policy_def ip_policy_def sane_policy_def
        default_login_policy_def u32_max_def ns_per_sec_def)
qed

end
