(* ===== verification/Ip_Rate_Limit.thy ===== *)
theory Ip_Rate_Limit
  imports Buckets Rust_Str Ip_Addr
begin

text \<open>
  The per-source-IP rate limiter (\<open>crates/nagent-server/src/rate_limit.rs\<close>), the resolution
  of the client address behind a trusted proxy, and the two \<open>/v1\<close> middlewares that use them
  (\<open>http/llm_guards.rs\<close>).

  Parameters: \<open>rnd\<close>, the rounding of \<open>f64\<close>; \<open>net_contains\<close>, the membership test of the
  \<open>ipnet\<close> crate. A header is read as
  \<open>None\<close> when absent and \<open>Some None\<close> when its bytes are not text. Clock reads are arguments.
\<close>

section \<open>The limiter\<close>

record rate_limit_policy =
  tokens_per_minute :: nat

definition refill_per_ms :: "(rat \<Rightarrow> rat) \<Rightarrow> rate_limit_policy \<Rightarrow> rat" where
  "refill_per_ms rnd p =
     (if tokens_per_minute p = 0 then 0 else rnd (of_nat (tokens_per_minute p) / 60000))"

datatype rate_limit_error = Limited ip_addr nat

record rate_limiter =
  rl_policy :: rate_limit_policy
  rl_buckets :: "ip_addr token_bucket_map"

definition rate_limiter_new :: "rate_limit_policy \<Rightarrow> rate_limiter" where
  "rate_limiter_new p = \<lparr>rl_policy = p, rl_buckets = tbm_new\<rparr>"

definition sweep_idle_buckets_inner :: "instant \<Rightarrow> duration \<Rightarrow> rate_limiter \<Rightarrow> rate_limiter" where
  "sweep_idle_buckets_inner now idle_for rl =
     rl\<lparr>rl_buckets :=
       fst (tbm_sweep_idle now idle_for (of_nat (tokens_per_minute (rl_policy rl))) (rl_buckets rl))\<rparr>"

text \<open>The sweep reads the clock on its own (\<open>t_sweep\<close>), before the check does (\<open>now\<close>).\<close>

definition rl_check ::
  "(rat \<Rightarrow> rat) \<Rightarrow> instant \<Rightarrow> instant \<Rightarrow> ip_addr \<Rightarrow> rate_limiter
     \<Rightarrow> rate_limiter \<times> (rate_limit_error + unit)" where
  "rl_check rnd t_sweep now ip rl =
     (if ip_is_loopback ip then (rl, Inr ())
      else
        (let (bs, due) = tbm_should_sweep (rl_buckets rl);
             rl1 = rl\<lparr>rl_buckets := bs\<rparr>;
             rl2 = (if due then sweep_idle_buckets_inner t_sweep (secs 60) rl1 else rl1);
             cap = of_nat (tokens_per_minute (rl_policy rl));
             refill = refill_per_ms rnd (rl_policy rl);
             (bs', d) = tbm_try_consume rnd ip cap refill now (rl_buckets rl2);
             rl3 = rl2\<lparr>rl_buckets := bs'\<rparr>
         in case d of
              TokenAllow \<Rightarrow> (rl3, Inr ())
            | TokenDeny retry_after \<Rightarrow>
                (rl3, Inl (Limited ip (min (as_millis retry_after) u64_max)))))"

definition rl_check_opt ::
  "(rat \<Rightarrow> rat) \<Rightarrow> instant \<Rightarrow> instant \<Rightarrow> ip_addr option \<Rightarrow> rate_limiter
     \<Rightarrow> rate_limiter \<times> (rate_limit_error + unit)" where
  "rl_check_opt rnd t_sweep now oip rl =
     (case oip of Some ip \<Rightarrow> rl_check rnd t_sweep now ip rl | None \<Rightarrow> (rl, Inr ()))"

section \<open>The client address\<close>

record 'net trusted_proxies =
  tp_cidrs :: "'net list"
  tp_loopback_bypass :: bool

definition is_trusted :: "('net \<Rightarrow> ip_addr \<Rightarrow> bool) \<Rightarrow> 'net trusted_proxies \<Rightarrow> ip_addr \<Rightarrow> bool" where
  "is_trusted net_contains tp ip = list_ex (\<lambda>net. net_contains net ip) (tp_cidrs tp)"

definition loopback_is_bypassed :: "'net trusted_proxies \<Rightarrow> ip_addr \<Rightarrow> bool" where
  "loopback_is_bypassed tp ip \<longleftrightarrow> tp_loopback_bypass tp \<and> ip_is_loopback ip"

definition resolve_client_ip ::
  "('net \<Rightarrow> ip_addr \<Rightarrow> bool) \<Rightarrow> string option option \<Rightarrow> ip_addr
     \<Rightarrow> 'net trusted_proxies \<Rightarrow> ip_addr" where
  "resolve_client_ip net_contains forwarded_for peer trusted =
     (if \<not> is_trusted net_contains trusted peer then peer
      else case forwarded_for of
        None \<Rightarrow> peer
      | Some raw \<Rightarrow>
          (case raw of
             None \<Rightarrow> peer
           | Some s \<Rightarrow>
               (let first = trim (hd (split_char CHR '','' s))
                in case parse_ip first of Some parsed \<Rightarrow> parsed | None \<Rightarrow> peer)))"

section \<open>The two middlewares\<close>

datatype guard_response = Next | TooManyRequests nat | Unauthorized

definition div_ceil :: "nat \<Rightarrow> nat \<Rightarrow> nat" where
  "div_ceil a b = (if a mod b = 0 then a div b else a div b + 1)"

definition llm_rate_limit_middleware ::
  "(rat \<Rightarrow> rat) \<Rightarrow> instant \<Rightarrow> instant \<Rightarrow> ip_addr option \<Rightarrow> rate_limiter
     \<Rightarrow> rate_limiter \<times> guard_response" where
  "llm_rate_limit_middleware rnd t_sweep now peer rl =
     (case peer of
        None \<Rightarrow> (rl, Next)
      | Some addr \<Rightarrow>
          (case rl_check rnd t_sweep now addr rl of
             (rl', Inr _) \<Rightarrow> (rl', Next)
           | (rl', Inl (Limited _ retry_after_ms)) \<Rightarrow>
               (rl', TooManyRequests (max (div_ceil retry_after_ms 1000) 1))))"

datatype llm_auth_mode = Bearer | Forward | Disabled

record llm_auth_config =
  auth_mode :: llm_auth_mode
  inbound_auth_key :: "string option"

definition or_bytes :: "8 word \<Rightarrow> char \<times> char \<Rightarrow> 8 word" where
  "or_bytes acc xy = (acc OR (of_char (fst xy) XOR of_char (snd xy)))"

definition constant_time_eq :: "string \<Rightarrow> string \<Rightarrow> bool" where
  "constant_time_eq a b =
     (if length a \<noteq> length b then False else foldl or_bytes 0 (zip a b) = 0)"

definition llm_auth_middleware :: "llm_auth_config option \<Rightarrow> string option \<Rightarrow> guard_response" where
  "llm_auth_middleware cfg header_value =
     (case cfg of
        None \<Rightarrow> Next
      | Some c \<Rightarrow>
          if auth_mode c \<noteq> Bearer then Next
          else (case inbound_auth_key c of
                  None \<Rightarrow> Next
                | Some expected \<Rightarrow>
                    (let presented =
                       (case header_value of
                          None \<Rightarrow> None
                        | Some h \<Rightarrow> (case strip_prefix ''Bearer '' h of
                                       Some k \<Rightarrow> Some k
                                     | None \<Rightarrow> strip_prefix ''bearer '' h))
                     in case presented of
                          Some key \<Rightarrow> if constant_time_eq key expected then Next else Unauthorized
                        | None \<Rightarrow> Unauthorized)))"

section \<open>The limiter's invariant\<close>

definition rl_touched :: "rate_limiter \<Rightarrow> bool" where
  "rl_touched rl \<longleftrightarrow>
     dash_ok (tbm_buckets (rl_buckets rl))
     \<and> dash_all (\<lambda>b. tokens b < of_nat (tokens_per_minute (rl_policy rl))) (tbm_buckets (rl_buckets rl))"

lemma sweep_inner_touched:
  assumes "rl_touched rl"
  shows "sweep_idle_buckets_inner now idle rl = rl"
proof -
  have "dash_retain (\<lambda>_ b. should_keep_during_idle_eviction now (tb_last_update b) idle
            \<or> tokens b < of_nat (tokens_per_minute (rl_policy rl))) (tbm_buckets (rl_buckets rl))
      = tbm_buckets (rl_buckets rl)"
    using assms by (intro dash_retain_all) (auto simp: rl_touched_def dash_all_def list_all_iff)
  then show ?thesis
    by (simp add: sweep_idle_buckets_inner_def tbm_sweep_idle_def Let_def)
qed

text \<open>With a touched limiter a check is the sweep clock's tick and one bucket's step.\<close>

definition rl_bucket_step ::
  "(rat \<Rightarrow> rat) \<Rightarrow> instant \<Rightarrow> ip_addr \<Rightarrow> rate_limiter \<Rightarrow> (ip_addr, token_bucket) dash \<times> token_decision" where
  "rl_bucket_step rnd now ip rl =
     token_entry rnd (of_nat (tokens_per_minute (rl_policy rl))) (refill_per_ms rnd (rl_policy rl))
       ip now (tbm_buckets (rl_buckets rl))"

lemma rl_check_touched:
  assumes "rl_touched rl" and "\<not> ip_is_loopback ip"
  shows "tbm_buckets (rl_buckets (fst (rl_check rnd t_sweep now ip rl))) = fst (rl_bucket_step rnd now ip rl)"
    and "rl_policy (fst (rl_check rnd t_sweep now ip rl)) = rl_policy rl"
    and "(snd (rl_check rnd t_sweep now ip rl) = Inr ()) = (snd (rl_bucket_step rnd now ip rl) = TokenAllow)"
proof -
  let ?rl1 = "rl\<lparr>rl_buckets := fst (tbm_should_sweep (rl_buckets rl))\<rparr>"
  have "rl_touched ?rl1"
    using assms(1) by (simp add: rl_touched_def tbm_should_sweep_def case_prod_beta)
  then have "sweep_idle_buckets_inner t_sweep (secs 60) ?rl1 = ?rl1"
    by (rule sweep_inner_touched)
  then have "rl_check rnd t_sweep now ip rl =
      (let (bs', d) = tbm_try_consume rnd ip (of_nat (tokens_per_minute (rl_policy rl)))
                        (refill_per_ms rnd (rl_policy rl)) now (rl_buckets ?rl1);
           rl3 = ?rl1\<lparr>rl_buckets := bs'\<rparr>
       in case d of TokenAllow \<Rightarrow> (rl3, Inr ())
          | TokenDeny retry_after \<Rightarrow> (rl3, Inl (Limited ip (min (as_millis retry_after) u64_max))))"
    using assms(2) by (auto simp: rl_check_def Let_def case_prod_beta split: token_decision.splits)
  then show "tbm_buckets (rl_buckets (fst (rl_check rnd t_sweep now ip rl))) = fst (rl_bucket_step rnd now ip rl)"
    and "rl_policy (fst (rl_check rnd t_sweep now ip rl)) = rl_policy rl"
    and "(snd (rl_check rnd t_sweep now ip rl) = Inr ()) = (snd (rl_bucket_step rnd now ip rl) = TokenAllow)"
    by (simp_all add: Let_def case_prod_beta tbm_should_sweep_def tbm_try_consume_def
        rl_bucket_step_def split: token_decision.splits)
qed

lemma rl_check_loopback: "ip_is_loopback ip \<Longrightarrow> rl_check rnd ts now ip rl = (rl, Inr ())"
  by (simp add: rl_check_def)

lemma rl_check_policy:
  assumes "rl_touched rl"
  shows "rl_policy (fst (rl_check rnd ts now ip rl)) = rl_policy rl"
  using rl_check_touched(2) [OF assms] rl_check_loopback [of ip rnd ts now rl] by (cases "ip_is_loopback ip") auto

lemma rl_check_keys:
  assumes "rl_touched rl"
  shows "fst ` set (tbm_buckets (rl_buckets (fst (rl_check rnd ts now ip rl)))) =
        fst ` set (tbm_buckets (rl_buckets rl)) \<union> (if ip_is_loopback ip then {} else {ip})"
  using rl_check_touched(1) [OF assms, of ip rnd ts now] rl_check_loopback [of ip rnd ts now rl]
  by (auto simp: rl_bucket_step_def token_entry_def dash_entry_def Let_def case_prod_beta dom_update)

context f64_rounding
begin

lemma rl_check_keeps_touched:
  assumes "rl_touched rl" and "1 \<le> tokens_per_minute (rl_policy rl)" and "tokens_per_minute (rl_policy rl) \<le> u32_max"
  shows "rl_touched (fst (rl_check rnd t_sweep now ip rl))"
proof (cases "ip_is_loopback ip")
  case True
  then show ?thesis using assms(1) by (simp add: rl_check_def)
next
  case False
  let ?n = "tokens_per_minute (rl_policy rl)" and ?m = "tbm_buckets (rl_buckets rl)"
  let ?b = "case dash_get ?m ip of Some b \<Rightarrow> b | None \<Rightarrow> token_full (of_nat ?n) now"
  have step: "tokens (fst (token_try_consume rnd (of_nat ?n) r now b)) < of_nat ?n" for r b
    using consume_below_capacity [of "int ?n" r now b] assms(2,3) by (simp add: u32_max_def)
  have "dash_all (\<lambda>b. tokens b < of_nat ?n) (fst (rl_bucket_step rnd now ip rl))"
    using assms(1) step
    by (auto simp: rl_bucket_step_def token_entry_def dash_entry_def Let_def case_prod_beta rl_touched_def
        intro!: dash_all_put)
  moreover have "dash_ok (fst (rl_bucket_step rnd now ip rl))"
    using assms(1) by (simp add: rl_bucket_step_def token_entry_def rl_touched_def)
  ultimately show ?thesis
    using rl_check_touched [OF assms(1) False] by (simp add: rl_touched_def)
qed

text \<open>A bucket that holds \<open>j\<close> whole tokens at the instant of the check.\<close>

lemma whole_token_step:
  assumes "j \<le> n" and "n \<le> u32_max" and "b = \<lparr>tokens = of_nat j, tb_last_update = now\<rparr>"
  shows "fst (token_try_consume rnd (of_nat n) r now b) = \<lparr>tokens = of_nat (j - 1), tb_last_update = now\<rparr>"
    and "(snd (token_try_consume rnd (of_nat n) r now b) = TokenAllow) = (0 < j)"
proof -
  have small: "j \<le> 2 ^ 53" using assms(1,2) by (simp add: u32_max_def)
  have exact: "rnd (of_nat i) = of_nat i" if "i \<le> j" for i
    using rnd_int [of "int i"] that small by simp
  have z: "as_secs_f64 rnd 0 = 0" by (simp add: as_secs_f64_def)
  have "min (rnd (of_nat j)) (of_nat n) = (of_nat j :: rat)"
    using assms(1) exact by simp
  moreover have "rnd (of_nat j - 1) = of_nat (j - 1)" if "0 < j"
    using exact [of "j - 1"] that by (simp add: of_nat_diff)
  ultimately show "fst (token_try_consume rnd (of_nat n) r now b) = \<lparr>tokens = of_nat (j - 1), tb_last_update = now\<rparr>"
    and "(snd (token_try_consume rnd (of_nat n) r now b) = TokenAllow) = (0 < j)"
    using assms(3) by (auto simp: token_try_consume_def Let_def z)
qed

end

section \<open>Runs of checks\<close>

fun rl_run ::
  "(rat \<Rightarrow> rat) \<Rightarrow> (instant \<times> instant \<times> ip_addr) list \<Rightarrow> rate_limiter
     \<Rightarrow> rate_limiter \<times> (rate_limit_error + unit) list" where
  "rl_run rnd [] rl = (rl, [])"
| "rl_run rnd ((t_sweep, now, ip) # ops) rl =
     (let (rl', r) = rl_check rnd t_sweep now ip rl; (rl'', rs) = rl_run rnd ops rl' in (rl'', r # rs))"

definition remote_ips :: "(instant \<times> instant \<times> ip_addr) list \<Rightarrow> ip_addr list" where
  "remote_ips ops = filter (\<lambda>ip. \<not> ip_is_loopback ip) (map (snd \<circ> snd) ops)"

lemma rl_new_touched: "rl_touched (rate_limiter_new p)"
  by (simp add: rl_touched_def rate_limiter_new_def tbm_new_def tbm_with_sweep_every_def)

context f64_rounding
begin

lemma rl_run_touched:
  assumes "rl_touched rl" and "1 \<le> tokens_per_minute (rl_policy rl)" and "tokens_per_minute (rl_policy rl) \<le> u32_max"
  shows "rl_touched (fst (rl_run rnd ops rl))"
    and "fst ` set (tbm_buckets (rl_buckets (fst (rl_run rnd ops rl))))
       = fst ` set (tbm_buckets (rl_buckets rl)) \<union> set (remote_ips ops)"
  using assms
proof (induction ops arbitrary: rl)
  case Nil
  {
    case 1
    then show ?case by simp
  next
    case 2
    then show ?case by (simp add: remote_ips_def)
  }
next
  case (Cons op ops)
  obtain ts now ip where op: "op = (ts, now, ip)" by (cases op)
  {
    case 1
    let ?rl = "fst (rl_check rnd ts now ip rl)"
    have "rl_touched (fst (rl_run rnd ops ?rl))"
      using 1 rl_check_policy [OF 1(1)] rl_check_keeps_touched [of rl ts now ip] by (intro Cons.IH(1)) simp_all
    then show ?case by (simp add: op Let_def case_prod_beta)
  next
    case 2
    let ?rl = "fst (rl_check rnd ts now ip rl)"
    have "fst ` set (tbm_buckets (rl_buckets (fst (rl_run rnd ops ?rl))))
       = fst ` set (tbm_buckets (rl_buckets ?rl)) \<union> set (remote_ips ops)"
      using 2 rl_check_policy [OF 2(1)] rl_check_keeps_touched [of rl ts now ip] by (intro Cons.IH(2)) simp_all
    then show ?case using rl_check_keys [OF 2(1), of rnd ts now ip]
      by (auto simp: op Let_def case_prod_beta remote_ips_def)
  }
qed

lemma rl_run_burst:
  assumes "rl_touched rl" and "rl_policy rl = \<lparr>tokens_per_minute = n\<rparr>" and "1 \<le> n" and "n \<le> u32_max"
    and "\<not> ip_is_loopback ip" and "j \<le> n"
    and "(case dash_get (tbm_buckets (rl_buckets rl)) ip of Some b \<Rightarrow> b | None \<Rightarrow> token_full (of_nat n) now)
         = \<lparr>tokens = of_nat j, tb_last_update = now\<rparr>"
  shows "map (\<lambda>r. r = Inr ()) (snd (rl_run rnd (replicate k (ts, now, ip)) rl)) = map (\<lambda>i. i < j) [0..<k]"
  using assms
proof (induction k arbitrary: rl j)
  case 0
  then show ?case by simp
next
  case (Suc k)
  let ?rl = "fst (rl_check rnd ts now ip rl)"
  have step: "rl_bucket_step rnd now ip rl = dash_entry (token_full (of_nat n) now)
      (token_try_consume rnd (of_nat n) (refill_per_ms rnd (rl_policy rl)) now) ip (tbm_buckets (rl_buckets rl))"
    using Suc.prems(2) by (simp add: rl_bucket_step_def token_entry_def)
  note tok = whole_token_step [OF Suc.prems(6,4) Suc.prems(7), of "refill_per_ms rnd (rl_policy rl)"]
  have dec: "(snd (rl_check rnd ts now ip rl) = Inr ()) = (0 < j)"
    unfolding rl_check_touched(3) [OF Suc.prems(1,5)] step by (simp add: dash_entry_result tok)
  have get: "dash_get (tbm_buckets (rl_buckets ?rl)) ip = Some \<lparr>tokens = of_nat (j - 1), tb_last_update = now\<rparr>"
    unfolding rl_check_touched(1) [OF Suc.prems(1,5)] step by (simp add: dash_entry_get tok)
  have "map (\<lambda>r. r = Inr ()) (snd (rl_run rnd (replicate k (ts, now, ip)) ?rl)) = map (\<lambda>i. i < j - 1) [0..<k]"
    using Suc.prems rl_check_touched(2) [OF Suc.prems(1,5)] get rl_check_keeps_touched [OF Suc.prems(1), of ts now ip]
    by (intro Suc.IH) simp_all
  also have "\<dots> = map (\<lambda>i. i < j) [Suc 0..<Suc k]"
    unfolding map_Suc_upt [symmetric] by auto
  finally show ?case
    using dec by (simp add: Let_def case_prod_beta upt_conv_Cons del: upt_Suc)
qed

end

section \<open>Properties\<close>

text \<open>
  With a positive budget the eviction sweep never removes a bucket: after any run of
  checks, whatever the clock says, a sweep leaves the limiter as it is, and the map holds one
  bucket for every remote address ever seen.
\<close>

theorem rl_sweep_never_evicts:
  assumes "1 \<le> n" and "n \<le> u32_max"
  shows "sweep_idle_buckets_inner t (secs 60) (fst (rl_run f64_round ops (rate_limiter_new \<lparr>tokens_per_minute = n\<rparr>)))
           = fst (rl_run f64_round ops (rate_limiter_new \<lparr>tokens_per_minute = n\<rparr>))
       \<and> length (tbm_buckets (rl_buckets (fst (rl_run f64_round ops (rate_limiter_new \<lparr>tokens_per_minute = n\<rparr>)))))
           = card (set (remote_ips ops))"
proof -
  let ?rl = "rate_limiter_new \<lparr>tokens_per_minute = n\<rparr>"
  have pol: "1 \<le> tokens_per_minute (rl_policy ?rl)" "tokens_per_minute (rl_policy ?rl) \<le> u32_max"
    using assms by (simp_all add: rate_limiter_new_def)
  note run = f64.rl_run_touched [OF rl_new_touched pol, of ops]
  have empty: "tbm_buckets (rl_buckets ?rl) = []"
    by (simp add: rate_limiter_new_def tbm_new_def tbm_with_sweep_every_def)
  show ?thesis
    using sweep_inner_touched [OF run(1)] run distinct_card [of "map fst (tbm_buckets (rl_buckets (fst (rl_run f64_round ops ?rl))))"]
    by (simp add: rl_touched_def dash_ok_def empty)
qed

lemma rl_sweep_never_evicts_witness:
  "length (tbm_buckets (rl_buckets (fst (rl_run f64_round
      [(0, 0, V4 (IPv4 1 1 1 1)), (5, 5, V4 (IPv4 2 2 2 2))] (rate_limiter_new \<lparr>tokens_per_minute = 3\<rparr>))))) = 2"
proof -
  have "(1::nat) \<le> 3" "(3::nat) \<le> u32_max" by (simp_all add: u32_max_def)
  from rl_sweep_never_evicts [OF this, of 0 "[(0, 0, V4 (IPv4 1 1 1 1)), (5, 5, V4 (IPv4 2 2 2 2))]"]
  show ?thesis by (simp add: remote_ips_def)
qed

text \<open>
  A burst of checks from one remote address at one instant on a fresh limiter: exactly the
  first \<open>n\<close> of them pass, for every budget \<open>n\<close> that fits its type, whatever the rounding of
  the refill rate.
\<close>

theorem rl_burst_exact:
  assumes "1 \<le> n" and "n \<le> u32_max" and "\<not> ip_is_loopback ip"
  shows "map (\<lambda>r. r = Inr ()) (snd (rl_run f64_round (replicate k (t, now, ip)) (rate_limiter_new \<lparr>tokens_per_minute = n\<rparr>)))
           = map (\<lambda>i. i < n) [0..<k]"
  using assms
  by (intro f64.rl_run_burst rl_new_touched)
    (simp_all add: rate_limiter_new_def tbm_new_def tbm_with_sweep_every_def token_full_def)

lemma rl_burst_exact_witness:
  "map (\<lambda>r. r = Inr ()) (snd (rl_run f64_round (replicate 3 (7, 7, V4 (IPv4 1 1 1 1)))
      (rate_limiter_new \<lparr>tokens_per_minute = 2\<rparr>))) = [True, True, False]"
  using rl_burst_exact [of 2 "V4 (IPv4 1 1 1 1)" 3 7 7] by (simp add: u32_max_def upt_conv_Cons)

section \<open>The middlewares\<close>

lemma of_char_word_inj: "(of_char c :: 8 word) = of_char d \<longleftrightarrow> c = d"
proof
  assume eq: "(of_char c :: 8 word) = of_char d"
  have small: "(of_char x :: nat) < 2 ^ LENGTH(8)" for x :: char
    using nat_of_char_less_256 [of x] by simp
  have "(of_char x :: nat) = unat (of_char x :: 8 word)" for x :: char
    using small [of x] unat_of_nat [where 'a = 8, of "of_char x"] by (simp add: of_nat_of_char)
  with eq have "(of_char c :: nat) = of_char d" by metis
  then show "c = d" by simp
qed simp

lemma xor_chars_eq_0: "((of_char c :: 8 word) XOR of_char d) = 0 \<longleftrightarrow> c = d"
proof
  assume z: "((of_char c :: 8 word) XOR of_char d) = 0"
  have "(of_char c :: 8 word) = (of_char c XOR of_char d) XOR of_char d"
    by (simp add: xor.assoc)
  with z have "(of_char c :: 8 word) = of_char d" by simp
  then show "c = d" by (simp add: of_char_word_inj)
qed simp

lemma foldl_or_bytes: "foldl or_bytes acc xys = 0 \<longleftrightarrow> acc = 0 \<and> (\<forall>(x, y) \<in> set xys. x = y)"
  by (induction xys arbitrary: acc) (auto simp: or_bytes_def or_eq_0_iff xor_chars_eq_0)

lemma constant_time_eq_iff: "constant_time_eq a b \<longleftrightarrow> a = b"
proof (cases "length a = length b")
  case True
  then have "(\<forall>(x, y) \<in> set (zip a b). x = y) \<longleftrightarrow> a = b"
    by (induction a b rule: list_induct2) auto
  with True show ?thesis by (simp add: constant_time_eq_def foldl_or_bytes)
next
  case False
  then show ?thesis by (auto simp: constant_time_eq_def)
qed

text \<open>
  The bearer gate of \<open>/v1\<close> lets a request through exactly when no key is configured for
  bearer mode or the header is the configured key behind one of the two spellings of the
  scheme; the accumulated XOR comparison of the keys decides equality.
\<close>

theorem llm_auth_exact:
  "llm_auth_middleware cfg h = Next \<longleftrightarrow>
     (case cfg of
        None \<Rightarrow> True
      | Some c \<Rightarrow> auth_mode c \<noteq> Bearer \<or>
          (case inbound_auth_key c of
             None \<Rightarrow> True
           | Some key \<Rightarrow> h = Some (''Bearer '' @ key) \<or> h = Some (''bearer '' @ key)))"
proof (cases cfg)
  case (Some c)
  have other: "strip_prefix ''Bearer '' (''bearer '' @ k) = None" for k by simp
  have gate: "(case (case h of
                       None \<Rightarrow> None
                     | Some x \<Rightarrow> (case strip_prefix ''Bearer '' x of
                                    Some k \<Rightarrow> Some k | None \<Rightarrow> strip_prefix ''bearer '' x)) of
                Some k \<Rightarrow> if constant_time_eq k key then Next else Unauthorized
              | None \<Rightarrow> Unauthorized) = Next
      \<longleftrightarrow> h = Some (''Bearer '' @ key) \<or> h = Some (''bearer '' @ key)" for key
    unfolding constant_time_eq_iff
    using other [of key] strip_prefix_iff [of "''Bearer ''"] strip_prefix_iff [of "''bearer ''"]
    by (auto simp del: append.simps strip_prefix.simps split: option.splits)
  show ?thesis
    using gate by (cases "inbound_auth_key c") (simp_all add: Some llm_auth_middleware_def Let_def del: append.simps strip_prefix.simps)
qed (simp add: llm_auth_middleware_def)

section \<open>Behind a trusted proxy\<close>

lemma llm_auth_exact_witness:
  "llm_auth_middleware (Some \<lparr>auth_mode = Bearer, inbound_auth_key = Some ''k''\<rparr>) (Some ''bearer k'') = Next
   \<and> llm_auth_middleware (Some \<lparr>auth_mode = Bearer, inbound_auth_key = Some ''k''\<rparr>) (Some ''bearer kk'') \<noteq> Next"
  using llm_auth_exact [of "Some \<lparr>auth_mode = Bearer, inbound_auth_key = Some ''k''\<rparr>" "Some ''bearer k''"]
    llm_auth_exact [of "Some \<lparr>auth_mode = Bearer, inbound_auth_key = Some ''k''\<rparr>" "Some ''bearer kk''"]
  by simp

text \<open>
  A request that comes straight from an untrusted peer is counted under the peer's own
  address whatever it claims. Through a trusted proxy that appends to the header it received,
  the leftmost entry is the client's own claim: a claim of a loopback address that the proxy
  passes on exempts the client from the limiter, which neither refuses it nor changes.
\<close>

theorem forwarded_claims:
  "(\<not> is_trusted net_contains trusted peer \<longrightarrow> resolve_client_ip net_contains hdr peer trusted = peer)
   \<and> (is_trusted net_contains trusted peer \<longrightarrow> CHR '','' \<notin> set claim \<longrightarrow> parse_ip (trim claim) = Some ip \<longrightarrow> ip_is_loopback ip \<longrightarrow>
        (let client = resolve_client_ip net_contains (Some (Some (claim @ '', '' @ appended))) peer trusted
         in client = ip \<and> rl_check rnd t_sweep now client rl = (rl, Inr ())))"
proof -
  have "first_piece CHR '','' (claim @ CHR '','' # rest) = claim" if "CHR '','' \<notin> set claim" for rest
    using that by (induction claim) (auto simp: first_piece_def)
  then show ?thesis
    by (auto simp: resolve_client_ip_def hd_split_char Let_def rl_check_loopback)
qed

lemma forwarded_claims_witness:
  "rl_check f64_round 5 5 (resolve_client_ip (\<lambda>net ip. net = ip)
     (Some (Some (''127.0.0.1'' @ '', '' @ ''203.0.113.7''))) (V4 (IPv4 10 0 0 1)) \<lparr>tp_cidrs = [V4 (IPv4 10 0 0 1)], tp_loopback_bypass = False\<rparr>)
     (rate_limiter_new \<lparr>tokens_per_minute = 0\<rparr>)
   = (rate_limiter_new \<lparr>tokens_per_minute = 0\<rparr>, Inr ())"
proof -
  have "trim ''127.0.0.1'' = ''127.0.0.1''"
    by (simp add: trim_def trim_start_def trim_end_def drop_ws.simps ascii_ws_def ws2_def ws3_def byte_def)
  moreover have "parse_ip ''127.0.0.1'' = Some (V4 (IPv4 127 0 0 1))"
    by (simp add: parse_ip_def read_ipv4_addr_def read_octet_def read_separator_def read_number_def
        digit_value_def byte_def Let_def)
  moreover have "is_trusted (\<lambda>net ip. net = ip) \<lparr>tp_cidrs = [V4 (IPv4 10 0 0 1)], tp_loopback_bypass = False\<rparr> (V4 (IPv4 10 0 0 1))"
    and "CHR '','' \<notin> set ''127.0.0.1''" and "ip_is_loopback (V4 (IPv4 127 0 0 1))"
    by (simp_all add: is_trusted_def)
  ultimately show ?thesis
    using forwarded_claims [of "\<lambda>net ip. net = ip" "\<lparr>tp_cidrs = [V4 (IPv4 10 0 0 1)], tp_loopback_bypass = False\<rparr>" "V4 (IPv4 10 0 0 1)" None
        "''127.0.0.1''" "V4 (IPv4 127 0 0 1)" "''203.0.113.7''" f64_round 5 5 "rate_limiter_new \<lparr>tokens_per_minute = 0\<rparr>"]
    unfolding Let_def by metis
qed

end
