(* ===== verification/Ttl_Map.thy ===== *)
theory Ttl_Map
  imports Prelude
begin

text \<open>
  The bounded map with a time to live per entry (\<open>crates/nagent-support/src/ttl_map.rs\<close>), the
  store behind the credential cache, the OAuth states and the passkey ceremonies.

  The order of the association list is the order in which \<open>DashMap\<close> iterates. The hash decides
  where a new key lands in it, so \<open>insert\<close> takes that position as an argument: a property for
  all positions holds for every hash. Every operation that reads the clock takes the reading.

  The contract of the store (what a client may rely on) is the locale \<open>ttl_store\<close>; the map
  of the source is its interpretation.
\<close>

section \<open>State\<close>

record 'v ttl_entry =
  te_value :: 'v
  te_expires_at :: instant

record ('k, 'v) ttl_map =
  tm_inner :: "('k, 'v ttl_entry) dash"
  tm_ttl :: duration
  tm_max_entries :: nat

datatype insert_outcome = Inserted | EvictedExpired | EvictedOldest

text \<open>The constructor panics on a zero cap.\<close>

definition ttl_new :: "duration \<Rightarrow> nat \<Rightarrow> ('k, 'v) ttl_map option" where
  "ttl_new ttl max_entries =
     (if 0 < max_entries
      then Some \<lparr>tm_inner = [], tm_ttl = ttl, tm_max_entries = max_entries\<rparr> else None)"

section \<open>Operations\<close>

definition live :: "instant \<Rightarrow> 'k \<Rightarrow> 'v ttl_entry \<Rightarrow> bool" where
  "live now k e \<longleftrightarrow> \<not> te_expires_at e \<le> now"

definition sweep_expired_at :: "instant \<Rightarrow> ('k, 'v) ttl_map \<Rightarrow> ('k, 'v) ttl_map \<times> nat" where
  "sweep_expired_at now m =
     (let inner = dash_retain (live now) (tm_inner m)
      in (m\<lparr>tm_inner := inner\<rparr>, length (tm_inner m) - length inner))"

text \<open>The scan keeps the first entry with the smallest expiry.\<close>

fun scan_oldest :: "('k, 'v ttl_entry) dash \<Rightarrow> (instant \<times> 'k) option \<Rightarrow> (instant \<times> 'k) option" where
  "scan_oldest [] oldest = oldest"
| "scan_oldest ((k, e) # m) oldest =
     (case oldest of
        None \<Rightarrow> scan_oldest m (Some (te_expires_at e, k))
      | Some (cur, k') \<Rightarrow>
          if te_expires_at e < cur then scan_oldest m (Some (te_expires_at e, k))
          else scan_oldest m (Some (cur, k')))"

definition evict_oldest :: "('k, 'v ttl_entry) dash \<Rightarrow> ('k, 'v ttl_entry) dash" where
  "evict_oldest m = (case scan_oldest m None of None \<Rightarrow> m | Some (_, k) \<Rightarrow> dash_remove k m)"

lemma scan_oldest_Some: "\<exists>x. scan_oldest m (Some y) = Some x"
  by (induction m arbitrary: y) auto

lemma scan_oldest_in:
  "scan_oldest m o0 = Some (t, k) \<Longrightarrow>
     (\<exists>e. (k, e) \<in> set m \<and> te_expires_at e = t) \<or> o0 = Some (t, k)"
  by (induction m o0 rule: scan_oldest.induct) (fastforce split: option.splits if_splits)+

lemma dash_remove_shorter: "k \<in> fst ` set m \<Longrightarrow> length (dash_remove k m) < length m"
proof (induction m)
  case (Cons a m)
  have "length (dash_remove k m) \<le> length m" by (rule length_delete_le)
  with Cons show ?case by (cases a) (auto simp: less_Suc_eq_le Suc_le_eq intro: rev_image_eqI)
qed simp

lemma evict_oldest_shorter: "m \<noteq> [] \<Longrightarrow> length (evict_oldest m) < length m"
proof -
  assume "m \<noteq> []"
  then obtain x where x: "scan_oldest m None = Some x"
    using scan_oldest_Some by (cases m) fastforce+
  obtain t k where "x = (t, k)" by (cases x)
  with x scan_oldest_in [of m None t k] have "k \<in> fst ` set m" by force
  then show ?thesis using x \<open>x = (t, k)\<close> by (simp add: evict_oldest_def dash_remove_shorter)
qed

function enforce_cap :: "nat \<Rightarrow> ('k, 'v ttl_entry) dash \<Rightarrow> ('k, 'v ttl_entry) dash" where
  "enforce_cap cap m = (if cap < length m then enforce_cap cap (evict_oldest m) else m)"
  by pat_completeness auto
termination
  by (relation "measure (\<lambda>(cap, m). length m)") (auto intro!: evict_oldest_shorter)

declare enforce_cap.simps [simp del]

definition insert_at :: "nat \<Rightarrow> 'a \<Rightarrow> 'a list \<Rightarrow> 'a list" where
  "insert_at pos x xs = take pos xs @ x # drop pos xs"

definition ttl_insert ::
  "nat \<Rightarrow> instant \<Rightarrow> 'k \<Rightarrow> 'v \<Rightarrow> ('k, 'v) ttl_map \<Rightarrow> ('k, 'v) ttl_map \<times> insert_outcome" where
  "ttl_insert pos now key v m =
     (let e = \<lparr>te_value = v, te_expires_at = now + tm_ttl m\<rparr>
      in case dash_get (tm_inner m) key of
           Some _ \<Rightarrow> (m\<lparr>tm_inner := dash_put key e (tm_inner m)\<rparr>, Inserted)
         | None \<Rightarrow>
             (let (m1, evicted_expired) = sweep_expired_at now m;
                  m2 = insert_at pos (key, e) (tm_inner m1);
                  m3 = m1\<lparr>tm_inner := enforce_cap (tm_max_entries m) m2\<rparr>
              in (m3, if tm_max_entries m < length m2 then EvictedOldest
                      else if 0 < evicted_expired then EvictedExpired else Inserted)))"

definition ttl_get :: "instant \<Rightarrow> 'k \<Rightarrow> ('k, 'v) ttl_map \<Rightarrow> ('k, 'v) ttl_map \<times> 'v option" where
  "ttl_get now key m =
     (case dash_get (tm_inner m) key of
        None \<Rightarrow> (m, None)
      | Some e \<Rightarrow>
          if te_expires_at e \<le> now then (m\<lparr>tm_inner := dash_remove key (tm_inner m)\<rparr>, None)
          else (m, Some (te_value e)))"

definition ttl_remove :: "'k \<Rightarrow> ('k, 'v) ttl_map \<Rightarrow> ('k, 'v) ttl_map \<times> 'v option" where
  "ttl_remove key m =
     (m\<lparr>tm_inner := dash_remove key (tm_inner m)\<rparr>, map_option te_value (dash_get (tm_inner m) key))"

definition ttl_clear :: "('k, 'v) ttl_map \<Rightarrow> ('k, 'v) ttl_map" where
  "ttl_clear m = m\<lparr>tm_inner := []\<rparr>"

definition ttl_len :: "('k, 'v) ttl_map \<Rightarrow> nat" where
  "ttl_len m = length (tm_inner m)"

section \<open>Invariant\<close>

text \<open>
  Keys do not repeat, the cap is positive and respected, and no entry outlives the time to
  live counted from now.
\<close>

definition ttl_ok :: "instant \<Rightarrow> ('k, 'v) ttl_map \<Rightarrow> bool" where
  "ttl_ok now m \<longleftrightarrow> dash_ok (tm_inner m) \<and> 0 < tm_max_entries m \<and> ttl_len m \<le> tm_max_entries m
     \<and> dash_all (\<lambda>e. te_expires_at e \<le> now + tm_ttl m) (tm_inner m)"

lemma set_insert_at [simp]: "set (insert_at pos x xs) = insert x (set xs)"
  by (metis append_take_drop_id insert_at_def list.simps(15) set_append Un_insert_right)

lemma length_insert_at [simp]: "length (insert_at pos x xs) = Suc (length xs)"
  by (simp add: insert_at_def)

lemma dash_ok_insert_at: "dash_ok m \<Longrightarrow> k \<notin> fst ` set m \<Longrightarrow> dash_ok (insert_at pos (k, e) m)"
proof -
  assume "dash_ok m" and "k \<notin> fst ` set m"
  moreover have "distinct (map fst (take pos m @ drop pos m)) \<longleftrightarrow> dash_ok m"
    by (simp add: dash_ok_def)
  ultimately show ?thesis
    using set_take_subset [of pos m] set_drop_subset [of pos m]
    by (auto simp: dash_ok_def insert_at_def simp del: append_take_drop_id)
qed

lemma dash_get_insert_at:
  assumes "dash_ok m" and "k \<notin> fst ` set m"
  shows "dash_get (insert_at pos (k, e) m) = (dash_get m)(k \<mapsto> e)"
proof
  fix k'
  have "dash_get (insert_at pos (k, e) m) k' = Some v \<longleftrightarrow> ((dash_get m)(k \<mapsto> e)) k' = Some v" for v
    using dash_get_Some_iff [OF dash_ok_insert_at [OF assms], of pos e k' v]
      dash_get_Some_iff [OF assms(1), of k' v] assms(2) by (auto simp: image_iff)
  then show "dash_get (insert_at pos (k, e) m) k' = ((dash_get m)(k \<mapsto> e)) k'"
    by (metis not_None_eq)
qed

lemma scan_oldest_le:
  "scan_oldest m o0 = Some (t, k) \<Longrightarrow>
     (\<forall>x \<in> set m. t \<le> te_expires_at (snd x)) \<and> (case o0 of None \<Rightarrow> True | Some (c, _) \<Rightarrow> t \<le> c)"
  by (induction m o0 rule: scan_oldest.induct) (fastforce split: option.splits if_splits)+

lemma evict_oldest_ok [simp]: "dash_ok m \<Longrightarrow> dash_ok (evict_oldest m)"
  by (auto simp: evict_oldest_def split: option.splits)

lemma evict_oldest_all: "dash_all P m \<Longrightarrow> dash_all P (evict_oldest m)"
  by (auto simp: evict_oldest_def dash_all_remove split: option.splits)

lemma enforce_cap_ok: "dash_ok m \<Longrightarrow> dash_ok (enforce_cap cap m)"
proof (induction cap m rule: enforce_cap.induct)
  case (1 cap m)
  then show ?case by (simp add: enforce_cap.simps [of cap m])
qed

lemma enforce_cap_all: "dash_all P m \<Longrightarrow> dash_all P (enforce_cap cap m)"
proof (induction cap m rule: enforce_cap.induct)
  case (1 cap m)
  then show ?case by (simp add: enforce_cap.simps [of cap m] evict_oldest_all)
qed

lemma enforce_cap_length: "length (enforce_cap cap m) \<le> cap"
proof (induction cap m rule: enforce_cap.induct)
  case (1 cap m)
  then show ?case by (cases "cap < length m") (simp_all add: enforce_cap.simps [of cap m])
qed

lemma enforce_cap_id: "length m \<le> cap \<Longrightarrow> enforce_cap cap m = m"
  by (simp add: enforce_cap.simps)

text \<open>With one entry too many, exactly one eviction happens.\<close>

lemma enforce_cap_one:
  assumes "dash_ok m" and "length m = Suc cap"
  shows "enforce_cap cap m = evict_oldest m"
proof -
  have "m \<noteq> []" using assms(2) by auto
  then have "length (evict_oldest m) \<le> cap"
    using evict_oldest_shorter [of m] assms(2) by simp
  then show ?thesis
    using assms(2) by (simp add: enforce_cap.simps [of cap m] enforce_cap_id)
qed

section \<open>What the map shows\<close>

definition ttl_view :: "instant \<Rightarrow> ('k, 'v) ttl_map \<Rightarrow> 'k \<Rightarrow> 'v option" where
  "ttl_view now m k =
     (case dash_get (tm_inner m) k of
        None \<Rightarrow> None
      | Some e \<Rightarrow> if te_expires_at e \<le> now then None else Some (te_value e))"

lemma ttl_view_antimono: "now \<le> later \<Longrightarrow> ttl_view later m \<subseteq>\<^sub>m ttl_view now m"
  by (auto simp: map_le_def ttl_view_def split: option.splits if_splits)

lemma ttl_get_result [simp]: "snd (ttl_get now k m) = ttl_view now m k"
  by (simp add: ttl_get_def ttl_view_def split: option.splits)

lemma ttl_get_view: "now \<le> t \<Longrightarrow> ttl_view t (fst (ttl_get now k m)) = ttl_view t m"
  by (auto simp: ttl_get_def ttl_view_def fun_eq_iff dash_get_remove split: option.splits)

lemma ttl_remove_view: "ttl_view now (fst (ttl_remove k m)) = (ttl_view now m)(k := None)"
  by (auto simp: ttl_remove_def ttl_view_def fun_eq_iff dash_get_remove)

lemma ttl_remove_result: "ttl_view now m k = Some v \<Longrightarrow> snd (ttl_remove k m) = Some v"
  by (auto simp: ttl_remove_def ttl_view_def split: option.splits if_splits)

lemma ttl_sweep_view:
  assumes "dash_ok (tm_inner m)" and "now \<le> t"
  shows "ttl_view t (fst (sweep_expired_at now m)) = ttl_view t m"
  using assms
  by (auto simp: ttl_view_def fun_eq_iff sweep_expired_at_def Let_def dash_get_retain live_def split: option.splits)

lemma sweep_fields [simp]:
  "tm_ttl (fst (sweep_expired_at now m)) = tm_ttl m"
  "tm_max_entries (fst (sweep_expired_at now m)) = tm_max_entries m"
  "tm_inner (fst (sweep_expired_at now m)) = dash_retain (live now) (tm_inner m)"
  by (simp_all add: sweep_expired_at_def Let_def)

text \<open>The state after an insertion of a new key, before and after the cap is enforced.\<close>

definition ttl_grown :: "nat \<Rightarrow> instant \<Rightarrow> 'k \<Rightarrow> 'v \<Rightarrow> ('k, 'v) ttl_map \<Rightarrow> ('k, 'v ttl_entry) dash" where
  "ttl_grown pos now k v m =
     insert_at pos (k, \<lparr>te_value = v, te_expires_at = now + tm_ttl m\<rparr>) (dash_retain (live now) (tm_inner m))"

lemma ttl_insert_new:
  assumes "dash_get (tm_inner m) k = None"
  shows "tm_inner (fst (ttl_insert pos now k v m)) = enforce_cap (tm_max_entries m) (ttl_grown pos now k v m)"
    and "snd (ttl_insert pos now k v m) =
      (if tm_max_entries m < length (ttl_grown pos now k v m) then EvictedOldest
       else if 0 < snd (sweep_expired_at now m) then EvictedExpired else Inserted)"
  using assms by (simp_all add: ttl_insert_def ttl_grown_def Let_def case_prod_beta)

lemma ttl_insert_old:
  assumes "dash_get (tm_inner m) k = Some e0"
  shows "ttl_insert pos now k v m =
     (m\<lparr>tm_inner := dash_put k \<lparr>te_value = v, te_expires_at = now + tm_ttl m\<rparr> (tm_inner m)\<rparr>, Inserted)"
  using assms by (simp add: ttl_insert_def Let_def)

lemma ttl_insert_fields [simp]:
  "tm_ttl (fst (ttl_insert pos now k v m)) = tm_ttl m"
  "tm_max_entries (fst (ttl_insert pos now k v m)) = tm_max_entries m"
  by (auto simp: ttl_insert_def Let_def case_prod_beta split: option.splits)

lemma retain_fresh_key: "dash_get m k = None \<Longrightarrow> k \<notin> fst ` set (dash_retain P m)"
  by (auto simp: dash_retain_def map_of_eq_None_iff)

lemma ttl_grown_ok:
  assumes "dash_ok (tm_inner m)" and "dash_get (tm_inner m) k = None"
  shows "dash_ok (ttl_grown pos now k v m)"
  unfolding ttl_grown_def
  by (rule dash_ok_insert_at [OF dash_ok_retain [OF assms(1)] retain_fresh_key [OF assms(2)]])

lemma ttl_grown_get:
  assumes "dash_ok (tm_inner m)" and "dash_get (tm_inner m) k = None"
  shows "dash_get (ttl_grown pos now k v m) =
    (dash_get (dash_retain (live now) (tm_inner m)))(k \<mapsto> \<lparr>te_value = v, te_expires_at = now + tm_ttl m\<rparr>)"
  unfolding ttl_grown_def
  by (rule dash_get_insert_at [OF dash_ok_retain [OF assms(1)] retain_fresh_key [OF assms(2)]])

lemma ttl_grown_length:
  "length (ttl_grown pos now k v m) = Suc (length (dash_retain (live now) (tm_inner m)))"
  by (simp add: ttl_grown_def)

lemma ttl_grown_all:
  assumes "dash_all P (tm_inner m)" and "P \<lparr>te_value = v, te_expires_at = now + tm_ttl m\<rparr>"
  shows "dash_all P (ttl_grown pos now k v m)"
  using assms by (auto simp: ttl_grown_def dash_all_def list_all_iff dash_retain_def)

section \<open>Every operation keeps the invariant\<close>

lemma dash_all_mono: "dash_all P m \<Longrightarrow> (\<And>v. P v \<Longrightarrow> Q v) \<Longrightarrow> dash_all Q m"
  by (auto simp: dash_all_def list_all_iff)

lemma ttl_ok_later: "ttl_ok now m \<Longrightarrow> now \<le> later \<Longrightarrow> ttl_ok later m"
  by (auto simp: ttl_ok_def elim: dash_all_mono)

lemma ttl_new_ok: "ttl_new ttl cap = Some m \<Longrightarrow> ttl_ok now m"
  by (auto simp: ttl_new_def ttl_ok_def ttl_len_def split: if_splits)

lemma ttl_insert_ok:
  assumes "ttl_ok now m"
  shows "ttl_ok now (fst (ttl_insert pos now k v m))"
proof (cases "dash_get (tm_inner m) k")
  case None
  have "dash_ok (ttl_grown pos now k v m)"
    using assms None by (intro ttl_grown_ok) (simp_all add: ttl_ok_def)
  moreover have "dash_all (\<lambda>e. te_expires_at e \<le> now + tm_ttl m) (ttl_grown pos now k v m)"
    using assms by (intro ttl_grown_all) (simp_all add: ttl_ok_def)
  ultimately show ?thesis using assms
    by (simp add: ttl_ok_def ttl_insert_new [OF None] enforce_cap_ok enforce_cap_all enforce_cap_length ttl_len_def)
next
  case (Some e0)
  then have "k \<in> fst ` set (tm_inner m)" by (force dest: map_of_SomeD)
  then show ?thesis using assms
    by (simp add: ttl_ok_def ttl_insert_old [OF Some] dash_all_put ttl_len_def dash_put_length_old)
qed

lemma ttl_remove_ok: "ttl_ok now m \<Longrightarrow> ttl_ok now (fst (ttl_remove k m))"
  by (auto simp: ttl_ok_def ttl_remove_def dash_all_remove ttl_len_def intro: le_trans [OF length_delete_le])

lemma ttl_get_ok: "ttl_ok now m \<Longrightarrow> ttl_ok now (fst (ttl_get t k m))"
  by (auto simp: ttl_ok_def ttl_get_def dash_all_remove ttl_len_def intro: le_trans [OF length_delete_le] split: option.splits)

lemma ttl_clear_ok: "ttl_ok now m \<Longrightarrow> ttl_ok now (ttl_clear m)"
  by (simp add: ttl_ok_def ttl_clear_def ttl_len_def)

lemma ttl_sweep_ok: "ttl_ok now m \<Longrightarrow> ttl_ok now (fst (sweep_expired_at t m))"
  by (auto simp: ttl_ok_def ttl_len_def dash_all_retain intro: le_trans [OF dash_retain_length])

section \<open>What an insertion shows\<close>

lemma evict_oldest_submap: "dash_get (evict_oldest m) \<subseteq>\<^sub>m dash_get m"
  by (auto simp: evict_oldest_def map_le_def dash_get_remove split: option.splits if_splits)

lemma enforce_cap_submap: "dash_get (enforce_cap cap m) \<subseteq>\<^sub>m dash_get m"
proof (induction cap m rule: enforce_cap.induct)
  case (1 cap m)
  then show ?case
    using map_le_trans [OF _ evict_oldest_submap [of m]] by (cases "cap < length m") (simp_all add: enforce_cap.simps [of cap m])
qed

text \<open>An insertion never invents: it shows at most the old entries and the new one.\<close>

lemma ttl_insert_view_le:
  assumes "dash_ok (tm_inner m)" and "now \<le> t"
  shows "ttl_view t (fst (ttl_insert pos now k v m)) \<subseteq>\<^sub>m
    (if t < now + tm_ttl m then (ttl_view t m)(k \<mapsto> v) else (ttl_view t m)(k := None))"
proof (cases "dash_get (tm_inner m) k")
  case None
  have "dash_get (enforce_cap (tm_max_entries m) (ttl_grown pos now k v m)) \<subseteq>\<^sub>m
      (dash_get (dash_retain (live now) (tm_inner m)))(k \<mapsto> \<lparr>te_value = v, te_expires_at = now + tm_ttl m\<rparr>)"
    using enforce_cap_submap [of "tm_max_entries m" "ttl_grown pos now k v m"]
    unfolding ttl_grown_get [OF assms(1) None] .
  then show ?thesis using assms
    by (fastforce simp: ttl_view_def map_le_def ttl_insert_new [OF None] dash_get_retain dom_def
        split: option.splits if_splits)
next
  case (Some e0)
  then show ?thesis
    by (auto simp: ttl_view_def map_le_def ttl_insert_old [OF Some] dash_get_put split: option.splits if_splits)
qed

text \<open>With room to spare it shows exactly that.\<close>

lemma ttl_insert_view_eq:
  assumes "ttl_ok now m" and "now \<le> t" and "ttl_len m < tm_max_entries m \<or> dash_get (tm_inner m) k \<noteq> None"
  shows "ttl_view t (fst (ttl_insert pos now k v m)) =
    (if t < now + tm_ttl m then (ttl_view t m)(k \<mapsto> v) else (ttl_view t m)(k := None))"
proof (cases "dash_get (tm_inner m) k")
  case None
  have ok: "dash_ok (tm_inner m)" using assms(1) by (simp add: ttl_ok_def)
  have "length (ttl_grown pos now k v m) \<le> tm_max_entries m"
    using assms(3) None dash_retain_length [of "live now" "tm_inner m"]
    by (simp add: ttl_grown_length ttl_len_def)
  then show ?thesis using ok assms(2)
    by (auto simp: ttl_view_def fun_eq_iff ttl_insert_new(1) [OF None] enforce_cap_id ttl_grown_get [OF ok None]
        dash_get_retain live_def split: option.splits)
next
  case (Some e0)
  then show ?thesis
    by (auto simp: ttl_view_def fun_eq_iff ttl_insert_old [OF Some] dash_get_put split: option.splits)
qed

text \<open>
  At the cap one entry goes, one with the earliest expiry; when every live entry expires
  before the new one does, it is not the new one.
\<close>

lemma evict_oldest_victim:
  assumes "dash_ok m" and "m \<noteq> []"
  obtains k e where "dash_get m k = Some e" and "\<forall>k' e'. dash_get m k' = Some e' \<longrightarrow> te_expires_at e \<le> te_expires_at e'"
    and "evict_oldest m = dash_remove k m"
proof -
  obtain x where x: "scan_oldest m None = Some x"
    using scan_oldest_Some assms(2) by (cases m) fastforce+
  obtain t k where tk: "x = (t, k)" by (cases x)
  obtain e where "(k, e) \<in> set m" "te_expires_at e = t" using scan_oldest_in [of m None t k] x tk by auto
  moreover have "\<forall>x \<in> set m. t \<le> te_expires_at (snd x)" using scan_oldest_le [of m None t k] x tk by simp
  ultimately have "dash_get m k = Some e"
    and "\<forall>k' e'. dash_get m k' = Some e' \<longrightarrow> te_expires_at e \<le> te_expires_at e'"
    using assms(1) by (auto simp: dash_get_Some_iff)
  then show thesis using that [of k e] x tk by (simp add: evict_oldest_def)
qed

lemma ttl_insert_full:
  assumes "ttl_ok now m" and "dash_get (tm_inner m) k = None" and "0 < tm_ttl m"
    and full: "length (dash_retain (live now) (tm_inner m)) = tm_max_entries m"
    and older: "\<forall>k' e. dash_get (tm_inner m) k' = Some e \<longrightarrow> te_expires_at e < now + tm_ttl m"
  obtains old e where "dash_get (tm_inner m) old = Some e" and "now < te_expires_at e" and "old \<noteq> k"
    and "\<forall>k' e'. dash_get (tm_inner m) k' = Some e' \<longrightarrow> now < te_expires_at e' \<longrightarrow> te_expires_at e \<le> te_expires_at e'"
    and "tm_inner (fst (ttl_insert pos now k v m)) = dash_remove old (ttl_grown pos now k v m)"
    and "snd (ttl_insert pos now k v m) = EvictedOldest"
proof -
  let ?g = "ttl_grown pos now k v m" and ?r = "dash_retain (live now) (tm_inner m)"
  have ok: "dash_ok (tm_inner m)" and pos: "0 < tm_max_entries m" using assms(1) by (simp_all add: ttl_ok_def)
  have gok: "dash_ok ?g" and ne: "?g \<noteq> []" and len: "length ?g = Suc (tm_max_entries m)"
    using ttl_grown_ok [OF ok assms(2)] full ttl_grown_length [of pos now k v m] by auto
  note get = ttl_grown_get [OF ok assms(2), of pos now v] dash_get_retain [OF ok]
  obtain old e where old: "dash_get ?g old = Some e"
    and least: "\<forall>k' e'. dash_get ?g k' = Some e' \<longrightarrow> te_expires_at e \<le> te_expires_at e'"
    and ev: "evict_oldest ?g = dash_remove old ?g"
    using evict_oldest_victim [OF gok ne] .
  from full pos have "?r \<noteq> []" by auto
  then obtain k1 e1 where "(k1, e1) \<in> set ?r" by (metis list.set_sel(1) surj_pair)
  then have r1: "dash_get ?r k1 = Some e1" using dash_get_Some_iff [OF dash_ok_retain [OF ok]] by blast
  then have m1: "dash_get (tm_inner m) k1 = Some e1" and "k1 \<noteq> k"
    using assms(2) by (auto simp: get(2) split: option.splits if_splits)
  with r1 have "dash_get ?g k1 = Some e1" by (simp add: get(1))
  then have "te_expires_at e \<le> te_expires_at e1" using least by blast
  also have "\<dots> < now + tm_ttl m" using older m1 by blast
  finally have neq: "old \<noteq> k" using old by (auto simp: get(1))
  show thesis
  proof (rule that [of old e])
    show "old \<noteq> k" by (rule neq)
    show "dash_get (tm_inner m) old = Some e" "now < te_expires_at e"
      using old neq by (auto simp: get live_def split: option.splits if_splits)
    show "\<forall>k' e'. dash_get (tm_inner m) k' = Some e' \<longrightarrow> now < te_expires_at e' \<longrightarrow> te_expires_at e \<le> te_expires_at e'"
    proof (intro allI impI)
      fix k' e' assume a: "dash_get (tm_inner m) k' = Some e'" "now < te_expires_at e'"
      then have "dash_get ?g k' = Some e'" using assms(2) by (auto simp: get live_def)
      then show "te_expires_at e \<le> te_expires_at e'" using least by blast
    qed
    show "tm_inner (fst (ttl_insert pos now k v m)) = dash_remove old ?g"
      using enforce_cap_one [OF gok len] ev by (simp add: ttl_insert_new [OF assms(2)])
    show "snd (ttl_insert pos now k v m) = EvictedOldest"
      using len by (simp add: ttl_insert_new [OF assms(2)])
  qed
qed

lemma ttl_insert_lost:
  assumes "ttl_ok now m" and "dash_get (tm_inner m) k = None"
    and older: "\<forall>k' e. dash_get (tm_inner m) k' = Some e \<longrightarrow> te_expires_at e < now + tm_ttl m"
    and "now \<le> t" and "t < now + tm_ttl m"
  shows "\<exists>lost. k \<notin> lost \<and> finite lost \<and> card lost \<le> 1
    \<and> ttl_view t (fst (ttl_insert pos now k v m)) = (\<lambda>k'. if k' = k then Some v else if k' \<in> lost then None else ttl_view t m k')
    \<and> (\<forall>old \<in> lost. snd (ttl_insert pos now k v m) = EvictedOldest
        \<and> (\<exists>e. dash_get (tm_inner m) old = Some e \<and> now < te_expires_at e
             \<and> (\<forall>k' e'. dash_get (tm_inner m) k' = Some e' \<longrightarrow> now < te_expires_at e' \<longrightarrow> te_expires_at e \<le> te_expires_at e')))"
proof -
  let ?r = "dash_retain (live now) (tm_inner m)"
  have ok: "dash_ok (tm_inner m)" and len: "length ?r \<le> tm_max_entries m"
    using assms(1) dash_retain_length [of "live now" "tm_inner m"] by (simp_all add: ttl_ok_def ttl_len_def)
  have grown: "(case dash_get (ttl_grown pos now k v m) k' of None \<Rightarrow> None
        | Some e \<Rightarrow> if te_expires_at e \<le> t then None else Some (te_value e))
      = (if k' = k then Some v else ttl_view t m k')" for k'
    using assms(4,5) by (auto simp: ttl_grown_get [OF ok assms(2)] dash_get_retain [OF ok] live_def ttl_view_def
        split: option.splits)
  show ?thesis
  proof (cases "length ?r = tm_max_entries m")
    case True
    have pos: "0 < tm_ttl m" using assms(4,5) by simp
    obtain old e where old: "dash_get (tm_inner m) old = Some e" "now < te_expires_at e" "old \<noteq> k"
      "\<forall>k' e'. dash_get (tm_inner m) k' = Some e' \<longrightarrow> now < te_expires_at e' \<longrightarrow> te_expires_at e \<le> te_expires_at e'"
      and inner: "tm_inner (fst (ttl_insert pos now k v m)) = dash_remove old (ttl_grown pos now k v m)"
      and out: "snd (ttl_insert pos now k v m) = EvictedOldest"
      using ttl_insert_full [OF assms(1,2) pos True older] .
    have "ttl_view t (fst (ttl_insert pos now k v m))
        = (\<lambda>k'. if k' = k then Some v else if k' \<in> {old} then None else ttl_view t m k')"
      using grown old(3) unfolding ttl_view_def inner dash_get_remove by (auto simp: fun_eq_iff)
    then show ?thesis using old out by (intro exI [of _ "{old}"]) auto
  next
    case False
    then have "length (ttl_grown pos now k v m) \<le> tm_max_entries m" using len by (simp add: ttl_grown_length)
    then have inner: "tm_inner (fst (ttl_insert pos now k v m)) = ttl_grown pos now k v m"
      by (simp add: ttl_insert_new [OF assms(2)] enforce_cap_id)
    have "ttl_view t (fst (ttl_insert pos now k v m)) = (\<lambda>k'. if k' = k then Some v else ttl_view t m k')"
      using grown unfolding ttl_view_def inner by (simp add: fun_eq_iff)
    then show ?thesis by (intro exI [of _ "{}"]) auto
  qed
qed

section \<open>The contract and its provider\<close>

text \<open>
  What a client relies on: a view of the live entries that only an insertion extends. The
  clock readings of successive operations never decrease.
\<close>

fun store_step ::
  "(nat \<Rightarrow> instant \<Rightarrow> 'k \<Rightarrow> 'v \<Rightarrow> 's \<Rightarrow> 's) \<Rightarrow> ('k \<Rightarrow> 's \<Rightarrow> 's \<times> 'v option)
     \<Rightarrow> instant \<Rightarrow> 'k \<times> (nat \<times> 'v) option \<Rightarrow> 's \<Rightarrow> 's" where
  "store_step ins rem now (k, Some (pos, v)) s = ins pos now k v s"
| "store_step ins rem now (k, None) s = fst (rem k s)"

fun store_run ::
  "(nat \<Rightarrow> instant \<Rightarrow> 'k \<Rightarrow> 'v \<Rightarrow> 's \<Rightarrow> 's) \<Rightarrow> ('k \<Rightarrow> 's \<Rightarrow> 's \<times> 'v option)
     \<Rightarrow> (instant \<times> 'k \<times> (nat \<times> 'v) option) list \<Rightarrow> 's \<Rightarrow> 's" where
  "store_run ins rem [] s = s"
| "store_run ins rem ((now, op) # ops) s = store_run ins rem ops (store_step ins rem now op s)"

text \<open>The last operation on a key that a run performs: its time, and the value it wrote if any.\<close>

fun last_on ::
  "'k \<Rightarrow> (instant \<times> 'k \<times> (nat \<times> 'v) option) list \<Rightarrow> (instant \<times> 'v option) option \<Rightarrow> (instant \<times> 'v option) option" where
  "last_on k [] acc = acc"
| "last_on k ((now, k', w) # ops) acc = last_on k ops (if k' = k then Some (now, map_option snd w) else acc)"

locale ttl_store =
  fixes ok :: "instant \<Rightarrow> 's \<Rightarrow> bool"
    and view :: "instant \<Rightarrow> 's \<Rightarrow> 'k \<Rightarrow> 'v option"
    and ttl :: "'s \<Rightarrow> duration"
    and ins :: "nat \<Rightarrow> instant \<Rightarrow> 'k \<Rightarrow> 'v \<Rightarrow> 's \<Rightarrow> 's"
    and get :: "instant \<Rightarrow> 'k \<Rightarrow> 's \<Rightarrow> 's \<times> 'v option"
    and rem :: "'k \<Rightarrow> 's \<Rightarrow> 's \<times> 'v option"
  assumes ok_later: "ok now s \<Longrightarrow> now \<le> later \<Longrightarrow> ok later s"
    and ok_ins: "ok now s \<Longrightarrow> ok now (ins pos now k v s)"
    and ok_get: "ok now s \<Longrightarrow> ok now (fst (get now k s))"
    and ok_rem: "ok now s \<Longrightarrow> ok now (fst (rem k s))"
    and ttl_ins: "ttl (ins pos now k v s) = ttl s"
    and ttl_get: "ttl (fst (get now k s)) = ttl s"
    and ttl_rem: "ttl (fst (rem k s)) = ttl s"
    and view_ins: "ok now s \<Longrightarrow> now \<le> t \<Longrightarrow> view t (ins pos now k v s) \<subseteq>\<^sub>m
          (if t < now + ttl s then (view t s)(k \<mapsto> v) else (view t s)(k := None))"
    and view_get: "now \<le> t \<Longrightarrow> view t (fst (get now k s)) = view t s"
    and get_result: "snd (get now k s) = view now s k"
    and view_rem: "view now (fst (rem k s)) = (view now s)(k := None)"
begin

lemma run_provenance:
  assumes "ok t0 s" and "sorted (map fst ops)" and "\<forall>x \<in> set ops. t0 \<le> fst x \<and> fst x \<le> t" and "t0 \<le> t"
    and "view t s k = Some v \<Longrightarrow> \<exists>now. acc = Some (now, Some v) \<and> t < now + ttl s"
    and "view t (store_run ins rem ops s) k = Some v"
  shows "\<exists>now. last_on k ops acc = Some (now, Some v) \<and> t < now + ttl s"
  using assms
proof (induction ops arbitrary: s acc t0)
  case Nil
  then show ?case by simp
next
  case (Cons x ops)
  obtain now k' w where x: "x = (now, k', w)" by (cases x)
  let ?s = "store_step ins rem now (k', w) s"
  have okn: "ok now s" using Cons.prems(1,3) x by (auto intro: ok_later)
  have now: "now \<le> t" using Cons.prems(3) x by simp
  have ok': "ok now ?s" using okn by (cases w) (auto intro: ok_ins ok_rem)
  have ttl': "ttl ?s = ttl s" by (cases w) (auto simp: ttl_ins ttl_rem)
  have acc: "\<exists>n. (if k' = k then Some (now, map_option snd w) else acc) = Some (n, Some v) \<and> t < n + ttl ?s"
    if "view t ?s k = Some v"
  proof (cases w)
    case None
    then show ?thesis using that Cons.prems(5) ttl' by (auto simp: view_rem split: if_splits)
  next
    case (Some pv)
    obtain pos v' where pv: "pv = (pos, v')" by (cases pv)
    have le: "view t ?s \<subseteq>\<^sub>m (if t < now + ttl s then (view t s)(k' \<mapsto> v') else (view t s)(k' := None))"
      using view_ins [OF okn now, of pos k' v'] Some pv by simp
    have "(if t < now + ttl s then (view t s)(k' \<mapsto> v') else (view t s)(k' := None)) k = Some v"
      using le that by (metis domI map_le_def)
    then show ?thesis using Cons.prems(5) ttl' Some pv by (auto split: if_splits)
  qed
  have "\<exists>n. last_on k ops (if k' = k then Some (now, map_option snd w) else acc) = Some (n, Some v) \<and> t < n + ttl ?s"
  proof (rule Cons.IH [OF ok' _ _ now])
    show "sorted (map fst ops)" and "\<forall>y \<in> set ops. now \<le> fst y \<and> fst y \<le> t"
      using Cons.prems(2,3) x by auto
    show "view t (store_run ins rem ops ?s) k = Some v" using Cons.prems(6) x by simp
  qed (use acc in blast)
  then show ?case using x ttl' by simp
qed

text \<open>Once removed a key stays absent until it is inserted again.\<close>

lemma removed_stays_absent:
  assumes "ok t0 s" and "view t s k = None" and "\<forall>x \<in> set ops. t0 \<le> fst x \<and> fst x \<le> t"
    and "sorted (map fst ops)" and "\<forall>x \<in> set ops. fst (snd x) = k \<longrightarrow> snd (snd x) = None" and "t0 \<le> t"
  shows "view t (store_run ins rem ops s) k = None"
proof (rule ccontr)
  assume "view t (store_run ins rem ops s) k \<noteq> None"
  then obtain v where v: "view t (store_run ins rem ops s) k = Some v" by auto
  obtain now where last: "last_on k ops None = Some (now, Some v)"
    using run_provenance [OF assms(1,4,3,6) _ v, of None] assms(2) by auto
  have "last_on k ops acc = Some (now, Some v) \<Longrightarrow> acc = Some (now, Some v)"
    if "\<forall>x \<in> set ops. fst (snd x) = k \<longrightarrow> snd (snd x) = None" for acc
    using that by (induction ops arbitrary: acc) (fastforce split: if_splits)+
  from this [OF assms(5) last] show False by simp
qed

end

interpretation ttl: ttl_store
  ttl_ok ttl_view tm_ttl "\<lambda>pos now k v m. fst (ttl_insert pos now k v m)" ttl_get ttl_remove
proof unfold_locales
  fix now t :: instant and s :: "('a, 'b) ttl_map" and pos k v
  show "ttl_ok now s \<Longrightarrow> now \<le> t \<Longrightarrow> ttl_view t (fst (ttl_insert pos now k v s)) \<subseteq>\<^sub>m
      (if t < now + tm_ttl s then (ttl_view t s)(k \<mapsto> v) else (ttl_view t s)(k := None))"
    by (rule ttl_insert_view_le) (simp_all add: ttl_ok_def)
  show "tm_ttl (fst (ttl_get now k s)) = tm_ttl s"
    by (simp add: ttl_get_def split: option.splits)
qed (simp_all add: ttl_ok_later ttl_insert_ok ttl_get_ok ttl_remove_ok ttl_get_view ttl_remove_view,
    simp_all add: ttl_remove_def)

section \<open>Properties\<close>

lemma ttl_store_run_ok:
  assumes "ttl_ok t0 m" and "sorted (map fst ops)" and "\<forall>x \<in> set ops. t0 \<le> fst x \<and> fst x \<le> t" and "t0 \<le> t"
  shows "ttl_ok t (store_run (\<lambda>pos now k v m. fst (ttl_insert pos now k v m)) ttl_remove ops m)"
  using assms
proof (induction ops arbitrary: m t0)
  case Nil
  then show ?case by (auto intro: ttl_ok_later)
next
  case (Cons x ops)
  obtain now k w where x: "x = (now, k, w)" by (cases x)
  have "ttl_ok now m" using Cons.prems(1,3) x by (auto intro: ttl_ok_later)
  then have ok: "ttl_ok now (store_step (\<lambda>pos now k v m. fst (ttl_insert pos now k v m)) ttl_remove now (k, w) m)"
    by (cases w) (auto intro: ttl_insert_ok ttl_remove_ok)
  show ?case using Cons.IH [OF ok] Cons.prems(2-4) x by simp
qed

text \<open>
  After any run of insertions and removals on a new map, whatever the positions the hash
  gives the keys, the map holds no more than its cap, and a value that \<open>get\<close> returns is the one
  that the last operation on its key inserted, less than the time to live ago.
\<close>

theorem ttl_get_provenance:
  assumes "ttl_new ttl cap = Some m" and "sorted (map fst ops)" and "\<forall>x \<in> set ops. fst x \<le> t"
  defines "m' \<equiv> store_run (\<lambda>pos now k v m. fst (ttl_insert pos now k v m)) ttl_remove ops m"
  shows "ttl_len m' \<le> cap \<and>
    (\<forall>k v. snd (ttl_get t k m') = Some v \<longrightarrow> (\<exists>now. last_on k ops None = Some (now, Some v) \<and> t < now + ttl))"
proof -
  have ok: "ttl_ok 0 m" using assms(1) by (rule ttl_new_ok)
  have new: "tm_inner m = []" "tm_ttl m = ttl"
    using assms(1) by (auto simp: ttl_new_def split: if_splits)
  have times: "\<forall>x \<in> set ops. 0 \<le> fst x \<and> fst x \<le> t" using assms(3) by simp
  have "tm_max_entries m' = cap" unfolding m'_def
  proof -
    have "tm_max_entries (store_run (\<lambda>pos now k v m. fst (ttl_insert pos now k v m)) ttl_remove ops m0) = tm_max_entries m0" for m0 :: "('a, 'b) ttl_map"
    proof (induction ops arbitrary: m0)
      case (Cons x ops)
      obtain now k w where "x = (now, k, w)" by (cases x)
      then show ?case using Cons by (cases w) (auto simp: ttl_remove_def)
    qed simp
    then show "tm_max_entries (store_run (\<lambda>pos now k v m. fst (ttl_insert pos now k v m)) ttl_remove ops m) = cap"
      using assms(1) by (auto simp: ttl_new_def split: if_splits)
  qed
  moreover have "ttl_ok t m'"
    unfolding m'_def using ok assms(2) times by (rule ttl_store_run_ok) simp
  moreover have "\<exists>now. last_on k ops None = Some (now, Some v) \<and> t < now + ttl" if "snd (ttl_get t k m') = Some v" for k v
    using ttl.run_provenance [OF ok assms(2) times, of k v None] that new
    by (simp add: m'_def ttl_view_def)
  ultimately show ?thesis by (simp add: ttl_ok_def)
qed

lemma ttl_get_provenance_witness:
  "\<exists>m. ttl_new 10 1 = Some m \<and>
     ttl_len (store_run (\<lambda>pos now k v m. fst (ttl_insert pos now k v m)) ttl_remove
       [(1, ''a'', Some (0, True)), (2, ''b'', Some (1, False))] (m :: (string, bool) ttl_map)) \<le> 1"
proof -
  obtain m :: "(string, bool) ttl_map" where m: "ttl_new 10 1 = Some m" by (simp add: ttl_new_def)
  from ttl_get_provenance [OF this, of "[(1, ''a'', Some (0, True)), (2, ''b'', Some (1, False))]" 5]
  show ?thesis using m by simp
qed

text \<open>
  C27: An insertion of a new key, in a map whose entries were inserted strictly earlier, shows
  the new value until its time to live is over and leaves every other live entry as it was,
  save at most one: when the cap is reached, a live entry with the earliest expiry goes.
\<close>

theorem ttl_insert_refines:
  assumes "ttl_ok now m" and "dash_get (tm_inner m) k = None"
    and older: "\<forall>k' e. dash_get (tm_inner m) k' = Some e \<longrightarrow> te_expires_at e < now + tm_ttl m"
    and "now \<le> t" and "t < now + tm_ttl m"
  shows "\<exists>lost. k \<notin> lost \<and> finite lost \<and> card lost \<le> 1
    \<and> ttl_view t (fst (ttl_insert pos now k v m)) = (\<lambda>k'. if k' = k then Some v else if k' \<in> lost then None else ttl_view t m k')
    \<and> (\<forall>old \<in> lost. snd (ttl_insert pos now k v m) = EvictedOldest
        \<and> (\<exists>e. dash_get (tm_inner m) old = Some e \<and> now < te_expires_at e
             \<and> (\<forall>k' e'. dash_get (tm_inner m) k' = Some e' \<longrightarrow> now < te_expires_at e' \<longrightarrow> te_expires_at e \<le> te_expires_at e')))"
  using assms by (rule ttl_insert_lost)

lemma ttl_insert_refines_witness:
  "ttl_view 6 (fst (ttl_insert 0 5 ''b'' False
     \<lparr>tm_inner = [(''a'', \<lparr>te_value = True, te_expires_at = 9\<rparr>)], tm_ttl = 10, tm_max_entries = 1\<rparr>)) ''b'' = Some False"
proof -
  let ?m = "\<lparr>tm_inner = [(''a'', \<lparr>te_value = True, te_expires_at = 9\<rparr>)], tm_ttl = 10, tm_max_entries = 1\<rparr>"
  have "ttl_ok 5 ?m" and "dash_get (tm_inner ?m) ''b'' = None"
    and "\<forall>k' e. dash_get (tm_inner ?m) k' = Some e \<longrightarrow> te_expires_at e < 5 + tm_ttl ?m"
    by (auto simp: ttl_ok_def ttl_len_def dash_ok_def dash_all_def split: if_splits)
  from ttl_insert_refines [OF this, of 6 0 False] show ?thesis by auto
qed

text \<open>
  When a full map inserts at the very instant at which its other entries were inserted,
  whether the new entry survives depends on where the hash puts it: behind the others it
  does, ahead of them it is itself the entry that is evicted, and the insertion that reports
  \<open>EvictedOldest\<close> has stored nothing.
\<close>

theorem ttl_tie_evicts_fresh:
  "ttl_get now k2 (fst (ttl_insert 0 now k2 v2 \<lparr>tm_inner = [(k1, \<lparr>te_value = v1, te_expires_at = now + ttl\<rparr>)], tm_ttl = ttl, tm_max_entries = 1\<rparr>))
     = (\<lparr>tm_inner = [(k1, \<lparr>te_value = v1, te_expires_at = now + ttl\<rparr>)], tm_ttl = ttl, tm_max_entries = 1\<rparr>, None)
   \<and> snd (ttl_get now k2 (fst (ttl_insert 1 now k2 v2 \<lparr>tm_inner = [(k1, \<lparr>te_value = v1, te_expires_at = now + ttl\<rparr>)], tm_ttl = ttl, tm_max_entries = 1\<rparr>)))
     = Some v2"
  if "k1 \<noteq> k2" and "0 < ttl"
  using that
  by (simp add: ttl_insert_def sweep_expired_at_def dash_retain_def live_def insert_at_def enforce_cap.simps
      evict_oldest_def ttl_get_def ttl_view_def Let_def)

lemma ttl_tie_evicts_fresh_witness:
  "snd (ttl_get 0 ''b'' (fst (ttl_insert 0 0 ''b'' False
     \<lparr>tm_inner = [(''a'', \<lparr>te_value = True, te_expires_at = 0 + 60\<rparr>)], tm_ttl = 60, tm_max_entries = 1\<rparr>))) = None"
  using ttl_tie_evicts_fresh [of "''a''" "''b''" 60 0 False True] by simp

end
