(* ===== verification/Ttl_Clients.thy ===== *)
theory Ttl_Clients
  imports Ttl_Map
begin

text \<open>
  Three clients of the bounded map: the per-request credential cache
  (\<open>crates/nagent-agents/src/agents/credential_cache.rs\<close>), the OAuth state store
  (\<open>crates/nagent-server/src/oauth/state.rs\<close>) and the passkey ceremonies
  (\<open>crates/nagent-server/src/auth/passkey.rs\<close>).

  Parameters: \<open>encode\<close>, the base64-url encoder of the \<open>base64\<close> crate; the WebAuthn server, the
  JSON codec and the database of the passkey handlers, collected in a record of functions.
  Random bytes and clock readings are arguments.
\<close>

section \<open>The credential cache\<close>

type_synonym secret_cache = "(string \<times> string, string) ttl_map"

definition secret_cache_default_ttl :: duration where
  "secret_cache_default_ttl = secs 60"

definition secret_cache_max_entries :: nat where
  "secret_cache_max_entries = 16"

definition sc_with_limits :: "duration \<Rightarrow> nat \<Rightarrow> secret_cache option" where
  "sc_with_limits ttl max_entries = ttl_new ttl max_entries"

definition sc_new :: "secret_cache option" where
  "sc_new = sc_with_limits secret_cache_default_ttl secret_cache_max_entries"

definition sc_insert :: "nat \<Rightarrow> instant \<Rightarrow> string \<Rightarrow> string \<Rightarrow> string \<Rightarrow> secret_cache \<Rightarrow> secret_cache" where
  "sc_insert pos now service field v c = fst (ttl_insert pos now (service, field) v c)"

definition sc_get :: "instant \<Rightarrow> string \<Rightarrow> string \<Rightarrow> secret_cache \<Rightarrow> secret_cache \<times> string option" where
  "sc_get now service field c = ttl_get now (service, field) c"

text \<open>\<open>Drop\<close> runs \<open>zeroize\<close>.\<close>

definition sc_zeroize :: "secret_cache \<Rightarrow> secret_cache" where
  "sc_zeroize c = ttl_clear c"

section \<open>The OAuth state store\<close>

definition max_state_entries :: nat where
  "max_state_entries = 16 * 1024"

definition state_ttl :: duration where
  "state_ttl = secs 600"

record 'p state_store_entry =
  created_at_unix :: nat
  payload :: 'p

type_synonym 'p state_store = "(string, 'p state_store_entry) ttl_map"

definition state_store_new :: "'p state_store option" where
  "state_store_new = ttl_new state_ttl max_state_entries"

definition is_expired :: "nat \<Rightarrow> 'p state_store_entry \<Rightarrow> bool" where
  "is_expired unix_now e \<longleftrightarrow> state_ttl \<le> secs (unix_now - created_at_unix e)"

definition state_push ::
  "(nat list \<Rightarrow> string) \<Rightarrow> nat list \<Rightarrow> nat \<Rightarrow> instant \<Rightarrow> nat \<Rightarrow> 'p \<Rightarrow> 'p state_store \<Rightarrow> 'p state_store \<times> string" where
  "state_push encode bytes pos now unix_now p s =
     (let token = encode bytes
      in (fst (ttl_insert pos now token \<lparr>created_at_unix = unix_now, payload = p\<rparr> s), token))"

definition state_pop :: "nat \<Rightarrow> string \<Rightarrow> 'p state_store \<Rightarrow> 'p state_store \<times> 'p state_store_entry option" where
  "state_pop unix_now token s =
     (case ttl_remove token s of
        (s', None) \<Rightarrow> (s', None)
      | (s', Some e) \<Rightarrow> if is_expired unix_now e then (s', None) else (s', Some e))"

definition state_peek ::
  "instant \<Rightarrow> nat \<Rightarrow> string \<Rightarrow> 'p state_store \<Rightarrow> 'p state_store \<times> 'p state_store_entry option" where
  "state_peek now unix_now token s =
     (case ttl_get now token s of
        (s', None) \<Rightarrow> (s', None)
      | (s', Some e) \<Rightarrow> if is_expired unix_now e then (s', None) else (s', Some e))"

section \<open>The passkey ceremonies\<close>

datatype auth_error =
    InvalidCredentials | AuthForbidden | AuthBadRequest string | AuthUnauthenticated | AccountDisabled
  | AuthRateLimited nat | AuthConflict string | AuthNotFound | AuthDatabase string | AuthCrypto string
  | AuthSaturated | AuthInternal string

datatype ceremony_kind = Register | Authenticate

record ceremony_entry =
  ce_kind :: ceremony_kind
  ce_user_id :: "nat option"
  ce_state_json :: string

type_synonym ceremonies = "(string, ceremony_entry) ttl_map"

definition ceremony_ttl :: duration where
  "ceremony_ttl = secs (5 * 60)"

definition max_ceremony_entries :: nat where
  "max_ceremony_entries = 4 * 1024"

definition ceremonies_new :: "ceremonies option" where
  "ceremonies_new = ttl_new ceremony_ttl max_ceremony_entries"

text \<open>
  What the handlers call outside the repository: the WebAuthn library, its serialisation, and
  the tables behind \<open>AdminDb\<close>. A stored passkey is its row id, its owner and its key blob.
\<close>

record ('cred, 'skr, 'pk, 'key, 'db) passkey_env =
  pe_parse_response :: "string \<Rightarrow> 'cred option"
  pe_parse_state :: "string \<Rightarrow> 'skr option"
  pe_parse_key :: "string \<Rightarrow> 'key option"
  pe_finish_registration :: "'cred \<Rightarrow> 'skr \<Rightarrow> 'pk option"
  pe_cred_id :: "'pk \<Rightarrow> string"
  pe_to_vec :: "'pk \<Rightarrow> string option"
  pe_raw_id :: "'cred \<Rightarrow> string"
  pe_finish_authentication :: "'cred \<Rightarrow> 'skr \<Rightarrow> 'key \<Rightarrow> nat option"
  pe_passkey_insert :: "nat \<Rightarrow> nat \<Rightarrow> string \<Rightarrow> string \<Rightarrow> 'db \<Rightarrow> 'db \<times> (auth_error + unit)"
  pe_get_by_credential_id :: "string \<Rightarrow> 'db \<Rightarrow> auth_error + (nat \<times> nat \<times> string) option"
  pe_bump_counter :: "nat \<Rightarrow> nat \<Rightarrow> 'db \<Rightarrow> 'db \<times> (auth_error + unit)"
  pe_user_by_id :: "nat \<Rightarrow> 'db \<Rightarrow> auth_error + nat option"
  pe_create_session :: "nat \<Rightarrow> 'db \<Rightarrow> 'db \<times> (auth_error + string option)"

definition register_start_handler ::
  "bool \<Rightarrow> auth_error + nat option \<Rightarrow> auth_error + unit \<Rightarrow> string option \<Rightarrow> string \<Rightarrow> nat \<Rightarrow> instant \<Rightarrow> ceremonies
     \<Rightarrow> ceremonies \<times> (auth_error + string)" where
  "register_start_handler self_registration user csrf started state_token pos now c =
     (if \<not> self_registration then (c, Inl AuthForbidden)
      else case user of
        Inl e \<Rightarrow> (c, Inl e)
      | Inr None \<Rightarrow> (c, Inl AuthUnauthenticated)
      | Inr (Some uid) \<Rightarrow>
          (case csrf of
             Inl e \<Rightarrow> (c, Inl e)
           | Inr _ \<Rightarrow>
               (case started of
                  None \<Rightarrow> (c, Inl (AuthInternal ''passkey start_register''))
                | Some state_json \<Rightarrow>
                    (fst (ttl_insert pos now state_token
                        \<lparr>ce_kind = Register, ce_user_id = Some uid, ce_state_json = state_json\<rparr> c),
                     Inr state_token))))"

definition register_finish_handler ::
  "('cred, 'skr, 'pk, 'key, 'db) passkey_env \<Rightarrow> nat \<Rightarrow> string \<Rightarrow> string \<Rightarrow> ceremonies \<times> 'db
     \<Rightarrow> (ceremonies \<times> 'db) \<times> (auth_error + nat)" where
  "register_finish_handler env pk_id state_token response s =
     (let (c, db) = s; (c', removed) = ttl_remove state_token c
      in case removed of
           None \<Rightarrow> ((c', db), Inl (AuthBadRequest ''unknown or expired state_token''))
         | Some entry \<Rightarrow>
             if ce_kind entry \<noteq> Register
             then ((c', db), Inl (AuthBadRequest ''state_token belongs to a different ceremony''))
             else case ce_user_id entry of
               None \<Rightarrow> ((c', db), Inl (AuthInternal ''register ceremony without user_id''))
             | Some user_id \<Rightarrow>
                 (case pe_parse_response env response of
                    None \<Rightarrow> ((c', db), Inl (AuthBadRequest ''invalid register response''))
                  | Some credential \<Rightarrow>
                      (case pe_parse_state env (ce_state_json entry) of
                         None \<Rightarrow> ((c', db), Inl (AuthInternal ''deserialise PasskeyRegistration''))
                       | Some skr \<Rightarrow>
                           (case pe_finish_registration env credential skr of
                              None \<Rightarrow> ((c', db), Inl (AuthBadRequest ''finish_passkey_registration''))
                            | Some passkey \<Rightarrow>
                                (case pe_to_vec env passkey of
                                   None \<Rightarrow> ((c', db), Inl (AuthInternal ''serialise passkey''))
                                 | Some blob \<Rightarrow>
                                     (case pe_passkey_insert env pk_id user_id (pe_cred_id env passkey) blob db of
                                        (db', Inl e) \<Rightarrow> ((c', db'), Inl e)
                                      | (db', Inr _) \<Rightarrow> ((c', db'), Inr pk_id)))))))"

definition login_start_handler ::
  "string option \<Rightarrow> string \<Rightarrow> nat \<Rightarrow> instant \<Rightarrow> ceremonies \<Rightarrow> ceremonies \<times> (auth_error + string)" where
  "login_start_handler started state_token pos now c =
     (case started of
        None \<Rightarrow> (c, Inl (AuthInternal ''passkey start_discoverable_authentication''))
      | Some state_json \<Rightarrow>
          (fst (ttl_insert pos now state_token
              \<lparr>ce_kind = Authenticate, ce_user_id = None, ce_state_json = state_json\<rparr> c),
           Inr state_token))"

text \<open>The steps of a passkey login after the ceremony was taken out of the map.\<close>

definition login_finish_verified ::
  "('cred, 'skr, 'pk, 'key, 'db) passkey_env \<Rightarrow> string \<Rightarrow> string \<Rightarrow> 'db \<Rightarrow> 'db \<times> (auth_error + nat \<times> string)" where
  "login_finish_verified env state_json response db =
     (case pe_parse_response env response of
        None \<Rightarrow> (db, Inl (AuthBadRequest ''invalid assertion''))
      | Some assertion \<Rightarrow>
          (case pe_get_by_credential_id env (pe_raw_id env assertion) db of
             Inl e \<Rightarrow> (db, Inl e)
           | Inr None \<Rightarrow> (db, Inl InvalidCredentials)
           | Inr (Some (row, owner, blob)) \<Rightarrow>
               (case pe_parse_key env blob of
                  None \<Rightarrow> (db, Inl (AuthInternal ''deserialise stored passkey as DiscoverableKey''))
                | Some dk \<Rightarrow>
                    (case pe_parse_state env state_json of
                       None \<Rightarrow> (db, Inl (AuthInternal ''deserialise DiscoverableAuthentication''))
                     | Some sk_auth \<Rightarrow>
                         (case pe_finish_authentication env assertion sk_auth dk of
                            None \<Rightarrow> (db, Inl (AuthBadRequest ''finish_discoverable_authentication''))
                          | Some counter \<Rightarrow>
                              (case pe_bump_counter env row counter db of
                                 (db1, Inl e) \<Rightarrow> (db1, Inl e)
                               | (db1, Inr _) \<Rightarrow>
                                   (case pe_user_by_id env owner db1 of
                                      Inl e \<Rightarrow> (db1, Inl e)
                                    | Inr None \<Rightarrow> (db1, Inl (AuthInternal ''passkey user disappeared''))
                                    | Inr (Some user) \<Rightarrow>
                                        (case pe_create_session env user db1 of
                                           (db2, Inl e) \<Rightarrow> (db2, Inl e)
                                         | (db2, Inr None) \<Rightarrow> (db2, Inl (AuthInternal ''create_session did not mint a token''))
                                         | (db2, Inr (Some token)) \<Rightarrow> (db2, Inr (user, token))))))))))"

definition login_finish_handler ::
  "('cred, 'skr, 'pk, 'key, 'db) passkey_env \<Rightarrow> string \<Rightarrow> string \<Rightarrow> ceremonies \<times> 'db
     \<Rightarrow> (ceremonies \<times> 'db) \<times> (auth_error + nat \<times> string)" where
  "login_finish_handler env state_token response s =
     (let (c, db) = s; (c', removed) = ttl_remove state_token c
      in case removed of
           None \<Rightarrow> ((c', db), Inl (AuthBadRequest ''unknown or expired state_token''))
         | Some entry \<Rightarrow>
             if ce_kind entry \<noteq> Authenticate
             then ((c', db), Inl (AuthBadRequest ''state_token belongs to a different ceremony''))
             else (let (db', r) = login_finish_verified env (ce_state_json entry) response db
                   in ((c', db'), r)))"

section \<open>The cache remembers for its time to live\<close>

lemma insert_fresh_view:
  assumes "ttl_ok now m" and "dash_get (tm_inner m) k = None"
    and "\<forall>k' e. dash_get (tm_inner m) k' = Some e \<longrightarrow> te_expires_at e < now + tm_ttl m"
    and "now \<le> t" and "t < now + tm_ttl m"
  shows "ttl_view t (fst (ttl_insert pos now k v m)) k = Some v"
  using ttl_insert_lost [OF assms, of pos v] by auto

lemma insert_expired_view:
  assumes "ttl_ok now m" and "now + tm_ttl m \<le> t"
  shows "ttl_view t (fst (ttl_insert pos now k v m)) k = None"
proof -
  have "dash_ok (tm_inner m)" and le: "now \<le> t" using assms by (simp_all add: ttl_ok_def)
  from ttl_insert_view_le [OF this, of pos k v] assms(2)
  have le: "ttl_view t (fst (ttl_insert pos now k v m)) \<subseteq>\<^sub>m (ttl_view t m)(k := None)" by simp
  show ?thesis
  proof (rule ccontr)
    assume "ttl_view t (fst (ttl_insert pos now k v m)) k \<noteq> None"
    then have "k \<in> dom (ttl_view t (fst (ttl_insert pos now k v m)))" by auto
    with le have "((ttl_view t m)(k := None)) k \<noteq> None" by (metis domIff map_le_def)
    then show False by simp
  qed
qed

text \<open>
  A credential put into a cache of older entries is what a lookup of its service and field
  returns until the time to live is over, and from then on, or after the cache was wiped, the
  lookup returns nothing.
\<close>

theorem secret_cache_lifetime:
  assumes "ttl_ok now c" and "dash_get (tm_inner c) (service, field) = None"
    and "\<forall>k' e. dash_get (tm_inner c) k' = Some e \<longrightarrow> te_expires_at e < now + tm_ttl c" and "now \<le> t"
  shows "snd (sc_get t service field (sc_insert pos now service field v c))
           = (if t < now + tm_ttl c then Some v else None)
       \<and> snd (sc_get t service field (sc_zeroize (sc_insert pos now service field v c))) = None"
  using insert_fresh_view [OF assms] insert_expired_view [OF assms(1), of t pos "(service, field)" v]
  by (simp add: sc_get_def sc_insert_def sc_zeroize_def ttl_clear_def ttl_view_def [of t "_\<lparr>tm_inner := []\<rparr>"])

lemma secret_cache_lifetime_witness:
  "\<exists>c. sc_new = Some c \<and>
     snd (sc_get (secs 59) ''caldav'' ''password'' (sc_insert 0 0 ''caldav'' ''password'' ''s3cret'' c)) = Some ''s3cret'' \<and>
     snd (sc_get (secs 60) ''caldav'' ''password'' (sc_insert 0 0 ''caldav'' ''password'' ''s3cret'' c)) = None"
proof -
  obtain c where c: "sc_new = Some c" and f: "tm_inner c = []" "tm_ttl c = secs 60"
    by (simp add: sc_new_def sc_with_limits_def ttl_new_def secret_cache_max_entries_def secret_cache_default_ttl_def)
  have "ttl_ok 0 c" using c unfolding sc_new_def sc_with_limits_def by (rule ttl_new_ok)
  from secret_cache_lifetime [OF this, of "''caldav''" "''password''" "secs 59" 0 "''s3cret''"]
    secret_cache_lifetime [OF this, of "''caldav''" "''password''" "secs 60" 0 "''s3cret''"]
  show ?thesis using c f by (intro exI [of _ c]) (simp add: ns_per_sec_def)
qed

section \<open>An OAuth state is good for one callback\<close>

datatype 'p oauth_op = OPush "nat list" nat instant nat 'p | OPop nat string

fun oauth_step :: "(nat list \<Rightarrow> string) \<Rightarrow> 'p oauth_op \<Rightarrow> 'p state_store \<Rightarrow> 'p state_store" where
  "oauth_step encode (OPush bytes pos now unix_now p) s = fst (state_push encode bytes pos now unix_now p s)"
| "oauth_step encode (OPop unix_now token) s = fst (state_pop unix_now token s)"

fun pushes_token :: "(nat list \<Rightarrow> string) \<Rightarrow> string \<Rightarrow> 'p oauth_op \<Rightarrow> bool" where
  "pushes_token encode token (OPush bytes pos now unix_now p) \<longleftrightarrow> encode bytes = token"
| "pushes_token encode token (OPop unix_now t) \<longleftrightarrow> False"

lemma state_pop_inner: "tm_inner (fst (state_pop u token s)) = dash_remove token (tm_inner s)"
  by (auto simp: state_pop_def ttl_remove_def split: option.splits)

lemma ttl_insert_other_None:
  assumes "dash_ok (tm_inner m)" and "dash_get (tm_inner m) k' = None" and "k' \<noteq> k"
  shows "dash_get (tm_inner (fst (ttl_insert pos now k v m))) k' = None"
proof (cases "dash_get (tm_inner m) k")
  case None
  have "dash_get (ttl_grown pos now k v m) k' = None"
    using assms by (simp add: ttl_grown_get [OF assms(1) None] dash_get_retain)
  then have "k' \<notin> dom (dash_get (enforce_cap (tm_max_entries m) (ttl_grown pos now k v m)))"
    using enforce_cap_submap [of "tm_max_entries m" "ttl_grown pos now k v m"] by (force simp: map_le_def)
  then show ?thesis by (auto simp: ttl_insert_new [OF None])
next
  case (Some e)
  then show ?thesis using assms(2,3) by (simp add: ttl_insert_old [OF Some] dash_get_put)
qed

lemma ttl_insert_dash_ok: "dash_ok (tm_inner m) \<Longrightarrow> dash_ok (tm_inner (fst (ttl_insert pos now k v m)))"
  by (cases "dash_get (tm_inner m) k") (simp_all add: ttl_insert_new ttl_insert_old enforce_cap_ok ttl_grown_ok)

lemma oauth_absent_stays:
  assumes "dash_ok (tm_inner s)" and "dash_get (tm_inner s) token = None"
    and "\<forall>op \<in> set ops. \<not> pushes_token encode token op"
  shows "dash_get (tm_inner (fold (oauth_step encode) ops s)) token = None"
  using assms
proof (induction ops arbitrary: s)
  case (Cons op ops)
  have "dash_ok (tm_inner (oauth_step encode op s)) \<and> dash_get (tm_inner (oauth_step encode op s)) token = None"
    using Cons.prems
    by (cases op) (auto simp: state_push_def Let_def state_pop_inner ttl_insert_dash_ok ttl_insert_other_None dash_get_remove)
  then show ?case using Cons by simp
qed simp

text \<open>
  A callback takes the entry of its state token out of the store: whatever other logins
  start or finish afterwards, a second callback with the token finds nothing unless the token
  was issued again; and the entry a callback gets is less than ten minutes old.
\<close>

theorem oauth_state_one_shot:
  assumes "dash_ok (tm_inner s)" and "\<forall>op \<in> set ops. \<not> pushes_token encode token op"
  shows "snd (state_pop u' token (fold (oauth_step encode) ops (fst (state_pop u token s)))) = None
    \<and> (\<forall>e. snd (state_pop u token s) = Some e \<longrightarrow> secs (u - created_at_unix e) < state_ttl)"
proof -
  have "dash_get (tm_inner (fold (oauth_step encode) ops (fst (state_pop u token s)))) token = None"
    using assms by (intro oauth_absent_stays) (simp_all add: state_pop_inner dash_get_remove)
  then show ?thesis
    by (auto simp: state_pop_def ttl_remove_def is_expired_def split: option.splits if_splits)
qed

lemma oauth_state_one_shot_witness:
  "\<exists>s :: nat state_store. state_store_new = Some s \<and>
     snd (state_pop 5 ''x'' (fold (oauth_step (\<lambda>_. ''y'')) [OPush [1] 0 3 3 7] (fst (state_pop 4 ''x'' s)))) = None"
proof -
  obtain s :: "nat state_store" where s: "state_store_new = Some s" and "tm_inner s = []"
    by (simp add: state_store_new_def ttl_new_def max_state_entries_def)
  then show ?thesis
    using oauth_state_one_shot [of s "[OPush [1] 0 3 3 7]" "\<lambda>_. ''y''" "''x''" 5 4] by (intro exI [of _ s]) simp
qed

section \<open>Passkey ceremonies\<close>

text \<open>
  The finish handlers take the ceremony out of the map with \<open>remove\<close>, which does not look at
  the expiry: a login whose ceremony has outlived its five minutes, so that a lookup treats it
  as absent, is verified like any other as long as no insertion has swept the map meanwhile.
\<close>

theorem passkey_expired_ceremony_accepted:
  fixes state_json token response :: string and pos :: nat and now late :: instant
  assumes "ttl_ok now c" and "dash_get (tm_inner c) token = None" and "tm_ttl c = ceremony_ttl"
    and "ttl_len c < tm_max_entries c" and "now + ceremony_ttl \<le> late"
  defines "c1 \<equiv> fst (login_start_handler (Some state_json) token pos now c)"
  shows "snd (ttl_get late token c1) = None
    \<and> snd (login_finish_handler env token response (c1, db)) = snd (login_finish_verified env state_json response db)"
proof -
  have ok: "dash_ok (tm_inner c)" using assms(1) by (simp add: ttl_ok_def)
  have "length (ttl_grown pos now token \<lparr>ce_kind = Authenticate, ce_user_id = None, ce_state_json = state_json\<rparr> c) \<le> tm_max_entries c"
    using assms(4) dash_retain_length [of "live now" "tm_inner c"] by (simp add: ttl_grown_length ttl_len_def)
  then have "dash_get (tm_inner c1) token =
      Some \<lparr>te_value = \<lparr>ce_kind = Authenticate, ce_user_id = None, ce_state_json = state_json\<rparr>, te_expires_at = now + ceremony_ttl\<rparr>"
    using assms(3) by (simp add: c1_def login_start_handler_def ttl_insert_new [OF assms(2)] enforce_cap_id
        ttl_grown_get [OF ok assms(2)])
  then show ?thesis using assms(5)
    by (simp add: ttl_view_def login_finish_handler_def ttl_remove_def Let_def case_prod_beta)
qed

lemma passkey_expired_ceremony_accepted_witness:
  "\<exists>c. ceremonies_new = Some c \<and>
     snd (ttl_get (secs 301) ''t'' (fst (login_start_handler (Some ''s'') ''t'' 0 0 c))) = None"
proof -
  define c :: ceremonies where "c = \<lparr>tm_inner = [], tm_ttl = ceremony_ttl, tm_max_entries = 4096\<rparr>"
  have c: "ceremonies_new = Some c" and f: "tm_inner c = []" "tm_ttl c = ceremony_ttl" "tm_max_entries c = 4096"
    by (simp_all add: c_def ceremonies_new_def ttl_new_def max_ceremony_entries_def)
  have "ttl_ok 0 c" using c unfolding ceremonies_new_def by (rule ttl_new_ok)
  from passkey_expired_ceremony_accepted [THEN conjunct1, OF this, of "''t''" "secs 301" "''s''" 0] show ?thesis
    using c f by (intro exI [of _ c]) (simp add: ttl_len_def ceremony_ttl_def ns_per_sec_def)
qed

text \<open>
  A passkey login succeeds only with a state token whose ceremony is a login ceremony still
  in the map, an assertion whose credential is stored, and a verification of the assertion
  against the stored key and the ceremony's state; the session belongs to the owner of that
  credential. Whatever the outcome, the token cannot be used again, in either handler.
\<close>

theorem passkey_login_sound:
  "(snd (login_finish_handler env token response (c, db)) = Inr (user, session) \<longrightarrow>
     (\<exists>entry assertion row owner blob dk sk counter.
        snd (ttl_remove token c) = Some entry \<and> ce_kind entry = Authenticate
        \<and> pe_parse_response env response = Some assertion
        \<and> pe_get_by_credential_id env (pe_raw_id env assertion) db = Inr (Some (row, owner, blob))
        \<and> pe_parse_key env blob = Some dk \<and> pe_parse_state env (ce_state_json entry) = Some sk
        \<and> pe_finish_authentication env assertion sk dk = Some counter
        \<and> snd (pe_bump_counter env row counter db) = Inr ()
        \<and> pe_user_by_id env owner (fst (pe_bump_counter env row counter db)) = Inr (Some user)
        \<and> snd (pe_create_session env user (fst (pe_bump_counter env row counter db))) = Inr (Some session)))
   \<and> snd (login_finish_handler env token response' (fst (login_finish_handler env token response (c, db))))
       = Inl (AuthBadRequest ''unknown or expired state_token'')
   \<and> snd (register_finish_handler env pk token response' (fst (login_finish_handler env token response (c, db))))
       = Inl (AuthBadRequest ''unknown or expired state_token'')
   \<and> snd (login_finish_handler env token response' (fst (register_finish_handler env pk token response (c, db))))
       = Inl (AuthBadRequest ''unknown or expired state_token'')"
proof -
  have gone: "fst (fst (login_finish_handler env token response (c, db))) = fst (ttl_remove token c)"
    by (auto simp: login_finish_handler_def Let_def case_prod_beta split: option.splits)
  have gone_reg: "fst (fst (register_finish_handler env pk token response (c, db))) = fst (ttl_remove token c)"
    by (auto simp: register_finish_handler_def Let_def case_prod_beta split: option.splits sum.splits)
  have absent: "snd (ttl_remove token (fst (ttl_remove token c))) = None"
    by (simp add: ttl_remove_def dash_get_remove)
  have "snd (login_finish_handler env token response' s) = Inl (AuthBadRequest ''unknown or expired state_token'')"
    "snd (register_finish_handler env pk token response' s) = Inl (AuthBadRequest ''unknown or expired state_token'')"
    if "fst s = fst (ttl_remove token c)" for s
    using that absent by (simp_all add: login_finish_handler_def register_finish_handler_def Let_def case_prod_beta)
  moreover have "\<exists>entry assertion row owner blob dk sk counter.
        snd (ttl_remove token c) = Some entry \<and> ce_kind entry = Authenticate
        \<and> pe_parse_response env response = Some assertion
        \<and> pe_get_by_credential_id env (pe_raw_id env assertion) db = Inr (Some (row, owner, blob))
        \<and> pe_parse_key env blob = Some dk \<and> pe_parse_state env (ce_state_json entry) = Some sk
        \<and> pe_finish_authentication env assertion sk dk = Some counter
        \<and> snd (pe_bump_counter env row counter db) = Inr ()
        \<and> pe_user_by_id env owner (fst (pe_bump_counter env row counter db)) = Inr (Some user)
        \<and> snd (pe_create_session env user (fst (pe_bump_counter env row counter db))) = Inr (Some session)"
    if "snd (login_finish_handler env token response (c, db)) = Inr (user, session)"
    using that
    by (auto simp: login_finish_handler_def login_finish_verified_def Let_def case_prod_beta
        split: option.splits if_splits sum.splits prod.splits)
  ultimately show ?thesis using gone gone_reg by blast
qed

definition ex_env :: "(string, unit, unit, unit, unit) passkey_env" where
  "ex_env =
     \<lparr>pe_parse_response = Some, pe_parse_state = \<lambda>_. Some (), pe_parse_key = \<lambda>_. Some (),
      pe_finish_registration = \<lambda>_ _. Some (), pe_cred_id = \<lambda>_. [], pe_to_vec = \<lambda>_. Some [], pe_raw_id = id,
      pe_finish_authentication = \<lambda>_ _ _. Some 1, pe_passkey_insert = \<lambda>_ _ _ _ db. (db, Inr ()),
      pe_get_by_credential_id = \<lambda>_ _. Inr (Some (5, 7, [])), pe_bump_counter = \<lambda>_ _ db. (db, Inr ()),
      pe_user_by_id = \<lambda>owner _. Inr (Some owner), pe_create_session = \<lambda>_ db. (db, Inr (Some ''s''))\<rparr>"

definition ex_ceremonies :: ceremonies where
  "ex_ceremonies =
     \<lparr>tm_inner = [(''t'', \<lparr>te_value = \<lparr>ce_kind = Authenticate, ce_user_id = None, ce_state_json = []\<rparr>, te_expires_at = 9\<rparr>)],
      tm_ttl = 9, tm_max_entries = 1\<rparr>"

lemma passkey_login_sound_witness:
  "snd (login_finish_handler ex_env ''t'' ''r'' (ex_ceremonies, ())) = Inr (7, ''s'')
   \<and> (\<exists>entry. snd (ttl_remove ''t'' ex_ceremonies) = Some entry \<and> ce_kind entry = Authenticate)
   \<and> snd (login_finish_handler ex_env ''t'' ''r'' (fst (login_finish_handler ex_env ''t'' ''r'' (ex_ceremonies, ()))))
       = Inl (AuthBadRequest ''unknown or expired state_token'')"
proof -
  have run: "snd (login_finish_handler ex_env ''t'' ''r'' (ex_ceremonies, ())) = Inr (7, ''s'')"
    by (simp add: login_finish_handler_def login_finish_verified_def ex_env_def ex_ceremonies_def ttl_remove_def)
  show ?thesis
    using run passkey_login_sound [of ex_env "''t''" "''r''" ex_ceremonies "()" 7 "''s''" "''r''"] by blast
qed

end
