(* ===== verification/Auth_Session.thy ===== *)
theory Auth_Session
  imports Login_Rate_Limit Ip_Rate_Limit Ttl_Clients
begin

text \<open>
  Sessions over HTTP: reading the session token from the cookie or the bearer header, the
  cookie the server sets (\<open>crates/nagent-server/src/auth/session.rs\<close>), the CSRF check and the
  authentication middleware (\<open>auth/middleware.rs\<close>), and the password login and registration
  handlers (\<open>auth/password.rs\<close>).

  Parameters, collected in the record \<open>auth_env\<close>: the base64 decoder behind
  \<open>decode_session_token\<close>, SHA-256, Argon2, the check of a header value by the \<open>http\<close> crate and
  the tables of the database. A header is \<open>None\<close> when absent and \<open>Some None\<close> when its bytes are
  not text. The update of \<open>last_seen_at\<close>, spawned in the background, and the log lines are
  left out.
\<close>

section \<open>Tokens in requests\<close>

datatype session_source = Cookie | BearerToken

record extracted_session =
  es_token :: string
  es_source :: session_source

type_synonym header = "string option option"

text \<open>The first piece of the cookie header that carries the name and decodes.\<close>

fun find_cookie :: "(string \<Rightarrow> string option) \<Rightarrow> string \<Rightarrow> string list \<Rightarrow> string option" where
  "find_cookie decode cookie_name [] = None"
| "find_cookie decode cookie_name (piece # pieces) =
     (case Option.bind (strip_prefix cookie_name (trim piece)) (strip_prefix ''='') of
        None \<Rightarrow> find_cookie decode cookie_name pieces
      | Some rest \<Rightarrow>
          (let candidate = trim rest
           in if decode candidate \<noteq> None then Some candidate
              else find_cookie decode cookie_name pieces))"

definition bearer_value :: "string \<Rightarrow> string option" where
  "bearer_value s =
     (case strip_prefix ''Bearer '' s of Some r \<Rightarrow> Some r | None \<Rightarrow> strip_prefix ''bearer '' s)"

definition extract_session_token ::
  "(string \<Rightarrow> string option) \<Rightarrow> header \<Rightarrow> header \<Rightarrow> string \<Rightarrow> extracted_session option" where
  "extract_session_token decode cookie authorization cookie_name =
     (case Option.bind (Option.bind cookie id) (\<lambda>s. find_cookie decode cookie_name (split_char CHR '';'' s)) of
        Some token \<Rightarrow> Some \<lparr>es_token = token, es_source = Cookie\<rparr>
      | None \<Rightarrow>
          (case Option.bind (Option.bind authorization id) bearer_value of
             None \<Rightarrow> None
           | Some rest \<Rightarrow>
               (let candidate = trim rest
                in if decode candidate \<noteq> None
                   then Some \<lparr>es_token = candidate, es_source = BearerToken\<rparr> else None)))"

section \<open>The cookie the server sets\<close>

definition build_set_cookie :: "string \<Rightarrow> string \<Rightarrow> bool \<Rightarrow> int \<Rightarrow> string" where
  "build_set_cookie cookie_name token secure max_age_secs =
     cookie_name @ ''='' @ token @ ''; Path=/; HttpOnly; SameSite=Lax''
     @ (if 0 < max_age_secs then ''; Max-Age='' @ nat_to_string (nat max_age_secs) else [])
     @ (if secure then ''; Secure'' else [])"

definition build_clear_cookie :: "string \<Rightarrow> bool \<Rightarrow> string" where
  "build_clear_cookie cookie_name secure =
     cookie_name @ ''=; Path=/; HttpOnly; SameSite=Lax; Max-Age=0'' @ (if secure then ''; Secure'' else [])"

datatype http_method = GET | HEAD | OPTIONS | POST | PUT | PATCH | DELETE | OtherMethod string

definition requires_csrf_check :: "http_method \<Rightarrow> bool" where
  "requires_csrf_check m \<longleftrightarrow> m \<in> {POST, PUT, PATCH, DELETE}"

definition constant_time_eq_str :: "string \<Rightarrow> string \<Rightarrow> bool" where
  "constant_time_eq_str a b =
     (if length a \<noteq> length b then False else foldl or_bytes 0 (zip a b) = 0)"

section \<open>The middleware\<close>

record auth_user_record =
  ur_id :: nat
  ur_email :: string
  ur_display_name :: string
  ur_provider :: string
  ur_password_hash :: "string option"
  ur_created_at :: int

record session_record =
  sr_token_hash :: string
  sr_csrf_token :: string
  sr_expires_at :: int
  sr_plaintext_token :: "string option"

record auth_user =
  au_id :: nat
  au_email :: string
  au_display_name :: string
  au_provider :: string
  au_roles :: "string list"
  au_created_at :: int
  au_csrf_token :: string
  au_session_expires_at :: int
  au_session_token_hash :: string
  au_session_source :: session_source

record 'db auth_env =
  ae_decode :: "string \<Rightarrow> string option"
  ae_sha256 :: "string \<Rightarrow> string"
  ae_lookup :: "string \<Rightarrow> 'db \<Rightarrow> auth_error + (session_record \<times> auth_user_record) option"
  ae_user_by_email :: "string \<Rightarrow> 'db \<Rightarrow> auth_error + auth_user_record option"
  ae_user_by_id :: "nat \<Rightarrow> 'db \<Rightarrow> auth_error + auth_user_record option"
  ae_create_user :: "string \<Rightarrow> string \<Rightarrow> string \<Rightarrow> string option \<Rightarrow> 'db \<Rightarrow> 'db \<times> (auth_error + nat)"
  ae_create_session :: "nat \<Rightarrow> 'db \<Rightarrow> 'db \<times> (auth_error + session_record)"
  ae_verify :: "string \<Rightarrow> string \<Rightarrow> auth_error + bool"
  ae_hash :: "string \<Rightarrow> auth_error + string"
  ae_header_ok :: "string \<Rightarrow> bool"

definition make_auth_user :: "auth_user_record \<Rightarrow> session_record \<Rightarrow> session_source \<Rightarrow> auth_user" where
  "make_auth_user user session source =
     \<lparr>au_id = ur_id user, au_email = ur_email user, au_display_name = ur_display_name user,
      au_provider = ur_provider user, au_roles = [], au_created_at = ur_created_at user,
      au_csrf_token = sr_csrf_token session, au_session_expires_at = sr_expires_at session,
      au_session_token_hash = sr_token_hash session, au_session_source = source\<rparr>"

definition extract_auth_user ::
  "'db auth_env \<Rightarrow> string \<Rightarrow> header \<Rightarrow> header \<Rightarrow> 'db \<Rightarrow> auth_error + auth_user option" where
  "extract_auth_user env cookie_name cookie authorization db =
     (case extract_session_token (ae_decode env) cookie authorization cookie_name of
        None \<Rightarrow> Inr None
      | Some extracted \<Rightarrow>
          (case ae_decode env (es_token extracted) of
             None \<Rightarrow> Inr None
           | Some raw_token \<Rightarrow>
               (case ae_lookup env (ae_sha256 env raw_token) db of
                  Inl e \<Rightarrow> Inl e
                | Inr None \<Rightarrow> Inr None
                | Inr (Some (session, user)) \<Rightarrow>
                    Inr (Some (make_auth_user user session (es_source extracted))))))"

definition check_csrf :: "header \<Rightarrow> auth_user \<Rightarrow> auth_error + unit" where
  "check_csrf x_csrf_token user =
     (if au_session_source user = BearerToken then Inr ()
      else (let presented = (case Option.bind x_csrf_token id of Some v \<Rightarrow> v | None \<Rightarrow> [])
            in if constant_time_eq_str presented (au_csrf_token user) then Inr () else Inl AuthForbidden))"

datatype auth_response = RunNext auth_user | AuthRequired | AuthFailed auth_error

definition require_auth_middleware ::
  "'db auth_env \<Rightarrow> string \<Rightarrow> http_method \<Rightarrow> header \<Rightarrow> header \<Rightarrow> header \<Rightarrow> 'db \<Rightarrow> auth_response" where
  "require_auth_middleware env cookie_name meth cookie authorization x_csrf_token db =
     (case extract_auth_user env cookie_name cookie authorization db of
        Inr (Some user) \<Rightarrow>
          (if requires_csrf_check meth
           then (case check_csrf x_csrf_token user of Inl e \<Rightarrow> AuthFailed e | Inr _ \<Rightarrow> RunNext user)
           else RunNext user)
      | Inr None \<Rightarrow> AuthRequired
      | Inl e \<Rightarrow> AuthFailed e)"

section \<open>Logging in with a password\<close>

datatype 'a handled = Done 'a | Refused auth_error | Panicked

datatype auth_event = LoginRateLimited | LoginFail "nat option" | LoginOk nat | RegisterLocal nat

record 'db login_state =
  ls_limiter :: login_rate_limiter
  ls_db :: 'db
  ls_events :: "auth_event list"

definition record_event :: "auth_event \<Rightarrow> 'db login_state \<Rightarrow> 'db login_state" where
  "record_event ev s = s\<lparr>ls_events := ls_events s @ [ev]\<rparr>"

text \<open>Everything after the password was found right.\<close>

definition login_mint ::
  "'db auth_env \<Rightarrow> string \<Rightarrow> bool \<Rightarrow> nat \<Rightarrow> string \<Rightarrow> ip_addr \<Rightarrow> auth_user_record \<Rightarrow> 'db login_state
     \<Rightarrow> 'db login_state \<times> (auth_user \<times> string \<times> string) handled" where
  "login_mint env cookie_name secure ttl_secs email ip user s =
     (case ae_create_session env (ur_id user) (ls_db s) of
        (db', Inl e) \<Rightarrow> (s\<lparr>ls_db := db'\<rparr>, Refused e)
      | (db', Inr session) \<Rightarrow>
          (let s1 = s\<lparr>ls_db := db'\<rparr>
           in case sr_plaintext_token session of
                None \<Rightarrow> (s1, Refused (AuthInternal ''create_session did not mint a token''))
              | Some token \<Rightarrow>
                  (let s2 = s1\<lparr>ls_limiter := lrl_reset email ip (ls_limiter s1)\<rparr>
                   in if ae_decode env token = None then (s2, Panicked)
                      else (let s3 = record_event (LoginOk (ur_id user)) s2;
                                cookie = build_set_cookie cookie_name token secure (int ttl_secs)
                            in if ae_header_ok env cookie
                               then (s3, Done (make_auth_user user session Cookie, token, cookie))
                               else (s3, Refused (AuthInternal ''set-cookie parse''))))))"

definition login_handler ::
  "'db auth_env \<Rightarrow> string \<Rightarrow> bool \<Rightarrow> nat \<Rightarrow> instant \<Rightarrow> instant \<Rightarrow> ip_addr \<Rightarrow> string \<Rightarrow> string \<Rightarrow> 'db login_state
     \<Rightarrow> 'db login_state \<times> (auth_user \<times> string \<times> string) handled" where
  "login_handler env cookie_name secure ttl_secs t_sweep now ip email password s0 =
     (let (l, decision) = lrl_check t_sweep now email ip (ls_limiter s0);
          s = s0\<lparr>ls_limiter := l\<rparr>
      in case decision of
           LoginDeny retry_after_secs _ \<Rightarrow>
             (record_event LoginRateLimited s, Refused (AuthRateLimited retry_after_secs))
         | LoginAllow \<Rightarrow>
             (case ae_user_by_email env email (ls_db s) of
                Inl e \<Rightarrow> (s, Refused e)
              | Inr found \<Rightarrow>
                  (case Option.bind found (\<lambda>u. map_option (Pair u) (ur_password_hash u)) of
                     None \<Rightarrow> (record_event (LoginFail None) s, Refused InvalidCredentials)
                   | Some (user, hash) \<Rightarrow>
                       (case ae_verify env password hash of
                          Inl e \<Rightarrow> (s, Refused e)
                        | Inr ok \<Rightarrow>
                            if \<not> ok
                            then (record_event (LoginFail (Some (ur_id user))) s, Refused InvalidCredentials)
                            else login_mint env cookie_name secure ttl_secs email ip user s))))"

text \<open>Registration by a signed-in user; the new account gets no session.\<close>

record password_config =
  allow_registration :: bool
  min_password_length :: nat

definition register_handler ::
  "'db auth_env \<Rightarrow> string \<Rightarrow> password_config \<Rightarrow> header \<Rightarrow> header \<Rightarrow> string \<Rightarrow> string \<Rightarrow> string \<Rightarrow> 'db login_state
     \<Rightarrow> 'db login_state \<times> (auth_error + nat)" where
  "register_handler env cookie_name cfg cookie authorization email display_name password s =
     (case extract_auth_user env cookie_name cookie authorization (ls_db s) of
        Inl e \<Rightarrow> (s, Inl e)
      | Inr None \<Rightarrow> (s, Inl AuthUnauthenticated)
      | Inr (Some _) \<Rightarrow>
          if \<not> allow_registration cfg then (s, Inl AuthForbidden)
          else if length password < min_password_length cfg
          then (s, Inl (AuthBadRequest (''password must be at least '' @ nat_to_string (min_password_length cfg) @ '' characters'')))
          else case ae_hash env password of
            Inl e \<Rightarrow> (s, Inl e)
          | Inr hash \<Rightarrow>
              (case ae_create_user env email display_name ''local'' (Some hash) (ls_db s) of
                 (db', Inl e) \<Rightarrow> (s\<lparr>ls_db := db'\<rparr>, Inl e)
               | (db', Inr user_id) \<Rightarrow>
                   (let s' = record_event (RegisterLocal user_id) (s\<lparr>ls_db := db'\<rparr>)
                    in case ae_user_by_id env user_id db' of
                         Inl e \<Rightarrow> (s', Inl e)
                       | Inr None \<Rightarrow> (s', Inl (AuthInternal ''just-created user disappeared''))
                       | Inr (Some user) \<Rightarrow> (s', Inr (ur_id user)))))"

section \<open>The authentication gate\<close>

lemma constant_time_eq_str_iff: "constant_time_eq_str a b \<longleftrightarrow> a = b"
  using constant_time_eq_iff [of a b] by (simp add: constant_time_eq_def constant_time_eq_str_def)

lemma check_csrf_iff:
  "check_csrf h user = Inr () \<longleftrightarrow>
     au_session_source user = BearerToken \<or> (case Option.bind h id of Some v \<Rightarrow> v | None \<Rightarrow> []) = au_csrf_token user"
  by (auto simp: check_csrf_def Let_def constant_time_eq_str_iff)

text \<open>
  C5: The middleware runs the handler exactly when the credential resolves to a session and,
  for the four methods that change state, the session was resolved by a bearer token or the
  CSRF header repeats the session's token. A cookie that carries a well-formed token decides
  alone: no authorization header next to it changes who the user is or how the session was
  resolved, so it cannot switch the CSRF check off.
\<close>

theorem auth_gate_exact:
  "(require_auth_middleware env name meth cookie authorization csrf db = RunNext user \<longleftrightarrow>
      extract_auth_user env name cookie authorization db = Inr (Some user)
      \<and> (meth \<in> {POST, PUT, PATCH, DELETE} \<longrightarrow>
           au_session_source user = BearerToken
           \<or> (case Option.bind csrf id of Some v \<Rightarrow> v | None \<Rightarrow> []) = au_csrf_token user))
   \<and> (Option.bind (Option.bind cookie id) (\<lambda>s. find_cookie (ae_decode env) name (split_char CHR '';'' s)) \<noteq> None \<longrightarrow>
      extract_auth_user env name cookie authorization db = extract_auth_user env name cookie None db
      \<and> (\<forall>u. extract_auth_user env name cookie authorization db = Inr (Some u) \<longrightarrow> au_session_source u = Cookie))"
proof
  have "(case check_csrf csrf u of Inl e \<Rightarrow> AuthFailed e | Inr _ \<Rightarrow> RunNext u) = RunNext v
      \<longleftrightarrow> check_csrf csrf u = Inr () \<and> u = v" for u v
    by (auto split: sum.splits)
  then show "require_auth_middleware env name meth cookie authorization csrf db = RunNext user \<longleftrightarrow>
      extract_auth_user env name cookie authorization db = Inr (Some user)
      \<and> (meth \<in> {POST, PUT, PATCH, DELETE} \<longrightarrow>
           au_session_source user = BearerToken
           \<or> (case Option.bind csrf id of Some v \<Rightarrow> v | None \<Rightarrow> []) = au_csrf_token user)"
    by (auto simp: require_auth_middleware_def requires_csrf_check_def check_csrf_iff
        split: sum.splits option.splits)
  show "Option.bind (Option.bind cookie id) (\<lambda>s. find_cookie (ae_decode env) name (split_char CHR '';'' s)) \<noteq> None \<longrightarrow>
      extract_auth_user env name cookie authorization db = extract_auth_user env name cookie None db
      \<and> (\<forall>u. extract_auth_user env name cookie authorization db = Inr (Some u) \<longrightarrow> au_session_source u = Cookie)"
    by (auto simp: extract_auth_user_def extract_session_token_def make_auth_user_def
        split: option.splits sum.splits)
qed

text \<open>A small environment: tokens decode to themselves and there is one user and one session.\<close>

definition demo_user :: auth_user_record where
  "demo_user = \<lparr>ur_id = 1, ur_email = ''a@b'', ur_display_name = ''A'', ur_provider = ''local'',
     ur_password_hash = Some ''hash'', ur_created_at = 0\<rparr>"

definition demo_session :: session_record where
  "demo_session = \<lparr>sr_token_hash = ''t'', sr_csrf_token = ''csrf'', sr_expires_at = 0, sr_plaintext_token = Some ''t''\<rparr>"

definition demo_env :: "unit auth_env" where
  "demo_env = \<lparr>ae_decode = Some, ae_sha256 = id,
     ae_lookup = \<lambda>h db. Inr (if h = ''t'' then Some (demo_session, demo_user) else None),
     ae_user_by_email = \<lambda>_ _. Inr (Some demo_user), ae_user_by_id = \<lambda>_ _. Inr (Some demo_user),
     ae_create_user = \<lambda>_ _ _ _ db. (db, Inr 2), ae_create_session = \<lambda>_ db. (db, Inr demo_session),
     ae_verify = \<lambda>pw h. Inr (pw = ''right''), ae_hash = Inr, ae_header_ok = \<lambda>_. True\<rparr>"

lemmas eval_trim = trim_def trim_start_def trim_end_def drop_ws.simps ascii_ws_def ws2_def ws3_def byte_def

lemma auth_gate_exact_witness:
  "\<forall>u. require_auth_middleware demo_env ''s'' POST (Some (Some ''s=t'')) (Some (Some ''Bearer x'')) (Some (Some ''wrong'')) () \<noteq> RunNext u"
proof
  fix u
  have found: "find_cookie (ae_decode demo_env) ''s'' (split_char CHR '';'' ''s=t'') = Some ''t''"
    by (simp add: demo_env_def eval_trim)
  have user: "extract_auth_user demo_env ''s'' (Some (Some ''s=t'')) None () = Inr (Some (make_auth_user demo_user demo_session Cookie))"
    using found by (simp add: extract_auth_user_def extract_session_token_def) (simp add: demo_env_def)
  show "require_auth_middleware demo_env ''s'' POST (Some (Some ''s=t'')) (Some (Some ''Bearer x'')) (Some (Some ''wrong'')) () \<noteq> RunNext u"
    using auth_gate_exact [of demo_env "''s''" POST "Some (Some ''s=t'')" "Some (Some ''Bearer x'')" "Some (Some ''wrong'')" "()" u]
      found user by (auto simp: make_auth_user_def demo_session_def)
qed

section \<open>The cookie comes back\<close>

definition visible :: "char \<Rightarrow> bool" where
  "visible c \<longleftrightarrow> 33 \<le> byte c \<and> byte c \<le> 126 \<and> c \<noteq> CHR '';''"

lemma visible_no_ws:
  assumes "visible c"
  shows "ws_head (c # s) = 0" and "ws_head_rev (c # s) = 0"
proof -
  have "\<not> ascii_ws (byte c)" "\<not> ws2 (byte c) b" "\<not> ws2 b (byte c)" "\<not> ws3 (byte c) a b" "\<not> ws3 a b (byte c)" for a b
    using assms by (auto simp: visible_def ascii_ws_def ws2_def ws3_def)
  then show "ws_head (c # s) = 0" and "ws_head_rev (c # s) = 0"
    by (cases s rule: list.exhaust [where 'a = char]; simp; cases "tl s"; simp)+
qed

lemma trim_visible:
  assumes "s \<noteq> []" and "visible (hd s)" and "visible (last s)"
  shows "trim s = s"
proof -
  obtain c r where s: "s = c # r" using assms(1) by (cases s) auto
  have "trim_start s = s" using assms(2) visible_no_ws(1) s by (simp add: trim_start_no_ws)
  moreover have "trim_end s = s"
  proof -
    obtain q d where qd: "s = q @ [d]" using assms(1) by (cases s rule: rev_cases) auto
    then have "ws_head_rev (rev s) = 0" using assms(3) visible_no_ws(2) by simp
    then have "drop_ws ws_head_rev (rev s) = rev s" by (simp add: drop_ws.simps [of ws_head_rev])
    then show ?thesis by (simp add: trim_end_def)
  qed
  ultimately show ?thesis by (simp add: trim_def)
qed

lemma visible_semicolon: "list_all visible s \<Longrightarrow> CHR '';'' \<notin> set s"
  by (auto simp: list_all_iff visible_def)

lemma split_char_pieces:
  "CHR '';'' \<notin> set a \<Longrightarrow> split_char CHR '';'' (a @ CHR '';'' # b) = a # split_char CHR '';'' b"
  "CHR '';'' \<notin> set a \<Longrightarrow> split_char CHR '';'' a = [a]"
  by (induction a) auto

lemma find_cookie_hit:
  assumes "list_all visible name" and "name \<noteq> []" and "list_all visible token" and "token \<noteq> []" and "decode token \<noteq> None"
  shows "find_cookie decode name ((name @ ''='' @ token) # pieces) = Some token"
proof -
  have "trim (name @ ''='' @ token) = name @ ''='' @ token"
    using assms(1-4) by (intro trim_visible) (auto simp: list_all_iff last_append)
  moreover have "trim token = token"
    using assms(3,4) by (intro trim_visible) (auto simp: list_all_iff)
  ultimately show ?thesis using assms(5) by (simp add: Let_def)
qed

text \<open>
  The pair at the head of the \<open>Set-Cookie\<close> header the server builds, echoed by a browser
  alone or in front of its other cookies, is read back as the token, with the cookie as its
  source; the pair of the clearing header is no session.
\<close>

theorem session_cookie_roundtrip:
  assumes "list_all visible name" and "name \<noteq> []" and "list_all visible token" and "token \<noteq> []"
    and "decode token \<noteq> None" and "decode [] = None" and "others = [] \<or> hd others = CHR '';''"
  shows "extract_session_token decode
           (Some (Some (first_piece CHR '';'' (build_set_cookie name token secure max_age) @ others))) authorization name
         = Some \<lparr>es_token = token, es_source = Cookie\<rparr>
       \<and> extract_session_token decode
           (Some (Some (first_piece CHR '';'' (build_clear_cookie name secure)))) None name = None"
proof
  let ?pair = "name @ ''='' @ token"
  have nt: "CHR '';'' \<notin> set ?pair" and nn: "CHR '';'' \<notin> set (name @ ''='')"
    using visible_semicolon [OF assms(1)] visible_semicolon [OF assms(3)] by auto
  have cut: "first_piece CHR '';'' (a @ CHR '';'' # b) = a" if "CHR '';'' \<notin> set a" for a b
    using that by (induction a) (auto simp: first_piece_def)
  have "first_piece CHR '';'' (build_set_cookie name token secure max_age) = ?pair"
    using cut [OF nt] by (simp add: build_set_cookie_def)
  moreover have "\<exists>ps. split_char CHR '';'' (?pair @ others) = ?pair # ps"
    using assms(7) split_char_pieces [OF nt] by (cases others) auto
  ultimately show "extract_session_token decode
           (Some (Some (first_piece CHR '';'' (build_set_cookie name token secure max_age) @ others))) authorization name
         = Some \<lparr>es_token = token, es_source = Cookie\<rparr>"
    using find_cookie_hit [OF assms(1-4), where decode = decode] assms(5) by (auto simp: extract_session_token_def)
  have "first_piece CHR '';'' (build_clear_cookie name secure) = name @ ''=''"
    using cut [OF nn] by (simp add: build_clear_cookie_def)
  moreover have "trim (name @ ''='') = name @ ''=''"
    using assms(1,2) by (intro trim_visible) (auto simp: list_all_iff visible_def byte_def)
  moreover have "trim [] = []"
    by (simp add: trim_def trim_start_def trim_end_def drop_ws.simps)
  ultimately show "extract_session_token decode
           (Some (Some (first_piece CHR '';'' (build_clear_cookie name secure)))) None name = None"
    using assms(6) split_char_pieces(2) [OF nn]
    by (simp add: extract_session_token_def strip_prefix_append)
qed

lemma session_cookie_roundtrip_witness:
  "extract_session_token (\<lambda>s. if s = [] then None else Some s)
     (Some (Some (first_piece CHR '';'' (build_set_cookie ''nagent_session'' ''abc'' True 60) @ ''; theme=dark''))) None ''nagent_session''
   = Some \<lparr>es_token = ''abc'', es_source = Cookie\<rparr>"
  using session_cookie_roundtrip [of "''nagent_session''" "''abc''" "\<lambda>s. if s = [] then None else Some s" "''; theme=dark''" True 60 None]
  by (simp add: visible_def byte_def)

section \<open>Password logins\<close>

text \<open>The limiter's state after a login request: a check, and a reset when a session was minted.\<close>

lemma login_mint_limiter:
  "ls_limiter (fst (login_mint env cn secure ttl email ip user s)) \<in> {ls_limiter s, lrl_reset email ip (ls_limiter s)}"
  by (auto simp: login_mint_def Let_def case_prod_beta record_event_def split: sum.splits option.splits)

definition wrong_password :: "'db auth_env \<Rightarrow> string \<Rightarrow> string \<Rightarrow> bool" where
  "wrong_password env email password \<longleftrightarrow>
     (\<forall>db u h. ae_user_by_email env email db = Inr (Some u) \<longrightarrow> ur_password_hash u = Some h
        \<longrightarrow> ae_verify env password h \<noteq> Inr True)"

lemma login_handler_wrong:
  assumes "wrong_password env email password"
  shows "ls_limiter (fst (login_handler env cn secure ttl ts now ip email password s)) = fst (lrl_check ts now email ip (ls_limiter s))"
proof -
  have "ae_verify env password h \<noteq> Inr True"
    if "ae_user_by_email env email (ls_db s) = Inr found" "Option.bind found (\<lambda>u. map_option (Pair u) (ur_password_hash u)) = Some (u, h)" for found u h
    using that assms unfolding wrong_password_def by (cases found) auto
  then show ?thesis
    by (auto simp: login_handler_def Let_def case_prod_beta record_event_def split: login_decision.splits sum.splits option.splits)
qed

fun login_requests ::
  "'db auth_env \<Rightarrow> string \<Rightarrow> bool \<Rightarrow> nat \<Rightarrow> (instant \<times> instant \<times> ip_addr \<times> string \<times> string) list \<Rightarrow> 'db login_state
     \<Rightarrow> 'db login_state \<times> (auth_user \<times> string \<times> string) handled list" where
  "login_requests env cn secure ttl [] s = (s, [])"
| "login_requests env cn secure ttl ((ts, now, ip, email, password) # reqs) s =
     (let (s', r) = login_handler env cn secure ttl ts now ip email password s;
          (s'', rs) = login_requests env cn secure ttl reqs s'
      in (s'', r # rs))"

definition guesses_evaluated ::
  "string \<Rightarrow> (instant \<times> instant \<times> ip_addr \<times> string \<times> string) list \<Rightarrow> (auth_user \<times> string \<times> string) handled list \<Rightarrow> nat" where
  "guesses_evaluated e reqs rs =
     length (filter (\<lambda>((ts, now, ip, email, password), r).
        normalise_email email = e \<and> \<not> ip_is_loopback ip \<and> (\<forall>retry. r \<noteq> Refused (AuthRateLimited retry))) (zip reqs rs))"

definition as_check :: "instant \<times> instant \<times> ip_addr \<times> string \<times> string \<Rightarrow> login_op" where
  "as_check = (\<lambda>(ts, now, ip, email, password). LoginCheck ts now email ip)"

lemma guesses_evaluated_simps [simp]:
  "guesses_evaluated e [] rs = 0"
  "guesses_evaluated e ((ts, now, ip, email, password) # reqs) (r # rs) =
     (if normalise_email email = e \<and> \<not> ip_is_loopback ip \<and> (\<forall>retry. r \<noteq> Refused (AuthRateLimited retry)) then 1 else 0)
     + guesses_evaluated e reqs rs"
  by (simp_all add: guesses_evaluated_def)

lemma admitted_email_Cons:
  "admitted_email e ((em, i, d) # outs) =
     (if normalise_email em = e \<and> \<not> ip_is_loopback i \<and> d = LoginAllow then 1 else 0) + admitted_email e outs"
  by (simp add: admitted_email_def)

lemma as_check_simp [simp]: "as_check (ts, now, ip, email, password) = LoginCheck ts now email ip"
  by (simp add: as_check_def)

lemma guesses_are_admitted:
  assumes "\<forall>(ts, now, ip, email, password) \<in> set reqs. wrong_password env email password"
  shows "guesses_evaluated e reqs (snd (login_requests env cn secure ttl reqs s))
           \<le> admitted_email e (snd (lrl_run (map as_check reqs) (ls_limiter s)))"
  using assms
proof (induction reqs arbitrary: s)
  case Nil
  then show ?case by simp
next
  case (Cons req reqs)
  obtain ts now ip email password where req: "req = (ts, now, ip, email, password)" by (cases req)
  let ?h = "login_handler env cn secure ttl ts now ip email password s"
  have wrong: "wrong_password env email password" using Cons.prems req by simp
  have IH: "guesses_evaluated e reqs (snd (login_requests env cn secure ttl reqs (fst ?h)))
      \<le> admitted_email e (snd (lrl_run (map as_check reqs) (fst (lrl_check ts now email ip (ls_limiter s)))))"
    using Cons.IH [of "fst ?h"] Cons.prems by (simp add: login_handler_wrong [OF wrong])
  have "\<exists>retry. snd ?h = Refused (AuthRateLimited retry)" if "snd (lrl_check ts now email ip (ls_limiter s)) \<noteq> LoginAllow"
    using that by (cases "snd (lrl_check ts now email ip (ls_limiter s))")
      (auto simp: login_handler_def Let_def case_prod_beta)
  then show ?case using IH
    by (auto simp: req Let_def case_prod_beta admitted_email_Cons)
qed

text \<open>
  C37: Online guessing is bounded end to end: of any sequence of login requests with wrong
  passwords that reach the handler in an interval of the length of the email window, from any
  number of remote addresses and under any spelling of the email, at most \<open>email_max\<close> get past a
  freshly started limiter, and at most twice as many past one that is running, whatever attempts
  and successful logins came before, to a lookup of the account or a check of the password.
\<close>

theorem password_guess_budget:
  assumes "lp_email_max p \<le> u32_max" and "ls_limiter s = lrl_after past p"
    and "\<forall>(ts, now, ip, email, password) \<in> set reqs. wrong_password env email password
           \<and> t0 \<le> ts \<and> ts < t0 + lp_email_window p \<and> t0 \<le> now \<and> now < t0 + lp_email_window p"
  shows "guesses_evaluated e reqs (snd (login_requests env cn secure ttl reqs s))
           \<le> (if past = [] then 1 else 2) * lp_email_max p"
proof -
  have "guesses_evaluated e reqs (snd (login_requests env cn secure ttl reqs s))
      \<le> admitted_email e (snd (lrl_run (map as_check reqs) (lrl_after past p)))"
    unfolding assms(2) [symmetric] by (rule guesses_are_admitted) (use assms(3) in auto)
  also have "\<dots> \<le> (if past = [] then 1 else 2) * lp_email_max p"
    using assms(3) by (intro email_budget_run [OF assms(1)]) auto
  finally show ?thesis .
qed

lemma password_guess_budget_witness:
  "guesses_evaluated ''a@b'' [(1, 2, V4 (IPv4 9 9 9 9), ''A@b'', ''guess'')]
     (snd (login_requests demo_env ''s'' True 60 [(1, 2, V4 (IPv4 9 9 9 9), ''A@b'', ''guess'')]
        \<lparr>ls_limiter = lrl_after [LoginCheck 0 0 ''a@b'' (V4 (IPv4 8 8 8 8))] default_login_policy,
         ls_db = (), ls_events = []\<rparr>)) \<le> 40"
  using password_guess_budget [of default_login_policy
      "\<lparr>ls_limiter = lrl_after [LoginCheck 0 0 ''a@b'' (V4 (IPv4 8 8 8 8))] default_login_policy, ls_db = (), ls_events = []\<rparr>"
      "[LoginCheck 0 0 ''a@b'' (V4 (IPv4 8 8 8 8))]"
      "[(1, 2, V4 (IPv4 9 9 9 9), ''A@b'', ''guess'')]" demo_env 1 "''a@b''" "''s''" True 60]
  by (simp add: default_login_policy_def u32_max_def ns_per_sec_def wrong_password_def demo_env_def demo_user_def)

text \<open>
  C4: A password login that returns a session was admitted by the limiter, found the account by
  the email given, and verified the password against the stored hash; the session is that
  account's, the cookie carries its token, and the limiter is reset for the email and the
  address. A request the limiter refuses changes neither the database nor anything but the
  limiter and the event log, and the answer does not depend on the account or the password.
\<close>

theorem login_handler_sound:
  "(snd (login_handler env cn secure ttl ts now ip email password s) = Done (au, token, cookie) \<longrightarrow>
      snd (lrl_check ts now email ip (ls_limiter s)) = LoginAllow
      \<and> (\<exists>user hash session. ae_user_by_email env email (ls_db s) = Inr (Some user) \<and> ur_password_hash user = Some hash
           \<and> ae_verify env password hash = Inr True \<and> snd (ae_create_session env (ur_id user) (ls_db s)) = Inr session
           \<and> sr_plaintext_token session = Some token \<and> au = make_auth_user user session Cookie)
      \<and> cookie = build_set_cookie cn token secure (int ttl)
      \<and> ls_limiter (fst (login_handler env cn secure ttl ts now ip email password s))
          = lrl_reset email ip (fst (lrl_check ts now email ip (ls_limiter s))))
   \<and> (snd (lrl_check ts now email ip (ls_limiter s)) = LoginDeny retry kind \<longrightarrow>
      login_handler env cn secure ttl ts now ip email password s =
        (s\<lparr>ls_limiter := fst (lrl_check ts now email ip (ls_limiter s)), ls_events := ls_events s @ [LoginRateLimited]\<rparr>,
         Refused (AuthRateLimited retry)))"
proof
  show "snd (login_handler env cn secure ttl ts now ip email password s) = Done (au, token, cookie) \<longrightarrow>
      snd (lrl_check ts now email ip (ls_limiter s)) = LoginAllow
      \<and> (\<exists>user hash session. ae_user_by_email env email (ls_db s) = Inr (Some user) \<and> ur_password_hash user = Some hash
           \<and> ae_verify env password hash = Inr True \<and> snd (ae_create_session env (ur_id user) (ls_db s)) = Inr session
           \<and> sr_plaintext_token session = Some token \<and> au = make_auth_user user session Cookie)
      \<and> cookie = build_set_cookie cn token secure (int ttl)
      \<and> ls_limiter (fst (login_handler env cn secure ttl ts now ip email password s))
          = lrl_reset email ip (fst (lrl_check ts now email ip (ls_limiter s)))"
    by (auto simp: login_handler_def login_mint_def record_event_def Let_def case_prod_beta bind_eq_Some_conv
        split: login_decision.splits sum.splits option.splits if_splits)
  show "snd (lrl_check ts now email ip (ls_limiter s)) = LoginDeny retry kind \<longrightarrow>
      login_handler env cn secure ttl ts now ip email password s =
        (s\<lparr>ls_limiter := fst (lrl_check ts now email ip (ls_limiter s)), ls_events := ls_events s @ [LoginRateLimited]\<rparr>,
         Refused (AuthRateLimited retry))"
    by (simp add: login_handler_def Let_def case_prod_beta record_event_def)
qed

lemma login_handler_sound_witness:
  "\<exists>user hash. ae_user_by_email demo_env ''a@b'' () = Inr (Some user) \<and> ur_password_hash user = Some hash
     \<and> ae_verify demo_env ''right'' hash = Inr True"
proof -
  let ?s = "\<lparr>ls_limiter = lrl_new, ls_db = (), ls_events = []\<rparr>"
  have allow: "lrl_check 0 0 ''a@b'' (V4 (IPv4 127 0 0 1)) lrl_new = (lrl_new, LoginAllow)"
    by (rule lrl_check_loopback) simp
  have env: "ae_user_by_email demo_env e db = Inr (Some demo_user)" "ae_verify demo_env ''right'' h = Inr True"
    "ae_create_session demo_env i db = (db, Inr demo_session)" "ae_decode demo_env t = Some t" "ae_header_ok demo_env c"
    for e db h i t c by (simp_all add: demo_env_def)
  have rec: "ur_password_hash demo_user = Some ''hash''" "sr_plaintext_token demo_session = Some ''t''"
    by (simp_all add: demo_user_def demo_session_def)
  have "snd (login_handler demo_env ''s'' True 60 0 0 (V4 (IPv4 127 0 0 1)) ''a@b'' ''right'' ?s)
      = Done (make_auth_user demo_user demo_session Cookie, ''t'', build_set_cookie ''s'' ''t'' True (int 60))"
    unfolding login_handler_def login_mint_def by (simp add: allow env rec Let_def)
  then show ?thesis
    using login_handler_sound [of demo_env "''s''" True 60 0 0 "V4 (IPv4 127 0 0 1)" "''a@b''" "''right''" ?s
        "make_auth_user demo_user demo_session Cookie" "''t''" "build_set_cookie ''s'' ''t'' True (int 60)"]
    by (simp only: login_state.select_convs simp_thms) blast
qed

end
