(* ===== verification/Origin_Guard.thy ===== *)
theory Origin_Guard
  imports Auth_Session
begin

text \<open>
  The \<open>Origin\<close> / \<open>Host\<close> guard (\<open>crates/nagent-server/src/http/origin_guard.rs\<close>): the two
  allow-lists derived from the configuration, the evaluation of a request and of a WebSocket
  upgrade, and the middleware.
\<close>

section \<open>Configuration and allow-lists\<close>

record guard_config =
  gc_bind_ip :: ip_addr
  gc_bind_port :: nat
  gc_allowed_origins :: "string list"

datatype decision = Allow | ForbiddenOrigin | MisdirectedHost

datatype origin_source = Derived | Operator

definition normalise_origin :: "string \<Rightarrow> string" where
  "normalise_origin raw = to_ascii_lowercase (trim_end_matches CHR ''/'' (trim raw))"

definition host_part_of_origin :: "string \<Rightarrow> string option" where
  "host_part_of_origin origin =
     (case split_once ''://'' origin of
        None \<Rightarrow> None
      | Some (_, after_scheme) \<Rightarrow> Some (hd (split_char CHR ''/'' after_scheme)))"

definition bind_scheme :: "guard_config \<Rightarrow> string" where
  "bind_scheme cfg = (if ip_is_loopback (gc_bind_ip cfg) then ''http'' else ''https'')"

definition build_allowed_origins :: "guard_config \<Rightarrow> string list \<times> origin_source" where
  "build_allowed_origins cfg =
     (if gc_allowed_origins cfg \<noteq> [] then (map normalise_origin (gc_allowed_origins cfg), Operator)
      else (let scheme = bind_scheme cfg; port = nat_to_string (gc_bind_port cfg)
            in (case gc_bind_ip cfg of
                  V4 v4 \<Rightarrow> [scheme @ ''://'' @ show_v4 v4 @ '':'' @ port, scheme @ ''://localhost:'' @ port]
                | V6 v6 \<Rightarrow> [scheme @ ''://['' @ show_v6 v6 @ '']:'' @ port],
                Derived)))"

definition build_allowed_hosts :: "guard_config \<Rightarrow> string list \<Rightarrow> string list" where
  "build_allowed_hosts cfg allowed_origins =
     (let out = List.map_filter host_part_of_origin allowed_origins;
          bind_origin = bind_scheme cfg @ ''://'' @ show_ip (gc_bind_ip cfg) @ '':'' @ nat_to_string (gc_bind_port cfg)
      in case host_part_of_origin bind_origin of
           None \<Rightarrow> out
         | Some h \<Rightarrow> if h \<in> set out then out else out @ [h])"

section \<open>Evaluation\<close>

definition host_matches :: "string \<Rightarrow> string \<Rightarrow> bool" where
  "host_matches h entry0 =
     (let h_norm = to_ascii_lowercase (trim h);
          h_no_port = hd (split_char CHR '':'' h_norm);
          entry = to_ascii_lowercase entry0
      in entry = h_norm \<or> hd (split_char CHR '':'' entry) = h_no_port \<or> entry = h_no_port)"

definition evaluate_with ::
  "http_method \<Rightarrow> string option \<Rightarrow> string option \<Rightarrow> string list \<Rightarrow> string list \<Rightarrow> decision" where
  "evaluate_with meth host origin allowed_origins allowed_hosts =
     (if (case host of None \<Rightarrow> False | Some h \<Rightarrow> \<not> list_ex (host_matches h) allowed_hosts)
      then MisdirectedHost
      else if meth \<in> {POST, PUT, PATCH, DELETE}
      then (case origin of
              None \<Rightarrow> if host = None then ForbiddenOrigin else Allow
            | Some o' \<Rightarrow> if normalise_origin o' \<notin> set allowed_origins then ForbiddenOrigin else Allow)
      else Allow)"

definition evaluate :: "http_method \<Rightarrow> string option \<Rightarrow> string option \<Rightarrow> guard_config \<Rightarrow> decision" where
  "evaluate meth host origin cfg =
     (let (allowed_origins, _) = build_allowed_origins cfg;
          allowed_hosts = build_allowed_hosts cfg allowed_origins
      in evaluate_with meth host origin allowed_origins allowed_hosts)"

definition evaluate_ws_upgrade_with ::
  "string option \<Rightarrow> string option \<Rightarrow> string list \<Rightarrow> string list \<Rightarrow> decision" where
  "evaluate_ws_upgrade_with host origin allowed_origins allowed_hosts =
     (if (case host of None \<Rightarrow> False | Some h \<Rightarrow> \<not> list_ex (host_matches h) allowed_hosts)
      then MisdirectedHost
      else (case origin of
              None \<Rightarrow> (case host of Some _ \<Rightarrow> Allow | None \<Rightarrow> ForbiddenOrigin)
            | Some o' \<Rightarrow> if normalise_origin o' \<notin> set allowed_origins then ForbiddenOrigin else Allow))"

definition evaluate_ws_upgrade :: "string option \<Rightarrow> string option \<Rightarrow> guard_config \<Rightarrow> decision" where
  "evaluate_ws_upgrade host origin cfg =
     (let (allowed_origins, _) = build_allowed_origins cfg;
          allowed_hosts = build_allowed_hosts cfg allowed_origins
      in evaluate_ws_upgrade_with host origin allowed_origins allowed_hosts)"

text \<open>A response of the guard: its status and the header named by \<open>Vary\<close>; the body is empty.\<close>

datatype guard_reply = Forwarded | Rejected nat string

definition forbidden_origin_response :: guard_reply where
  "forbidden_origin_response = Rejected 403 ''Origin''"

definition misdirected_host_response :: guard_reply where
  "misdirected_host_response = Rejected 421 ''Host''"


text \<open>\<open>Inl\<close> is the early reply of the upgrade handler.\<close>

definition check_ws_upgrade :: "header \<Rightarrow> header \<Rightarrow> string \<Rightarrow> guard_config \<Rightarrow> guard_reply + unit" where
  "check_ws_upgrade host_header origin_header bind_host cfg =
     (let origin = Option.bind origin_header id
      in case evaluate_ws_upgrade (Some bind_host) origin cfg of
           Allow \<Rightarrow> Inr ()
         | ForbiddenOrigin \<Rightarrow> Inl forbidden_origin_response
         | MisdirectedHost \<Rightarrow> Inl misdirected_host_response)"

definition bind_host_of :: "guard_config \<Rightarrow> string" where
  "bind_host_of cfg = show_ip (gc_bind_ip cfg) @ '':'' @ nat_to_string (gc_bind_port cfg)"

section \<open>The bind address is always an allowed host\<close>



lemma addr_visible: "addr_char c \<Longrightarrow> visible c"
  by (auto simp: addr_char_def lower_hex_def visible_def byte_def)

lemma addr_no_slash: "list_all addr_char s \<Longrightarrow> CHR ''/'' \<notin> set s"
  by (auto simp: list_all_iff addr_char_def lower_hex_def byte_def)

lemma addr_trim: "list_all addr_char s \<Longrightarrow> trim s = s"
proof (cases s)
  case Nil
  then show ?thesis by (simp add: trim_def trim_start_def trim_end_def drop_ws.simps)
next
  case (Cons c r)
  assume "list_all addr_char s"
  with Cons show ?thesis by (intro trim_visible) (auto simp: list_all_iff addr_visible)
qed

lemma bind_host_addr: "list_all addr_char (bind_host_of cfg)"
  by (simp add: bind_host_of_def show_ip_addr)

lemma host_part_bind: "host_part_of_origin (bind_scheme cfg @ ''://'' @ bind_host_of cfg) = Some (bind_host_of cfg)"
proof -
  have "split_once ''://'' (bind_scheme cfg @ ''://'' @ r) = Some (bind_scheme cfg, r)" for r
    by (simp add: bind_scheme_def)
  moreover have "first_piece CHR ''/'' s = s" if "CHR ''/'' \<notin> set s" for s
    using that by (induction s) (auto simp: first_piece_def)
  ultimately show ?thesis
    using addr_no_slash [OF bind_host_addr [of cfg]] by (simp add: host_part_of_origin_def hd_split_char)
qed

lemma bind_host_allowed: "bind_host_of cfg \<in> set (build_allowed_hosts cfg origins)"
  using host_part_bind [of cfg] by (simp add: build_allowed_hosts_def bind_host_of_def Let_def)

lemma bind_host_matches: "list_ex (host_matches (bind_host_of cfg)) (build_allowed_hosts cfg origins)"
  using bind_host_allowed [of cfg origins] addr_trim [OF bind_host_addr [of cfg]]
  by (auto simp: list_ex_iff host_matches_def Let_def)

lemma ascii_lower_colon: "ascii_lower c = CHR '':'' \<longleftrightarrow> c = CHR '':''"
proof (cases "65 \<le> byte c \<and> byte c \<le> 90")
  case True
  then have "byte (ascii_lower c) = byte c + 32" by (simp add: ascii_lower_def byte_char_of)
  moreover have "byte CHR '':'' = 58" by (simp add: byte_def)
  ultimately show ?thesis using True by auto
next
  case False
  then have "ascii_lower c = c" by (simp only: ascii_lower_def if_False)
  then show ?thesis by simp
qed

section \<open>Properties\<close>





text \<open>
  The upgrade check passes exactly the requests without an origin and those whose origin is
  allowed. It is given the server's own bind address in place of the \<open>Host\<close> header, which
  always matches, so no value of that header, forged or not, has an effect.
\<close>

theorem ws_upgrade_check_exact:
  "check_ws_upgrade host_header origin_header (bind_host_of cfg) cfg =
     (case Option.bind origin_header id of
        None \<Rightarrow> Inr ()
      | Some o' \<Rightarrow> if normalise_origin o' \<in> set (fst (build_allowed_origins cfg)) then Inr ()
                  else Inl (Rejected 403 ''Origin''))"
  using bind_host_matches [of cfg "fst (build_allowed_origins cfg)"]
  by (auto simp: check_ws_upgrade_def evaluate_ws_upgrade_def evaluate_ws_upgrade_with_def Let_def case_prod_beta
      forbidden_origin_response_def split: option.splits)

text \<open>
  The port is cut off a host at its first colon. Of an IPv6 literal that leaves the bracket
  and the first group, so a server bound to an IPv6 address takes every bracketed host that
  begins with the same group for an allowed one; bound to \<open>::1\<close>, every host that begins
  with \<open>[:\<close>.
\<close>

theorem ipv6_host_confusion:
  assumes "gc_bind_ip cfg = V6 v6" and "gc_allowed_origins cfg = []"
    and "show_v6 v6 = grp @ '':'' @ rest" and "CHR '':'' \<notin> set grp"
    and "trim (''['' @ grp @ '':'' @ any) = ''['' @ grp @ '':'' @ any"
  shows "evaluate GET (Some (''['' @ grp @ '':'' @ any)) origin cfg = Allow"
proof -
  let ?tail = "''['' @ show_v6 v6 @ '']:'' @ nat_to_string (gc_bind_port cfg)"
  let ?o = "bind_scheme cfg @ ''://'' @ ?tail"
  let ?h = "''['' @ grp @ '':'' @ any"
  have o: "fst (build_allowed_origins cfg) = [?o]"
    using assms(1,2) by (simp add: build_allowed_origins_def Let_def)
  have slash: "CHR ''/'' \<notin> set ?tail"
    using addr_no_slash [of "show_v6 v6"] show_ip_addr [of "V6 v6"] addr_no_slash [of "nat_to_string (gc_bind_port cfg)"] by auto
  have "split_once ''://'' (bind_scheme cfg @ ''://'' @ r) = Some (bind_scheme cfg, r)" for r
    by (simp add: bind_scheme_def)
  moreover have "first_piece CHR ''/'' s = s" if "CHR ''/'' \<notin> set s" for s
    using that by (induction s) (auto simp: first_piece_def)
  ultimately have "host_part_of_origin ?o = Some ?tail"
    using slash by (simp add: host_part_of_origin_def hd_split_char)
  then have mem: "?tail \<in> set (build_allowed_hosts cfg [?o])"
    by (simp add: build_allowed_hosts_def map_filter_simps Let_def split: option.splits)
  have lower: "to_ascii_lowercase (g @ CHR '':'' # r) = to_ascii_lowercase g @ CHR '':'' # to_ascii_lowercase r" for g r
    by (simp add: to_ascii_lowercase_def ascii_lower_def byte_def)
  note colon = ascii_lower_colon
  have piece: "first_piece CHR '':'' (to_ascii_lowercase (g @ CHR '':'' # r)) = to_ascii_lowercase g" if "CHR '':'' \<notin> set g" for g r
    unfolding lower using that by (induction g) (auto simp: first_piece_def to_ascii_lowercase_def colon)
  have "CHR '':'' \<notin> set (''['' @ grp)" using assms(4) by simp
  note same = piece [OF this, of any] piece [OF this, of "rest @ '']:'' @ nat_to_string (gc_bind_port cfg)"]
  have "host_matches ?h ?tail"
    unfolding host_matches_def assms(5) hd_split_char Let_def using same assms(3) by simp
  with mem show ?thesis
    by (auto simp: evaluate_def evaluate_with_def Let_def case_prod_beta o list_ex_iff simp del: append.simps)
qed

lemma ipv6_host_confusion_witness:
  "evaluate GET (Some ''[::6:6:6]:80'') None
     \<lparr>gc_bind_ip = V6 (IPv6 0 0 0 0 0 0 0 1), gc_bind_port = 8080, gc_allowed_origins = []\<rparr> = Allow"
proof -
  have "show_v6 (IPv6 0 0 0 0 0 0 0 1) = [] @ '':'' @ '':1''"
    by code_simp
  moreover have "trim ''[::6:6:6]:80'' = ''[::6:6:6]:80''"
    by (rule trim_visible) (simp_all add: visible_def byte_def)
  ultimately show ?thesis
    using ipv6_host_confusion [of "\<lparr>gc_bind_ip = V6 (IPv6 0 0 0 0 0 0 0 1), gc_bind_port = 8080, gc_allowed_origins = []\<rparr>"
        "IPv6 0 0 0 0 0 0 0 1" "[]" "'':1''" "'':6:6:6]:80''" None] by simp
qed

end
