(* ===== verification/Stt_Server.thy ===== *)
theory Stt_Server
  imports Stt_Proto Ws_Concurrency Origin_Guard
begin

text \<open>
  The speech service: inbound validation (\<open>crates/nagent-server/src/stt/validation.rs\<close>), the
  session registry (\<open>stt/session.rs\<close>), the result router (\<open>stt/result_router.rs\<close>), the watchdog
  (\<open>stt/watchdog.rs\<close>), the worker pool (\<open>crates/stt-core/src/worker.rs\<close>) and the WebSocket
  handler (\<open>stt/ws_handler.rs\<close>).

  A session id (a random \<open>Uuid\<close>) is a number given by the caller. The channel of a connection
  is a queue that exists as long as the connection's task holds the receiver. A worker's
  bounded channel together with the senders that wait for it, which it serves in order, is one
  queue. Parameters: the postcard codec, the hash of a session id, the inference backend, and
  whether a send on the socket succeeds.
\<close>

section \<open>Validation\<close>

record limits_config =
  required_sample_rate :: nat
  max_language_hint_bytes :: nat
  max_audio_frame_samples :: nat

definition allowed_lang_hints :: "string list" where
  "allowed_lang_hints =
     [''en'', ''fr'', ''es'', ''de'', ''it'', ''pt'', ''ja'', ''zh'', ''zh-cn'', ''zh-tw'', ''pt-br'']"

datatype frame_error =
    InvalidSampleRate nat nat
  | LanguageHintTooLong nat nat
  | UnknownLanguageHint string
  | AudioFrameTooLarge nat nat
  | ConfigLanguageHintTooLong nat nat
  | ConfigUnknownLanguageHint string

definition is_allowed_lang :: "string \<Rightarrow> bool" where
  "is_allowed_lang lang = (let lower = to_ascii_lowercase lang in list_ex (\<lambda>allowed. allowed = lower) allowed_lang_hints)"

definition validate_start :: "limits_config \<Rightarrow> nat \<Rightarrow> string option \<Rightarrow> frame_error + unit" where
  "validate_start limits rate hint =
     (if rate \<noteq> required_sample_rate limits then Inl (InvalidSampleRate (required_sample_rate limits) rate)
      else (case hint of
              None \<Rightarrow> Inr ()
            | Some lang \<Rightarrow>
                if max_language_hint_bytes limits < length lang
                then Inl (LanguageHintTooLong (max_language_hint_bytes limits) (length lang))
                else if \<not> is_allowed_lang lang then Inl (UnknownLanguageHint lang) else Inr ()))"

definition validate_config :: "limits_config \<Rightarrow> string option \<Rightarrow> frame_error + unit" where
  "validate_config limits language =
     (case language of
        None \<Rightarrow> Inr ()
      | Some lang \<Rightarrow>
          if max_language_hint_bytes limits < length lang
          then Inl (ConfigLanguageHintTooLong (max_language_hint_bytes limits) (length lang))
          else if \<not> is_allowed_lang lang then Inl (ConfigUnknownLanguageHint lang) else Inr ())"

definition validate_audio :: "limits_config \<Rightarrow> f32 list \<Rightarrow> frame_error + unit" where
  "validate_audio limits samples =
     (if max_audio_frame_samples limits < length samples
      then Inl (AudioFrameTooLarge (max_audio_frame_samples limits) (length samples)) else Inr ())"

section \<open>Sessions, jobs and the shared state\<close>

datatype outbound_message = OutPayload payload | OutClose

record session_state =
  ss_language :: "string option"
  ss_translate :: bool
  ss_last_activity_ms :: nat

record infer_request =
  ir_session_id :: nat
  ir_samples :: "f32 list"
  ir_language :: "string option"
  ir_translate :: bool

record infer_response =
  rs_session_id :: nat
  rs_text :: string
  rs_segments :: "segment list"
  rs_lang :: string
  rs_duration_ms :: nat

datatype backend_error = NotReady string | InferenceFailed string | Overloaded

record stt_state =
  sessions :: "(nat, session_state) dash"
  channels :: "(nat, outbound_message list) dash"
  queues :: "infer_request list list"
  answers :: "infer_response list"
  pool_open :: bool
  stt_limiter :: rate_limiter
  stt_concurrency :: ws_concurrency

definition session_new :: "nat \<Rightarrow> session_state" where
  "session_new now_ms = \<lparr>ss_language = None, ss_translate = False, ss_last_activity_ms = now_ms\<rparr>"

definition is_idle :: "nat \<Rightarrow> nat \<Rightarrow> session_state \<Rightarrow> bool" where
  "is_idle now_ms timeout_ms st \<longleftrightarrow> timeout_ms \<le> now_ms - ss_last_activity_ms st"

definition register_session :: "nat \<Rightarrow> nat \<Rightarrow> stt_state \<Rightarrow> stt_state" where
  "register_session sid now_ms s =
     s\<lparr>sessions := dash_put sid (session_new now_ms) (sessions s), channels := dash_put sid [] (channels s)\<rparr>"

definition unregister_session :: "nat \<Rightarrow> stt_state \<Rightarrow> stt_state" where
  "unregister_session sid s = s\<lparr>sessions := dash_remove sid (sessions s)\<rparr>"

text \<open>Sending fails when the session is gone or the receiver of its channel is.\<close>

definition send_to_session :: "nat \<Rightarrow> payload \<Rightarrow> stt_state \<Rightarrow> stt_state \<times> bool" where
  "send_to_session sid p s =
     (if dash_get (sessions s) sid = None then (s, False)
      else (case dash_get (channels s) sid of
              None \<Rightarrow> (s, False)
            | Some out \<Rightarrow> (s\<lparr>channels := dash_put sid (out @ [OutPayload p]) (channels s)\<rparr>, True)))"

definition final_of :: "infer_response \<Rightarrow> payload" where
  "final_of resp = PFinal \<lparr>ft_text = rs_text resp, ft_segments = rs_segments resp, ft_lang = rs_lang resp\<rparr>"

definition route :: "infer_response \<Rightarrow> stt_state \<Rightarrow> stt_state" where
  "route resp s = fst (send_to_session (rs_session_id resp) (final_of resp) s)"

definition watchdog_sweep :: "nat \<Rightarrow> duration \<Rightarrow> stt_state \<Rightarrow> stt_state" where
  "watchdog_sweep now_ms idle_timeout s =
     (let idle_ms = as_millis idle_timeout mod 2 ^ 64;
          to_remove = map fst (filter (\<lambda>(k, st). is_idle now_ms idle_ms st) (sessions s))
      in fold unregister_session to_remove s)"

section \<open>The worker pool\<close>

definition shard_for :: "(nat \<Rightarrow> nat) \<Rightarrow> nat \<Rightarrow> nat \<Rightarrow> nat" where
  "shard_for hash session_id worker_count = hash session_id mod worker_count"

definition pool_send :: "(nat \<Rightarrow> nat) \<Rightarrow> infer_request \<Rightarrow> stt_state \<Rightarrow> stt_state \<times> bool" where
  "pool_send hash req s =
     (if \<not> pool_open s then (s, False)
      else (let idx = shard_for hash (ir_session_id req) (length (queues s))
            in (s\<lparr>queues := (queues s)[idx := queues s ! idx @ [req]]\<rparr>, True)))"

definition empty_response :: "nat \<Rightarrow> nat \<Rightarrow> infer_response" where
  "empty_response sid elapsed_ms =
     \<lparr>rs_session_id = sid, rs_text = [], rs_segments = [], rs_lang = [], rs_duration_ms = elapsed_ms\<rparr>"

definition handle_one ::
  "(infer_request \<Rightarrow> backend_error + infer_response) \<Rightarrow> nat \<Rightarrow> infer_request \<Rightarrow> infer_response" where
  "handle_one infer elapsed_ms req =
     (case infer req of
        Inr resp \<Rightarrow> if rs_duration_ms resp = 0 then resp\<lparr>rs_duration_ms := elapsed_ms\<rparr> else resp
      | Inl (NotReady _) \<Rightarrow> empty_response (ir_session_id req) elapsed_ms
      | Inl _ \<Rightarrow> empty_response (ir_session_id req) elapsed_ms)"

text \<open>
  One turn of worker \<open>i\<close>: it takes the head of its queue and answers on the job's oneshot
  channel. A task of its own forwards each answer to the session it names, so the answers that
  are ready can be delivered in any order.
\<close>

definition worker_step ::
  "(infer_request \<Rightarrow> backend_error + infer_response) \<Rightarrow> nat \<Rightarrow> nat \<Rightarrow> stt_state \<Rightarrow> stt_state" where
  "worker_step infer elapsed_ms i s =
     (if length (queues s) \<le> i then s
      else (case queues s ! i of
              [] \<Rightarrow> s
            | req # rest \<Rightarrow>
                s\<lparr>queues := (queues s)[i := rest], answers := answers s @ [handle_one infer elapsed_ms req]\<rparr>))"

definition deliver_answer :: "nat \<Rightarrow> stt_state \<Rightarrow> stt_state" where
  "deliver_answer j s =
     (if length (answers s) \<le> j then s
      else (let resp = answers s ! j
            in fst (send_to_session (rs_session_id resp) (final_of resp)
                 (s\<lparr>answers := take j (answers s) @ drop (Suc j) (answers s)\<rparr>))))"

definition default_worker_count :: "nat \<Rightarrow> nat option \<Rightarrow> nat" where
  "default_worker_count recommended_workers available_parallelism =
     (if 1 \<le> recommended_workers then min recommended_workers 8
      else (let cpus = (case available_parallelism of Some n \<Rightarrow> n | None \<Rightarrow> 1) in min (max cpus 1) 8))"

section \<open>The connection\<close>

datatype inbound_error = InCodec codec_error | ClientStop | WorkerUnavailable | InValidation frame_error

definition normalize_lang_hint :: "string option \<Rightarrow> string option" where
  "normalize_lang_hint hint = map_option to_ascii_lowercase hint"

definition touch_session :: "nat \<Rightarrow> nat \<Rightarrow> (session_state \<Rightarrow> session_state) \<Rightarrow> stt_state \<Rightarrow> stt_state" where
  "touch_session sid now_ms f s =
     s\<lparr>sessions := dash_modify (\<lambda>st. f (st\<lparr>ss_last_activity_ms := now_ms\<rparr>)) sid (sessions s)\<rparr>"

definition handle_inbound ::
  "postcard \<Rightarrow> (nat \<Rightarrow> nat) \<Rightarrow> limits_config \<Rightarrow> nat \<Rightarrow> nat \<Rightarrow> bytes \<Rightarrow> stt_state \<Rightarrow> stt_state \<times> (inbound_error + unit)" where
  "handle_inbound pc hash limits now_ms sid bytes s =
     (case decode_frame pc bytes of
        Inl e \<Rightarrow> (s, Inl (InCodec e))
      | Inr (PStart start) \<Rightarrow>
          (case validate_start limits (sample_rate start) (lang_hint start) of
             Inl e \<Rightarrow> (s, Inl (InValidation e))
           | Inr _ \<Rightarrow>
               (touch_session sid now_ms (\<lambda>st. st\<lparr>ss_language := normalize_lang_hint (lang_hint start)\<rparr>) s, Inr ()))
      | Inr PStop \<Rightarrow> (s, Inl ClientStop)
      | Inr (PConfig cfg) \<Rightarrow>
          (case validate_config limits (cu_language cfg) of
             Inl e \<Rightarrow> (s, Inl (InValidation e))
           | Inr _ \<Rightarrow>
               (touch_session sid now_ms (\<lambda>st. st\<lparr>ss_language := normalize_lang_hint (cu_language cfg),
                                                 ss_translate := cu_translate cfg\<rparr>) s, Inr ()))
      | Inr (PAudio audio) \<Rightarrow>
          (case validate_audio limits (af_samples audio) of
             Inl e \<Rightarrow> (s, Inl (InValidation e))
           | Inr _ \<Rightarrow>
               (case dash_get (sessions s) sid of
                  None \<Rightarrow> (s, Inr ())
                | Some st \<Rightarrow>
                    (case pool_send hash
                            \<lparr>ir_session_id = sid, ir_samples = af_samples audio,
                             ir_language = ss_language st, ir_translate = ss_translate st\<rparr>
                            (touch_session sid now_ms id s) of
                       (s', True) \<Rightarrow> (s', Inr ())
                     | (s', False) \<Rightarrow> (s', Inl WorkerUnavailable))))
      | Inr _ \<Rightarrow> (s, Inr ()))"

text \<open>
  The upgrade. The rate limiter and the concurrency caps are asked about the client address
  behind a trusted proxy; without a peer address only the global cap applies.
\<close>

datatype upgrade_reply = UpgradeRejected guard_reply | UpgradeLimited nat | UpgradeFull | UpgradeAccepted "ip_addr option"

definition ws_upgrade ::
  "(rat \<Rightarrow> rat) \<Rightarrow> ('net \<Rightarrow> ip_addr \<Rightarrow> bool) \<Rightarrow> instant \<Rightarrow> instant \<Rightarrow> guard_config \<Rightarrow> 'net trusted_proxies
     \<Rightarrow> header \<Rightarrow> header \<Rightarrow> header \<Rightarrow> ip_addr option \<Rightarrow> stt_state \<Rightarrow> stt_state \<times> upgrade_reply" where
  "ws_upgrade rnd net_contains t_sweep now cfg trusted host origin xff peer s =
     (case check_ws_upgrade host origin (bind_host_of cfg) cfg of
        Inl resp \<Rightarrow> (s, UpgradeRejected resp)
      | Inr _ \<Rightarrow>
          (let client_ip = map_option (\<lambda>peer_ip. resolve_client_ip net_contains xff peer_ip trusted) peer
           in case client_ip of
                Some ip \<Rightarrow>
                  (case rl_check rnd t_sweep now ip (stt_limiter s) of
                     (l, Inr _) \<Rightarrow>
                       (case try_admit (Some ip) (stt_concurrency s) of
                          (w, Admitted) \<Rightarrow> (s\<lparr>stt_limiter := l, stt_concurrency := w\<rparr>, UpgradeAccepted (Some ip))
                        | (w, _) \<Rightarrow> (s\<lparr>stt_limiter := l, stt_concurrency := w\<rparr>, UpgradeFull))
                   | (l, Inl (Limited _ retry_after_ms)) \<Rightarrow>
                       (s\<lparr>stt_limiter := l\<rparr>, UpgradeLimited (max (div_ceil retry_after_ms 1000) 1)))
              | None \<Rightarrow>
                  (case try_admit None (stt_concurrency s) of
                     (w, Admitted) \<Rightarrow> (s\<lparr>stt_concurrency := w\<rparr>, UpgradeAccepted None)
                   | (w, _) \<Rightarrow> (s\<lparr>stt_concurrency := w\<rparr>, UpgradeFull))))"

text \<open>The receiver of the outbound channel goes away with the task.\<close>

definition drop_channel :: "nat \<Rightarrow> stt_state \<Rightarrow> stt_state" where
  "drop_channel sid s = s\<lparr>channels := dash_remove sid (channels s)\<rparr>"

text \<open>
  The connection task up to its loop: it registers and sends what backend is in use. The
  result says whether the loop is entered.
\<close>

definition ws_open ::
  "postcard \<Rightarrow> backend_info \<Rightarrow> bool \<Rightarrow> nat \<Rightarrow> nat \<Rightarrow> stt_state \<Rightarrow> stt_state \<times> bool" where
  "ws_open pc info send_ok now_ms sid s =
     (let s1 = register_session sid now_ms s
      in case encode_frame pc (PBackend info) of
           Inr bytes \<Rightarrow>
             if \<not> send_ok then (drop_channel sid (unregister_session sid s1), False) else (s1, True)
         | Inl _ \<Rightarrow> (s1, True))"

text \<open>The end of the task when its loop was left.\<close>

definition ws_close :: "nat \<Rightarrow> ip_addr option \<Rightarrow> stt_state \<Rightarrow> stt_state" where
  "ws_close sid peer_ip s =
     (let s1 = drop_channel sid (unregister_session sid s)
      in case peer_ip of
           Some ip \<Rightarrow> s1\<lparr>stt_concurrency := release_with_ip ip (stt_concurrency s1)\<rparr>
         | None \<Rightarrow> s1\<lparr>stt_concurrency := release_global (stt_concurrency s1)\<rparr>)"

datatype ws_message = WsBinary bytes | WsClose | WsPing | WsPong | WsText string | WsError | WsEnd

datatype ws_frame = SendBinary bytes | SendClose "string option"

text \<open>
  One inbound message: the frames the task tries to send and whether its loop goes on. The
  message of an error frame is printed by \<open>show_rate\<close> and \<open>show_inbound\<close>.
\<close>

definition error_frame :: "postcard \<Rightarrow> string \<Rightarrow> ws_frame list" where
  "error_frame pc message =
     (case encode_frame pc (PError \<lparr>em_code = 1, em_message = message\<rparr>) of
        Inr bytes \<Rightarrow> [SendBinary bytes] | Inl _ \<Rightarrow> [])"

definition on_inbound ::
  "(rat \<Rightarrow> rat) \<Rightarrow> postcard \<Rightarrow> (nat \<Rightarrow> nat) \<Rightarrow> limits_config \<Rightarrow> (rate_limit_error \<Rightarrow> string) \<Rightarrow> (inbound_error \<Rightarrow> string)
     \<Rightarrow> instant \<Rightarrow> instant \<Rightarrow> nat \<Rightarrow> nat \<Rightarrow> ip_addr option \<Rightarrow> ws_message \<Rightarrow> stt_state \<Rightarrow> stt_state \<times> ws_frame list \<times> bool" where
  "on_inbound rnd pc hash limits show_rate show_inbound t_sweep now now_ms sid peer_ip msg s =
     (case msg of
        WsBinary buf \<Rightarrow>
          (case rl_check_opt rnd t_sweep now peer_ip (stt_limiter s) of
             (l, Inl e) \<Rightarrow>
               (s\<lparr>stt_limiter := l\<rparr>, error_frame pc (show_rate e) @ [SendClose (Some ''rate limit exceeded'')], False)
           | (l, Inr _) \<Rightarrow>
               (case handle_inbound pc hash limits now_ms sid buf (s\<lparr>stt_limiter := l\<rparr>) of
                  (s', Inr _) \<Rightarrow> (s', [], True)
                | (s', Inl ClientStop) \<Rightarrow> (s', [], False)
                | (s', Inl e) \<Rightarrow> (s', error_frame pc (show_inbound e), True)))
      | WsClose \<Rightarrow> (s, [], False)
      | WsPing \<Rightarrow> (s, [], True)
      | WsPong \<Rightarrow> (s, [], True)
      | WsText _ \<Rightarrow> (s, [], True)
      | WsError \<Rightarrow> (s, [], False)
      | WsEnd \<Rightarrow> (s, [], False))"

text \<open>One outbound message, when the channel has one.\<close>

definition on_outbound :: "postcard \<Rightarrow> bool \<Rightarrow> nat \<Rightarrow> stt_state \<Rightarrow> stt_state \<times> ws_frame list \<times> bool" where
  "on_outbound pc send_ok sid s =
     (case dash_get (channels s) sid of
        Some (msg # rest) \<Rightarrow>
          (let s' = s\<lparr>channels := dash_put sid rest (channels s)\<rparr>
           in case msg of
                OutPayload p \<Rightarrow>
                  (case encode_frame pc p of
                     Inr bytes \<Rightarrow> (s', [SendBinary bytes], send_ok)
                   | Inl _ \<Rightarrow> (s', [], True))
              | OutClose \<Rightarrow> (s', [SendClose None], False))
      | _ \<Rightarrow> (s, [], True))"

end
