(* ===== verification/Stt_Props.thy ===== *)
theory Stt_Props
  imports Stt_Server
begin

text \<open>
  What holds of the speech service: inputs that reach a session or a worker were validated,
  sessions do not touch each other, each session's jobs are worked in the order in which they
  were submitted, and what happens to slots and sessions at the edges of a connection's life.
\<close>

section \<open>Validated inputs\<close>

definition lang_ok :: "string option \<Rightarrow> bool" where
  "lang_ok l = (case l of None \<Rightarrow> True | Some x \<Rightarrow> x \<in> set allowed_lang_hints)"

definition request_ok :: "limits_config \<Rightarrow> infer_request \<Rightarrow> bool" where
  "request_ok limits r \<longleftrightarrow> lang_ok (ir_language r) \<and> length (ir_samples r) \<le> max_audio_frame_samples limits"

definition inputs_ok :: "limits_config \<Rightarrow> stt_state \<Rightarrow> bool" where
  "inputs_ok limits s \<longleftrightarrow> dash_all (\<lambda>st. lang_ok (ss_language st)) (sessions s)
     \<and> list_all (list_all (request_ok limits)) (queues s)"

lemma validated_lang:
  "validate_start limits rate hint = Inr () \<Longrightarrow> lang_ok (normalize_lang_hint hint)"
  "validate_config limits hint = Inr () \<Longrightarrow> lang_ok (normalize_lang_hint hint)"
  by (auto simp: validate_start_def validate_config_def lang_ok_def normalize_lang_hint_def is_allowed_lang_def
      list_ex_iff Let_def split: option.splits if_splits)

lemma dash_all_modify:
  "dash_all P m \<Longrightarrow> (\<And>v. P v \<Longrightarrow> P (f v)) \<Longrightarrow> dash_all P (dash_modify f k m)"
  by (auto simp: dash_modify_def intro!: dash_all_put dest: dash_all_get split: option.splits)

lemma send_to_session_fields [simp]:
  "sessions (fst (send_to_session sid p s)) = sessions s" "queues (fst (send_to_session sid p s)) = queues s"
  "answers (fst (send_to_session sid p s)) = answers s" "stt_concurrency (fst (send_to_session sid p s)) = stt_concurrency s"
  by (auto simp: send_to_session_def split: option.splits)

lemma touch_session_fields [simp]:
  "queues (touch_session sid t f s) = queues s" "channels (touch_session sid t f s) = channels s"
  "pool_open (touch_session sid t f s) = pool_open s" "answers (touch_session sid t f s) = answers s"
  "stt_concurrency (touch_session sid t f s) = stt_concurrency s" "stt_limiter (touch_session sid t f s) = stt_limiter s"
  by (simp_all add: touch_session_def)

lemma pool_send_fields [simp]:
  "sessions (fst (pool_send hash r s)) = sessions s" "channels (fst (pool_send hash r s)) = channels s"
  "length (queues (fst (pool_send hash r s))) = length (queues s)" "pool_open (fst (pool_send hash r s)) = pool_open s"
  "stt_concurrency (fst (pool_send hash r s)) = stt_concurrency s" "stt_limiter (fst (pool_send hash r s)) = stt_limiter s"
  by (simp_all add: pool_send_def Let_def)

lemma list_all_update_append:
  "list_all (list_all P) qs \<Longrightarrow> P r \<Longrightarrow> list_all (list_all P) (qs[i := qs ! i @ [r]])"
  by (cases "i < length qs") (auto simp: list_all_length nth_list_update nth_append)

lemma pool_send_inputs:
  "inputs_ok limits s \<Longrightarrow> request_ok limits r \<Longrightarrow> inputs_ok limits (fst (pool_send hash r s))"
  by (auto simp: inputs_ok_def pool_send_def Let_def intro: list_all_update_append)

lemma touch_inputs:
  assumes "inputs_ok limits s" and "\<And>st. lang_ok (ss_language st) \<Longrightarrow> lang_ok (ss_language (f (st\<lparr>ss_last_activity_ms := t\<rparr>)))"
  shows "inputs_ok limits (touch_session sid t f s)"
  using assms by (simp add: inputs_ok_def touch_session_def dash_all_modify)

lemma handle_inbound_inputs:
  assumes "inputs_ok limits s"
  shows "inputs_ok limits (fst (handle_inbound pc hash limits t sid bytes s))"
proof (cases "decode_frame pc bytes")
  case (Inr p)
  show ?thesis
  proof (cases p)
    case (PAudio audio)
    show ?thesis
    proof (cases "validate_audio limits (af_samples audio)")
      case valid: (Inr u)
      then have small: "length (af_samples audio) \<le> max_audio_frame_samples limits"
        by (simp add: validate_audio_def split: if_splits)
      have touched: "inputs_ok limits (touch_session sid t id s)"
        using assms by (intro touch_inputs) simp_all
      show ?thesis
      proof (cases "dash_get (sessions s) sid")
        case (Some st)
        have "lang_ok (ss_language st)" using assms Some by (auto simp: inputs_ok_def dest: dash_all_get)
        then show ?thesis
          using pool_send_inputs [OF touched, of "\<lparr>ir_session_id = sid, ir_samples = af_samples audio,
                ir_language = ss_language st, ir_translate = ss_translate st\<rparr>" hash] small Inr PAudio valid Some
          by (auto simp: handle_inbound_def request_ok_def split: prod.splits bool.splits)
      qed (use assms Inr PAudio valid in \<open>simp add: handle_inbound_def\<close>)
    qed (use assms Inr PAudio in \<open>simp add: handle_inbound_def\<close>)
  next
    case (PStart start)
    then show ?thesis using assms Inr validated_lang(1)
      by (auto simp: handle_inbound_def intro!: touch_inputs split: sum.splits)
  next
    case (PConfig cfg)
    then show ?thesis using assms Inr validated_lang(2)
      by (auto simp: handle_inbound_def intro!: touch_inputs split: sum.splits)
  qed (use assms Inr in \<open>simp_all add: handle_inbound_def\<close>)
qed (use assms in \<open>simp add: handle_inbound_def\<close>)

section \<open>The operations of the service\<close>

datatype stt_op =
    SttOpen backend_info bool nat nat
  | SttInbound instant instant nat nat "ip_addr option" ws_message
  | SttOutbound bool nat
  | SttClose nat "ip_addr option"
  | SttWork nat nat
  | SttDeliver nat
  | SttSweep nat duration

record stt_env =
  en_codec :: postcard
  en_hash :: "nat \<Rightarrow> nat"
  en_limits :: limits_config
  en_infer :: "infer_request \<Rightarrow> backend_error + infer_response"
  en_show_rate :: "rate_limit_error \<Rightarrow> string"
  en_show_inbound :: "inbound_error \<Rightarrow> string"

fun stt_step :: "stt_env \<Rightarrow> stt_op \<Rightarrow> stt_state \<Rightarrow> stt_state" where
  "stt_step env (SttOpen info send_ok t sid) s = fst (ws_open (en_codec env) info send_ok t sid s)"
| "stt_step env (SttInbound t_sweep now t sid peer msg) s =
     fst (on_inbound f64_round (en_codec env) (en_hash env) (en_limits env) (en_show_rate env) (en_show_inbound env)
       t_sweep now t sid peer msg s)"
| "stt_step env (SttOutbound send_ok sid) s = fst (on_outbound (en_codec env) send_ok sid s)"
| "stt_step env (SttClose sid peer) s = ws_close sid peer s"
| "stt_step env (SttWork elapsed i) s = worker_step (en_infer env) elapsed i s"
| "stt_step env (SttDeliver j) s = deliver_answer j s"
| "stt_step env (SttSweep t timeout) s = watchdog_sweep t timeout s"

lemma on_inbound_state:
  "fst (on_inbound rnd pc hash limits sr si t_sweep now t sid peer msg s) =
     (case msg of
        WsBinary buf \<Rightarrow>
          (let r = rl_check_opt rnd t_sweep now peer (stt_limiter s); s1 = s\<lparr>stt_limiter := fst r\<rparr>
           in case snd r of Inl _ \<Rightarrow> s1 | Inr _ \<Rightarrow> fst (handle_inbound pc hash limits t sid buf s1))
      | _ \<Rightarrow> s)"
  by (auto simp: on_inbound_def Let_def split: ws_message.splits prod.splits sum.splits inbound_error.splits)

lemma unregister_fold:
  "sessions (fold unregister_session ks s) = fold dash_remove ks (sessions s)"
  "channels (fold unregister_session ks s) = channels s" "queues (fold unregister_session ks s) = queues s"
  "answers (fold unregister_session ks s) = answers s" "stt_concurrency (fold unregister_session ks s) = stt_concurrency s"
  "pool_open (fold unregister_session ks s) = pool_open s"
  by (induction ks arbitrary: s) (simp_all add: unregister_session_def)

lemma dash_all_remove_fold: "dash_all P m \<Longrightarrow> dash_all P (fold dash_remove ks m)"
  by (induction ks arbitrary: m) (simp_all add: dash_all_remove)

lemma dash_get_remove_fold: "dash_get (fold dash_remove ks m) k = (if k \<in> set ks then None else dash_get m k)"
  by (induction ks arbitrary: m) (auto simp: dash_get_remove)

lemma list_all_update_tail:
  assumes all: "list_all (list_all P) qs" and i: "qs ! i = r # rest"
  shows "list_all (list_all P) (qs[i := rest])"
proof (cases "i < length qs")
  case True
  have "list_all P (r # rest)" using all True unfolding i [symmetric] by (simp add: list_all_length)
  then show ?thesis using all set_update_subset_insert [of qs i rest] by (auto simp: list_all_iff)
next
  case False
  then show ?thesis using all by (simp add: list_update_beyond)
qed

lemma stt_step_inputs:
  assumes "inputs_ok (en_limits env) s"
  shows "inputs_ok (en_limits env) (stt_step env op s)"
proof (cases op)
  case (SttOpen info send_ok t sid)
  have "inputs_ok (en_limits env) (register_session sid t s)"
    using assms by (auto simp: inputs_ok_def register_session_def session_new_def lang_ok_def intro: dash_all_put)
  then show ?thesis
    by (auto simp: SttOpen ws_open_def Let_def inputs_ok_def drop_channel_def unregister_session_def
        intro: dash_all_remove split: sum.splits)
next
  case (SttInbound t_sweep now t sid peer msg)
  have "inputs_ok (en_limits env) (s\<lparr>stt_limiter := l\<rparr>)" for l
    using assms by (simp add: inputs_ok_def)
  then show ?thesis using assms
    by (auto simp: SttInbound on_inbound_state Let_def intro: handle_inbound_inputs split: ws_message.splits sum.splits)
next
  case (SttOutbound send_ok sid)
  then show ?thesis using assms
    by (auto simp: on_outbound_def inputs_ok_def Let_def split: option.splits list.splits outbound_message.splits sum.splits)
next
  case (SttClose sid peer)
  then show ?thesis using assms
    by (auto simp: ws_close_def inputs_ok_def Let_def drop_channel_def unregister_session_def intro: dash_all_remove
        split: option.splits)
next
  case (SttWork elapsed i)
  then show ?thesis using assms
    by (auto simp: worker_step_def inputs_ok_def intro: list_all_update_tail split: list.splits)
next
  case (SttDeliver j)
  then show ?thesis using assms by (auto simp: deliver_answer_def inputs_ok_def Let_def)
next
  case (SttSweep t timeout)
  then show ?thesis using assms
    by (auto simp: watchdog_sweep_def inputs_ok_def Let_def unregister_fold intro: dash_all_remove_fold)
qed

definition stt_init :: "nat \<Rightarrow> rate_limiter \<Rightarrow> ws_concurrency \<Rightarrow> stt_state" where
  "stt_init workers l w =
     \<lparr>sessions = [], channels = [], queues = replicate workers [], answers = [], pool_open = True,
      stt_limiter = l, stt_concurrency = w\<rparr>"

text \<open>
  C35: Whatever clients send in whatever order, interleaved with the workers and the watchdog,
  a session only ever holds a language of the closed list, in lower case, or none, and every
  job that waits for a worker carries such a language and no more samples than the limit.
\<close>

theorem stt_inputs_validated:
  "dash_all (\<lambda>st. lang_ok (ss_language st)) (sessions (fold (stt_step env) ops (stt_init workers l w)))
   \<and> list_all (list_all (request_ok (en_limits env))) (queues (fold (stt_step env) ops (stt_init workers l w)))"
proof -
  have "inputs_ok (en_limits env) (fold (stt_step env) ops s)" if "inputs_ok (en_limits env) s" for s
    using that by (induction ops arbitrary: s) (simp_all add: stt_step_inputs)
  moreover have "inputs_ok (en_limits env) (stt_init workers l w)"
    by (simp add: inputs_ok_def stt_init_def list_all_length)
  ultimately show ?thesis unfolding inputs_ok_def by blast
qed

section \<open>Sessions do not touch each other\<close>

lemma fst_pool_case:
  "fst (case p of (s', True) \<Rightarrow> (s', Inr ()) | (s', False) \<Rightarrow> (s', Inl e)) = fst p"
  by (simp split: prod.splits bool.splits)

lemma handle_inbound_state:
  "fst (handle_inbound pc hash limits t sid bytes s) = s
   \<or> (\<exists>f. fst (handle_inbound pc hash limits t sid bytes s) = touch_session sid t f s)
   \<or> (\<exists>r. ir_session_id r = sid
        \<and> fst (handle_inbound pc hash limits t sid bytes s) = fst (pool_send hash r (touch_session sid t id s)))"
proof (cases "decode_frame pc bytes")
  case (Inr p)
  then show ?thesis
  proof (cases p)
    case (PAudio audio)
    let ?r = "\<lambda>st. \<lparr>ir_session_id = sid, ir_samples = af_samples audio,
                ir_language = ss_language st, ir_translate = ss_translate st\<rparr>"
    show ?thesis
    proof (cases "dash_get (sessions s) sid")
      case None
      then show ?thesis using Inr PAudio by (auto simp: handle_inbound_def split: sum.split)
    next
      case (Some st)
      then have "validate_audio limits (af_samples audio) = Inr () \<Longrightarrow>
          fst (handle_inbound pc hash limits t sid bytes s) = fst (pool_send hash (?r st) (touch_session sid t id s))"
        using Inr PAudio by (simp add: handle_inbound_def fst_pool_case)
      then show ?thesis using Inr PAudio
        by (cases "validate_audio limits (af_samples audio)")
          (simp add: handle_inbound_def, metis infer_request.select_convs(1) old.unit.exhaust)
    qed
  qed (auto simp: handle_inbound_def split: sum.split)
qed (simp add: handle_inbound_def)

lemma touch_session_other: "k \<noteq> sid \<Longrightarrow> dash_get (sessions (touch_session sid t f s)) k = dash_get (sessions s) k"
  by (simp add: touch_session_def dash_modify_get)

lemma pool_send_adds:
  assumes "ir_session_id r = sid"
  shows "\<exists>added. queues (fst (pool_send hash r s)) ! i = queues s ! i @ added
           \<and> list_all (\<lambda>r. ir_session_id r = sid) added"
proof (cases "pool_open s \<and> shard_for hash (ir_session_id r) (length (queues s)) = i \<and> i < length (queues s)")
  case True
  then show ?thesis using assms by (intro exI [of _ "[r]"]) (simp add: pool_send_def)
next
  case False
  then have "queues (fst (pool_send hash r s)) ! i = queues s ! i"
    by (cases "shard_for hash (ir_session_id r) (length (queues s)) < length (queues s)")
      (auto simp: pool_send_def Let_def list_update_beyond)
  then show ?thesis by (intro exI [of _ "[]"]) simp
qed

text \<open>
  A frame handled for one session leaves every other session and every outbound queue as
  they were, and whatever it adds to a worker's queue is a job of that session; an answer that
  is delivered is put into the queue of the session it names and into no other.
\<close>

theorem session_isolation:
  fixes s and pc :: postcard and hash limits t sid bytes
  defines "s1 \<equiv> fst (handle_inbound pc hash limits t sid bytes s)"
  shows "(k = sid \<or> dash_get (sessions s1) k = dash_get (sessions s) k)
    \<and> channels s1 = channels s
    \<and> (\<exists>added. queues s1 ! i = queues s ! i @ added \<and> list_all (\<lambda>r. ir_session_id r = sid) added)
    \<and> (k = rs_session_id (answers s ! j) \<or> dash_get (channels (deliver_answer j s)) k = dash_get (channels s) k)
    \<and> sessions (deliver_answer j s) = sessions s"
proof (intro conjI)
  note state = handle_inbound_state [of pc hash limits t sid bytes s, folded s1_def]
  show "k = sid \<or> dash_get (sessions s1) k = dash_get (sessions s) k"
    using state by (elim disjE exE conjE; cases "k = sid") (simp_all add: touch_session_other)
  show "channels s1 = channels s"
    using state by (elim disjE exE conjE) simp_all
  show "\<exists>added. queues s1 ! i = queues s ! i @ added \<and> list_all (\<lambda>r. ir_session_id r = sid) added"
    using state pool_send_adds [of _ sid hash "touch_session sid t id s" i]
    by (elim disjE exE conjE) (auto intro: exI [of _ "[]"])
  show "k = rs_session_id (answers s ! j) \<or> dash_get (channels (deliver_answer j s)) k = dash_get (channels s) k"
    by (auto simp: deliver_answer_def send_to_session_def Let_def dash_get_put split: option.splits)
  show "sessions (deliver_answer j s) = sessions s"
    by (simp add: deliver_answer_def Let_def)
qed

section \<open>The order of a session's jobs\<close>

datatype pool_op = PSend infer_request | PWork nat nat

definition queue_head :: "nat \<Rightarrow> stt_state \<Rightarrow> infer_request list" where
  "queue_head i s = (if length (queues s) \<le> i then [] else take 1 (queues s ! i))"

fun pool_run ::
  "(nat \<Rightarrow> nat) \<Rightarrow> (infer_request \<Rightarrow> backend_error + infer_response) \<Rightarrow> pool_op list
     \<Rightarrow> infer_request list \<times> stt_state \<Rightarrow> infer_request list \<times> stt_state" where
  "pool_run hash infer [] (done, s) = (done, s)"
| "pool_run hash infer (PSend r # ops) (done, s) = pool_run hash infer ops (done, fst (pool_send hash r s))"
| "pool_run hash infer (PWork elapsed i # ops) (done, s) =
     pool_run hash infer ops (done @ queue_head i s, worker_step infer elapsed i s)"

fun submitted :: "pool_op list \<Rightarrow> infer_request list" where
  "submitted [] = []"
| "submitted (PSend r # ops) = r # submitted ops"
| "submitted (PWork _ _ # ops) = submitted ops"

abbreviation of_session :: "nat \<Rightarrow> infer_request list \<Rightarrow> infer_request list" where
  "of_session sid \<equiv> filter (\<lambda>r. ir_session_id r = sid)"

definition pool_inv :: "(nat \<Rightarrow> nat) \<Rightarrow> nat \<Rightarrow> infer_request list \<Rightarrow> infer_request list \<Rightarrow> stt_state \<Rightarrow> bool" where
  "pool_inv hash n sent done s \<longleftrightarrow> pool_open s \<and> length (queues s) = n \<and> 0 < n
     \<and> (\<forall>i < n. \<forall>r \<in> set (queues s ! i). shard_for hash (ir_session_id r) n = i)
     \<and> (\<forall>sid. of_session sid done @ of_session sid (queues s ! shard_for hash sid n) = of_session sid sent)"

lemma shard_below: "0 < n \<Longrightarrow> shard_for hash k n < n"
  by (simp add: shard_for_def)

lemma pool_inv_send:
  assumes "pool_inv hash n sent done s"
  shows "pool_inv hash n (sent @ [r]) done (fst (pool_send hash r s))"
proof -
  let ?j = "shard_for hash (ir_session_id r) n"
  have n: "0 < n" "pool_open s" "length (queues s) = n" "?j < n"
    using assms by (simp_all add: pool_inv_def shard_below)
  have other: "ir_session_id r \<noteq> k" if "shard_for hash k n \<noteq> ?j" for k using that by auto
  show ?thesis using assms n other
    by (auto simp: pool_inv_def pool_send_def Let_def nth_list_update)
qed

lemma pool_inv_work:
  assumes inv: "pool_inv hash n sent done s"
  shows "pool_inv hash n sent (done @ queue_head i s) (worker_step infer elapsed i s)"
proof (cases "i < n \<and> queues s ! i \<noteq> []")
  case True
  then obtain r rest where q: "queues s ! i = r # rest" by (cases "queues s ! i") auto
  have n: "length (queues s) = n" "i < n" using inv True by (simp_all add: pool_inv_def)
  have r: "shard_for hash (ir_session_id r) n = i" using inv n q by (force simp: pool_inv_def)
  have sets: "\<forall>k < n. \<forall>x \<in> set ((queues s)[i := rest] ! k). shard_for hash (ir_session_id x) n = k"
    using inv n q by (auto simp: pool_inv_def nth_list_update)
  have seq: "of_session sid (done @ [r]) @ of_session sid ((queues s)[i := rest] ! shard_for hash sid n) = of_session sid sent" for sid
  proof (cases "shard_for hash sid n = i")
    case shard: True
    have "of_session sid done @ of_session sid (r # rest) = of_session sid sent"
      using inv shard q unfolding pool_inv_def by metis
    then show ?thesis using shard n by auto
  next
    case False
    then have "ir_session_id r \<noteq> sid" using r by auto
    moreover have "of_session sid done @ of_session sid (queues s ! shard_for hash sid n) = of_session sid sent"
      using inv by (simp add: pool_inv_def)
    ultimately show ?thesis using False by simp
  qed
  show ?thesis using inv n q sets seq by (simp add: pool_inv_def queue_head_def worker_step_def)
next
  case False
  then have "queue_head i s = []" "worker_step infer elapsed i s = s"
    using inv by (auto simp: pool_inv_def queue_head_def worker_step_def split: list.splits)
  then show ?thesis using inv by simp
qed

lemma pool_inv_run:
  "pool_inv hash n sent done s \<Longrightarrow>
   pool_inv hash n (sent @ submitted ops) (fst (pool_run hash infer ops (done, s))) (snd (pool_run hash infer ops (done, s)))"
proof (induction ops arbitrary: sent "done" s)
  case (Cons op ops)
  then show ?case
    using pool_inv_send [OF Cons.prems] pool_inv_work [OF Cons.prems]
    by (cases op) (simp_all, metis append.assoc append_Cons append_Nil)
qed simp

text \<open>
  C28: However submissions and turns of the workers interleave, the jobs of a session that
  were worked, followed by those that still wait in its worker's queue, are exactly the jobs
  it submitted, in that order; and no other worker's queue holds a job of it.
\<close>

theorem session_jobs_fifo:
  fixes hash infer ops workers l w sid
  defines "run \<equiv> pool_run hash infer ops ([], stt_init workers l w)"
  assumes "0 < workers"
  shows "of_session sid (fst run) @ of_session sid (queues (snd run) ! shard_for hash sid workers)
      = of_session sid (submitted ops)
    \<and> (\<forall>i < workers. i \<noteq> shard_for hash sid workers \<longrightarrow> of_session sid (queues (snd run) ! i) = [])"
proof -
  have "pool_inv hash workers [] [] (stt_init workers l w)"
    using assms shard_below by (simp add: pool_inv_def stt_init_def)
  from pool_inv_run [OF this, of ops infer] have "pool_inv hash workers (submitted ops) (fst run) (snd run)"
    by (simp add: run_def)
  then show ?thesis by (auto simp: pool_inv_def filter_empty_conv)
qed

definition ex_request :: "nat \<Rightarrow> infer_request" where
  "ex_request k = \<lparr>ir_session_id = k, ir_samples = [], ir_language = None, ir_translate = False\<rparr>"

lemma session_jobs_fifo_witness:
  "of_session 4 (fst (pool_run id (\<lambda>_. Inl Overloaded) [PSend (ex_request 4), PSend (ex_request 7), PWork 1 0, PSend (ex_request 4)]
        ([], stt_init 3 (rate_limiter_new \<lparr>tokens_per_minute = 1\<rparr>) (wsc_new 1 1))))
     @ of_session 4 (queues (snd (pool_run id (\<lambda>_. Inl Overloaded)
        [PSend (ex_request 4), PSend (ex_request 7), PWork 1 0, PSend (ex_request 4)]
        ([], stt_init 3 (rate_limiter_new \<lparr>tokens_per_minute = 1\<rparr>) (wsc_new 1 1)))) ! 1)
   = [ex_request 4, ex_request 4]"
  using session_jobs_fifo [of 3 4 id "\<lambda>_. Inl Overloaded"
      "[PSend (ex_request 4), PSend (ex_request 7), PWork 1 0, PSend (ex_request 4)]"]
  by (simp add: shard_for_def ex_request_def)

section \<open>The edges of a connection's life\<close>

text \<open>
  A connection that runs its loop gives its concurrency slot back when it closes, so the
  global count is what it was before the upgrade. A connection whose first send (the
  backend's description) fails returns before the release: the session is gone, nothing will
  run for it again, and the slot stays taken.
\<close>

theorem handshake_slot_balance:
  assumes "ws_upgrade rnd net_contains t_sweep now cfg trusted host origin xff peer s = (s1, UpgradeAccepted client)"
    and "encode_frame pc (PBackend info) = Inr bytes"
  shows "global_count (stt_concurrency (ws_close sid client (fst (ws_open pc info True t sid s1)))) = global_count (stt_concurrency s)
    \<and> snd (ws_open pc info True t sid s1)
    \<and> global_count (stt_concurrency (fst (ws_open pc info False t sid s1))) = global_count (stt_concurrency s) + 1
    \<and> \<not> snd (ws_open pc info False t sid s1)
    \<and> dash_get (sessions (fst (ws_open pc info False t sid s1))) sid = None"
proof -
  have admit: "global_count w' = global_count w + 1" if "try_admit ip w = (w', Admitted)" for ip w w'
    using that by (auto simp: try_admit_def Let_def split: if_splits option.splits)
  have "global_count (stt_concurrency s1) = global_count (stt_concurrency s) + 1"
    using assms(1) unfolding ws_upgrade_def Let_def
    by (auto split: sum.splits option.splits prod.splits admit_decision.splits rate_limit_error.splits dest: admit)
  then show ?thesis using assms(2)
    by (auto simp: ws_open_def ws_close_def Let_def drop_channel_def unregister_session_def register_session_def
        release_with_ip_def release_global_def evict_zero_entries_def dash_get_remove split: option.splits)
qed

definition ex_guard :: guard_config where
  "ex_guard = \<lparr>gc_bind_ip = V4 (IPv4 127 0 0 1), gc_bind_port = 8080, gc_allowed_origins = []\<rparr>"

definition ex_service :: stt_state where
  "ex_service = stt_init 1 (rate_limiter_new \<lparr>tokens_per_minute = 1\<rparr>) (wsc_new 2 1)"

lemma ex_admitted:
  "ws_upgrade f64_round (\<lambda>_ _. False) 0 0 ex_guard \<lparr>tp_cidrs = ([] :: unit list), tp_loopback_bypass = True\<rparr> None None None
     (Some (V4 (IPv4 127 0 0 1))) ex_service
   = (ex_service\<lparr>stt_concurrency := fst (try_admit (Some (V4 (IPv4 127 0 0 1))) (wsc_new 2 1))\<rparr>,
      UpgradeAccepted (Some (V4 (IPv4 127 0 0 1))))"
proof -
  have "check_ws_upgrade None None (bind_host_of ex_guard) ex_guard = Inr ()"
    using bind_host_matches [of ex_guard "fst (build_allowed_origins ex_guard)"]
    by (simp add: check_ws_upgrade_def evaluate_ws_upgrade_def evaluate_ws_upgrade_with_def Let_def case_prod_beta)
  then show ?thesis
    by (simp add: ws_upgrade_def resolve_client_ip_def is_trusted_def rl_check_def ex_service_def
        stt_init_def try_admit_def wsc_new_def per_ip_in_use_def)
qed

lemma handshake_slot_balance_witness:
  "global_count (stt_concurrency (fst (ws_open small_codec \<lparr>bi_model_id = [], bi_gpu_backend = []\<rparr> False 0 9
     (ex_service\<lparr>stt_concurrency := fst (try_admit (Some (V4 (IPv4 127 0 0 1))) (wsc_new 2 1))\<rparr>)))) = 1"
proof -
  have "encode_frame small_codec (PBackend \<lparr>bi_model_id = [], bi_gpu_backend = []\<rparr>) = Inr [0x31]"
    by (simp add: encode_frame_def small_codec_def)
  then show ?thesis
    using handshake_slot_balance [OF ex_admitted, of small_codec "\<lparr>bi_model_id = [], bi_gpu_backend = []\<rparr>" "[0x31]" 9 0]
    by (simp add: ex_service_def stt_init_def wsc_new_def)
qed

text \<open>
  The watchdog removes exactly the sessions that were idle for the timeout and touches no
  channel and no concurrency slot; it does not end the connection. After that the session's
  own valid audio frames are taken without an error and nothing is done with them.
\<close>

theorem watchdog_silences_connection:
  fixes s t timeout sid
  defines "s1 \<equiv> watchdog_sweep t timeout s"
  assumes ok: "dash_ok (sessions s)"
  shows "dash_get (sessions s1) k =
      (case dash_get (sessions s) k of
         Some st \<Rightarrow> if is_idle t (as_millis timeout mod 2 ^ 64) st then None else Some st
       | None \<Rightarrow> None)
    \<and> channels s1 = channels s \<and> stt_concurrency s1 = stt_concurrency s
    \<and> (dash_get (sessions s1) sid = None \<and> decode_frame pc bytes = Inr (PAudio audio)
         \<and> length (af_samples audio) \<le> max_audio_frame_samples limits
       \<longrightarrow> handle_inbound pc hash limits t' sid bytes s1 = (s1, Inr ()))"
proof -
  let ?idle = "\<lambda>st. is_idle t (as_millis timeout mod 2 ^ 64) st"
  have "k \<in> set (map fst (filter (\<lambda>(k, st). ?idle st) (sessions s)))
      \<longleftrightarrow> (\<exists>st. dash_get (sessions s) k = Some st \<and> ?idle st)"
    using dash_get_Some_iff [OF ok, of k] by (force simp: image_iff)
  then have "dash_get (sessions s1) k =
      (case dash_get (sessions s) k of Some st \<Rightarrow> if ?idle st then None else Some st | None \<Rightarrow> None)"
    by (auto simp: s1_def watchdog_sweep_def Let_def unregister_fold dash_get_remove_fold split: option.splits)
  moreover have "channels s1 = channels s" "stt_concurrency s1 = stt_concurrency s"
    by (simp_all add: s1_def watchdog_sweep_def Let_def unregister_fold)
  moreover have "handle_inbound pc hash limits t' sid bytes s1 = (s1, Inr ())"
    if "dash_get (sessions s1) sid = None" "decode_frame pc bytes = Inr (PAudio audio)"
      "length (af_samples audio) \<le> max_audio_frame_samples limits"
    using that by (simp add: handle_inbound_def validate_audio_def)
  ultimately show ?thesis by blast
qed

lemma watchdog_silences_connection_witness:
  "dash_get (sessions (watchdog_sweep 90 (secs 0) (register_session 9 80 ex_service))) 9 = None"
proof -
  have "dash_ok (sessions (register_session 9 80 ex_service))"
    by (simp add: register_session_def ex_service_def stt_init_def dash_ok_def)
  note swept = watchdog_silences_connection [OF this, where k = 9 and t = 90 and timeout = "secs 0", THEN conjunct1]
  show ?thesis unfolding swept
    by (simp add: register_session_def ex_service_def stt_init_def is_idle_def as_millis_def)
qed

end
