(* ===== verification/Egress.thy ===== *)
theory Egress
  imports Prelude Ip_Addr
begin

text \<open>
  The hardened HTTP client of the network agents (\<open>crates/nagent-agents/src/egress.rs\<close>): the
  address policy, the host allow-list, the validation of a URL and the two GET helpers with
  their body budget.

  Parameters, collected in the record \<open>egress_env\<close>: the parser of the \<open>url\<close> crate, the
  resolver and the transport of \<open>reqwest\<close>, which follows redirects on its own and reports the
  URL it ended at. A helper returns the requests it handed to the transport beside its result.
\<close>

section \<open>Configuration and errors\<close>

datatype egress_error =
    EgScheme string
  | EgNoHost
  | EgNotInAllowlist string
  | EgDns string
  | EgDisallowedAddress string ip_addr nat
  | EgUpstream nat string
  | EgResponseExceeded nat
  | EgTransport string
  | EgUrlParse string

record egress_config =
  eg_timeout_ms :: nat
  eg_allow_public :: bool
  eg_allowlist :: "string list"
  eg_max_bytes :: nat

definition min_timeout_ms :: nat where "min_timeout_ms = 1000"

definition default_max_body_bytes :: nat where "default_max_body_bytes = 2 * 1024 * 1024"

definition upstream_body_cap :: nat where "upstream_body_cap = 2048"

definition egress_default :: egress_config where
  "egress_default = \<lparr>eg_timeout_ms = 30000, eg_allow_public = False, eg_allowlist = [], eg_max_bytes = default_max_body_bytes\<rparr>"

definition egress_finalize :: "egress_config \<Rightarrow> egress_config" where
  "egress_finalize cfg =
     cfg\<lparr>eg_timeout_ms := max (eg_timeout_ms cfg) min_timeout_ms, eg_max_bytes := max (eg_max_bytes cfg) 1024\<rparr>"

unbundle bit_operations_syntax

section \<open>The address policy\<close>

definition is_v4_allowed :: "ipv4 \<Rightarrow> bool \<Rightarrow> bool" where
  "is_v4_allowed v4 allow_public =
     (if v4_is_loopback v4 \<or> v4_is_link_local v4 then False
      else if octet0 v4 = 169 \<and> octet1 v4 = 254 then False
      else if octet0 v4 = 0 then False
      else if octet0 v4 = 100 \<and> 64 \<le> octet1 v4 \<and> octet1 v4 \<le> 127 then False
      else if v4_is_private v4 then False
      else if v4_is_multicast v4 \<or> v4_is_broadcast v4 \<or> v4_is_unspecified v4 then False
      else allow_public)"

definition is_v6_allowed :: "ipv6 \<Rightarrow> bool \<Rightarrow> bool" where
  "is_v6_allowed v6 allow_public =
     (if v6_is_loopback v6 \<or> v6_is_unspecified v6 then False
      else if segment0 v6 = 0xfe80 then False
      else if (segment0 v6 AND 0xfe00) = 0xfc00 then False
      else if (segment0 v6 AND 0xff00) = 0xff00 then False
      else (case to_ipv4_mapped v6 of
              Some v4 \<Rightarrow> is_v4_allowed v4 allow_public
            | None \<Rightarrow> allow_public))"

fun is_addr_allowed :: "ip_addr \<Rightarrow> bool \<Rightarrow> bool" where
  "is_addr_allowed (V4 v4) allow_public = is_v4_allowed v4 allow_public"
| "is_addr_allowed (V6 v6) allow_public = is_v6_allowed v6 allow_public"

section \<open>The host allow-list\<close>

definition ends_with :: "string \<Rightarrow> string \<Rightarrow> bool" where
  "ends_with p s = starts_with (rev p) (rev s)"

definition entry_matches :: "string \<Rightarrow> string \<Rightarrow> bool" where
  "entry_matches host_lc entry =
     (if entry = ''*'' then True
      else (case strip_prefix ''*.'' entry of
              Some suffix \<Rightarrow> host_lc = suffix \<or> ends_with (CHR ''.'' # suffix) host_lc
            | None \<Rightarrow> host_lc = entry))"

definition host_matches_allowlist :: "string \<Rightarrow> string list \<Rightarrow> bool" where
  "host_matches_allowlist host allowlist =
     list_ex (\<lambda>entry. entry_matches (to_ascii_lowercase host) (to_ascii_lowercase entry)) allowlist"

section \<open>Truncation at a character boundary\<close>

definition is_char_boundary :: "string \<Rightarrow> nat \<Rightarrow> bool" where
  "is_char_boundary s i =
     (if i = 0 then True else if length s \<le> i then i = length s else \<not> is_continuation (s ! i))"

fun floor_boundary :: "string \<Rightarrow> nat \<Rightarrow> nat" where
  "floor_boundary s 0 = 0"
| "floor_boundary s (Suc i) = (if is_char_boundary s (Suc i) then Suc i else floor_boundary s i)"

text \<open>The marker is a line feed, the ellipsis (three bytes) and the word in brackets.\<close>

definition truncation_marker :: string where
  "truncation_marker = char_of (10 :: nat) # map char_of [226, 128, 166 :: nat] @ ''[truncated]''"

definition truncate_body :: "string \<Rightarrow> nat \<Rightarrow> string" where
  "truncate_body s max_chars =
     (if length s \<le> max_chars then s else take (floor_boundary s max_chars) s @ truncation_marker)"

section \<open>Validation and requests\<close>

record parsed_url =
  pu_text :: string
  pu_scheme :: string
  pu_host :: "string option"
  pu_port_or_known_default :: "nat option"

record egress_response =
  er_status :: nat
  er_final_url :: string
  er_content_type :: "string option option"
  er_text :: "string option"
  er_chunks :: "(string + string) list"

record egress_env =
  ee_parse :: "string \<Rightarrow> string + parsed_url"
  ee_lookup :: "string \<Rightarrow> nat \<Rightarrow> string + ip_addr list"
  ee_send :: "string \<Rightarrow> string + egress_response"

record validate_ok =
  vo_url :: parsed_url
  vo_host :: string
  vo_addresses :: "(ip_addr \<times> nat) list"

definition egress_validate :: "egress_env \<Rightarrow> egress_config \<Rightarrow> string \<Rightarrow> egress_error + validate_ok" where
  "egress_validate env cfg url_str =
     (case ee_parse env url_str of
        Inl e \<Rightarrow> Inl (EgUrlParse e)
      | Inr parsed \<Rightarrow>
          if pu_scheme parsed \<notin> {''http'', ''https''} then Inl (EgScheme (pu_scheme parsed))
          else (case pu_host parsed of
                  None \<Rightarrow> Inl EgNoHost
                | Some host \<Rightarrow>
                    (let host_allowlisted =
                           (if eg_allowlist cfg \<noteq> [] then host_matches_allowlist host (eg_allowlist cfg) else False)
                     in if eg_allowlist cfg \<noteq> [] \<and> \<not> host_allowlisted then Inl (EgNotInAllowlist host)
                        else (let port = (case pu_port_or_known_default parsed of Some p \<Rightarrow> p | None \<Rightarrow> 443)
                              in case ee_lookup env host port of
                                   Inl e \<Rightarrow> Inl (EgDns e)
                                 | Inr [] \<Rightarrow> Inl (EgDns ''no addresses'')
                                 | Inr addrs \<Rightarrow>
                                     (case (if host_allowlisted then None
                                            else find (\<lambda>a. \<not> is_addr_allowed a (eg_allow_public cfg)) addrs) of
                                        Some a \<Rightarrow> Inl (EgDisallowedAddress host a port)
                                      | None \<Rightarrow> Inr \<lparr>vo_url = parsed, vo_host = host,
                                                      vo_addresses = map (\<lambda>a. (a, port)) addrs\<rparr>)))))"

text \<open>The loop over the chunks of the body; \<open>buf\<close> is what was read so far.\<close>

fun read_body :: "nat \<Rightarrow> string \<Rightarrow> (string + string) list \<Rightarrow> egress_error + string" where
  "read_body budget buf [] = Inr buf"
| "read_body budget buf (Inl e # rest) = Inl (EgTransport e)"
| "read_body budget buf (Inr chunk # rest) =
     (if budget < length buf + length chunk then Inl (EgResponseExceeded budget)
      else read_body budget (buf @ chunk) rest)"

definition body_budget :: "egress_config \<Rightarrow> nat option \<Rightarrow> nat" where
  "body_budget cfg max_bytes =
     max (min (case max_bytes of Some n \<Rightarrow> n | None \<Rightarrow> eg_max_bytes cfg) (eg_max_bytes cfg)) 1024"

definition is_success :: "nat \<Rightarrow> bool" where
  "is_success status \<longleftrightarrow> 200 \<le> status \<and> status \<le> 299"

definition upstream_error :: "egress_response \<Rightarrow> egress_error" where
  "upstream_error resp =
     EgUpstream (er_status resp) (truncate_body (case er_text resp of Some t \<Rightarrow> t | None \<Rightarrow> []) upstream_body_cap)"

definition egress_get ::
  "egress_env \<Rightarrow> egress_config \<Rightarrow> string \<Rightarrow> nat option \<Rightarrow> string list \<times> (egress_error + string)" where
  "egress_get env cfg url max_bytes =
     (let budget = body_budget cfg max_bytes
      in case egress_validate env cfg url of
           Inl e \<Rightarrow> ([], Inl e)
         | Inr ok \<Rightarrow>
             ([pu_text (vo_url ok)],
              case ee_send env (pu_text (vo_url ok)) of
                Inl e \<Rightarrow> Inl (EgTransport e)
              | Inr resp \<Rightarrow>
                  if \<not> is_success (er_status resp) then Inl (upstream_error resp)
                  else read_body budget [] (er_chunks resp)))"

definition egress_get_stream ::
  "egress_env \<Rightarrow> egress_config \<Rightarrow> string \<Rightarrow> nat option
     \<Rightarrow> string list \<times> (egress_error + nat \<times> string \<times> string \<times> string)" where
  "egress_get_stream env cfg url max_bytes =
     (let budget = body_budget cfg max_bytes
      in case egress_validate env cfg url of
           Inl e \<Rightarrow> ([], Inl e)
         | Inr ok \<Rightarrow>
             ([pu_text (vo_url ok)],
              case ee_send env (pu_text (vo_url ok)) of
                Inl e \<Rightarrow> Inl (EgTransport e)
              | Inr resp \<Rightarrow>
                  if \<not> is_success (er_status resp) then Inl (upstream_error resp)
                  else (let content_type = (case Option.bind (er_content_type resp) id of Some v \<Rightarrow> v | None \<Rightarrow> [])
                        in case read_body budget [] (er_chunks resp) of
                             Inl e \<Rightarrow> Inl e
                           | Inr buf \<Rightarrow> Inr (er_status resp, er_final_url resp, content_type, buf))))"

section \<open>The address policy as a list of networks\<close>

fun v4_value :: "ipv4 \<Rightarrow> nat" where
  "v4_value (IPv4 a b c d) = ((unat a * 256 + unat b) * 256 + unat c) * 256 + unat d"

definition in_net :: "ipv4 \<times> nat \<Rightarrow> ipv4 \<Rightarrow> bool" where
  "in_net net v4 \<longleftrightarrow> v4_value v4 div 2 ^ (32 - snd net) = v4_value (fst net) div 2 ^ (32 - snd net)"

definition blocked_v4 :: "(ipv4 \<times> nat) list" where
  "blocked_v4 =
     [(IPv4 0 0 0 0, 8), (IPv4 10 0 0 0, 8), (IPv4 100 64 0 0, 10), (IPv4 127 0 0 0, 8),
      (IPv4 169 254 0 0, 16), (IPv4 172 16 0 0, 12), (IPv4 192 168 0 0, 16), (IPv4 224 0 0 0, 4),
      (IPv4 255 255 255 255, 32)]"

fun v6_high :: "ipv6 \<Rightarrow> nat" where
  "v6_high (IPv6 a b c d e f g h) = unat a"

fun v6_mapped :: "ipv6 \<Rightarrow> bool" where
  "v6_mapped (IPv6 a b c d e f g h) \<longleftrightarrow> a = 0 \<and> b = 0 \<and> c = 0 \<and> d = 0 \<and> e = 0 \<and> f = 0xffff"

fun v6_low :: "ipv6 \<Rightarrow> ipv4" where
  "v6_low (IPv6 a b c d e f g h) = IPv4 (ucast (drop_bit 8 g)) (ucast g) (ucast (drop_bit 8 h)) (ucast h)"


lemma and_high_bits: "x AND NOT (mask n) = push_bit n (drop_bit n x)" for x :: "'a::len word"
  by (rule bit_word_eqI) (auto simp: bit_simps)

lemma unat_high_bits: "unat (x AND NOT (mask n)) = unat x div 2 ^ n * 2 ^ n" for x :: "'a::len word"
proof -
  have "unat x div 2 ^ n * 2 ^ n \<le> unat x" by (rule div_times_less_eq_dividend)
  also have "\<dots> < 2 ^ LENGTH('a)" by (rule unsigned_less)
  finally have "take_bit LENGTH('a) (unat x div 2 ^ n * 2 ^ n) = unat x div 2 ^ n * 2 ^ n" by (rule take_bit_nat_eq_self)
  moreover have "unat (push_bit n (drop_bit n x)) = take_bit LENGTH('a) (push_bit n (drop_bit n (unat x)))"
    by (simp only: unsigned_push_bit_eq unsigned_drop_bit_eq take_bit_nat_eq_self unsigned_less)
  ultimately show ?thesis unfolding and_high_bits by (simp only: push_bit_eq_mult drop_bit_eq_div)
qed

lemma seg_masks:
  "(0xfe00 :: 16 word) = NOT (mask 9)" "(0xff00 :: 16 word) = NOT (mask 8)"
  by (simp_all add: mask_eq_exp_minus_1)

lemma seg_mcast: "(x AND 0xff00) = (0xff00 :: 16 word) \<longleftrightarrow> unat x div 256 = 255"
proof -
  have "(x AND 0xff00) = (0xff00 :: 16 word) \<longleftrightarrow> unat (x AND 0xff00) = unat (0xff00 :: 16 word)"
    by (rule word_unat_eq_iff)
  also have "\<dots> \<longleftrightarrow> unat (x AND NOT (mask 8)) = 65280" by (simp add: seg_masks(2) [symmetric])
  also have "\<dots> \<longleftrightarrow> unat x div 256 = 255" unfolding unat_high_bits by simp
  finally show ?thesis .
qed

lemma seg_ula: "(x AND 0xfe00) = (0xfc00 :: 16 word) \<longleftrightarrow> unat x div 512 = 126"
proof -
  have "(x AND 0xfe00) = (0xfc00 :: 16 word) \<longleftrightarrow> unat (x AND 0xfe00) = unat (0xfc00 :: 16 word)"
    by (rule word_unat_eq_iff)
  also have "\<dots> \<longleftrightarrow> unat x div 512 = 126" unfolding seg_masks(1) unat_high_bits by simp
  finally show ?thesis .
qed

lemma v4_value_div:
  "v4_value (IPv4 a b c d) div 2 ^ 24 = unat a" 
  "v4_value (IPv4 a b c d) div 2 ^ 16 = unat a * 256 + unat b"
proof -
  have lt: "unat b < 256" "unat c < 256" "unat d < 256"
    using unsigned_less [of b] unsigned_less[of c] unsigned_less [of d] by simp_all
  have step: "(x * 256 + y) div 256 = x" if "y < 256" for x y :: nat using that by simp
  have "v4_value (IPv4 a b c d) div 2 ^ 16 = v4_value (IPv4 a b c d) div 256 div 256"
    by (simp add: div_mult2_eq [symmetric])
  then show s: "v4_value (IPv4 a b c d) div 2 ^ 16 = unat a * 256 + unat b" using lt by (simp add: step)
  have "v4_value (IPv4 a b c d) div 2 ^ 24 = v4_value (IPv4 a b c d) div 2 ^ 16 div 256"
    by (simp add: div_mult2_eq [symmetric])
  then show "v4_value (IPv4 a b c d) div 2 ^ 24 = unat a" unfolding s using lt by simp
qed


lemma word_eq_unat: "(x :: 'a::len word) = numeral n \<longleftrightarrow> unat x = unat (numeral n :: 'a word)"
  by (rule word_unat_eq_iff)

lemma byte_bounds: "unat (b :: 8 word) < 256"
  using unsigned_less [of b] by simp

lemma pair16: "(b :: nat) < 256 \<Longrightarrow> a * 256 + b = 43518 \<longleftrightarrow> a = 169 \<and> b = 254"
  "(b :: nat) < 256 \<Longrightarrow> a * 256 + b = 49320 \<longleftrightarrow> a = 192 \<and> b = 168"
  by presburger+

lemma pair_div:
  assumes "(b :: nat) < 256"
  shows "(a * 256 + b) div 64 = 401 \<longleftrightarrow> a = 100 \<and> 64 \<le> b \<and> b \<le> 127"
    "(a * 256 + b) div 16 = 2753 \<longleftrightarrow> a = 172 \<and> 16 \<le> b \<and> b \<le> 31"
proof -
  have "(a * 256 + b) div 64 = 4 * a + b div 64" by (simp add: div_mult_self2 [of 64 b "4 * a", simplified, symmetric] algebra_simps)
  moreover have "b div 64 < 4" "b div 64 = 1 \<longleftrightarrow> 64 \<le> b \<and> b \<le> 127" using assms by auto
  moreover have "4 * a + q = 401 \<longleftrightarrow> a = 100 \<and> q = 1" if "q < 4" for q using that by presburger
  ultimately show "(a * 256 + b) div 64 = 401 \<longleftrightarrow> a = 100 \<and> 64 \<le> b \<and> b \<le> 127" by metis
  have "(a * 256 + b) div 16 = 16 * a + b div 16" by (simp add: algebra_simps)
  moreover have "b div 16 < 16" "b div 16 = 1 \<longleftrightarrow> 16 \<le> b \<and> b \<le> 31" using assms by auto
  moreover have "16 * a + q = 2753 \<longleftrightarrow> a = 172 \<and> q = 1" if "q < 16" for q using that by presburger
  ultimately show "(a * 256 + b) div 16 = 2753 \<longleftrightarrow> a = 172 \<and> 16 \<le> b \<and> b \<le> 31" by metis
qed

lemma div16_high: "(a :: nat) div 16 = 14 \<longleftrightarrow> 224 \<le> a \<and> a \<le> 239"
  by auto

lemma all_ones:
  assumes "(a :: nat) < 256" "b < 256" "c < 256" "d < 256"
  shows "((a * 256 + b) * 256 + c) * 256 + d = 4294967295 \<longleftrightarrow> a = 255 \<and> b = 255 \<and> c = 255 \<and> d = 255"
proof
  assume "((a * 256 + b) * 256 + c) * 256 + d = 4294967295"
  then have e: "16777216 * a + 65536 * b + 256 * c + d = 4294967295" by (simp add: algebra_simps)
  have "\<not> a \<le> 254" using assms e by linarith
  then have a: "a = 255" using assms by linarith
  have "\<not> b \<le> 254" using assms e unfolding a by linarith
  then have b: "b = 255" using assms by linarith
  have "\<not> c \<le> 254" using assms e unfolding a b by linarith
  then have c: "c = 255" using assms by linarith
  show "a = 255 \<and> b = 255 \<and> c = 255 \<and> d = 255" using e unfolding a b c by simp
qed simp

lemma in_blocked_v4:
  "in_net (IPv4 0 0 0 0, 8) v4 \<longleftrightarrow> octet0 v4 = 0"
  "in_net (IPv4 10 0 0 0, 8) v4 \<longleftrightarrow> octet0 v4 = 10"
  "in_net (IPv4 100 64 0 0, 10) v4 \<longleftrightarrow> octet0 v4 = 100 \<and> 64 \<le> octet1 v4 \<and> octet1 v4 \<le> 127"
  "in_net (IPv4 127 0 0 0, 8) v4 \<longleftrightarrow> octet0 v4 = 127"
  "in_net (IPv4 169 254 0 0, 16) v4 \<longleftrightarrow> octet0 v4 = 169 \<and> octet1 v4 = 254"
  "in_net (IPv4 172 16 0 0, 12) v4 \<longleftrightarrow> octet0 v4 = 172 \<and> 16 \<le> octet1 v4 \<and> octet1 v4 \<le> 31"
  "in_net (IPv4 192 168 0 0, 16) v4 \<longleftrightarrow> octet0 v4 = 192 \<and> octet1 v4 = 168"
  "in_net (IPv4 224 0 0 0, 4) v4 \<longleftrightarrow> 224 \<le> octet0 v4 \<and> octet0 v4 \<le> 239"
  "in_net (IPv4 255 255 255 255, 32) v4 \<longleftrightarrow> v4_is_broadcast v4"
proof -
  obtain a b c d where v: "v4 = IPv4 a b c d" by (cases v4)
  have lt: "unat a < 256" "unat b < 256" "unat c < 256" "unat d < 256" by (rule byte_bounds)+
  have d22: "v4_value v4 div 2 ^ 22 = (unat a * 256 + unat b) div 64"
    using v4_value_div(2) [of a b c d] unfolding v by (simp add: div_mult2_eq [of _ 65536 64, simplified])
  have d20: "v4_value v4 div 2 ^ 20 = (unat a * 256 + unat b) div 16"
    using v4_value_div(2) [of a b c d] unfolding v by (simp add: div_mult2_eq [of _ 65536 16, simplified])
  have d28: "v4_value v4 div 2 ^ 28 = unat a div 16"
    using v4_value_div(1) [of a b c d] unfolding v by (simp add: div_mult2_eq [of _ 16777216 16, simplified])
  note d24 = v4_value_div(1) [of a b c d, folded v] and d16 = v4_value_div(2) [of a b c d, folded v]
  note eqs = word_unat_eq_iff word_le_nat_alt
  show "in_net (IPv4 0 0 0 0, 8) v4 \<longleftrightarrow> octet0 v4 = 0" "in_net (IPv4 10 0 0 0, 8) v4 \<longleftrightarrow> octet0 v4 = 10"
    "in_net (IPv4 127 0 0 0, 8) v4 \<longleftrightarrow> octet0 v4 = 127"
    using d24 by (simp_all add: in_net_def v eqs)
  show "in_net (IPv4 169 254 0 0, 16) v4 \<longleftrightarrow> octet0 v4 = 169 \<and> octet1 v4 = 254"
    "in_net (IPv4 192 168 0 0, 16) v4 \<longleftrightarrow> octet0 v4 = 192 \<and> octet1 v4 = 168"
    using d16 lt by (simp_all add: in_net_def v eqs pair16)
  show "in_net (IPv4 100 64 0 0, 10) v4 \<longleftrightarrow> octet0 v4 = 100 \<and> 64 \<le> octet1 v4 \<and> octet1 v4 \<le> 127"
    using d22 lt by (simp add: in_net_def v eqs pair_div div16_high)
  show "in_net (IPv4 172 16 0 0, 12) v4 \<longleftrightarrow> octet0 v4 = 172 \<and> 16 \<le> octet1 v4 \<and> octet1 v4 \<le> 31"
    using d20 lt by (simp add: in_net_def v eqs pair_div div16_high)
  show "in_net (IPv4 224 0 0 0, 4) v4 \<longleftrightarrow> 224 \<le> octet0 v4 \<and> octet0 v4 \<le> 239"
    using d28 lt by (simp add: in_net_def v eqs pair_div div16_high)
  show "in_net (IPv4 255 255 255 255, 32) v4 \<longleftrightarrow> v4_is_broadcast v4"
    using all_ones [OF lt] by (simp add: in_net_def v eqs)
qed

section \<open>Properties\<close>

text \<open>
  The address policy is a list of networks: an IPv4 address passes exactly when public
  addresses are allowed and it lies in none of nine blocks; an IPv6 address when public
  addresses are allowed, it is neither the loopback nor the unspecified address, its first
  segment is none of \<open>fe80\<close>, \<open>fc00\<close> to \<open>fdff\<close> and \<open>ff00\<close> to \<open>ffff\<close>, and the IPv4 address it
  maps, if it maps one, passes. So without \<open>allow_public\<close> no address passes at all.
\<close>

theorem egress_policy_exact:
  "(is_addr_allowed (V4 v4) p \<longleftrightarrow> p \<and> \<not> list_ex (\<lambda>net. in_net net v4) blocked_v4)
   \<and> (is_addr_allowed (V6 v6) p \<longleftrightarrow> p \<and> v6 \<noteq> IPv6 0 0 0 0 0 0 0 1 \<and> v6 \<noteq> IPv6 0 0 0 0 0 0 0 0
        \<and> v6_high v6 \<noteq> 0xfe80 \<and> v6_high v6 div 512 \<noteq> 126 \<and> v6_high v6 div 256 \<noteq> 255
        \<and> (v6_mapped v6 \<longrightarrow> \<not> list_ex (\<lambda>net. in_net net (v6_low v6)) blocked_v4))"
proof -
  have v4: "is_v4_allowed v p \<longleftrightarrow> p \<and> \<not> list_ex (\<lambda>net. in_net net v) blocked_v4" for v
    by (cases v) (auto simp: is_v4_allowed_def blocked_v4_def in_blocked_v4)
  obtain a b c d e f g h where v6: "v6 = IPv6 a b c d e f g h" by (cases v6)
  have link: "segment0 v6 = 0xfe80 \<longleftrightarrow> v6_high v6 = 0xfe80" by (simp add: v6 word_unat_eq_iff)
  have "is_v6_allowed v6 p \<longleftrightarrow> p \<and> v6 \<noteq> IPv6 0 0 0 0 0 0 0 1 \<and> v6 \<noteq> IPv6 0 0 0 0 0 0 0 0
        \<and> v6_high v6 \<noteq> 0xfe80 \<and> v6_high v6 div 512 \<noteq> 126 \<and> v6_high v6 div 256 \<noteq> 255
        \<and> (v6_mapped v6 \<longrightarrow> \<not> list_ex (\<lambda>net. in_net net (v6_low v6)) blocked_v4)"
    unfolding is_v6_allowed_def link [symmetric] v6_is_loopback_def v6_is_unspecified_def seg_ula seg_mcast
    by (auto simp: v6 v4)
  with v4 show ?thesis by simp
qed

lemma egress_policy_exact_witness:
  "\<not> is_addr_allowed (V6 (IPv6 0 0 0 0 0 0xffff 0x7f00 1)) True
   \<and> is_addr_allowed (V6 (IPv6 0xfe90 0 0 0 0 0 0 1)) True \<and> is_addr_allowed (V4 (IPv4 240 0 0 1)) True"
  using egress_policy_exact [of "IPv4 240 0 0 1" True "IPv6 0 0 0 0 0 0xffff 0x7f00 1"]
    egress_policy_exact [of "IPv4 240 0 0 1" True "IPv6 0xfe90 0 0 0 0 0 0 1"]
  by (simp add: blocked_v4_def in_net_def)

lemma read_body_exact:
  "read_body budget buf chunks = Inr out \<longleftrightarrow>
     (\<exists>cs. chunks = map Inr cs \<and> out = buf @ concat cs \<and> (cs = [] \<or> length out \<le> budget))"
proof (induction budget buf chunks rule: read_body.induct)
  case (3 budget buf chunk rest)
  show ?case
  proof (cases "budget < length buf + length chunk")
    case True
    then show ?thesis by (auto simp: Cons_eq_map_conv)
  next
    case False
    then show ?thesis using 3 by (auto simp: Cons_eq_map_conv)
  qed
qed auto

lemma read_body_exceeded:
  "read_body budget buf chunks = Inl (EgResponseExceeded b) \<Longrightarrow>
   b = budget \<and> (\<exists>cs c rest. chunks = map Inr cs @ Inr c # rest \<and> budget < length buf + length (concat cs) + length c)"
proof (induction budget buf chunks rule: read_body.induct)
  case (3 budget buf chunk rest)
  show ?case
  proof (cases "budget < length buf + length chunk")
    case True
    then have "\<exists>cs c rs. Inr chunk # rest = map Inr cs @ Inr c # rs \<and> budget < length buf + length (concat cs) + length c"
      by (intro exI [of _ "[]"] exI [of _ chunk] exI [of _ rest]) simp
    then show ?thesis using 3 True by simp
  next
    case False
    with 3 obtain cs c rs where "b = budget" "rest = map Inr cs @ Inr c # rs"
      "budget < length buf + length chunk + length (concat cs) + length c" by auto
    then show ?thesis by (intro conjI exI [of _ "chunk # cs"] exI [of _ c] exI [of _ rs]) simp_all
  qed
qed auto

lemma egress_validate_Inr:
  assumes "egress_validate env cfg url = Inr ok"
  shows "\<exists>host addrs port. ee_parse env url = Inr (vo_url ok)
          \<and> pu_scheme (vo_url ok) \<in> {''http'', ''https''} \<and> pu_host (vo_url ok) = Some host
          \<and> ee_lookup env host port = Inr addrs \<and> addrs \<noteq> []
          \<and> (if eg_allowlist cfg = [] then list_all (\<lambda>a. is_addr_allowed a (eg_allow_public cfg)) addrs
             else host_matches_allowlist host (eg_allowlist cfg))"
proof -
  obtain parsed where parsed: "ee_parse env url = Inr parsed" "pu_scheme parsed \<in> {''http'', ''https''}"
    using assms by (auto simp: egress_validate_def split: sum.splits if_splits)
  then obtain host where host: "pu_host parsed = Some host"
    using assms by (auto simp: egress_validate_def split: option.splits)
  define port where "port = (case pu_port_or_known_default parsed of Some p \<Rightarrow> p | None \<Rightarrow> 443)"
  obtain addrs where addrs: "ee_lookup env host port = Inr addrs" "addrs \<noteq> []"
    using assms parsed host by (auto simp: egress_validate_def Let_def port_def [symmetric] split: sum.splits if_splits list.splits)
  let ?listed = "eg_allowlist cfg \<noteq> [] \<and> host_matches_allowlist host (eg_allowlist cfg)"
  have bad: "eg_allowlist cfg = [] \<or> ?listed"
    using assms parsed host by (auto simp: egress_validate_def Let_def split: if_splits)
  then have "vo_url ok = parsed \<and> (eg_allowlist cfg = [] \<longrightarrow> find (\<lambda>a. \<not> is_addr_allowed a (eg_allow_public cfg)) addrs = None)"
    using assms parsed host addrs
    by (auto simp: egress_validate_def Let_def port_def [symmetric] split: if_splits list.splits option.splits)
  then show ?thesis using parsed host addrs bad by (auto simp: find_None_iff list_all_iff)
qed

text \<open>
  C10: A helper hands the transport at most one request, and only for a URL of scheme http or
  https whose host is on the allow-list or, without a list, resolves to addresses that all pass
  the policy. The body it returns is the concatenation of every chunk and fits the budget,
  which never exceeds the configured one (or 1024 bytes); the budget error is reported only
  when the chunks read do exceed it.
\<close>

theorem egress_guarded:
  assumes "egress_get_stream env cfg url max_bytes = (sent, outcome)"
  shows "length sent \<le> 1
    \<and> (sent \<noteq> [] \<longrightarrow> (\<exists>parsed host addrs port. ee_parse env url = Inr parsed \<and> sent = [pu_text parsed]
          \<and> pu_scheme parsed \<in> {''http'', ''https''} \<and> pu_host parsed = Some host
          \<and> ee_lookup env host port = Inr addrs \<and> addrs \<noteq> []
          \<and> (if eg_allowlist cfg = [] then list_all (\<lambda>a. is_addr_allowed a (eg_allow_public cfg)) addrs
             else host_matches_allowlist host (eg_allowlist cfg))))
    \<and> (\<forall>status final ctype body. outcome = Inr (status, final, ctype, body) \<longrightarrow>
          200 \<le> status \<and> status \<le> 299 \<and> length body \<le> max (eg_max_bytes cfg) 1024
          \<and> (\<exists>resp cs. er_chunks resp = map Inr cs \<and> body = concat cs \<and> ee_send env (hd sent) = Inr resp))
    \<and> (\<forall>b. outcome = Inl (EgResponseExceeded b) \<longrightarrow>
          (\<exists>resp cs c rest. ee_send env (hd sent) = Inr resp \<and> er_chunks resp = map Inr cs @ Inr c # rest
             \<and> b < length (concat cs) + length c))"
proof (cases "egress_validate env cfg url")
  case (Inl e)
  then have "sent = []" "outcome = Inl e" using assms by (auto simp: egress_get_stream_def)
  moreover have "e \<noteq> EgResponseExceeded b" for b
    using Inl by (auto simp: egress_validate_def Let_def split: sum.splits option.splits if_splits list.splits)
  ultimately show ?thesis by simp
next
  case (Inr ok)
  then have sent: "sent = [pu_text (vo_url ok)]" using assms by (auto simp: egress_get_stream_def Let_def)
  have "\<exists>parsed host addrs port. ee_parse env url = Inr parsed \<and> sent = [pu_text parsed]
          \<and> pu_scheme parsed \<in> {''http'', ''https''} \<and> pu_host parsed = Some host
          \<and> ee_lookup env host port = Inr addrs \<and> addrs \<noteq> []
          \<and> (if eg_allowlist cfg = [] then list_all (\<lambda>a. is_addr_allowed a (eg_allow_public cfg)) addrs
             else host_matches_allowlist host (eg_allowlist cfg))"
    using egress_validate_Inr [OF Inr] sent by blast
  moreover have "200 \<le> status \<and> status \<le> 299 \<and> length body \<le> max (eg_max_bytes cfg) 1024
          \<and> (\<exists>resp cs. er_chunks resp = map Inr cs \<and> body = concat cs \<and> ee_send env (hd sent) = Inr resp)"
    if out: "outcome = Inr (status, final, ctype, body)" for status final ctype body
  proof -
    obtain resp where resp: "ee_send env (pu_text (vo_url ok)) = Inr resp" "is_success (er_status resp)"
      "er_status resp = status" "read_body (body_budget cfg max_bytes) [] (er_chunks resp) = Inr body"
      using assms Inr out by (auto simp: egress_get_stream_def Let_def split: sum.splits if_splits)
    then obtain cs where cs: "er_chunks resp = map Inr cs" "body = concat cs" "cs = [] \<or> length body \<le> body_budget cfg max_bytes"
      by (auto simp: read_body_exact)
    moreover have "body_budget cfg max_bytes \<le> max (eg_max_bytes cfg) 1024" by (auto simp: body_budget_def)
    ultimately show ?thesis using resp sent by (auto simp: is_success_def)
  qed
  moreover have "\<exists>resp cs c rest. ee_send env (hd sent) = Inr resp \<and> er_chunks resp = map Inr cs @ Inr c # rest
             \<and> b < length (concat cs) + length c" if out: "outcome = Inl (EgResponseExceeded b)" for b
  proof -
    obtain resp where "ee_send env (pu_text (vo_url ok)) = Inr resp"
      "read_body (body_budget cfg max_bytes) [] (er_chunks resp) = Inl (EgResponseExceeded b)"
      using assms Inr out by (auto simp: egress_get_stream_def Let_def upstream_error_def split: sum.splits if_splits)
    then show ?thesis using read_body_exceeded [of "body_budget cfg max_bytes" "[]" "er_chunks resp" b] sent by fastforce
  qed
  ultimately show ?thesis using sent by simp
qed

definition ex_url :: "string \<Rightarrow> parsed_url" where
  "ex_url u = \<lparr>pu_text = u, pu_scheme = ''http'', pu_host = Some u, pu_port_or_known_default = Some 80\<rparr>"

text \<open>A server on a public address that redirects to one on the loopback interface.\<close>

definition ex_net :: egress_env where
  "ex_net =
     \<lparr>ee_parse = \<lambda>u. Inr (ex_url u),
      ee_lookup = \<lambda>host port. Inr [V4 (if host = ''a'' then IPv4 8 8 8 8 else IPv4 127 0 0 1)],
      ee_send = \<lambda>u. Inr \<lparr>er_status = 200, er_final_url = ''b'', er_content_type = None, er_text = None, er_chunks = [Inr ''xy'']\<rparr>\<rparr>"

lemma ex_net_validate:
  "egress_validate ex_net (egress_default\<lparr>eg_allow_public := True\<rparr>) ''a'' =
     Inr \<lparr>vo_url = ex_url ''a'', vo_host = ''a'', vo_addresses = [(V4 (IPv4 8 8 8 8), 80)]\<rparr>"
  by (simp add: egress_validate_def ex_net_def ex_url_def egress_default_def is_v4_allowed_def)

lemma redirect_target_unchecked:
  "egress_get_stream ex_net (egress_default\<lparr>eg_allow_public := True\<rparr>) ''a'' None = ([''a''], Inr (200, ''b'', [], ''xy''))"
  "egress_validate ex_net (egress_default\<lparr>eg_allow_public := True\<rparr>) ''b'' =
     Inl (EgDisallowedAddress ''b'' (V4 (IPv4 127 0 0 1)) 80)"
  by (simp add: egress_get_stream_def ex_net_validate, simp add: ex_net_def ex_url_def body_budget_def is_success_def
        egress_default_def default_max_body_bytes_def)
    (simp add: egress_validate_def ex_net_def ex_url_def egress_default_def is_v4_allowed_def)

lemma egress_guarded_witness:
  "is_addr_allowed (V4 (IPv4 8 8 8 8)) True
   \<and> length (snd (snd (snd (projr (snd (egress_get_stream ex_net (egress_default\<lparr>eg_allow_public := True\<rparr>) ''a'' None))))))
       \<le> 2 * 1024 * 1024"
  using egress_guarded [OF redirect_target_unchecked(1)] redirect_target_unchecked(1)
  by (simp add: egress_default_def default_max_body_bytes_def is_v4_allowed_def)

lemma floor_boundary_ok: "floor_boundary s i \<le> i \<and> is_char_boundary s (floor_boundary s i)"
  by (induction i) (auto simp: is_char_boundary_def)

lemma truncate_body_bound: "length (truncate_body s n) \<le> n + 15"
  using floor_boundary_ok [of s n] by (auto simp: truncate_body_def truncation_marker_def)

end
