(* ===== verification/Json.thy ===== *)
theory Json
  imports Prelude Rust_Str "HOL-Library.Word"
begin

text \<open>
  JSON values as \<open>serde_json::Value\<close> has them and the accessors the code uses. The parser and
  the printer of \<open>serde_json\<close> are not part of the repository: the components that need them
  take them as a \<open>json_codec\<close>, whose \<open>js_error\<close> is the message for a text that does not parse. An object is an association list; the order in which a key
  is printed is the printer's business.
\<close>

datatype json_num = JPos nat | JNeg int | JFloat "64 word"

datatype json =
    JNull
  | JBool bool
  | JNum json_num
  | JStr string
  | JArr "json list"
  | JObj "(string \<times> json) list"

record json_codec =
  js_parse :: "string \<Rightarrow> json option"
  js_error :: "string \<Rightarrow> string"
  js_show :: "json \<Rightarrow> string"

fun jget :: "string \<Rightarrow> json \<Rightarrow> json option" where
  "jget k (JObj kvs) = dash_get kvs k"
| "jget k _ = None"

fun as_str :: "json \<Rightarrow> string option" where
  "as_str (JStr s) = Some s"
| "as_str _ = None"

fun as_array :: "json \<Rightarrow> json list option" where
  "as_array (JArr xs) = Some xs"
| "as_array _ = None"

fun as_object :: "json \<Rightarrow> (string \<times> json) list option" where
  "as_object (JObj kvs) = Some kvs"
| "as_object _ = None"

fun as_u64 :: "json \<Rightarrow> nat option" where
  "as_u64 (JNum (JPos n)) = (if n \<le> u64_max then Some n else None)"
| "as_u64 _ = None"

fun as_bool :: "json \<Rightarrow> bool option" where
  "as_bool (JBool b) = Some b"
| "as_bool _ = None"

definition nat_json :: "nat \<Rightarrow> json" where
  "nat_json n = JNum (JPos n)"

definition opt_str :: "string option \<Rightarrow> json" where
  "opt_str x = (case x of Some s \<Rightarrow> JStr s | None \<Rightarrow> JNull)"

definition jget_str :: "string \<Rightarrow> json \<Rightarrow> string option" where
  "jget_str k v = Option.bind (jget k v) as_str"

text \<open>\<open>as_object_mut\<close>, then \<open>get_mut\<close> of a key, then \<open>as_array_mut\<close>: an update in place.\<close>

definition with_array :: "string \<Rightarrow> (json list \<Rightarrow> json list) \<Rightarrow> json \<Rightarrow> json" where
  "with_array k f v =
     (case v of
        JObj kvs \<Rightarrow>
          (case dash_get kvs k of
             Some (JArr xs) \<Rightarrow> JObj (dash_put k (JArr (f xs)) kvs)
           | _ \<Rightarrow> v)
      | _ \<Rightarrow> v)"

definition obj_insert :: "string \<Rightarrow> json \<Rightarrow> json \<Rightarrow> json" where
  "obj_insert k x v = (case v of JObj kvs \<Rightarrow> JObj (dash_put k x kvs) | _ \<Rightarrow> v)"

text \<open>The elements of an array field, none when the field is something else.\<close>

definition array_of :: "string \<Rightarrow> json \<Rightarrow> json list" where
  "array_of k v = (case Option.bind (jget k v) as_array of Some xs \<Rightarrow> xs | None \<Rightarrow> [])"

definition has_array :: "string \<Rightarrow> json \<Rightarrow> bool" where
  "has_array k v \<longleftrightarrow> Option.bind (jget k v) as_array \<noteq> None"

lemma has_array_iff: "has_array k v \<longleftrightarrow> (\<exists>kvs xs. v = JObj kvs \<and> dash_get kvs k = Some (JArr xs))"
proof -
  have "as_array w \<noteq> None \<longleftrightarrow> (\<exists>xs. w = JArr xs)" for w by (cases w) auto
  then show ?thesis by (cases v) (auto simp: has_array_def bind_eq_None_conv split: option.splits)
qed

lemma with_array_absent: "\<not> has_array k v \<Longrightarrow> with_array k f v = v"
  by (auto simp: with_array_def has_array_iff split: json.splits option.splits)

lemma array_of_with_array [simp]:
  "has_array k v \<Longrightarrow> array_of k (with_array k f v) = f (array_of k v)"
  by (auto simp: has_array_iff with_array_def array_of_def dash_get_put)

lemma has_array_with_array [simp]: "has_array k (with_array k' f v) \<longleftrightarrow> has_array k v"
  by (auto simp: has_array_iff with_array_def dash_get_put split: json.splits option.splits)

lemma jget_with_array_other [simp]: "k' \<noteq> k \<Longrightarrow> jget k' (with_array k f v) = jget k' v"
  by (auto simp: with_array_def dash_get_put split: json.splits option.splits)

lemma array_of_absent: "\<not> has_array k v \<Longrightarrow> array_of k v = []"
  by (simp add: has_array_def array_of_def)

lemma dash_put_put: "dash_put k v (dash_put k w m) = dash_put k v m"
  by (induction m) auto

lemma with_array_comp: "with_array k f (with_array k g v) = with_array k (f \<circ> g) v"
  by (auto simp: with_array_def dash_get_put dash_put_put split: json.splits option.splits)

lemma jget_obj_insert: "jget k' (obj_insert k x v) = (case v of JObj _ \<Rightarrow> if k' = k then Some x else jget k' v | _ \<Rightarrow> None)"
  by (auto simp: obj_insert_def dash_get_put split: json.splits)

end
