(* ===== verification/Services.thy ===== *)
theory Services
  imports Prelude Rust_Str
begin

text \<open>
  The catalogue of integrations, \<open>nagent-agents/src/services.rs\<close>: what a service asks for, the
  summary the settings form receives and the line the system prompt carries. Absent optional
  fields are skipped when the summary is serialised; here they are \<open>None\<close>.
\<close>

datatype field_kind = FText | FPassword | FUrl | FSelect | FNumber

record select_option =
  so_value :: string
  so_label :: string

record field_def =
  fd_key :: string
  fd_label :: string
  fd_kind :: field_kind
  fd_required :: bool
  fd_help :: "string option"
  fd_placeholder :: "string option"
  fd_options :: "select_option list"
  fd_echo_on_edit :: bool

record service_def =
  sd_id :: string
  sd_display_name :: string
  sd_icon :: string
  sd_fields :: "field_def list"
  sd_docs_url :: "string option"

type_synonym service_registry = "service_def list"

definition service_registry_empty :: service_registry where
  "service_registry_empty = []"

definition service_get :: "service_registry \<Rightarrow> string \<Rightarrow> service_def option" where
  "service_get r name = List.find (\<lambda>s. sd_id s = name) r"

record field_summary =
  fs_key :: string
  fs_label :: string
  fs_kind :: field_kind
  fs_required :: bool
  fs_help :: "string option"
  fs_placeholder :: "string option"
  fs_options :: "select_option list option"
  fs_filled :: bool
  fs_value :: "string option"

record service_summary =
  su_id :: string
  su_display_name :: string
  su_icon :: string
  su_fields :: "field_summary list"
  su_configured :: bool
  su_docs_url :: "string option"

definition field_value :: "field_def \<Rightarrow> bool \<Rightarrow> (string, string) dash \<Rightarrow> string option" where
  "field_value f filled plaintext_values =
     (if fd_kind f = FPassword then None
      else if \<not> filled then None
      else if \<not> fd_echo_on_edit f then None
      else dash_get plaintext_values (fd_key f))"

definition summarise_field :: "string list \<Rightarrow> (string, string) dash \<Rightarrow> field_def \<Rightarrow> field_summary" where
  "summarise_field filled_keys plaintext_values f =
     (let filled = fd_key f \<in> set filled_keys
      in \<lparr>fs_key = fd_key f, fs_label = fd_label f, fs_kind = fd_kind f, fs_required = fd_required f,
          fs_help = fd_help f, fs_placeholder = fd_placeholder f,
          fs_options = (if fd_kind f = FSelect \<and> fd_options f \<noteq> [] then Some (fd_options f) else None),
          fs_filled = filled, fs_value = field_value f filled plaintext_values\<rparr>)"

definition to_summary :: "string list \<Rightarrow> (string, string) dash \<Rightarrow> service_def \<Rightarrow> service_summary" where
  "to_summary filled_keys plaintext_values s =
     \<lparr>su_id = sd_id s, su_display_name = sd_display_name s, su_icon = sd_icon s,
      su_fields = map (summarise_field filled_keys plaintext_values) (sd_fields s),
      su_configured = list_all (\<lambda>f. fd_key f \<in> set filled_keys) (filter fd_required (sd_fields s)),
      su_docs_url = sd_docs_url s\<rparr>"

definition description_line :: "service_def \<Rightarrow> string" where
  "description_line s =
     (let required = map fd_key (filter fd_required (sd_fields s))
      in if required = [] then ''per-user integration; call the matching tool when the user references this service.''
         else ''per-user integration (required fields: '' @ join_with '', '' required
              @ ''); call the matching tool when the user references this service.'')"

text \<open>Two stores of secrets that agree on the fields the form may echo cannot be told apart.\<close>

definition echoed :: "string list \<Rightarrow> service_def \<Rightarrow> string set" where
  "echoed filled_keys s =
     {fd_key f | f. f \<in> set (sd_fields s) \<and> fd_kind f \<noteq> FPassword \<and> fd_echo_on_edit f \<and> fd_key f \<in> set filled_keys}"

text \<open>
  The summary of a service depends on the stored plaintext only through the filled fields
  that are not passwords and that opted in to being echoed.
\<close>

theorem secrets_not_echoed:
  assumes "\<And>k. k \<in> echoed filled_keys s \<Longrightarrow> dash_get vals k = dash_get vals' k"
  shows "to_summary filled_keys vals s = to_summary filled_keys vals' s"
proof -
  have "summarise_field filled_keys vals f = summarise_field filled_keys vals' f" if "f \<in> set (sd_fields s)" for f
    using assms [of "fd_key f"] that by (auto simp: summarise_field_def field_value_def echoed_def Let_def)
  then show ?thesis by (simp add: to_summary_def)
qed

definition demo_field :: "string \<Rightarrow> field_kind \<Rightarrow> bool \<Rightarrow> field_def" where
  "demo_field key kind echo =
     \<lparr>fd_key = key, fd_label = key, fd_kind = kind, fd_required = True, fd_help = None, fd_placeholder = None,
      fd_options = [], fd_echo_on_edit = echo\<rparr>"

definition demo_service :: service_def where
  "demo_service =
     \<lparr>sd_id = ''mail'', sd_display_name = ''Mail'', sd_icon = [],
      sd_fields = [demo_field ''host'' FText True, demo_field ''password'' FPassword True], sd_docs_url = None\<rparr>"

lemma secrets_not_echoed_witness:
  "to_summary [''host'', ''password''] [(''host'', ''h''), (''password'', ''x'')] demo_service
   = to_summary [''host'', ''password''] [(''host'', ''h''), (''password'', ''y'')] demo_service"
proof (rule secrets_not_echoed)
  fix k assume "k \<in> echoed [''host'', ''password''] demo_service"
  then have "k = ''host''" by (auto simp: echoed_def demo_service_def demo_field_def)
  then show "dash_get [(''host'', ''h''), (''password'', ''x'')] k = dash_get [(''host'', ''h''), (''password'', ''y'')] k"
    by simp
qed

end
