(* ===== verification/Agents.thy ===== *)
theory Agents
  imports Json Services Ttl_Clients
begin

text \<open>
  The agent subsystem of \<open>nagent-agents/src/agents.rs\<close>: the errors and their texts, the
  capability traits as records of functions on a world \<open>'w\<close> (the tables, the network and
  the clock), \<open>UserContext\<close> with its secret cache, the \<open>Agent\<close> trait and the registry, and
  the direct route of \<open>nagent-server/src/agents/routes.rs\<close>. A \<open>dyn Agent\<close> is a record with
  one field per method; an invocation returns its result and the world it leaves.
\<close>

section \<open>Errors\<close>

type_synonym uuid = nat

definition uuid_nil :: uuid where
  "uuid_nil = 0"

datatype agent_error =
    SandboxDenied string
  | InvalidArguments string
  | AgentFailed string
  | AgentUpstream nat string
  | ResponseExceeded nat
  | CredentialsMissing string string
  | CredentialsDecryptFailed string string

fun agent_error_text :: "agent_error \<Rightarrow> string" where
  "agent_error_text (SandboxDenied m) = ''sandbox denied: '' @ m"
| "agent_error_text (InvalidArguments m) = ''invalid arguments: '' @ m"
| "agent_error_text (AgentFailed m) = ''agent failed: '' @ m"
| "agent_error_text (AgentUpstream status body) =
     ''upstream returned '' @ nat_to_string status @ '': '' @ body"
| "agent_error_text (ResponseExceeded budget) =
     ''response exceeded max_bytes='' @ nat_to_string budget"
| "agent_error_text (CredentialsMissing service field) =
     ''credentials not configured for service='' @ service @ '' field='' @ field"
| "agent_error_text (CredentialsDecryptFailed service field) =
     ''credentials decrypt failed for service='' @ service @ '' field='' @ field"

section \<open>Capability traits\<close>

record memory_write_request =
  mw_subject :: string
  mw_predicate :: string
  mw_value :: string
  mw_notes :: "string option"
  mw_tags :: string
  mw_confidence :: "32 word"
  mw_source_session_id :: "string option"
  mw_source_kind :: string

text \<open>An \<open>f32\<close> is its bits, a \<open>DateTime\<close> its RFC 3339 text.\<close>

record memory_meta =
  mm_id :: uuid
  mm_subject :: string
  mm_predicate :: string
  mm_tags :: string
  mm_confidence :: "32 word"
  mm_source_session_id :: "string option"
  mm_source_kind :: string
  mm_created_at :: string
  mm_last_used_at :: "string option"
  mm_expires_at :: "string option"

record decrypted_memory = memory_meta +
  dm_value :: string
  dm_notes :: "string option"

record 'w memory_source =
  ms_store :: "uuid \<Rightarrow> memory_write_request \<Rightarrow> 'w \<Rightarrow> (agent_error + uuid) \<times> 'w"
  ms_recall :: "uuid \<Rightarrow> string option \<Rightarrow> string option \<Rightarrow> string option \<Rightarrow> nat \<Rightarrow> 'w
                  \<Rightarrow> (agent_error + decrypted_memory list) \<times> 'w"
  ms_list_meta :: "uuid \<Rightarrow> nat \<Rightarrow> 'w \<Rightarrow> (agent_error + memory_meta list) \<times> 'w"
  ms_forget :: "uuid \<Rightarrow> uuid \<Rightarrow> 'w \<Rightarrow> (agent_error + unit) \<times> 'w"

type_synonym 'w secret_source =
  "uuid \<Rightarrow> string \<Rightarrow> string \<Rightarrow> 'w \<Rightarrow> (agent_error + string option) \<times> 'w"

type_synonym 'w secret_sink =
  "uuid \<Rightarrow> string \<Rightarrow> (string \<times> string) list \<Rightarrow> 'w \<Rightarrow> (agent_error + unit) \<times> 'w"

section \<open>The user context\<close>

text \<open>The context an invocation receives.\<close>

record 'w user_context =
  cx_user_id :: uuid
  cx_services :: service_registry
  cx_resolver :: "'w secret_source option"
  cx_sink :: "'w secret_sink option"
  cx_memories :: "'w memory_source option"
  cx_cache :: secret_cache
  cx_chat_session_id :: "uuid option"
  cx_invoked :: "string list"

definition fresh_cache :: secret_cache where
  "fresh_cache = the sc_new"

definition ctx_new :: "uuid \<Rightarrow> service_registry \<Rightarrow> 'w secret_source \<Rightarrow> 'w user_context" where
  "ctx_new user services resolver =
     \<lparr>cx_user_id = user, cx_services = services, cx_resolver = Some resolver, cx_sink = None,
      cx_memories = None, cx_cache = fresh_cache, cx_chat_session_id = None, cx_invoked = []\<rparr>"

definition ctx_for_tests :: "uuid \<Rightarrow> service_registry \<Rightarrow> 'w user_context" where
  "ctx_for_tests user services =
     \<lparr>cx_user_id = user, cx_services = services, cx_resolver = None, cx_sink = None,
      cx_memories = None, cx_cache = fresh_cache, cx_chat_session_id = None, cx_invoked = []\<rparr>"

definition ctx_for_chat_session ::
    "uuid \<Rightarrow> service_registry \<Rightarrow> 'w secret_source option \<Rightarrow> 'w secret_sink option \<Rightarrow> uuid \<Rightarrow> 'w user_context" where
  "ctx_for_chat_session user services resolver sink sid =
     \<lparr>cx_user_id = user, cx_services = services, cx_resolver = resolver, cx_sink = sink,
      cx_memories = None, cx_cache = fresh_cache, cx_chat_session_id = Some sid, cx_invoked = []\<rparr>"

definition ctx_for_chat_session_with_memories ::
    "uuid \<Rightarrow> service_registry \<Rightarrow> 'w secret_source option \<Rightarrow> 'w secret_sink option \<Rightarrow> 'w memory_source \<Rightarrow> uuid
       \<Rightarrow> 'w user_context" where
  "ctx_for_chat_session_with_memories user services resolver sink mem sid =
     \<lparr>cx_user_id = user, cx_services = services, cx_resolver = resolver, cx_sink = sink,
      cx_memories = Some mem, cx_cache = fresh_cache, cx_chat_session_id = Some sid, cx_invoked = []\<rparr>"

definition record_invocation :: "string \<Rightarrow> 'w user_context \<Rightarrow> 'w user_context" where
  "record_invocation name ctx =
     (if name \<in> set (cx_invoked ctx) then ctx else ctx\<lparr>cx_invoked := cx_invoked ctx @ [name]\<rparr>)"

definition was_invoked :: "string \<Rightarrow> 'w user_context \<Rightarrow> bool" where
  "was_invoked name ctx \<longleftrightarrow> name \<in> set (cx_invoked ctx)"

text \<open>
  \<open>UserContext::secret\<close>: the resolver must be wired, then the cache is asked, then the resolver;
  \<open>now\<close> and \<open>now'\<close> are the clock readings of the cache's \<open>get\<close> and \<open>insert\<close> and \<open>pos\<close> the hash
  position of the new entry.
\<close>

definition ctx_secret ::
    "nat \<Rightarrow> instant \<Rightarrow> instant \<Rightarrow> string \<Rightarrow> string \<Rightarrow> 'w user_context \<Rightarrow> 'w
       \<Rightarrow> (agent_error + string option) \<times> 'w user_context \<times> 'w" where
  "ctx_secret pos now now' service field ctx w =
     (case cx_resolver ctx of
        None \<Rightarrow> (Inl (CredentialsMissing service field), ctx, w)
      | Some fetch \<Rightarrow>
          (let (cache, hit) = sc_get now service field (cx_cache ctx);
               ctx = ctx\<lparr>cx_cache := cache\<rparr>
           in case hit of
                Some s \<Rightarrow> (Inr (Some s), ctx, w)
              | None \<Rightarrow>
                  (case fetch (cx_user_id ctx) service field w of
                     (Inr (Some s), w) \<Rightarrow>
                       (Inr (Some s), ctx\<lparr>cx_cache := sc_insert pos now' service field s cache\<rparr>, w)
                   | (Inr None, w) \<Rightarrow> (Inl (CredentialsMissing service field), ctx, w)
                   | (Inl e, w) \<Rightarrow> (Inl e, ctx, w))))"

definition update_secret ::
    "string \<Rightarrow> (string \<times> string) list \<Rightarrow> 'w user_context \<Rightarrow> 'w \<Rightarrow> (agent_error + unit) \<times> 'w" where
  "update_secret service pairs ctx w =
     (case cx_sink ctx of
        None \<Rightarrow> (Inl (AgentFailed ''credential sink not wired in this context''), w)
      | Some upd \<Rightarrow> upd (cx_user_id ctx) service pairs w)"

section \<open>Agents\<close>

datatype confirmation_decision = Allow | NeedsConfirmation string

definition is_allowed :: "confirmation_decision \<Rightarrow> bool" where
  "is_allowed d \<longleftrightarrow> d = Allow"

record 'w agent =
  ag_name :: string
  ag_description :: string
  ag_parameters_schema :: json
  ag_invoke :: "'w user_context \<Rightarrow> json \<Rightarrow> 'w \<Rightarrow> (agent_error + string) \<times> 'w"
  ag_requires_confirmation :: "'w user_context \<Rightarrow> json \<Rightarrow> confirmation_decision"
  ag_allow_session_override :: bool
  ag_untrusted_output :: bool
  ag_keywords :: "string list"

text \<open>The default methods of the trait, for an agent that gives only the required ones.\<close>

definition default_confirmation :: "'w user_context \<Rightarrow> json \<Rightarrow> confirmation_decision" where
  "default_confirmation ctx args =
     NeedsConfirmation ''default-deny: every tool call requires explicit user approval''"

definition agent_defaults ::
    "string \<Rightarrow> string \<Rightarrow> json \<Rightarrow> ('w user_context \<Rightarrow> json \<Rightarrow> 'w \<Rightarrow> (agent_error + string) \<times> 'w) \<Rightarrow> 'w agent" where
  "agent_defaults name description schema invoke =
     \<lparr>ag_name = name, ag_description = description, ag_parameters_schema = schema, ag_invoke = invoke,
      ag_requires_confirmation = default_confirmation, ag_allow_session_override = True,
      ag_untrusted_output = True, ag_keywords = []\<rparr>"

section \<open>The registry\<close>

type_synonym 'w registry = "'w agent list"

definition registry_empty :: "'w registry" where
  "registry_empty = []"

definition push_agent_boxed :: "'w agent \<Rightarrow> 'w registry \<Rightarrow> 'w registry" where
  "push_agent_boxed a r = r @ [a]"

text \<open>\<open>from_config\<close>: the descriptors whose \<open>build\<close> succeeds, in table order.\<close>

fun push_built :: "('e + 'w agent) list \<Rightarrow> 'w registry \<Rightarrow> 'w registry" where
  "push_built [] r = r"
| "push_built (Inr a # bs) r = push_built bs (push_agent_boxed a r)"
| "push_built (Inl e # bs) r = push_built bs r"

definition registry_from_config :: "('e + 'w agent) list \<Rightarrow> bool \<Rightarrow> 'w registry" where
  "registry_from_config built enabled = (if \<not> enabled then registry_empty else push_built built registry_empty)"

definition registry_get :: "'w registry \<Rightarrow> string \<Rightarrow> 'w agent option" where
  "registry_get r name = List.find (\<lambda>a. ag_name a = name) r"

definition tool_schema :: "'w agent \<Rightarrow> json" where
  "tool_schema a =
     JObj [(''type'', JStr ''function''),
           (''function'',
            JObj [(''name'', JStr (ag_name a)), (''description'', JStr (ag_description a)),
                  (''parameters'', ag_parameters_schema a)])]"

definition tools_schema :: "'w registry \<Rightarrow> json list" where
  "tools_schema r = map tool_schema r"

record agent_summary =
  as_name :: string
  as_description :: string
  as_untrusted_output :: bool
  as_requires_confirmation :: bool

definition registry_list :: "'w registry \<Rightarrow> agent_summary list" where
  "registry_list r =
     map (\<lambda>a. \<lparr>as_name = ag_name a, as_description = ag_description a,
               as_untrusted_output = ag_untrusted_output a,
               as_requires_confirmation =
                 \<not> is_allowed (ag_requires_confirmation a (ctx_for_tests uuid_nil []) JNull)\<rparr>) r"

section \<open>Lemmas\<close>

lemma registry_get_Some: "registry_get r name = Some a \<Longrightarrow> a \<in> set r \<and> ag_name a = name"
  by (auto simp: registry_get_def find_Some_iff)

lemma registry_get_name: "registry_get r name = Some a \<Longrightarrow> ag_name a = name"
  by (simp add: registry_get_Some)

lemma registry_get_None: "registry_get r name = None \<longleftrightarrow> name \<notin> ag_name ` set r"
  by (auto simp: registry_get_def find_None_iff)

lemma registry_get_unique:
  assumes "distinct (map ag_name r)" "a \<in> set r"
  shows "registry_get r (ag_name a) = Some a"
  using assms by (induction r) (auto simp: registry_get_def)

lemma tool_schema_name [simp]:
  "Option.bind (jget ''function'' (tool_schema a)) (jget_str ''name'') = Some (ag_name a)"
  by (simp add: tool_schema_def jget_str_def)

lemma push_built_append: "push_built bs r = r @ [a. Inr a \<leftarrow> bs]"
  by (induction bs r rule: push_built.induct) (simp_all add: push_agent_boxed_def)

text \<open>The default gate of the trait denies whatever the context is.\<close>

lemma default_denies: "\<not> is_allowed (ag_requires_confirmation (agent_defaults n d s i) ctx args)"
  by (simp add: agent_defaults_def default_confirmation_def is_allowed_def)

lemma was_invoked_record: "was_invoked n (record_invocation m ctx) \<longleftrightarrow> n = m \<or> was_invoked n ctx"
  by (auto simp: was_invoked_def record_invocation_def)

end
