(* ===== verification/Rust_Utf8.thy ===== *)
theory Rust_Utf8
  imports Rust_Str
begin

text \<open>
  \<open>String::from_utf8_lossy\<close>: the well-formed sequences are copied, every maximal ill-formed
  prefix of a sequence becomes U+FFFD. The byte ranges are those of the Unicode table of
  well-formed UTF-8 that the standard library follows.
\<close>

definition cont_byte :: "nat \<Rightarrow> bool" where
  "cont_byte b \<longleftrightarrow> 128 \<le> b \<and> b \<le> 191"

definition second3 :: "nat \<Rightarrow> nat \<Rightarrow> bool" where
  "second3 a b \<longleftrightarrow>
     (a = 0xE0 \<and> 160 \<le> b \<and> b \<le> 191) \<or> (0xE1 \<le> a \<and> a \<le> 0xEC \<and> cont_byte b)
     \<or> (a = 0xED \<and> 128 \<le> b \<and> b \<le> 159) \<or> (0xEE \<le> a \<and> a \<le> 0xEF \<and> cont_byte b)"

definition second4 :: "nat \<Rightarrow> nat \<Rightarrow> bool" where
  "second4 a b \<longleftrightarrow>
     (a = 0xF0 \<and> 144 \<le> b \<and> b \<le> 191) \<or> (0xF1 \<le> a \<and> a \<le> 0xF3 \<and> cont_byte b)
     \<or> (a = 0xF4 \<and> 128 \<le> b \<and> b \<le> 143)"

text \<open>The number of bytes of \<open>s\<close>, at most \<open>n\<close>, that continue a sequence.\<close>

fun conts :: "nat \<Rightarrow> string \<Rightarrow> nat" where
  "conts (Suc n) (c # s) = (if cont_byte (byte c) then Suc (conts n s) else 0)"
| "conts _ _ = 0"

text \<open>Whether the bytes start with a well-formed sequence, and the length of it or of the ill-formed part.\<close>

fun utf8_head :: "string \<Rightarrow> bool \<times> nat" where
  "utf8_head [] = (True, 0)"
| "utf8_head (a # s) =
     (let x = byte a
      in if x < 128 then (True, 1)
         else if 0xC2 \<le> x \<and> x \<le> 0xDF then (conts 1 s = 1, Suc (conts 1 s))
         else if s \<noteq> [] \<and> second3 x (byte (hd s)) then (conts 1 (tl s) = 1, 2 + conts 1 (tl s))
         else if s \<noteq> [] \<and> second4 x (byte (hd s)) then (conts 2 (tl s) = 2, 2 + conts 2 (tl s))
         else (False, 1))"

lemma utf8_head_pos: "s \<noteq> [] \<Longrightarrow> 0 < snd (utf8_head s)"
  by (cases s) (auto simp: Let_def)

definition replacement :: string where
  "replacement = [CHR 0xEF, CHR 0xBF, CHR 0xBD]"

function from_utf8_lossy :: "string \<Rightarrow> string" where
  "from_utf8_lossy s =
     (if s = [] then []
      else (case utf8_head s of
              (ok, n) \<Rightarrow> (if ok then take n s else replacement) @ from_utf8_lossy (drop n s)))"
  by pat_completeness auto
termination
proof (relation "measure length", goal_cases)
  case (2 s ok n)
  then have "0 < n" using utf8_head_pos [of s] by (metis snd_conv)
  with 2(1) show ?case by (cases s) simp_all
qed simp

declare from_utf8_lossy.simps [simp del]

function valid_utf8 :: "string \<Rightarrow> bool" where
  "valid_utf8 s =
     (if s = [] then True else (case utf8_head s of (ok, n) \<Rightarrow> ok \<and> valid_utf8 (drop n s)))"
  by pat_completeness auto
termination
proof (relation "measure length", goal_cases)
  case (2 s ok n)
  then have "0 < n" using utf8_head_pos [of s] by (metis snd_conv)
  with 2(1) show ?case by (cases s) simp_all
qed simp

declare valid_utf8.simps [simp del]

lemma lossy_Nil [simp]: "from_utf8_lossy [] = []"
  by (simp add: from_utf8_lossy.simps)

lemma valid_utf8_Nil [simp]: "valid_utf8 []"
  by (simp add: valid_utf8.simps)

lemma lossy_valid: "valid_utf8 s \<Longrightarrow> from_utf8_lossy s = s"
proof (induction s rule: valid_utf8.induct)
  case (1 s)
  show ?case
  proof (cases "s = []")
    case False
    obtain ok n where h: "utf8_head s = (ok, n)" by (cases "utf8_head s")
    from "1.prems" False h have "ok" "valid_utf8 (drop n s)" by (simp_all add: valid_utf8.simps [of s])
    with "1.IH" [OF False h [symmetric]] False h show ?thesis by (simp add: from_utf8_lossy.simps [of s])
  qed simp
qed

text \<open>A well-formed sequence at the head does not depend on what follows it.\<close>

lemma conts_append: "conts n s = n \<Longrightarrow> conts n (s @ t) = n"
  by (induction n s rule: conts.induct) (auto split: if_splits)

lemma conts_le: "conts n s \<le> length s"
  by (induction n s rule: conts.induct) auto

lemma utf8_head_append:
  assumes "utf8_head s = (True, n)" "s \<noteq> []"
  shows "utf8_head (s @ t) = (True, n) \<and> n \<le> length s"
proof -
  obtain a r where s: "s = a # r" using assms by (cases s) auto
  have l: "conts 1 r \<le> length r" "conts 1 (tl r) \<le> length r - 1" "conts 2 (tl r) \<le> length r - 1"
    using conts_le [of 1 r] conts_le [of 1 "tl r"] conts_le [of 2 "tl r"] by simp_all
  show ?thesis
  proof (cases "r = []")
    case True
    then show ?thesis using assms s by (auto simp: Let_def split: if_splits)
  next
    case False
    then have "hd (r @ t) = hd r" "tl (r @ t) = tl r @ t" "0 < length r" by simp_all
    then show ?thesis
      using assms s False l conts_append [of 1 r t] conts_append [of 1 "tl r" t] conts_append [of 2 "tl r" t]
      by (auto simp: Let_def split: if_splits)
  qed
qed

lemma lossy_append_valid: "valid_utf8 s \<Longrightarrow> from_utf8_lossy (s @ t) = s @ from_utf8_lossy t"
proof (induction s rule: valid_utf8.induct)
  case (1 s)
  show ?case
  proof (cases "s = []")
    case False
    obtain ok n where h: "utf8_head s = (ok, n)" by (cases "utf8_head s")
    from "1.prems" False h have ok: "ok" and v: "valid_utf8 (drop n s)" by (simp_all add: valid_utf8.simps [of s])
    have ha: "utf8_head (s @ t) = (True, n)" and n: "n \<le> length s"
      using utf8_head_append [of s n t] h ok False by simp_all
    have ih: "from_utf8_lossy (drop n s @ t) = drop n s @ from_utf8_lossy t"
      using "1.IH" [OF False h [symmetric]] v by simp
    have "from_utf8_lossy (s @ t) = take n s @ from_utf8_lossy (drop n s @ t)"
      using ha n False by (simp add: from_utf8_lossy.simps [of "s @ t"])
    with ih show ?thesis by (metis append.assoc append_take_drop_id)
  qed simp
qed

lemma lossy_concat: "list_all valid_utf8 cs \<Longrightarrow> concat (map from_utf8_lossy cs) = from_utf8_lossy (concat cs)"
  by (induction cs) (simp_all add: lossy_append_valid lossy_valid)

lemma valid_ascii: "list_all (\<lambda>c. byte c < 128) s \<Longrightarrow> valid_utf8 s"
proof (induction s)
  case (Cons c s)
  then show ?case by (simp add: valid_utf8.simps [of "c # s"] Let_def)
qed simp

end
