(* ===== verification/Tools_Router.thy ===== *)
theory Tools_Router
  imports Complex_Main "HOL-Library.Multiset" Agents Rust_Utf8
begin

text \<open>
  \<open>nagent-agents/src/tools_router.rs\<close>: the BM25 index over the registry, and the
  \<open>search_tools\<close> agent of \<open>agents/tool_search.rs\<close> that answers from it.

  \<open>f64\<close> arithmetic is real arithmetic with a rounding function \<open>rnd\<close> after every operation;
  \<open>ln\<close> and the Unicode \<open>to_lowercase\<close> of the standard library are parameters (\<open>lnf\<close>, \<open>lower\<close>).
\<close>

section \<open>Tokens\<close>

definition search_tools_name :: string where
  "search_tools_name = ''search_tools''"

definition stop_words :: "string list" where
  "stop_words =
     [''a'', ''an'', ''and'', ''are'', ''as'', ''at'', ''be'', ''by'', ''do'', ''for'', ''from'', ''has'', ''have'',
      ''in'', ''is'', ''it'', ''of'', ''on'', ''or'', ''that'', ''the'', ''this'', ''to'', ''was'', ''were'', ''will'',
      ''with'', ''you'', ''your'']"

record indexed_tool =
  it_name :: string
  it_description :: string
  it_description_lower :: string
  it_keywords_lower :: "string list"

definition word_char :: "char \<Rightarrow> bool" where
  "word_char c \<longleftrightarrow> is_ascii_alphanumeric c \<or> c = CHR ''_''"

text \<open>\<open>split\<close> at every character that is not part of a word.\<close>

fun split_words :: "string \<Rightarrow> string list" where
  "split_words [] = [[]]"
| "split_words (c # s) =
     (if \<not> word_char c then [] # split_words s
      else (case split_words s of [] \<Rightarrow> [[c]] | w # ws \<Rightarrow> (c # w) # ws))"

definition keep_token :: "string \<Rightarrow> bool" where
  "keep_token t \<longleftrightarrow> \<not> (length t < 2 \<or> t \<in> set stop_words)"

text \<open>The pieces are ASCII, so their \<open>to_lowercase\<close> is the ASCII one.\<close>

definition tokenise_query :: "string \<Rightarrow> string list" where
  "tokenise_query query = filter keep_token (map to_ascii_lowercase (filter (\<lambda>raw. raw \<noteq> []) (split_words query)))"

definition tokenise_doc :: "indexed_tool \<Rightarrow> string list" where
  "tokenise_doc doc =
     filter keep_token (filter (\<lambda>raw. raw \<noteq> []) (split_words (it_description_lower doc)))
     @ filter (\<lambda>kw. kw \<notin> set stop_words) (it_keywords_lower doc)"

definition count_term :: "string list \<Rightarrow> string \<Rightarrow> nat" where
  "count_term tokens t = length (filter (\<lambda>x. x = t) tokens)"

section \<open>The index\<close>

record tools_router =
  tr_docs :: "indexed_tool list"
  tr_by_name :: "(string, nat) dash"
  tr_df :: "(string, nat) dash"
  tr_avg_dl :: real
  tr_n_docs :: nat

text \<open>\<open>str\<close> is compared byte by byte.\<close>

fun str_less_eq :: "string \<Rightarrow> string \<Rightarrow> bool" where
  "str_less_eq [] _ = True"
| "str_less_eq (_ # _) [] = False"
| "str_less_eq (a # s) (b # t) = (byte a < byte b \<or> (a = b \<and> str_less_eq s t))"

text \<open>A stable sort by a total preorder, as \<open>sort_by\<close> is.\<close>

fun insert_by :: "('a \<Rightarrow> 'a \<Rightarrow> bool) \<Rightarrow> 'a \<Rightarrow> 'a list \<Rightarrow> 'a list" where
  "insert_by le x [] = [x]"
| "insert_by le x (y # ys) = (if le x y then x # y # ys else y # insert_by le x ys)"

definition sort_by :: "('a \<Rightarrow> 'a \<Rightarrow> bool) \<Rightarrow> 'a list \<Rightarrow> 'a list" where
  "sort_by le xs = foldr (insert_by le) xs []"

definition index_agent :: "(string \<Rightarrow> string) \<Rightarrow> 'w agent \<Rightarrow> indexed_tool" where
  "index_agent lower a =
     \<lparr>it_name = ag_name a, it_description = ag_description a,
      it_description_lower = lower (ag_description a), it_keywords_lower = map lower (ag_keywords a)\<rparr>"

definition count_doc :: "(string, nat) dash \<Rightarrow> indexed_tool \<Rightarrow> (string, nat) dash" where
  "count_doc df doc = foldl (\<lambda>df t. dash_put t (unwrap_or 0 (dash_get df t) + 1) df) df (remdups (tokenise_doc doc))"

definition from_registry :: "(real \<Rightarrow> real) \<Rightarrow> (string \<Rightarrow> string) \<Rightarrow> 'w registry \<Rightarrow> tools_router" where
  "from_registry rnd lower registry =
     (let docs = sort_by (\<lambda>a b. str_less_eq (it_name a) (it_name b))
                   (map (index_agent lower) (filter (\<lambda>a. ag_name a \<noteq> ''search_tools'') registry));
          by_name = foldl (\<lambda>m (i, d). dash_put (it_name d) i m) [] (enumerate 0 docs);
          df = foldl count_doc [] docs;
          total_len = sum_list (map (\<lambda>d. length (tokenise_doc d)) docs);
          n_docs = length docs mod 2 ^ 32
      in \<lparr>tr_docs = docs, tr_by_name = by_name, tr_df = df,
          tr_avg_dl = (if n_docs = 0 then 0 else rnd (rnd (real total_len) / rnd (real n_docs))),
          tr_n_docs = n_docs\<rparr>)"

section \<open>Scores\<close>

definition k1 :: "(real \<Rightarrow> real) \<Rightarrow> real" where "k1 rnd = rnd 1.2"
definition bm25_b :: "(real \<Rightarrow> real) \<Rightarrow> real" where "bm25_b rnd = rnd 0.75"

definition term_score ::
    "(real \<Rightarrow> real) \<Rightarrow> (real \<Rightarrow> real) \<Rightarrow> tools_router \<Rightarrow> string list \<Rightarrow> real \<Rightarrow> string \<Rightarrow> real" where
  "term_score rnd lnf r tokens s t =
     (let tf = rnd (real (count_term tokens t)); dl = rnd (real (length tokens)); B = bm25_b rnd; K = k1 rnd
      in if tf = 0 then s
         else let df = rnd (real (unwrap_or 0 (dash_get (tr_df r) t)));
                  idf = lnf (rnd (rnd (rnd (rnd (rnd (real (tr_n_docs r)) - df) + 0.5) / rnd (df + 0.5)) + 1));
                  norm = rnd (rnd (tf * rnd (K + 1))
                           / rnd (tf + rnd (K * rnd (rnd (1 - B) + rnd (rnd (B * dl) / max (tr_avg_dl r) 1)))))
              in rnd (s + rnd (idf * norm)))"

definition doc_score :: "(real \<Rightarrow> real) \<Rightarrow> (real \<Rightarrow> real) \<Rightarrow> tools_router \<Rightarrow> string list \<Rightarrow> indexed_tool \<Rightarrow> real" where
  "doc_score rnd lnf r query_terms doc = foldl (term_score rnd lnf r (tokenise_doc doc)) 0 query_terms"

text \<open>Descending by score, then ascending by index.\<close>

definition score_before :: "nat \<times> real \<Rightarrow> nat \<times> real \<Rightarrow> bool" where
  "score_before a b \<longleftrightarrow> snd b < snd a \<or> (snd a = snd b \<and> fst a \<le> fst b)"

definition score ::
    "(real \<Rightarrow> real) \<Rightarrow> (real \<Rightarrow> real) \<Rightarrow> tools_router \<Rightarrow> string \<Rightarrow> nat \<Rightarrow> (string \<times> real) list" where
  "score rnd lnf r query top_k =
     (if top_k = 0 \<or> tr_n_docs r = 0 then []
      else let query_terms = tokenise_query query
           in if query_terms = [] then []
              else let scores = sort_by score_before
                                  (map (\<lambda>(i, d). (i, doc_score rnd lnf r query_terms d)) (enumerate 0 (tr_docs r)))
                   in map (\<lambda>(i, s). (it_name (tr_docs r ! i), s))
                        (filter (\<lambda>(i, s). 0 < s) (take top_k scores)))"

definition pre_select ::
    "(real \<Rightarrow> real) \<Rightarrow> (real \<Rightarrow> real) \<Rightarrow> tools_router \<Rightarrow> string \<Rightarrow> nat \<Rightarrow> string list" where
  "pre_select rnd lnf r query top_k = map fst (score rnd lnf r query top_k)"

record tool_search_hit =
  th_name :: string
  th_description :: string

definition find_description :: "tools_router \<Rightarrow> string \<Rightarrow> string option" where
  "find_description r name =
     Option.bind (dash_get (tr_by_name r) name)
       (\<lambda>i. if i < length (tr_docs r) then Some (it_description (tr_docs r ! i)) else None)"

definition search ::
    "(real \<Rightarrow> real) \<Rightarrow> (real \<Rightarrow> real) \<Rightarrow> tools_router \<Rightarrow> string \<Rightarrow> nat \<Rightarrow> tool_search_hit list" where
  "search rnd lnf r query top_k =
     map (\<lambda>(name, s). \<lparr>th_name = name, th_description = unwrap_or [] (find_description r name)\<rparr>)
       (score rnd lnf r query top_k)"

section \<open>The search_tools agent\<close>

definition default_top_k :: nat where "default_top_k = 5"
definition max_top_k :: nat where "max_top_k = 20"

record parsed_search =
  ps_query :: string
  ps_top_k :: nat

definition parse_search_args :: "json \<Rightarrow> nat \<Rightarrow> agent_error + parsed_search" where
  "parse_search_args args dflt =
     (if as_object args = None then Inl (InvalidArguments ''arguments must be a JSON object'')
      else case jget_str ''query'' args of
        None \<Rightarrow> Inl (InvalidArguments ''`query` (string) is required'')
      | Some q \<Rightarrow>
          (let query = trim q
           in if query = [] then Inl (InvalidArguments ''`query` must not be empty'')
              else if 256 < length query then
                Inl (InvalidArguments (''`query` must be at most 256 characters (got '' @ nat_to_string (length query) @ '')''))
              else
                (let bounded = (\<lambda>top_k.
                       if top_k = 0 \<or> max_top_k < top_k
                       then Inl (InvalidArguments (''`top_k` must be between 1 and '' @ nat_to_string max_top_k
                                   @ '' (got '' @ nat_to_string top_k @ '')''))
                       else Inr \<lparr>ps_query = query, ps_top_k = top_k\<rparr>)
                 in case jget ''top_k'' args of
                      None \<Rightarrow> bounded dflt
                    | Some JNull \<Rightarrow> bounded dflt
                    | Some v \<Rightarrow>
                        (case as_u64 v of
                           None \<Rightarrow> Inl (InvalidArguments ''`top_k` must be a positive integer'')
                         | Some top_k \<Rightarrow> bounded top_k))))"

definition search_summary :: "tool_search_hit list \<Rightarrow> parsed_search \<Rightarrow> string" where
  "search_summary hits req =
     (if hits = [] then
        ''no tools matched `'' @ ps_query req @ ''` (top_k='' @ nat_to_string (ps_top_k req)
        @ ''); the registry may be empty or the query too narrow''
      else ''matched '' @ nat_to_string (length hits) @ '' tool(s) for `'' @ ps_query req @ ''`: ''
        @ join_with '', '' (map th_name hits))"

definition search_payload :: "tool_search_hit list \<Rightarrow> parsed_search \<Rightarrow> string \<Rightarrow> json" where
  "search_payload hits req fetched_at =
     JObj [(''ok'', JBool True), (''summary'', JStr (search_summary hits req)),
           (''data'',
            JObj [(''results'',
                   JArr (map (\<lambda>h. JObj [(''name'', JStr (th_name h)), (''description'', JStr (th_description h))]) hits)),
                  (''query'', JStr (ps_query req)), (''top_k'', JNum (JPos (ps_top_k req)))]),
           (''source'', JStr ''tools_router''), (''fetched_at'', JStr fetched_at)]"

text \<open>\<open>wired\<close> is the router slot, \<open>now_text\<close> the wall clock as RFC 3339 text.\<close>

definition search_invoke ::
    "json_codec \<Rightarrow> (real \<Rightarrow> real) \<Rightarrow> (real \<Rightarrow> real) \<Rightarrow> ('w \<Rightarrow> string) \<Rightarrow> nat \<Rightarrow> tools_router option
       \<Rightarrow> 'w user_context \<Rightarrow> json \<Rightarrow> 'w \<Rightarrow> (agent_error + string) \<times> 'w" where
  "search_invoke js rnd lnf now_text config_top_k wired ctx args w =
     (case parse_search_args args (max config_top_k 1) of
        Inl e \<Rightarrow> (Inl e, w)
      | Inr req \<Rightarrow>
          (case wired of
             None \<Rightarrow>
               (Inl (AgentFailed (''search_tools: no router wired into this context; the meta-tool must be ''
                       @ ''reached through the chat-completions proxy'')), w)
           | Some r \<Rightarrow>
               (Inr (js_show js (search_payload (search rnd lnf r (ps_query req) (ps_top_k req)) req (now_text w))), w)))"

definition search_confirmation :: "'w user_context \<Rightarrow> json \<Rightarrow> confirmation_decision" where
  "search_confirmation ctx args = Allow"

section \<open>Sorting\<close>

lemma mset_insert_by [simp]: "mset (insert_by le x xs) = add_mset x (mset xs)"
  by (induction xs) auto

lemma mset_sort_by [simp]: "mset (sort_by le xs) = mset xs"
  by (induction xs) (simp_all add: sort_by_def)

lemma set_sort_by [simp]: "set (sort_by le xs) = set xs"
  by (metis mset_sort_by set_mset_mset)

lemma distinct_sort_by: "distinct (map f (sort_by le xs)) = distinct (map f xs)"
  by (rule mset_eq_imp_distinct_iff) simp

lemma sorted_insert_by:
  assumes "\<And>x y z. le x y \<Longrightarrow> le y z \<Longrightarrow> le x z" "\<And>x y. le x y \<or> le y x"
  shows "sorted_wrt le xs \<Longrightarrow> sorted_wrt le (insert_by le x xs)"
proof (induction xs)
  case (Cons y ys)
  have "set (insert_by le x ys) = insert x (set ys)"
    by (metis mset_insert_by set_mset_add_mset_insert set_mset_mset)
  then show ?case using Cons assms(2) [of x y] by (auto dest: assms(1))
qed simp

lemma sorted_sort_by:
  assumes "\<And>x y z. le x y \<Longrightarrow> le y z \<Longrightarrow> le x z" "\<And>x y. le x y \<or> le y x"
  shows "sorted_wrt le (sort_by le xs)"
  by (induction xs) (simp_all add: sort_by_def sorted_insert_by [OF assms])

section \<open>What the router selects\<close>

lemma score_before_total:
  "score_before x y \<Longrightarrow> score_before y z \<Longrightarrow> score_before x z" "score_before x y \<or> score_before y x"
  by (auto simp: score_before_def)

lemmas sorted_scores = sorted_sort_by [of score_before, OF score_before_total]

lemma from_registry_docs:
  "mset (tr_docs (from_registry rnd lower registry)) =
   mset (map (index_agent lower) (filter (\<lambda>a. ag_name a \<noteq> ''search_tools'') registry))"
  by (simp add: from_registry_def Let_def)

lemma from_registry_doc:
  assumes "d \<in> set (tr_docs (from_registry rnd lower registry))"
  shows "\<exists>a \<in> set registry. d = index_agent lower a \<and> ag_name a \<noteq> ''search_tools''"
  using mset_eq_setD [OF from_registry_docs [of rnd lower registry]] assms by auto

lemma from_registry_distinct:
  assumes "distinct (map ag_name registry)"
  shows "distinct (map it_name (tr_docs (from_registry rnd lower registry)))"
proof -
  have "distinct (map it_name (map (index_agent lower) (filter (\<lambda>a. ag_name a \<noteq> ''search_tools'') registry)))"
    using assms by (simp add: index_agent_def comp_def distinct_map_filter)
  moreover have "mset (map it_name (tr_docs (from_registry rnd lower registry)))
    = mset (map it_name (map (index_agent lower) (filter (\<lambda>a. ag_name a \<noteq> ''search_tools'') registry)))"
    using from_registry_docs [of rnd lower registry] by (simp only: mset_map)
  ultimately show ?thesis using mset_eq_imp_distinct_iff by blast
qed

lemma index_fold_other:
  "n \<notin> set (map it_name ds) \<Longrightarrow>
   dash_get (foldl (\<lambda>m (i, d). dash_put (it_name d) i m) m (enumerate k ds)) n = dash_get m n"
  by (induction ds arbitrary: k m) (auto simp: dash_get_put)

lemma index_fold:
  "distinct (map it_name ds) \<Longrightarrow> j < length ds \<Longrightarrow>
   dash_get (foldl (\<lambda>m (i, d). dash_put (it_name d) i m) m (enumerate k ds)) (it_name (ds ! j)) = Some (k + j)"
proof (induction ds arbitrary: k m j)
  case (Cons d ds)
  show ?case
  proof (cases j)
    case 0
    then show ?thesis using Cons.prems by (simp add: index_fold_other dash_get_put)
  next
    case (Suc j')
    then show ?thesis using Cons.IH [of j' "dash_put (it_name d) k m" "Suc k"] Cons.prems by simp
  qed
qed simp

lemma find_description_doc:
  assumes "distinct (map ag_name registry)" "j < length (tr_docs (from_registry rnd lower registry))"
  shows "find_description (from_registry rnd lower registry) (it_name (tr_docs (from_registry rnd lower registry) ! j))
         = Some (it_description (tr_docs (from_registry rnd lower registry) ! j))"
proof -
  let ?r = "from_registry rnd lower registry"
  have "tr_by_name ?r = foldl (\<lambda>m (i, d). dash_put (it_name d) i m) [] (enumerate 0 (tr_docs ?r))"
    by (simp add: from_registry_def Let_def)
  then have "dash_get (tr_by_name ?r) (it_name (tr_docs ?r ! j)) = Some j"
    using index_fold [OF from_registry_distinct [OF assms(1)] assms(2), of "[]" 0] by simp
  then show ?thesis using assms(2) by (simp add: find_description_def)
qed

lemma count_term_absent: "t \<notin> set tokens \<Longrightarrow> count_term tokens t = 0"
  by (auto simp: count_term_def filter_empty_conv)

lemma doc_score_no_match:
  "rnd 0 = 0 \<Longrightarrow> set terms \<inter> set (tokenise_doc d) = {} \<Longrightarrow> doc_score rnd lnf r terms d = 0"
proof -
  assume "rnd 0 = 0"
  then have "set terms \<inter> set (tokenise_doc d) = {} \<Longrightarrow> foldl (term_score rnd lnf r (tokenise_doc d)) s terms = s" for s
    by (induction terms arbitrary: s) (auto simp: term_score_def Let_def count_term_absent)
  then show "set terms \<inter> set (tokenise_doc d) = {} \<Longrightarrow> doc_score rnd lnf r terms d = 0"
    by (simp add: doc_score_def)
qed

definition all_scores ::
    "(real \<Rightarrow> real) \<Rightarrow> (real \<Rightarrow> real) \<Rightarrow> tools_router \<Rightarrow> string \<Rightarrow> (nat \<times> real) list" where
  "all_scores rnd lnf r query =
     map (\<lambda>(i, d). (i, doc_score rnd lnf r (tokenise_query query) d)) (enumerate 0 (tr_docs r))"

lemma all_scores_elem:
  "(i, s) \<in> set (all_scores rnd lnf r query) \<longleftrightarrow>
   i < length (tr_docs r) \<and> s = doc_score rnd lnf r (tokenise_query query) (tr_docs r ! i)"
  by (auto simp: all_scores_def in_set_enumerate_eq)

lemma score_unfold:
  assumes "top_k \<noteq> 0" "tr_n_docs r \<noteq> 0" "tokenise_query query \<noteq> []"
  shows "score rnd lnf r query top_k =
    map (\<lambda>(i, s). (it_name (tr_docs r ! i), s))
      (filter (\<lambda>(i, s). 0 < s) (take top_k (sort_by score_before (all_scores rnd lnf r query))))"
  using assms by (simp add: score_def all_scores_def)

lemma score_elem:
  assumes "(n, s) \<in> set (score rnd lnf r query top_k)"
  shows "0 < s \<and> (\<exists>i < length (tr_docs r). n = it_name (tr_docs r ! i)
                  \<and> s = doc_score rnd lnf r (tokenise_query query) (tr_docs r ! i))"
proof -
  have ne: "top_k \<noteq> 0" "tr_n_docs r \<noteq> 0" "tokenise_query query \<noteq> []"
    using assms by (auto simp: score_def split: if_splits)
  obtain i where i: "(i, s) \<in> set (take top_k (sort_by score_before (all_scores rnd lnf r query)))" "0 < s"
    "n = it_name (tr_docs r ! i)"
    using assms unfolding score_unfold [OF ne] by auto
  then have "(i, s) \<in> set (all_scores rnd lnf r query)" by (metis in_set_takeD set_sort_by)
  with i show ?thesis by (auto simp: all_scores_elem)
qed

lemma score_sorted: "sorted_wrt (\<lambda>a b. snd b \<le> snd a) (score rnd lnf r query top_k)"
proof (cases "top_k \<noteq> 0 \<and> tr_n_docs r \<noteq> 0 \<and> tokenise_query query \<noteq> []")
  case True
  let ?S = "sort_by score_before (all_scores rnd lnf r query)"
  have "sorted_wrt score_before (filter (\<lambda>(i, s). 0 < s) (take top_k ?S))"
    by (intro sorted_wrt_filter sorted_wrt_take sorted_scores)
  then have "sorted_wrt (\<lambda>a b. snd b \<le> snd a) (filter (\<lambda>(i, s). 0 < s) (take top_k ?S))"
    by (rule sorted_wrt_mono_rel [rotated]) (auto simp: score_before_def)
  then show ?thesis
    using True by (simp add: score_unfold sorted_wrt_map case_prod_beta)
next
  case False
  then show ?thesis by (auto simp: score_def)
qed

lemma score_distinct:
  assumes "distinct (map it_name (tr_docs r))"
  shows "distinct (map fst (score rnd lnf r query top_k))"
proof (cases "top_k \<noteq> 0 \<and> tr_n_docs r \<noteq> 0 \<and> tokenise_query query \<noteq> []")
  case True
  let ?S = "sort_by score_before (all_scores rnd lnf r query)"
  let ?F = "filter (\<lambda>(i, s). 0 < s) (take top_k ?S)"
  have "map fst (all_scores rnd lnf r query) = [0..<length (tr_docs r)]"
    by (rule nth_equalityI) (simp_all add: all_scores_def nth_enumerate_eq)
  then have "distinct (map fst ?S)" by (simp add: distinct_sort_by)
  then have "distinct (map fst (take top_k ?S))" by (metis distinct_take take_map)
  then have d: "distinct (map fst ?F)" by (rule distinct_map_filter)
  have "set ?F \<subseteq> set (all_scores rnd lnf r query)" by (auto dest: in_set_takeD)
  then have "fst ` set ?F \<subseteq> {..< length (tr_docs r)}" by (force simp: all_scores_elem)
  moreover have "inj_on (\<lambda>i. it_name (tr_docs r ! i)) {..< length (tr_docs r)}"
    using assms by (auto simp: inj_on_def) (metis length_map nth_eq_iff_index_eq nth_map)
  ultimately have "inj_on (\<lambda>i. it_name (tr_docs r ! i)) (set (map fst ?F))"
    by (auto intro: inj_on_subset)
  with d have "distinct (map (\<lambda>i. it_name (tr_docs r ! i)) (map fst ?F))" by (subst distinct_map) blast
  then show ?thesis using True by (simp add: score_unfold case_prod_beta comp_def)
next
  case False
  then show ?thesis by (auto simp: score_def)
qed

lemma score_length: "length (score rnd lnf r query top_k) \<le> top_k"
  by (auto simp: score_def Let_def intro: le_trans [OF length_filter_le])

lemma score_complete:
  assumes "i < length (tr_docs r)" "0 < sc" "sc = doc_score rnd lnf r (tokenise_query query) (tr_docs r ! i)"
    and "k \<noteq> 0" "tr_n_docs r \<noteq> 0"
  shows "(it_name (tr_docs r ! i), sc) \<in> set (score rnd lnf r query k)
         \<or> (length (score rnd lnf r query k) = k \<and> (\<forall>(n, s) \<in> set (score rnd lnf r query k). sc \<le> s))"
proof -
  let ?S = "sort_by score_before (all_scores rnd lnf r query)"
  have terms: "tokenise_query query \<noteq> []" using assms(2,3) by (auto simp: doc_score_def)
  note unfold = score_unfold [OF assms(4,5) terms]
  have "(i, sc) \<in> set ?S" using assms by (simp add: all_scores_elem)
  then consider (top) "(i, sc) \<in> set (take k ?S)" | (rest) "(i, sc) \<in> set (drop k ?S)"
    by (metis Un_iff append_take_drop_id set_append)
  then show ?thesis
  proof cases
    case top
    then have "(it_name (tr_docs r ! i), sc) \<in> set (score rnd lnf r query k)"
      using assms(2) unfolding unfold by force
    then show ?thesis ..
  next
    case rest
    have "sorted_wrt score_before (take k ?S @ drop k ?S)" by (simp add: sorted_scores)
    then have above: "\<forall>x \<in> set (take k ?S). sc \<le> snd x"
      using rest unfolding sorted_wrt_append by (force simp: score_before_def)
    then have "filter (\<lambda>(i, s). 0 < s) (take k ?S) = take k ?S"
      using assms(2) by (intro filter_True) force
    moreover have "length (take k ?S) = k" using rest by (cases "k < length ?S") simp_all
    ultimately show ?thesis using above unfolding unfold by auto
  qed
qed

lemma router_selection:
  assumes "distinct (map ag_name registry)" "length registry < 2 ^ 32" "rnd 0 = 0"
    and "r = from_registry rnd lower registry" "hits = score rnd lnf r query k"
    and "\<And>a. sc a = doc_score rnd lnf r (tokenise_query query) (index_agent lower a)"
  shows "length hits \<le> k \<and> distinct (map fst hits) \<and> sorted_wrt (\<lambda>a b. snd b \<le> snd a) hits"
    and "\<forall>(n, s) \<in> set hits. n \<noteq> ''search_tools'' \<and>
           (\<exists>a \<in> set registry. ag_name a = n \<and> s = sc a \<and> 0 < s \<and> find_description r n = Some (ag_description a)
              \<and> set (tokenise_query query) \<inter> set (tokenise_doc (index_agent lower a)) \<noteq> {})"
    and "\<forall>a \<in> set registry. ag_name a \<noteq> ''search_tools'' \<and> 0 < sc a \<and> k \<noteq> 0 \<longrightarrow>
           (ag_name a, sc a) \<in> set hits \<or> (length hits = k \<and> (\<forall>(n, s) \<in> set hits. sc a \<le> s))"
proof -
  have docs: "distinct (map it_name (tr_docs r))"
    using from_registry_distinct [OF assms(1)] assms(4) by simp
  show "length hits \<le> k \<and> distinct (map fst hits) \<and> sorted_wrt (\<lambda>a b. snd b \<le> snd a) hits"
    using score_length score_distinct [OF docs] score_sorted assms(5) by simp
  show "\<forall>(n, s) \<in> set hits. n \<noteq> ''search_tools'' \<and>
           (\<exists>a \<in> set registry. ag_name a = n \<and> s = sc a \<and> 0 < s \<and> find_description r n = Some (ag_description a)
              \<and> set (tokenise_query query) \<inter> set (tokenise_doc (index_agent lower a)) \<noteq> {})"
  proof (intro ballI case_prodI2)
    fix x n s assume x: "x \<in> set hits" "x = (n, s)"
    then obtain i where i: "0 < s" "i < length (tr_docs r)" "n = it_name (tr_docs r ! i)"
      "s = doc_score rnd lnf r (tokenise_query query) (tr_docs r ! i)"
      using score_elem assms(5) by blast
    then obtain a where a: "a \<in> set registry" "tr_docs r ! i = index_agent lower a" "ag_name a \<noteq> ''search_tools''"
      using from_registry_doc assms(4) nth_mem by blast
    have "find_description r n = Some (ag_description a)"
      using find_description_doc [OF assms(1), of i rnd lower, folded assms(4)] i(2,3) a(2) by (simp add: index_agent_def)
    moreover have "s = sc a" using i(4) a(2) assms(6) by simp
    moreover have "ag_name a = n" using i(3) a(2) by (simp add: index_agent_def)
    moreover have "set (tokenise_query query) \<inter> set (tokenise_doc (index_agent lower a)) \<noteq> {}"
      using doc_score_no_match [of rnd "tokenise_query query" "index_agent lower a" lnf r] assms(3) i(1,4) a(2) by force
    ultimately show "n \<noteq> ''search_tools'' \<and>
           (\<exists>a \<in> set registry. ag_name a = n \<and> s = sc a \<and> 0 < s \<and> find_description r n = Some (ag_description a)
              \<and> set (tokenise_query query) \<inter> set (tokenise_doc (index_agent lower a)) \<noteq> {})"
      using a i(1) by blast
  qed
  show "\<forall>a \<in> set registry. ag_name a \<noteq> ''search_tools'' \<and> 0 < sc a \<and> k \<noteq> 0 \<longrightarrow>
           (ag_name a, sc a) \<in> set hits \<or> (length hits = k \<and> (\<forall>(n, s) \<in> set hits. sc a \<le> s))"
  proof (intro ballI impI)
    fix a assume a: "a \<in> set registry" "ag_name a \<noteq> ''search_tools'' \<and> 0 < sc a \<and> k \<noteq> 0"
    have sz: "length (tr_docs r) \<le> length registry"
      using arg_cong [OF from_registry_docs [of rnd lower registry], of size] assms(4)
        size_filter_mset_lesseq [of "\<lambda>a. ag_name a \<noteq> ''search_tools''" "mset registry"] by simp
    have "index_agent lower a \<in> set (tr_docs r)"
      using mset_eq_setD [OF from_registry_docs [of rnd lower registry]] a assms(4) by auto
    then obtain i where i: "i < length (tr_docs r)" "tr_docs r ! i = index_agent lower a"
      by (metis in_set_conv_nth)
    have "length (tr_docs r) < 2 ^ 32"
      using sz assms(2) by linarith
    moreover have "tr_n_docs r = length (tr_docs r) mod 2 ^ 32"
      unfolding assms(4) from_registry_def Let_def by simp
    ultimately have "tr_n_docs r \<noteq> 0" using i(1) by auto
    then show "(ag_name a, sc a) \<in> set hits \<or> (length hits = k \<and> (\<forall>(n, s) \<in> set hits. sc a \<le> s))"
      using score_complete [OF i(1), of "sc a" rnd lnf query k] a i(2) assms(5,6) by (simp add: index_agent_def)
  qed
qed

text \<open>
  C33: The selection is the top of the ranking: at most \<open>k\<close> different tools in descending order
  of score, each a registered agent other than \<open>search_tools\<close> that shares a term with the query,
  found under its own description; a tool with a positive score is left out only for \<open>k\<close> tools
  that score at least as much.
\<close>

theorem router_top_k:
  assumes "distinct (map ag_name registry)" "length registry < 2 ^ 32" "rnd 0 = 0"
    and "r = from_registry rnd lower registry" "hits = score rnd lnf r query k"
    and "sc = (\<lambda>a. doc_score rnd lnf r (tokenise_query query) (index_agent lower a))"
  shows "(length hits \<le> k \<and> distinct (map fst hits) \<and> sorted_wrt (\<lambda>a b. snd b \<le> snd a) hits)
    \<and> (\<forall>(n, s) \<in> set hits. n \<noteq> ''search_tools'' \<and>
         (\<exists>a \<in> set registry. ag_name a = n \<and> s = sc a \<and> 0 < s \<and> find_description r n = Some (ag_description a)
            \<and> set (tokenise_query query) \<inter> set (tokenise_doc (index_agent lower a)) \<noteq> {}))
    \<and> (\<forall>a \<in> set registry. ag_name a \<noteq> ''search_tools'' \<and> 0 < sc a \<and> k \<noteq> 0 \<longrightarrow>
         (ag_name a, sc a) \<in> set hits \<or> (length hits = k \<and> (\<forall>(n, s) \<in> set hits. sc a \<le> s)))"
proof -
  note parts = router_selection [OF assms(1-5) fun_cong [OF assms(6)]]
  show ?thesis by (rule conjI [OF parts(1) conjI [OF parts(2) parts(3)]])
qed

definition demo_agent :: "string \<Rightarrow> string \<Rightarrow> unit agent" where
  "demo_agent name description = agent_defaults name description JNull (\<lambda>_ _ w. (Inr [], w))"

lemma router_top_k_witness:
  "let registry = [demo_agent ''calculate'' ''evaluate an expression'', demo_agent ''search_tools'' ''tools''];
       r = from_registry id id registry; hits = score id (\<lambda>x. x) r ''evaluate this'' 5
   in length hits \<le> 5 \<and> (\<forall>(n, s) \<in> set hits. n \<noteq> ''search_tools'')"
proof -
  let ?registry = "[demo_agent ''calculate'' ''evaluate an expression'', demo_agent ''search_tools'' ''tools'']"
  have "distinct (map ag_name ?registry)" "length ?registry < 2 ^ 32" "id (0 :: real) = 0"
    by (simp_all add: demo_agent_def agent_defaults_def)
  from router_top_k [where rnd = id and lower = id and lnf = "\<lambda>x. x" and query = "''evaluate this''" and k = 5, OF this refl refl refl]
  show ?thesis unfolding Let_def by blast
qed

end
