(* ===== verification/Llm_Client.thy ===== *)
theory Llm_Client
  imports Agents
begin

text \<open>
  \<open>llm/client.rs\<close>: the proxy's errors and the responses they become, the recognition of an
  unknown model, and the direct agent routes of \<open>agents/routes.rs\<close>, which map an agent's
  error to one of them.
\<close>

section \<open>Errors and responses\<close>

datatype llm_error =
    LlmDisabled
  | BadRequest string
  | LlmUpstream nat string
  | ModelNotFound string "string option" "string list option"
  | AgentsDisabled
  | AgentNotFound string

record response =
  rs_status :: nat
  rs_headers :: "(string \<times> string) list"
  rs_body :: string

definition plain :: "nat \<Rightarrow> string \<Rightarrow> response" where
  "plain status body =
     \<lparr>rs_status = status, rs_headers = [(''content-type'', ''text/plain; charset=utf-8'')], rs_body = body\<rparr>"

definition model_not_found_payload :: "string \<Rightarrow> string option \<Rightarrow> string list option \<Rightarrow> json" where
  "model_not_found_payload name upstream_message available =
     (let message = (case upstream_message of Some m \<Rightarrow> m | None \<Rightarrow> ''model `'' @ name @ ''` not found'')
      in JObj [(''error'',
           JObj ([(''type'', JStr ''model_not_found''), (''message'', JStr message), (''param'', JStr name)]
                 @ (case available of Some ms \<Rightarrow> [(''available'', JArr (map JStr ms))] | None \<Rightarrow> [])))])"

fun into_response :: "json_codec \<Rightarrow> llm_error \<Rightarrow> response" where
  "into_response js LlmDisabled = plain 404 ''llm disabled''"
| "into_response js (BadRequest msg) = plain 400 msg"
| "into_response js (LlmUpstream status body) =
     (let r = plain status body in r\<lparr>rs_headers := rs_headers r @ [(''cache-control'', ''no-store'')]\<rparr>)"
| "into_response js (ModelNotFound name upstream_message available) =
     \<lparr>rs_status = 404,
      rs_headers = [(''content-type'', ''application/json; charset=utf-8''), (''cache-control'', ''no-store''),
                    (''x-error-type'', ''model_not_found'')],
      rs_body = js_show js (model_not_found_payload name upstream_message available)\<rparr>"
| "into_response js AgentsDisabled = plain 404 ''agents disabled''"
| "into_response js (AgentNotFound name) = plain 404 (''agent `'' @ name @ ''` not found'')"

section \<open>Recognising an unknown model\<close>

text \<open>\<open>find(pat)\<close> and the slice after the match; then up to the closing quote, trimmed.\<close>

definition extract_quoted :: "string \<Rightarrow> char \<Rightarrow> string \<Rightarrow> string option" where
  "extract_quoted pat quote s =
     (case split_once pat s of
        None \<Rightarrow> None
      | Some (_, rest) \<Rightarrow>
          (case split_at_char quote rest of
             None \<Rightarrow> None
           | Some (inner, _) \<Rightarrow> (let name = trim inner in if name = [] then None else Some name)))"

definition extract_single_quoted_model_name :: "string \<Rightarrow> string option" where
  "extract_single_quoted_model_name s = extract_quoted (''model '' @ [CHR 0x27]) (CHR 0x27) s"

definition extract_double_quoted_model_name :: "string \<Rightarrow> string option" where
  "extract_double_quoted_model_name s = extract_quoted (''model '' @ [CHR 0x22]) (CHR 0x22) s"

definition quoted_model_name :: "string \<Rightarrow> string option" where
  "quoted_model_name s = or_else (extract_single_quoted_model_name s) (extract_double_quoted_model_name s)"

definition detect_in_error :: "json \<Rightarrow> (string \<times> string option) option" where
  "detect_in_error err =
     (let message = jget_str ''message'' err;
          kind = unwrap_or [] (jget_str ''type'' err);
          code = unwrap_or [] (jget_str ''code'' err);
          quoted = Option.bind message quoted_model_name
      in if kind = ''not_found_error'' \<and> quoted \<noteq> None then Some (the quoted, message)
         else if code = ''model_not_found'' then Some (unwrap_or [] quoted, message)
         else if jget_str ''param'' err = Some ''model'' then
           (case message of
              None \<Rightarrow> None
            | Some msg \<Rightarrow>
                (let lower = to_ascii_lowercase msg
                 in if contains ''not found'' lower \<or> contains ''does not exist'' lower
                    then Some (unwrap_or [] (quoted_model_name msg), message) else None))
         else None)"

definition detect_model_not_found :: "json_codec \<Rightarrow> nat \<Rightarrow> string \<Rightarrow> (string \<times> string option) option" where
  "detect_model_not_found js status body =
     (if status \<noteq> 404 \<and> status \<noteq> 400 then None
      else Option.bind (js_parse js body) (\<lambda>parsed. Option.bind (jget ''error'' parsed) detect_in_error))"

section \<open>The direct agent routes\<close>

definition json_ok :: "string \<Rightarrow> response" where
  "json_ok body =
     \<lparr>rs_status = 200,
      rs_headers = [(''content-type'', ''application/json; charset=utf-8''), (''cache-control'', ''no-store'')],
      rs_body = body\<rparr>"

definition summary_json :: "agent_summary \<Rightarrow> json" where
  "summary_json a =
     JObj [(''name'', JStr (as_name a)), (''description'', JStr (as_description a)),
           (''untrusted_output'', JBool (as_untrusted_output a)),
           (''requires_confirmation'', JBool (as_requires_confirmation a))]"

definition agents_list :: "json_codec \<Rightarrow> 'w registry \<Rightarrow> response" where
  "agents_list js agents = json_ok (js_show js (JObj [(''data'', JArr (map summary_json (registry_list agents)))]))"

text \<open>\<open>StatusCode::from_u16\<close> accepts 100 to 999, anything else becomes 502.\<close>

definition status_or_bad_gateway :: "nat \<Rightarrow> nat" where
  "status_or_bad_gateway s = (if 100 \<le> s \<and> s \<le> 999 then s else 502)"

fun agent_error_response :: "agent_error \<Rightarrow> llm_error" where
  "agent_error_response (InvalidArguments msg) = BadRequest msg"
| "agent_error_response (SandboxDenied msg) = BadRequest msg"
| "agent_error_response (AgentUpstream status body) = LlmUpstream (status_or_bad_gateway status) body"
| "agent_error_response (ResponseExceeded budget) =
     BadRequest (''response exceeded max_bytes='' @ nat_to_string budget)"
| "agent_error_response (AgentFailed msg) = BadRequest msg"
| "agent_error_response (CredentialsMissing service field) =
     BadRequest (''credentials not configured for service='' @ service)"
| "agent_error_response (CredentialsDecryptFailed service field) =
     BadRequest (''credentials not configured for service='' @ service)"

definition agent_invoke ::
    "json_codec \<Rightarrow> 'w registry \<Rightarrow> service_registry \<Rightarrow> 'w secret_source option \<Rightarrow> uuid option \<Rightarrow> string \<Rightarrow> string \<Rightarrow> 'w
       \<Rightarrow> (llm_error + response) \<times> 'w" where
  "agent_invoke js agents services resolver auth_user name body w =
     (case registry_get agents name of
        None \<Rightarrow> (Inl (AgentNotFound name), w)
      | Some agent \<Rightarrow>
          (case js_parse js body of
             None \<Rightarrow> (Inl (BadRequest (''invalid json body: '' @ js_error js body)), w)
           | Some parsed \<Rightarrow>
               (let args = unwrap_or (JObj []) (jget ''arguments'' parsed);
                    user_id = unwrap_or uuid_nil auth_user;
                    ctx = (case resolver of Some r \<Rightarrow> ctx_new user_id services r
                                          | None \<Rightarrow> ctx_for_tests user_id services)
                in case ag_invoke agent ctx args w of
                     (Inr result, w) \<Rightarrow>
                       (Inr (json_ok (js_show js (JObj [(''name'', JStr name), (''result'', JStr result)]))), w)
                   | (Inl e, w) \<Rightarrow> (Inl (agent_error_response e), w))))"

end
