(* ===== verification/Llm_Permission.thy ===== *)
theory Llm_Permission
  imports Llm_Client
begin

text \<open>
  \<open>llm/permission.rs\<close> and \<open>llm/discovered_tools.rs\<close>: the decision sentinels a user message may
  start with, the texts of the approval card, the store of pending approvals and session-wide
  overrides, and the store of the tools a session has used. Texts outside ASCII are written as
  their UTF-8 bytes.
\<close>

section \<open>Decision sentinels\<close>

datatype decision_prefix = Approve string | ApproveAlways string | Deny string

definition is_safe_id :: "string \<Rightarrow> bool" where
  "is_safe_id s \<longleftrightarrow>
     s \<noteq> [] \<and> length s \<le> 128
     \<and> list_all (\<lambda>c. is_ascii_alphanumeric c \<or> c = CHR ''_'' \<or> c = CHR ''-'') s"

definition is_safe_tool_name :: "string \<Rightarrow> bool" where
  "is_safe_tool_name s \<longleftrightarrow>
     s \<noteq> [] \<and> length s \<le> 64 \<and> list_all (\<lambda>c. is_ascii_alphanumeric c \<or> c = CHR ''_'') s"

text \<open>One arm: the text up to the closing bracket when it is safe, and what follows the bracket.\<close>

definition sentinel :: "(string \<Rightarrow> bool) \<Rightarrow> (string \<Rightarrow> 'd) \<Rightarrow> string \<Rightarrow> ('d \<times> string) option" where
  "sentinel safe mk rest =
     (case split_at_char (CHR '']'') rest of
        None \<Rightarrow> None
      | Some (name, remainder) \<Rightarrow> if \<not> safe name then None else Some (mk name, remainder))"

definition parse_decision_prefix :: "string \<Rightarrow> (decision_prefix \<times> string) option" where
  "parse_decision_prefix text =
     (let trimmed = trim_start text
      in case strip_prefix ''[APPROVE:'' trimmed of
           Some rest \<Rightarrow> sentinel is_safe_id Approve rest
         | None \<Rightarrow>
             (case strip_prefix ''[APPROVE_ALWAYS:'' trimmed of
                Some rest \<Rightarrow> sentinel is_safe_tool_name ApproveAlways rest
              | None \<Rightarrow>
                  (case strip_prefix ''[DENY:'' trimmed of
                     Some rest \<Rightarrow> sentinel is_safe_id Deny rest
                   | None \<Rightarrow> None)))"

section \<open>The approval card\<close>

datatype danger = Low | Medium | High

fun danger_as_str :: "danger \<Rightarrow> string" where
  "danger_as_str Low = ''low''"
| "danger_as_str Medium = ''medium''"
| "danger_as_str High = ''high''"

record approval_prompt =
  ap_title :: string
  ap_body :: string
  ap_danger :: danger

definition mk_prompt :: "string \<Rightarrow> string \<Rightarrow> danger \<Rightarrow> approval_prompt" where
  "mk_prompt title body danger = \<lparr>ap_title = title, ap_body = body, ap_danger = danger\<rparr>"

definition create_event_prompt :: "json \<Rightarrow> approval_prompt" where
  "create_event_prompt args =
     (let summary = unwrap_or (''(sans titre)'') (jget_str ''summary'' args);
          start = unwrap_or [] (jget_str ''start'' args)
      in mk_prompt (''Cr'' @ [CHR 0xC3, CHR 0xA9] @ ''er un '' @ [CHR 0xC3, CHR 0xA9] @ ''v'' @ [CHR 0xC3, CHR 0xA9] @ ''nement dans votre calendrier ?'')
           (if start = [] then ''L'' @ [CHR 0x27] @ ''assistant veut cr'' @ [CHR 0xC3, CHR 0xA9] @ ''er '' @ [CHR 0xC2, CHR 0xAB] @ '' '' @ summary @ '' '' @ [CHR 0xC2, CHR 0xBB] @ '' dans votre calendrier.''
            else ''L'' @ [CHR 0x27] @ ''assistant veut cr'' @ [CHR 0xC3, CHR 0xA9] @ ''er '' @ [CHR 0xC2, CHR 0xAB] @ '' '' @ summary @ '' '' @ [CHR 0xC2, CHR 0xBB] @ '' le '' @ start @ '' dans votre calendrier.'')
           Medium)"

definition list_events_prompt :: "json \<Rightarrow> approval_prompt" where
  "list_events_prompt args =
     (let start = unwrap_or [] (jget_str ''start'' args);
          end' = unwrap_or [] (jget_str ''end'' args)
      in mk_prompt (''Lire votre calendrier CalDAV ?'')
           (if start = [] \<or> end' = [] then ''L'' @ [CHR 0x27] @ ''assistant veut lister les '' @ [CHR 0xC3, CHR 0xA9] @ ''v'' @ [CHR 0xC3, CHR 0xA9] @ ''nements de votre calendrier.''
            else ''L'' @ [CHR 0x27] @ ''assistant veut lister les '' @ [CHR 0xC3, CHR 0xA9] @ ''v'' @ [CHR 0xC3, CHR 0xA9] @ ''nements de votre calendrier entre le '' @ start @ '' et le '' @ end' @ ''.'')
           Medium)"

definition get_event_prompt :: "json \<Rightarrow> approval_prompt" where
  "get_event_prompt args =
     (let uid = unwrap_or [] (jget_str ''uid'' args)
      in mk_prompt (''Lire un '' @ [CHR 0xC3, CHR 0xA9] @ ''v'' @ [CHR 0xC3, CHR 0xA9] @ ''nement CalDAV ?'')
           (if uid = [] then ''L'' @ [CHR 0x27] @ ''assistant veut lire un '' @ [CHR 0xC3, CHR 0xA9] @ ''v'' @ [CHR 0xC3, CHR 0xA9] @ ''nement sp'' @ [CHR 0xC3, CHR 0xA9] @ ''cifique de votre calendrier.''
            else ''L'' @ [CHR 0x27] @ ''assistant veut lire l'' @ [CHR 0x27, CHR 0xC3, CHR 0xA9] @ ''v'' @ [CHR 0xC3, CHR 0xA9] @ ''nement '' @ [CHR 0xC2, CHR 0xAB] @ '' '' @ uid @ '' '' @ [CHR 0xC2, CHR 0xBB] @ '' de votre calendrier.'')
           Medium)"

definition web_fetch_prompt :: "json \<Rightarrow> approval_prompt" where
  "web_fetch_prompt args =
     (let url = unwrap_or [] (jget_str ''url'' args)
      in mk_prompt (''Visiter un site externe ?'')
           (if url = [] then ''L'' @ [CHR 0x27] @ ''assistant veut consulter une URL externe.''
            else ''L'' @ [CHR 0x27] @ ''assistant veut consulter '' @ url @ ''.'')
           Low)"

definition fixed_prompts :: "(string \<times> approval_prompt) list" where
  "fixed_prompts =
     [(''email_list_inbox'', mk_prompt (''Lire votre document ?'') (''The assistant wants to read your uploaded document. Please confirm before it is displayed.'') High),
      (''email_get_message'', mk_prompt (''Lire votre document ?'') (''The assistant wants to read your uploaded document. Please confirm before it is displayed.'') High),
      (''email_search'', mk_prompt (''Rechercher vos documents ?'') (''The assistant wants to search your uploaded documents. Please confirm before it is displayed.'') High),
      (''email_send'', mk_prompt (''Envoyer un message ?'') (''The assistant wants to send a message on your behalf. Please confirm before it is sent.'') High),
      (''x_timeline'', mk_prompt (''Lire votre compte X ?'') (''The assistant wants to read your X (Twitter) account. Please confirm before it is accessed.'') Medium),
      (''read_document'', mk_prompt (''Lire le document ?'') (''The assistant wants to read your uploaded document. Please confirm before it is displayed.'') Low),
      (''get_weather'', mk_prompt (''Afficher la m'' @ [CHR 0xC3, CHR 0xA9] @ ''t'' @ [CHR 0xC3, CHR 0xA9] @ ''o ?'') (''The assistant wants to fetch the weather for your location. Please confirm before it is displayed.'') Low),
      (''calculate'', mk_prompt (''Calculer ?'') (''The assistant wants to calculate a value for you. Please confirm before it is displayed.'') Low),
      (''wikipedia'', mk_prompt (''Afficher la page Wikipedia ?'') (''The assistant wants to read your Wikipedia page. Please confirm before it is displayed.'') Low),
      (''unit_convert'', mk_prompt (''Convertir ?'') (''The assistant wants to convert a value for you. Please confirm before it is displayed.'') Low),
      (''datetime'', mk_prompt (''Convertir la date ?'') (''The assistant wants to convert a date for you. Please confirm before it is displayed.'') Low),
      (''dictionary'', mk_prompt (''Lire le dictionnaire ?'') (''The assistant wants to read your dictionary entry. Please confirm before it is displayed.'') Low),
      (''stock'', mk_prompt (''Afficher le cours du stock ?'') (''The assistant wants to fetch your stock price. Please confirm before it is displayed.'') Low),
      (''memory_store'', mk_prompt (''Stocker un souvenir ?'') (''The assistant wants to store a durable fact. Please confirm before it is saved.'') Medium),
      (''memory_recall'', mk_prompt (''Rappeler des souvenirs ?'') (''The assistant wants to recall memories. Please confirm before they are displayed.'') Medium),
      (''memory_list'', mk_prompt (''Lister les souvenirs ?'') (''The assistant wants to list stored facts. Please confirm before they are displayed.'') Medium)]"

definition approval_prompt :: "string \<Rightarrow> json \<Rightarrow> approval_prompt" where
  "approval_prompt tool_name args =
     (if tool_name = ''caldav_create_event'' then create_event_prompt args
      else if tool_name = ''caldav_list_events'' then list_events_prompt args
      else if tool_name = ''caldav_get_event'' then get_event_prompt args
      else if tool_name = ''web_fetch'' then web_fetch_prompt args
      else case map_of fixed_prompts tool_name of
             Some p \<Rightarrow> p
           | None \<Rightarrow> mk_prompt (''Autoriser cet outil ?'') (''L'' @ [CHR 0x27] @ ''assistant veut appeler l'' @ [CHR 0x27] @ ''outil '' @ [CHR 0xC2, CHR 0xAB] @ '' '' @ tool_name @ '' '' @ [CHR 0xC2, CHR 0xBB] @ ''.'') Low)"

definition approval_prompt_json :: "approval_prompt \<Rightarrow> json" where
  "approval_prompt_json p =
     JObj [(''title'', JStr (ap_title p)), (''body'', JStr (ap_body p)),
           (''danger'', JStr (danger_as_str (ap_danger p)))]"

section \<open>Pending approvals and overrides\<close>

definition pending_ttl :: duration where
  "pending_ttl = secs 300"

record pending_approval =
  pa_tool_name :: string
  pa_args :: json
  pa_created_at :: instant

record session_permission_state =
  sp_pending :: "(string, pending_approval) dash"
  sp_overrides :: "string list"

type_synonym permission_store = "(uuid, session_permission_state) dash"

definition default_session :: session_permission_state where
  "default_session = \<lparr>sp_pending = [], sp_overrides = []\<rparr>"

definition evict_expired :: "instant \<Rightarrow> session_permission_state \<Rightarrow> session_permission_state" where
  "evict_expired now st =
     st\<lparr>sp_pending := dash_retain (\<lambda>_ p. now - pa_created_at p < pending_ttl) (sp_pending st)\<rparr>"

text \<open>\<open>entry(session_id).or_default()\<close>, eviction, then the operation, all under the mutex.\<close>

definition on_session ::
    "instant \<Rightarrow> uuid \<Rightarrow> (session_permission_state \<Rightarrow> session_permission_state) \<Rightarrow> permission_store \<Rightarrow> permission_store" where
  "on_session now sid f store =
     (let st = (case dash_get store sid of Some st \<Rightarrow> st | None \<Rightarrow> default_session)
      in dash_put sid (f (evict_expired now st)) store)"

text \<open>\<open>set_pending\<close> reads the clock twice, for the eviction and for the new entry.\<close>

definition set_pending ::
    "instant \<Rightarrow> instant \<Rightarrow> uuid \<Rightarrow> string \<Rightarrow> string \<Rightarrow> json \<Rightarrow> permission_store \<Rightarrow> permission_store" where
  "set_pending now now' sid tool_call_id tool_name args store =
     on_session now sid
       (\<lambda>st. st\<lparr>sp_pending :=
          dash_put tool_call_id \<lparr>pa_tool_name = tool_name, pa_args = args, pa_created_at = now'\<rparr> (sp_pending st)\<rparr>)
       store"

definition session_pending :: "permission_store \<Rightarrow> uuid \<Rightarrow> (string, pending_approval) dash" where
  "session_pending store sid = (case dash_get store sid of Some st \<Rightarrow> sp_pending st | None \<Rightarrow> [])"

definition take_pending :: "instant \<Rightarrow> uuid \<Rightarrow> string \<Rightarrow> permission_store \<Rightarrow> permission_store \<times> pending_approval option" where
  "take_pending now sid tool_call_id store =
     (let evicted = on_session now sid (\<lambda>st. st) store
      in (on_session now sid (\<lambda>st. st\<lparr>sp_pending := dash_remove tool_call_id (sp_pending st)\<rparr>) store,
          dash_get (session_pending evicted sid) tool_call_id))"

definition peek_pending :: "uuid \<Rightarrow> string \<Rightarrow> permission_store \<Rightarrow> pending_approval option" where
  "peek_pending sid tool_call_id store = dash_get (session_pending store sid) tool_call_id"

definition add_override :: "instant \<Rightarrow> uuid \<Rightarrow> string \<Rightarrow> permission_store \<Rightarrow> permission_store" where
  "add_override now sid tool_name store =
     on_session now sid (\<lambda>st. st\<lparr>sp_overrides := List.insert tool_name (sp_overrides st)\<rparr>) store"

definition has_override :: "uuid \<Rightarrow> string \<Rightarrow> permission_store \<Rightarrow> bool" where
  "has_override sid tool_name store =
     (case dash_get store sid of Some st \<Rightarrow> tool_name \<in> set (sp_overrides st) | None \<Rightarrow> False)"

definition clear_session :: "uuid \<Rightarrow> permission_store \<Rightarrow> permission_store" where
  "clear_session sid store = dash_remove sid store"

section \<open>Discovered tools\<close>

type_synonym discovered_tools = "(uuid, string list) dash"

definition disc_add :: "uuid \<Rightarrow> string \<Rightarrow> discovered_tools \<Rightarrow> discovered_tools" where
  "disc_add sid tool d =
     (if tool = [] then d
      else dash_put sid (List.insert tool (case dash_get d sid of Some s \<Rightarrow> s | None \<Rightarrow> [])) d)"

text \<open>A \<open>HashSet\<close> has no order; \<open>perm\<close> is the order in which this process iterates it.\<close>

definition disc_snapshot :: "(string list \<Rightarrow> string list) \<Rightarrow> uuid \<Rightarrow> discovered_tools \<Rightarrow> string list" where
  "disc_snapshot perm sid d = (case dash_get d sid of Some s \<Rightarrow> perm s | None \<Rightarrow> [])"

definition disc_clear_session :: "uuid \<Rightarrow> discovered_tools \<Rightarrow> discovered_tools" where
  "disc_clear_session sid d = dash_remove sid d"

section \<open>Reading back a decision\<close>

fun render_decision :: "decision_prefix \<Rightarrow> string" where
  "render_decision (Approve i) = ''[APPROVE:'' @ i @ '']''"
| "render_decision (ApproveAlways t) = ''[APPROVE_ALWAYS:'' @ t @ '']''"
| "render_decision (Deny i) = ''[DENY:'' @ i @ '']''"

fun safe_decision :: "decision_prefix \<Rightarrow> bool" where
  "safe_decision (Approve i) = is_safe_id i"
| "safe_decision (ApproveAlways t) = is_safe_tool_name t"
| "safe_decision (Deny i) = is_safe_id i"

lemma safe_no_bracket:
  "is_safe_id s \<Longrightarrow> CHR '']'' \<notin> set s"
  "is_safe_tool_name s \<Longrightarrow> CHR '']'' \<notin> set s"
  by (auto simp: is_safe_id_def is_safe_tool_name_def is_ascii_alphanumeric_def byte_def list_all_iff)

lemma sentinel_iff:
  assumes "\<And>s. safe s \<Longrightarrow> CHR '']'' \<notin> set s"
  shows "sentinel safe mk rest = Some (d, r) \<longleftrightarrow> (\<exists>s. rest = s @ '']'' @ r \<and> safe s \<and> d = mk s)"
proof
  assume "sentinel safe mk rest = Some (d, r)"
  then show "\<exists>s. rest = s @ '']'' @ r \<and> safe s \<and> d = mk s"
    by (auto simp: sentinel_def split: option.splits if_splits dest: split_at_char_Some)
next
  assume "\<exists>s. rest = s @ '']'' @ r \<and> safe s \<and> d = mk s"
  then obtain s where "rest = s @ CHR '']'' # r" "safe s" "d = mk s" by auto
  then show "sentinel safe mk rest = Some (d, r)"
    using assms [of s] by (simp add: sentinel_def split_at_char_append)
qed

lemmas sentinel_id = sentinel_iff [of is_safe_id, OF safe_no_bracket(1)]
lemmas sentinel_tool = sentinel_iff [of is_safe_tool_name, OF safe_no_bracket(2)]

text \<open>
  C34: A message is read as a decision exactly when, after its leading white space, it starts
  with the sentinel of that decision and the id or tool name in it is safe; the rest is what
  follows the closing bracket.
\<close>

theorem decision_roundtrip:
  "parse_decision_prefix text = Some (d, rest) \<longleftrightarrow> trim_start text = render_decision d @ rest \<and> safe_decision d"
proof (cases "strip_prefix ''[APPROVE:'' (trim_start text)")
  case (Some r1)
  then have t: "trim_start text = ''[APPROVE:'' @ r1" by (simp add: strip_prefix_iff)
  show ?thesis
    using Some t by (cases d) (auto simp: parse_decision_prefix_def sentinel_id)
next
  case None
  then have n1: "\<And>r. trim_start text \<noteq> ''[APPROVE:'' @ r" using strip_prefix_append by fastforce
  show ?thesis
  proof (cases "strip_prefix ''[APPROVE_ALWAYS:'' (trim_start text)")
    case (Some r2)
    then have t: "trim_start text = ''[APPROVE_ALWAYS:'' @ r2" by (simp add: strip_prefix_iff)
    show ?thesis
      using None Some t by (cases d) (auto simp: parse_decision_prefix_def sentinel_tool)
  next
    case none2: None
    then have n2: "\<And>r. trim_start text \<noteq> ''[APPROVE_ALWAYS:'' @ r" using strip_prefix_append by fastforce
    show ?thesis
      using None none2 n1 n2
      by (cases d) (auto simp: parse_decision_prefix_def sentinel_id strip_prefix_iff split: option.splits)
  qed
qed

section \<open>The life of a pending approval\<close>

definition store_ok :: "permission_store \<Rightarrow> bool" where
  "store_ok store \<longleftrightarrow> dash_ok store \<and> dash_all (\<lambda>st. dash_ok (sp_pending st)) store"

definition fresh :: "instant \<Rightarrow> pending_approval option \<Rightarrow> pending_approval option" where
  "fresh now p = (case p of Some p \<Rightarrow> if now - pa_created_at p < pending_ttl then Some p else None | None \<Rightarrow> None)"

lemma store_ok_Nil [simp]: "store_ok []"
  by (simp add: store_ok_def)

lemma session_pending_ok: "store_ok store \<Longrightarrow> dash_ok (session_pending store sid)"
  by (auto simp: store_ok_def session_pending_def dest: dash_all_get split: option.splits)

lemma on_session_ok:
  assumes "store_ok store" "\<And>st. dash_ok (sp_pending st) \<Longrightarrow> dash_ok (sp_pending (f st))"
  shows "store_ok (on_session now sid f store)"
proof -
  have "dash_ok (sp_pending (evict_expired now (case dash_get store sid of Some st \<Rightarrow> st | None \<Rightarrow> default_session)))"
    using assms(1) session_pending_ok [OF assms(1), of sid]
    by (auto simp: evict_expired_def session_pending_def default_session_def split: option.splits)
  then show ?thesis
    using assms unfolding on_session_def store_ok_def Let_def by (simp add: dash_all_put)
qed

lemma session_pending_on_session:
  "session_pending (on_session now sid f store) sid' =
     (if sid' = sid
      then sp_pending (f (evict_expired now (case dash_get store sid of Some st \<Rightarrow> st | None \<Rightarrow> default_session)))
      else session_pending store sid')"
  by (simp add: session_pending_def on_session_def Let_def dash_get_put)

lemma evicted_pending:
  "store_ok store \<Longrightarrow>
   dash_get (sp_pending (evict_expired now (case dash_get store sid of Some st \<Rightarrow> st | None \<Rightarrow> default_session))) i
   = fresh now (dash_get (session_pending store sid) i)"
  using session_pending_ok [of store sid]
  by (auto simp: evict_expired_def session_pending_def default_session_def fresh_def dash_get_retain
           split: option.splits)

lemma peek_set_pending:
  "store_ok store \<Longrightarrow> peek_pending sid' i' (set_pending now now' sid i tool args store) =
     (if sid' = sid
      then if i' = i then Some \<lparr>pa_tool_name = tool, pa_args = args, pa_created_at = now'\<rparr>
           else fresh now (peek_pending sid' i' store)
      else peek_pending sid' i' store)"
  by (simp add: peek_pending_def set_pending_def session_pending_on_session dash_get_put evicted_pending)

lemma peek_take_pending:
  "store_ok store \<Longrightarrow> peek_pending sid' i' (fst (take_pending now sid i store)) =
     (if sid' = sid then if i' = i then None else fresh now (peek_pending sid' i' store)
      else peek_pending sid' i' store)"
  by (simp add: peek_pending_def take_pending_def Let_def session_pending_on_session dash_get_remove evicted_pending)

lemma take_pending_result:
  "store_ok store \<Longrightarrow> snd (take_pending now sid i store) = fresh now (peek_pending sid i store)"
  by (simp add: peek_pending_def take_pending_def Let_def session_pending_on_session evicted_pending)

lemma peek_add_override:
  "store_ok store \<Longrightarrow> peek_pending sid' i' (add_override now sid tool store) =
     (if sid' = sid then fresh now (peek_pending sid' i' store) else peek_pending sid' i' store)"
  by (simp add: peek_pending_def add_override_def session_pending_on_session evicted_pending)

lemma peek_clear_session:
  "peek_pending sid' i' (clear_session sid store) = (if sid' = sid then None else peek_pending sid' i' store)"
  by (simp add: peek_pending_def session_pending_def clear_session_def dash_get_remove)

lemmas peek_simps = peek_set_pending peek_take_pending peek_add_override peek_clear_session

text \<open>The operations of the store as a sequence of calls.\<close>

datatype perm_op =
    PSet instant instant uuid string string json
  | PTake instant uuid string
  | PAdd instant uuid string
  | PClear uuid

fun perm_step :: "perm_op \<Rightarrow> permission_store \<Rightarrow> permission_store" where
  "perm_step (PSet now now' sid i tool args) st = set_pending now now' sid i tool args st"
| "perm_step (PTake now sid i) st = fst (take_pending now sid i st)"
| "perm_step (PAdd now sid tool) st = add_override now sid tool st"
| "perm_step (PClear sid) st = clear_session sid st"

definition perm_run :: "perm_op list \<Rightarrow> permission_store \<Rightarrow> permission_store" where
  "perm_run ops st = fold perm_step ops st"

text \<open>The calls after which the approval \<open>(sid, i)\<close> is not the one that was there.\<close>

fun ends_pending :: "uuid \<Rightarrow> string \<Rightarrow> perm_op \<Rightarrow> bool" where
  "ends_pending sid i (PSet _ _ sid' i' _ _) = (sid' = sid \<and> i' = i)"
| "ends_pending sid i (PTake _ sid' i') = (sid' = sid \<and> i' = i)"
| "ends_pending sid i (PAdd _ _ _) = False"
| "ends_pending sid i (PClear sid') = (sid' = sid)"

lemma perm_step_ok [simp]: "store_ok st \<Longrightarrow> store_ok (perm_step op st)"
proof (cases op)
  case (PClear sid)
  then show "store_ok st \<Longrightarrow> ?thesis"
    by (simp add: store_ok_def clear_session_def dash_all_remove)
qed (auto simp: set_pending_def take_pending_def add_override_def Let_def intro!: on_session_ok)

lemma perm_run_ok [simp]: "store_ok st \<Longrightarrow> store_ok (perm_run ops st)"
  by (induction ops arbitrary: st) (simp_all add: perm_run_def)

lemma fresh_Some: "fresh now x = Some p \<Longrightarrow> x = Some p \<and> now - pa_created_at p < pending_ttl"
  by (auto simp: fresh_def split: option.splits if_splits)

lemma perm_step_pending:
  assumes "store_ok st" "peek_pending sid i (perm_step op st) = Some p"
  shows "(\<exists>now. op = PSet now (pa_created_at p) sid i (pa_tool_name p) (pa_args p))
         \<or> (\<not> ends_pending sid i op \<and> peek_pending sid i st = Some p)"
  using assms by (cases op) (auto simp: peek_simps split: if_splits dest: fresh_Some)

lemma pending_provenance:
  "peek_pending sid i (perm_run ops []) = Some p \<Longrightarrow>
   \<exists>xs now ys. ops = xs @ PSet now (pa_created_at p) sid i (pa_tool_name p) (pa_args p) # ys
             \<and> list_all (\<lambda>op. \<not> ends_pending sid i op) ys"
proof (induction ops rule: rev_induct)
  case Nil
  then show ?case by (simp add: perm_run_def peek_pending_def session_pending_def)
next
  case (snoc op ops)
  from snoc.prems have "peek_pending sid i (perm_step op (perm_run ops [])) = Some p"
    by (simp add: perm_run_def)
  from perm_step_pending [OF _ this] consider
      (new) now where "op = PSet now (pa_created_at p) sid i (pa_tool_name p) (pa_args p)"
    | (old) "\<not> ends_pending sid i op" "peek_pending sid i (perm_run ops []) = Some p" by auto
  then show ?case
  proof cases
    case new
    then show ?thesis by (intro exI [of _ ops] exI [of _ now] exI [of _ "[]"]) simp
  next
    case old
    obtain xs now ys where
      "ops = xs @ PSet now (pa_created_at p) sid i (pa_tool_name p) (pa_args p) # ys"
      "list_all (\<lambda>op. \<not> ends_pending sid i op) ys"
      using snoc.IH [OF old(2)] by blast
    then show ?thesis
      using old(1) by (intro exI [of _ xs] exI [of _ now] exI [of _ "ys @ [op]"]) simp
  qed
qed

text \<open>
  C3: An approval that a decision takes from the store was requested for the same session and
  call id with the same tool and arguments, less than five minutes before, and no decision has
  taken it since; after it is taken it is gone.
\<close>

theorem approval_single_use:
  assumes "take_pending now sid i (perm_run ops []) = (st, Some p)"
  shows "(\<exists>xs now0 ys. ops = xs @ PSet now0 (pa_created_at p) sid i (pa_tool_name p) (pa_args p) # ys
                     \<and> list_all (\<lambda>op. \<not> ends_pending sid i op) ys)
         \<and> now - pa_created_at p < secs 300
         \<and> peek_pending sid i st = None"
proof -
  have ok: "store_ok (perm_run ops [])" by simp
  have "fresh now (peek_pending sid i (perm_run ops [])) = Some p"
    using take_pending_result [OF ok, of now sid i] assms by simp
  then have peek: "peek_pending sid i (perm_run ops []) = Some p" and age: "now - pa_created_at p < pending_ttl"
    by (auto dest: fresh_Some)
  have "peek_pending sid i st = None"
    using peek_take_pending [OF ok, of sid i now sid i] assms by simp
  with pending_provenance [OF peek] age show ?thesis by (simp add: pending_ttl_def)
qed

lemma approval_single_use_witness:
  "\<exists>st. take_pending 7 1 ''a'' (perm_run [PSet 5 5 1 ''a'' ''calculate'' JNull] [])
        = (st, Some \<lparr>pa_tool_name = ''calculate'', pa_args = JNull, pa_created_at = 5\<rparr>)
      \<and> peek_pending 1 ''a'' st = None"
proof -
  let ?p = "\<lparr>pa_tool_name = ''calculate'', pa_args = JNull, pa_created_at = 5\<rparr>"
  let ?run = "perm_run [PSet 5 5 1 ''a'' ''calculate'' JNull] []"
  have "snd (take_pending 7 1 ''a'' ?run) = fresh 7 (peek_pending 1 ''a'' ?run)"
    by (rule take_pending_result, rule perm_run_ok, rule store_ok_Nil)
  also have "\<dots> = Some ?p"
    by (simp add: perm_run_def peek_set_pending fresh_def pending_ttl_def ns_per_sec_def)
  finally have "snd (take_pending 7 1 ''a'' ?run) = Some ?p" .
  then have "take_pending 7 1 ''a'' ?run = (fst (take_pending 7 1 ''a'' ?run), Some ?p)"
    by (metis prod.collapse)
  with approval_single_use [OF this] show ?thesis by blast
qed

end
