(* ===== verification/Llm_Sse.thy ===== *)
theory Llm_Sse
  imports Llm_Permission Rust_Utf8
begin

text \<open>
  \<open>llm/sse.rs\<close>: the reader that cuts the upstream byte stream into events, the accumulator of
  tool-call deltas, the drain of one upstream round into the client channel and the builders of
  the events the proxy adds. The upstream stream is the list of what its polls return; a poll
  that outlasts the idle timeout is an item of its own. The client channel records what was
  sent and, when the client goes away, how many more sends succeed before.
\<close>

section \<open>Texts\<close>

definition nl :: string where "nl = [CHR 0x0A]"

definition blank_line :: string where "blank_line = [CHR 0x0A, CHR 0x0A]"

section \<open>Events and the upstream stream\<close>

record sse_event =
  ev_name :: "string option"
  ev_data :: string

datatype chunk = Chunk string | ReadError string | IdleElapsed

text \<open>One line of a frame: the name seen so far and the data lines.\<close>

definition parse_sse_line :: "string option \<times> string list \<Rightarrow> string \<Rightarrow> string option \<times> string list" where
  "parse_sse_line st line0 =
     (let (name, data_lines) = st;
          line = trim_end_matches (CHR 0x0D) line0
      in if line = [] \<or> hd line = CHR '':'' then st
         else (case strip_prefix ''event:'' line of
                 Some rest \<Rightarrow> (Some (trim rest), data_lines)
               | None \<Rightarrow>
                   (case strip_prefix ''data:'' line of
                      Some rest \<Rightarrow> (name, data_lines @ [trim_start rest])
                    | None \<Rightarrow> st)))"

definition parse_sse_frame :: "string \<Rightarrow> sse_event" where
  "parse_sse_frame raw =
     (let (name, data_lines) = foldl parse_sse_line (None, []) (split_char (CHR 0x0A) raw)
      in \<lparr>ev_name = name, ev_data = join_with nl data_lines\<rparr>)"

record sse_stream =
  ss_src :: "chunk list"
  ss_buf :: string

definition sse_new :: "chunk list \<Rightarrow> sse_stream" where
  "sse_new src = \<lparr>ss_src = src, ss_buf = []\<rparr>"

fun next_event_loop :: "chunk list \<Rightarrow> string \<Rightarrow> sse_stream \<times> (string + sse_event option)" where
  "next_event_loop src buf =
     (case split_once blank_line buf of
        Some (raw, rest) \<Rightarrow> (\<lparr>ss_src = src, ss_buf = rest\<rparr>, Inr (Some (parse_sse_frame raw)))
      | None \<Rightarrow>
          (case src of
             [] \<Rightarrow> (if trim buf = [] then (\<lparr>ss_src = [], ss_buf = buf\<rparr>, Inr None)
                   else (\<lparr>ss_src = [], ss_buf = []\<rparr>, Inr (Some (parse_sse_frame buf))))
           | Chunk b # src' \<Rightarrow> next_event_loop src' (buf @ from_utf8_lossy b)
           | ReadError e # src' \<Rightarrow> (\<lparr>ss_src = src', ss_buf = buf\<rparr>, Inl e)
           | IdleElapsed # src' \<Rightarrow> (\<lparr>ss_src = src', ss_buf = buf\<rparr>, Inl ''upstream idle timeout'')))"

declare next_event_loop.simps [simp del]

definition next_event :: "sse_stream \<Rightarrow> sse_stream \<times> (string + sse_event option)" where
  "next_event s = next_event_loop (ss_src s) (ss_buf s)"

section \<open>Tool-call deltas\<close>

record pending_tool_call =
  tc_id :: string
  tc_name :: "string option"
  tc_arguments :: string

text \<open>A \<open>BTreeMap\<close> is its entries in ascending order of the key.\<close>

type_synonym tool_call_accumulator = "(nat \<times> pending_tool_call) list"

fun btree_update :: "nat \<Rightarrow> 'v \<Rightarrow> (nat \<times> 'v) list \<Rightarrow> (nat \<times> 'v) list" where
  "btree_update k v [] = [(k, v)]"
| "btree_update k v ((k', v') # m) =
     (if k < k' then (k, v) # (k', v') # m else if k = k' then (k, v) # m else (k', v') # btree_update k v m)"

definition default_call :: pending_tool_call where
  "default_call = \<lparr>tc_id = [], tc_name = None, tc_arguments = []\<rparr>"

definition merge_delta :: "json \<Rightarrow> pending_tool_call \<Rightarrow> pending_tool_call" where
  "merge_delta tc entry =
     (let entry = (case jget_str ''id'' tc of Some i \<Rightarrow> entry\<lparr>tc_id := i\<rparr> | None \<Rightarrow> entry)
      in case jget ''function'' tc of
           None \<Rightarrow> entry
         | Some func \<Rightarrow>
             (let entry = (case jget_str ''name'' func of Some n \<Rightarrow> entry\<lparr>tc_name := Some n\<rparr> | None \<Rightarrow> entry)
              in case jget_str ''arguments'' func of
                   Some a \<Rightarrow> entry\<lparr>tc_arguments := tc_arguments entry @ a\<rparr>
                 | None \<Rightarrow> entry))"

definition delta_index :: "json \<Rightarrow> nat" where
  "delta_index tc = unwrap_or 0 (Option.bind (jget ''index'' tc) as_u64) mod 2 ^ 32"

definition apply_one :: "tool_call_accumulator \<Rightarrow> json \<Rightarrow> tool_call_accumulator" where
  "apply_one acc tc =
     (let idx = delta_index tc
      in btree_update idx (merge_delta tc (unwrap_or default_call (map_of acc idx))) acc)"

definition apply_delta :: "json \<Rightarrow> tool_call_accumulator \<Rightarrow> tool_call_accumulator" where
  "apply_delta raw acc = (case as_array raw of None \<Rightarrow> acc | Some arr \<Rightarrow> foldl apply_one acc arr)"

definition into_sorted :: "tool_call_accumulator \<Rightarrow> pending_tool_call list" where
  "into_sorted acc = map snd acc"

section \<open>The client channel\<close>

datatype frame = FBytes string | FErr string

record channel =
  ch_out :: "frame list"
  ch_left :: "nat option"

definition tx_send :: "frame \<Rightarrow> channel \<Rightarrow> channel \<times> bool" where
  "tx_send f ch =
     (case ch_left ch of
        None \<Rightarrow> (ch\<lparr>ch_out := ch_out ch @ [f]\<rparr>, True)
      | Some 0 \<Rightarrow> (ch, False)
      | Some (Suc n) \<Rightarrow> (ch\<lparr>ch_out := ch_out ch @ [f], ch_left := Some n\<rparr>, True))"

text \<open>\<open>let _ = tx.send(..).await\<close>.\<close>

definition send :: "string \<Rightarrow> channel \<Rightarrow> channel" where
  "send bytes ch = fst (tx_send (FBytes bytes) ch)"

definition send_err :: "string \<Rightarrow> channel \<Rightarrow> channel" where
  "send_err e ch = fst (tx_send (FErr e) ch)"

section \<open>Draining one round\<close>

record round_outcome =
  ro_assistant_text :: string
  ro_reasoning_chars :: nat
  ro_finish_reason :: "string option"
  ro_tool_calls :: "pending_tool_call list"

record drain_state =
  ds_acc :: tool_call_accumulator
  ds_text :: string
  ds_reasoning :: nat
  ds_finish :: "string option"

definition drain_init :: drain_state where
  "drain_init = \<lparr>ds_acc = [], ds_text = [], ds_reasoning = 0, ds_finish = None\<rparr>"

definition outcome_of :: "drain_state \<Rightarrow> round_outcome" where
  "outcome_of d =
     \<lparr>ro_assistant_text = ds_text d, ro_reasoning_chars = ds_reasoning d, ro_finish_reason = ds_finish d,
      ro_tool_calls = into_sorted (ds_acc d)\<rparr>"

definition drain_delta :: "json \<Rightarrow> drain_state \<Rightarrow> drain_state" where
  "drain_delta delta d =
     (let d = (case jget_str ''content'' delta of Some t \<Rightarrow> d\<lparr>ds_text := ds_text d @ t\<rparr> | None \<Rightarrow> d);
          d = (case jget_str ''reasoning'' delta of
                 Some r \<Rightarrow> d\<lparr>ds_reasoning := ds_reasoning d + length r\<rparr> | None \<Rightarrow> d)
      in case jget ''tool_calls'' delta of Some tcs \<Rightarrow> d\<lparr>ds_acc := apply_delta tcs (ds_acc d)\<rparr> | None \<Rightarrow> d)"

definition drain_choice :: "drain_state \<Rightarrow> json \<Rightarrow> drain_state" where
  "drain_choice d choice =
     (let d = (case jget ''delta'' choice of Some delta \<Rightarrow> drain_delta delta d | None \<Rightarrow> d)
      in if ds_finish d = None
         then (case jget_str ''finish_reason'' choice of
                 Some fr \<Rightarrow> (if fr \<noteq> [] then d\<lparr>ds_finish := Some fr\<rparr> else d)
               | None \<Rightarrow> d)
         else d)"

definition drain_data :: "json_codec \<Rightarrow> string \<Rightarrow> drain_state \<Rightarrow> drain_state" where
  "drain_data js txt d =
     (case js_parse js txt of
        None \<Rightarrow> d
      | Some parsed \<Rightarrow>
          (case Option.bind (jget ''choices'' parsed) as_array of
             None \<Rightarrow> d
           | Some choices \<Rightarrow> foldl drain_choice d choices))"

definition forwarded :: "sse_event \<Rightarrow> string" where
  "forwarded ev =
     (case ev_name ev of
        Some name \<Rightarrow> ''event: '' @ name @ nl @ ''data: '' @ ev_data ev @ blank_line
      | None \<Rightarrow> ''data: '' @ ev_data ev @ blank_line)"

text \<open>What is left to read; every event read makes it smaller.\<close>

fun chunk_size :: "chunk \<Rightarrow> nat" where
  "chunk_size (Chunk b) = Suc (length (from_utf8_lossy b))"
| "chunk_size _ = 1"

definition stream_size :: "sse_stream \<Rightarrow> nat" where
  "stream_size s =
     length (ss_buf s) + sum_list (map chunk_size (ss_src s))"

lemma split_once_length:
  "split_once p s = Some (a, b) \<Longrightarrow> length s = length a + length p + length b"
  by (induction p s arbitrary: a rule: split_once.induct) (auto split: option.splits if_splits simp: strip_prefix_iff dest: arg_cong [of _ _ length])

lemma next_event_loop_decreases:
  "next_event_loop src buf = (s', Inr (Some ev)) \<Longrightarrow> stream_size s' < stream_size \<lparr>ss_src = src, ss_buf = buf\<rparr>"
proof (induction src arbitrary: buf)
  case Nil
  show ?case
  proof (cases "split_once blank_line buf")
    case None
    then show ?thesis
      using Nil by (cases buf) (auto simp: next_event_loop.simps [of "[]"] stream_size_def split: if_splits)
  next
    case (Some ab)
    then show ?thesis
      using Nil split_once_length [of blank_line buf]
      by (cases ab) (auto simp: next_event_loop.simps [of "[]"] stream_size_def blank_line_def)
  qed
next
  case (Cons c src)
  show ?case
  proof (cases "split_once blank_line buf")
    case (Some ab)
    then show ?thesis
      using Cons.prems split_once_length [of blank_line buf]
      by (cases ab) (auto simp: next_event_loop.simps [of "c # src"] stream_size_def blank_line_def)
  next
    case None
    then obtain b where c: "c = Chunk b" "next_event_loop src (buf @ from_utf8_lossy b) = (s', Inr (Some ev))"
      using Cons.prems None next_event_loop.simps [of "c # src" buf] by (cases c) auto
    from Cons.IH [OF c(2)] show ?thesis by (simp add: c(1) stream_size_def)
  qed
qed

lemma next_event_decreases: "next_event s = (s', Inr (Some ev)) \<Longrightarrow> stream_size s' < stream_size s"
  using next_event_loop_decreases [of "ss_src s" "ss_buf s" s' ev] by (simp add: next_event_def stream_size_def)

function drain_loop :: "json_codec \<Rightarrow> sse_stream \<Rightarrow> drain_state \<Rightarrow> channel \<Rightarrow> (string + round_outcome) \<times> channel" where
  "drain_loop js s d ch =
     (case next_event s of
        (s', Inl e) \<Rightarrow> (Inl e, ch)
      | (s', Inr None) \<Rightarrow> (Inr (outcome_of d), ch)
      | (s', Inr (Some ev)) \<Rightarrow>
          (if trim (ev_data ev) = ''[DONE]'' then (Inr (outcome_of d), ch)
           else (case tx_send (FBytes (forwarded ev)) ch of
                   (ch, False) \<Rightarrow> (Inr (outcome_of d), ch)
                 | (ch, True) \<Rightarrow> drain_loop js s' (drain_data js (ev_data ev) d) ch)))"
  by pat_completeness auto
termination
proof (relation "measure (\<lambda>(js, s, d, ch). stream_size s)", goal_cases)
  case 2
  then show ?case using next_event_decreases by (metis in_measure prod.case)
qed simp

declare drain_loop.simps [simp del]

definition drain_upstream_round :: "json_codec \<Rightarrow> chunk list \<Rightarrow> channel \<Rightarrow> (string + round_outcome) \<times> channel" where
  "drain_upstream_round js src ch = drain_loop js (sse_new src) drain_init ch"

section \<open>Events the proxy builds\<close>

definition sse_frame :: "json_codec \<Rightarrow> string \<Rightarrow> json \<Rightarrow> string" where
  "sse_frame js name txt = ''event: '' @ name @ nl @ ''data: '' @ js_show js txt @ blank_line"

definition sse_tool_call_event :: "json_codec \<Rightarrow> string \<Rightarrow> string \<Rightarrow> string \<Rightarrow> nat \<Rightarrow> string" where
  "sse_tool_call_event js i name arguments index =
     sse_frame js ''tool_call''
       (JObj [(''id'', JStr i), (''name'', JStr name), (''args'', unwrap_or JNull (js_parse js arguments)),
              (''arguments_raw'', JStr arguments), (''index'', nat_json index)])"

definition result_summary :: "json_codec \<Rightarrow> bool \<Rightarrow> string \<Rightarrow> string" where
  "result_summary js ok txt =
     (if ok then unwrap_or (take_chars 80 txt) (Option.bind (js_parse js txt) (jget_str ''summary''))
      else take_chars 160 txt)"

definition sse_tool_result_event :: "json_codec \<Rightarrow> string \<Rightarrow> string \<Rightarrow> bool \<Rightarrow> string \<Rightarrow> string" where
  "sse_tool_result_event js i name ok txt =
     sse_frame js ''tool_result''
       (JObj [(''id'', JStr i), (''name'', JStr name), (''ok'', JBool ok),
              (''summary'', JStr (result_summary js ok txt)), (''content'', JStr txt)])"

definition sse_tool_result_needs_approval :: "json_codec \<Rightarrow> string \<Rightarrow> string \<Rightarrow> string \<Rightarrow> json \<Rightarrow> string" where
  "sse_tool_result_needs_approval js i name txt prompt =
     sse_frame js ''tool_result''
       (JObj [(''id'', JStr i), (''name'', JStr name), (''ok'', JBool False), (''needs_approval'', JBool True),
              (''tool_call_id'', JStr i), (''prompt'', prompt), (''summary'', JStr (take_chars 160 txt)),
              (''content'', JStr txt)])"

definition sse_error_event :: "json_codec \<Rightarrow> string \<Rightarrow> string \<Rightarrow> string" where
  "sse_error_event js reason detail =
     sse_frame js ''error'' (JObj [(''error'', JStr reason), (''detail'', JStr detail)])"

definition sse_round_paused :: "json_codec \<Rightarrow> string \<Rightarrow> string \<Rightarrow> string \<Rightarrow> string" where
  "sse_round_paused js i name reason =
     sse_frame js ''round_paused'' (JObj [(''id'', JStr i), (''name'', JStr name), (''reason'', JStr reason)])"

definition done_frame :: string where
  "done_frame = ''data: [DONE]'' @ blank_line"

definition tool_call_names :: "pending_tool_call list \<Rightarrow> string" where
  "tool_call_names tcs = join_with '', '' (map (\<lambda>tc. unwrap_or ''<unknown>'' (tc_name tc)) tcs)"

end
