(* ===== verification/Llm_Prompt.thy ===== *)
theory Llm_Prompt
  imports Tools_Router Llm_Sse
begin

text \<open>
  \<open>llm/prompt.rs\<close>, \<open>llm/privacy.rs\<close> and the body helpers of \<open>llm/proxy.rs\<close>: the system blocks
  and where they go, the kill-switches that drop them, the Ollama options, and the \<open>tools\<close> array
  of a round. The text of the built-in default prompt is configuration and not repeated here.
\<close>

section \<open>System blocks\<close>

definition user_location_marker :: string where
  "user_location_marker = ''User'' @ [CHR 0x27] @ ''s approximate location:''"

definition user_timezone_marker :: string where
  "user_timezone_marker = ''The user'' @ [CHR 0x27] @ ''s local timezone is''"

definition user_integrations_marker :: string where
  "user_integrations_marker = ''The user has the following integrations configured:''"

definition user_reply_language_marker :: string where
  "user_reply_language_marker = ''The user'' @ [CHR 0x27] @ ''s preferred reply language is''"

definition user_memories_marker :: string where
  "user_memories_marker = ''The user'' @ [CHR 0x27] @ ''s long-term memories include:''"

definition integration_line :: "service_def \<Rightarrow> string" where
  "integration_line s = ''- '' @ sd_display_name s @ '' (`'' @ sd_id s @ ''`): '' @ description_line s"

definition build_integrations_block :: "string list \<Rightarrow> service_registry \<Rightarrow> string option" where
  "build_integrations_block configured registry =
     (if configured = [] then None
      else Some (join_with nl (user_integrations_marker
             # map integration_line (List.map_filter (service_get registry) configured))))"

definition build_reply_language_block :: "string option \<Rightarrow> string option" where
  "build_reply_language_block lang =
     (case lang of
        None \<Rightarrow> None
      | Some l \<Rightarrow>
          (let lang = trim l
           in if lang = [] then None
              else Some (user_reply_language_marker @ '' '' @ lang
                     @ ''. Always reply in this language unless the user explicitly asks for another ''
                     @ ''language in the same turn.'')))"

definition memory_line :: "decrypted_memory \<Rightarrow> string" where
  "memory_line row =
     (let value = trim (dm_value row); key = ''- '' @ mm_subject row @ '' '' @ mm_predicate row @ '': '' @ value
      in (case dm_notes row of
            Some notes \<Rightarrow> key @ '' (notes: '' @ trim notes @ '')''
          | None \<Rightarrow> key) @ nl)"

definition memories_instructions :: string where
  "memories_instructions =
     ''Use these facts to answer the user'' @ [CHR 0x27] @ ''s questions accurately. If the user ''
     @ ''shares a new durable fact, you may call `memory_store` (subject, ''
     @ ''predicate, value) to persist it for future turns; never store facts ''
     @ ''about third parties without consent, and never store information that'' @ [CHR 0x27] @ ''s ''
     @ ''only relevant to the current turn.''"

definition build_memories_block :: "decrypted_memory list \<Rightarrow> string option" where
  "build_memories_block rows =
     (if rows = [] then None
      else Some (user_memories_marker @ nl @ concat (map memory_line rows) @ nl @ memories_instructions))"

definition message :: "string \<Rightarrow> string \<Rightarrow> json" where
  "message role content = JObj [(''role'', JStr role), (''content'', JStr content)]"

definition inject_default_system_prompt :: "string option \<Rightarrow> json \<Rightarrow> json" where
  "inject_default_system_prompt prompt body =
     (case prompt of
        None \<Rightarrow> body
      | Some p \<Rightarrow>
          (let trimmed = trim p
           in if trimmed = [] then body
              else with_array ''messages'' (vec_insert 0 (message ''system'' trimmed)) body))"

definition insert_after_admin :: "string \<Rightarrow> json list \<Rightarrow> json list" where
  "insert_after_admin block messages =
     vec_insert (if messages = [] then 0 else 1) (message ''system'' block) messages"

definition inject_reply_language_block :: "string \<Rightarrow> json \<Rightarrow> json" where
  "inject_reply_language_block block body = with_array ''messages'' (insert_after_admin block) body"

definition inject_memories_block :: "string \<Rightarrow> json \<Rightarrow> json" where
  "inject_memories_block block body = with_array ''messages'' (insert_after_admin block) body"

section \<open>Kill-switches\<close>

definition keep_message :: "string \<Rightarrow> json \<Rightarrow> bool" where
  "keep_message marker m =
     (case jget_str ''role'' m of
        None \<Rightarrow> True
      | Some role \<Rightarrow>
          if role \<noteq> ''system'' then True
          else (case jget_str ''content'' m of Some txt \<Rightarrow> \<not> starts_with marker txt | None \<Rightarrow> True))"

definition strip_marked :: "string \<Rightarrow> bool \<Rightarrow> json \<Rightarrow> json" where
  "strip_marked marker allow body =
     (if allow then body else with_array ''messages'' (filter (keep_message marker)) body)"

definition strip_user_location_if_disabled :: "bool \<Rightarrow> json \<Rightarrow> json" where
  "strip_user_location_if_disabled allow body = strip_marked user_location_marker allow body"

definition strip_user_timezone_if_disabled :: "bool \<Rightarrow> json \<Rightarrow> json" where
  "strip_user_timezone_if_disabled allow body = strip_marked user_timezone_marker allow body"

definition strip_user_reply_language_if_disabled :: "bool \<Rightarrow> json \<Rightarrow> json" where
  "strip_user_reply_language_if_disabled allow body = strip_marked user_reply_language_marker allow body"

definition strip_user_memories_if_disabled :: "bool \<Rightarrow> json \<Rightarrow> json" where
  "strip_user_memories_if_disabled allow body = strip_marked user_memories_marker allow body"

section \<open>Ollama options\<close>

definition inject_option :: "string \<Rightarrow> nat option \<Rightarrow> json \<Rightarrow> json" where
  "inject_option key v body =
     (case v of
        None \<Rightarrow> body
      | Some n \<Rightarrow>
          (case body of
             JObj kvs \<Rightarrow>
               (let kvs = (case dash_get kvs ''options'' of Some _ \<Rightarrow> kvs | None \<Rightarrow> dash_put ''options'' (JObj []) kvs)
                in case dash_get kvs ''options'' of
                     Some (JObj os) \<Rightarrow> JObj (dash_put ''options'' (JObj (dash_put key (nat_json n) os)) kvs)
                   | _ \<Rightarrow> JObj kvs)
           | _ \<Rightarrow> body))"

definition inject_ollama_num_predict :: "nat option \<Rightarrow> json \<Rightarrow> json" where
  "inject_ollama_num_predict v body = inject_option ''num_predict'' v body"

definition inject_ollama_num_ctx :: "nat option \<Rightarrow> json \<Rightarrow> json" where
  "inject_ollama_num_ctx v body = inject_option ''num_ctx'' v body"

section \<open>The tools of a round\<close>

fun add_tools :: "'w registry \<Rightarrow> string list \<Rightarrow> string list \<times> json list \<Rightarrow> string list \<times> json list" where
  "add_tools registry [] st = st"
| "add_tools registry (name # names) (seen, out) =
     (if name \<in> set seen then add_tools registry names (seen, out)
      else (case registry_get registry name of
              Some a \<Rightarrow> add_tools registry names (name # seen, out @ [tool_schema a])
            | None \<Rightarrow> add_tools registry names (name # seen, out)))"

definition build_tools_for_round ::
    "(real \<Rightarrow> real) \<Rightarrow> (real \<Rightarrow> real) \<Rightarrow> (string list \<Rightarrow> string list) \<Rightarrow> 'w registry option \<Rightarrow> tools_router option
       \<Rightarrow> discovered_tools \<Rightarrow> uuid option \<Rightarrow> string \<Rightarrow> json list" where
  "build_tools_for_round rnd lnf perm agents router discovered sid latest_user_msg =
     (case agents of
        None \<Rightarrow> []
      | Some registry \<Rightarrow>
          (let st = (case registry_get registry search_tools_name of
                       Some a \<Rightarrow> ([ag_name a], [tool_schema a]) | None \<Rightarrow> ([], []));
               st = (case router of
                       Some r \<Rightarrow> add_tools registry (pre_select rnd lnf r latest_user_msg 5) st | None \<Rightarrow> st);
               st = (case sid of
                       Some sid \<Rightarrow> add_tools registry (disc_snapshot perm sid discovered) st | None \<Rightarrow> st)
           in snd st))"

text \<open>The latest user message and the names of the tools called so far, which a later round reads off the body.\<close>

fun first_text_part :: "json list \<Rightarrow> string" where
  "first_text_part [] = []"
| "first_text_part (p # ps) =
     (if jget_str ''type'' p = Some ''text''
      then (case jget_str ''text'' p of Some s \<Rightarrow> s | None \<Rightarrow> first_text_part ps)
      else first_text_part ps)"

text \<open>The messages from the last one backwards.\<close>

fun latest_text :: "json list \<Rightarrow> string" where
  "latest_text [] = []"
| "latest_text (m # ms) =
     (if jget_str ''role'' m \<noteq> Some ''user'' then latest_text ms
      else (case jget ''content'' m of
              Some (JStr s) \<Rightarrow> s
            | Some (JArr parts) \<Rightarrow>
                (let out = first_text_part parts in if out \<noteq> [] then out else latest_text ms)
            | _ \<Rightarrow> latest_text ms))"

definition latest_user_message_text :: "json option \<Rightarrow> string" where
  "latest_user_message_text messages =
     (case Option.bind messages as_array of None \<Rightarrow> [] | Some arr \<Rightarrow> latest_text (rev arr))"

definition call_name :: "json \<Rightarrow> string option" where
  "call_name tc = Option.bind (jget ''function'' tc) (jget_str ''name'')"

definition push_new :: "string list \<Rightarrow> json \<Rightarrow> string list" where
  "push_new out tc =
     (case call_name tc of
        Some name \<Rightarrow> (if name \<in> set out then out else out @ [name])
      | None \<Rightarrow> out)"

definition history_tool_call_names :: "json option \<Rightarrow> string list" where
  "history_tool_call_names messages =
     (case Option.bind messages as_array of
        None \<Rightarrow> []
      | Some arr \<Rightarrow> foldl (\<lambda>out msg. foldl push_new out (array_of ''tool_calls'' msg)) [] arr)"

definition add_history :: "'w registry option \<Rightarrow> json list \<Rightarrow> string \<Rightarrow> json list" where
  "add_history agents rebuilt name =
     (if list_ex (\<lambda>tool. call_name tool = Some name) rebuilt then rebuilt
      else (case Option.bind agents (\<lambda>r. registry_get r name) of
              Some a \<Rightarrow> rebuilt @ [tool_schema a]
            | None \<Rightarrow> rebuilt))"

definition rebuild_tools_for_next_round ::
    "(real \<Rightarrow> real) \<Rightarrow> (real \<Rightarrow> real) \<Rightarrow> (string list \<Rightarrow> string list) \<Rightarrow> 'w registry option \<Rightarrow> tools_router option
       \<Rightarrow> discovered_tools option \<Rightarrow> uuid option \<Rightarrow> json \<Rightarrow> json" where
  "rebuild_tools_for_next_round rnd lnf perm agents router discovered sid body =
     (if router = None \<and> discovered = None then body
      else if as_object body = None then body
      else
        (let client_tools = array_of ''tools'' body;
             latest = latest_user_message_text (jget ''messages'' body);
             rebuilt = build_tools_for_round rnd lnf perm agents router (unwrap_or [] discovered) sid latest;
             rebuilt = foldl (add_history agents) rebuilt (history_tool_call_names (jget ''messages'' body))
         in obj_insert ''tools'' (JArr (rebuilt @ client_tools)) body))"

end
