(* ===== verification/Llm_Tool_Loop.thy ===== *)
theory Llm_Tool_Loop
  imports Llm_Prompt
begin

text \<open>
  \<open>llm/tool_loop.rs\<close> and the permission intercept of \<open>llm/permission.rs\<close>.

  The environment holds what the loop is called with and what is outside the repository: the
  JSON codec, the clock of the world, the upstream. A call of the upstream is a function of the
  body posted and the world. The state carries the world, the permission store, the discovered
  tools, the client channel and a trace of the upstream requests and of the agents invoked; the
  trace is written only, no decision reads it.
\<close>

section \<open>Environment and state\<close>

datatype upstream_answer = UpFailed string | UpStatus nat string | UpStream "chunk list"

record 'w loop_env =
  le_js :: json_codec
  le_now :: "'w \<Rightarrow> instant"
  le_post :: "json \<Rightarrow> 'w \<Rightarrow> upstream_answer \<times> 'w"
  le_rnd :: "real \<Rightarrow> real"
  le_ln :: "real \<Rightarrow> real"
  le_status_text :: "nat \<Rightarrow> string"
  le_perm :: "string list \<Rightarrow> string list"
  le_agents :: "'w registry option"
  le_router :: "tools_router option"
  le_max_rounds :: nat
  le_max_auto :: nat
  le_session :: "uuid option"
  le_user :: uuid
  le_resolver :: "'w secret_source option"
  le_memories :: "'w memory_source option"

datatype trace_event =
    Posted json
  | Invoked string string json

record 'w loop_state =
  ls_world :: 'w
  ls_store :: permission_store
  ls_discovered :: "discovered_tools option"
  ls_chan :: channel
  ls_trace :: "trace_event list"

definition st_send :: "string \<Rightarrow> 'w loop_state \<Rightarrow> 'w loop_state" where
  "st_send bytes s = s\<lparr>ls_chan := send bytes (ls_chan s)\<rparr>"

definition st_send_err :: "string \<Rightarrow> 'w loop_state \<Rightarrow> 'w loop_state" where
  "st_send_err e s = s\<lparr>ls_chan := send_err e (ls_chan s)\<rparr>"

definition traced :: "trace_event \<Rightarrow> 'w loop_state \<Rightarrow> 'w loop_state" where
  "traced ev s = s\<lparr>ls_trace := ls_trace s @ [ev]\<rparr>"

section \<open>Messages\<close>

definition tool_message :: "string \<Rightarrow> string \<Rightarrow> json" where
  "tool_message i content =
     JObj [(''role'', JStr ''tool''), (''tool_call_id'', JStr i), (''content'', JStr content)]"

definition call_entry :: "string \<Rightarrow> json \<Rightarrow> string \<Rightarrow> json" where
  "call_entry i name arguments =
     JObj [(''id'', JStr i), (''type'', JStr ''function''),
           (''function'', JObj [(''name'', name), (''arguments'', JStr arguments)])]"

definition assistant_entry :: "string \<Rightarrow> json list \<Rightarrow> json" where
  "assistant_entry content calls =
     JObj [(''role'', JStr ''assistant''), (''content'', JStr content), (''tool_calls'', JArr calls)]"

definition round_entry :: "round_outcome \<Rightarrow> json" where
  "round_entry o' =
     assistant_entry (ro_assistant_text o')
       (map (\<lambda>tc. call_entry (tc_id tc) (opt_str (tc_name tc)) (tc_arguments tc)) (ro_tool_calls o'))"

definition refusal_message_for_llm :: "string \<Rightarrow> string \<Rightarrow> string" where
  "refusal_message_for_llm name reason =
     ''Tool '' @ [CHR 0x22] @ name @ [CHR 0x22]
     @ ''did not run: the user has not approved it yet. The current turn is ''
     @ ''paused. Do NOT re-call this tool and do NOT call any other tool '' @ [CHR 0xE2, CHR 0x80, CHR 0x94] @ '' wait ''
     @ ''for the user'' @ [CHR 0x27] @ ''s next message; the tool will run only if the user ''
     @ ''approves it then. Reason: '' @ reason"

definition continue_prompt :: string where
  "continue_prompt =
     ''Your previous response was cut off while you were still reasoning (no ''
     @ ''answer reached the user). Please continue from where you left off and ''
     @ ''produce the visible answer now. Do not repeat the reasoning you already ''
     @ ''did; just finish the response.''"

definition unknown_agent_payload :: "string \<Rightarrow> string" where
  "unknown_agent_payload name = ''unknown agent: `'' @ name @ ''`''"

definition nameless_payload :: string where
  "nameless_payload = ''[error] tool call arrived without a function name''"

section \<open>One tool call\<close>

definition call_context :: "'w loop_env \<Rightarrow> 'w user_context" where
  "call_context env =
     (case (le_session env, le_memories env) of
        (Some sid, Some mem) \<Rightarrow> ctx_for_chat_session_with_memories (le_user env) service_registry_empty (le_resolver env) None mem sid
      | (Some sid, None) \<Rightarrow> ctx_for_chat_session (le_user env) service_registry_empty (le_resolver env) None sid
      | (None, _) \<Rightarrow> ctx_for_tests (le_user env) service_registry_empty)"

definition force_allow :: "'w loop_env \<Rightarrow> permission_store \<Rightarrow> string \<Rightarrow> bool" where
  "force_allow env store name =
     ((case le_session env of Some sid \<Rightarrow> has_override sid name store | None \<Rightarrow> False)
      \<and> (case registry_get (unwrap_or registry_empty (le_agents env)) name of
            Some a \<Rightarrow> ag_allow_session_override a | None \<Rightarrow> True))"

text \<open>The arm of a gated call: the pending entry, the two events, the refusal and the end of the stream.\<close>

definition refuse_call :: "'w loop_env \<Rightarrow> pending_tool_call \<Rightarrow> string \<Rightarrow> json \<Rightarrow> string \<Rightarrow> 'w loop_state \<Rightarrow> 'w loop_state" where
  "refuse_call env tc name args reason s =
     (let prompt = approval_prompt name args;
          now = le_now env (ls_world s);
          s = (case le_session env of
                 Some sid \<Rightarrow> s\<lparr>ls_store := set_pending now now sid (tc_id tc) name args (ls_store s)\<rparr>
               | None \<Rightarrow> s);
          wait_message = refusal_message_for_llm name reason;
          s = st_send (sse_tool_result_needs_approval (le_js env) (tc_id tc) name wait_message (approval_prompt_json prompt)) s;
          s = st_send (sse_round_paused (le_js env) (tc_id tc) name reason) s
      in st_send done_frame s)"

definition invoke_agent :: "'w loop_env \<Rightarrow> pending_tool_call \<Rightarrow> string \<Rightarrow> json \<Rightarrow> 'w agent \<Rightarrow> 'w loop_state \<Rightarrow> 'w loop_state \<times> json" where
  "invoke_agent env tc name args a s =
     (let (result, w) = ag_invoke a (call_context env) args (ls_world s);
          s = traced (Invoked (tc_id tc) name args) (s\<lparr>ls_world := w\<rparr>);
          (ok, content) = (case result of
                             Inr r \<Rightarrow> (True, r)
                           | Inl e \<Rightarrow> (False, ''[error] '' @ agent_error_text e));
          s = st_send (sse_tool_result_event (le_js env) (tc_id tc) name ok content) s;
          s = (case (le_session env, ls_discovered s) of
                 (Some sid, Some d) \<Rightarrow> s\<lparr>ls_discovered := Some (disc_add sid name d)\<rparr>
               | _ \<Rightarrow> s)
      in (s, tool_message (tc_id tc) content))"

datatype 'w call_result = Paused "'w loop_state" | Answered "'w loop_state" json

definition run_call :: "'w loop_env \<Rightarrow> nat \<Rightarrow> pending_tool_call \<Rightarrow> 'w loop_state \<Rightarrow> 'w call_result" where
  "run_call env tool_round tc s =
     (case tc_name tc of
        None \<Rightarrow>
          Answered (st_send (sse_tool_result_event (le_js env) (tc_id tc) ''<unknown>'' False nameless_payload) s)
                   (tool_message (tc_id tc) nameless_payload)
      | Some name \<Rightarrow>
          (let s = st_send (sse_tool_call_event (le_js env) (tc_id tc) name (tc_arguments tc) tool_round) s;
               args = unwrap_or JNull (js_parse (le_js env) (tc_arguments tc))
           in case registry_get (unwrap_or registry_empty (le_agents env)) name of
                Some a \<Rightarrow>
                  (case (if force_allow env (ls_store s) name then Allow
                         else ag_requires_confirmation a (call_context env) args) of
                     NeedsConfirmation reason \<Rightarrow> Paused (refuse_call env tc name args reason s)
                   | Allow \<Rightarrow> (case invoke_agent env tc name args a s of (s, m) \<Rightarrow> Answered s m))
              | None \<Rightarrow>
                  Answered (st_send (sse_tool_result_event (le_js env) (tc_id tc) name False (unknown_agent_payload name)) s)
                           (tool_message (tc_id tc) (unknown_agent_payload name))))"

text \<open>The calls of a round in order; the messages are those pushed to the body.\<close>

fun run_calls :: "'w loop_env \<Rightarrow> nat \<Rightarrow> pending_tool_call list \<Rightarrow> json list \<Rightarrow> 'w loop_state \<Rightarrow> 'w loop_state \<times> json list option" where
  "run_calls env tool_round [] pushed s = (s, Some pushed)"
| "run_calls env tool_round (tc # tcs) pushed s =
     (case run_call env tool_round tc s of
        Paused s \<Rightarrow> (s, None)
      | Answered s m \<Rightarrow> run_calls env tool_round tcs (pushed @ [m]) s)"

section \<open>One round\<close>

record counters =
  ct_tool_round :: nat
  ct_auto :: nat

datatype 'w round_result = Finished "'w loop_state" | NextRound json counters "'w loop_state"

definition auto_exhausted_text :: "nat \<Rightarrow> string" where
  "auto_exhausted_text n =
     ''the model kept reasoning after '' @ nat_to_string n
     @ '' auto-continues without producing an answer; try a shorter question or a different model''"

definition round_step :: "'w loop_env \<Rightarrow> chunk list \<Rightarrow> json \<Rightarrow> counters \<Rightarrow> 'w loop_state \<Rightarrow> 'w round_result" where
  "round_step env stream body ct s =
     (let (drained, ch) = drain_upstream_round (le_js env) stream (ls_chan s); s = s\<lparr>ls_chan := ch\<rparr>
      in case drained of
           Inl e \<Rightarrow> Finished (st_send_err (''upstream read failed: '' @ e) s)
         | Inr outcome \<Rightarrow>
             if ro_tool_calls outcome = [] then
               (if ro_finish_reason outcome = Some ''length'' \<and> ro_assistant_text outcome = [] \<and> 0 < le_max_auto env then
                  (if le_max_auto env \<le> ct_auto ct then
                     Finished (st_send done_frame
                       (st_send (sse_error_event (le_js env) ''thinking truncated'' (auto_exhausted_text (le_max_auto env))) s))
                   else
                     NextRound
                       (with_array ''messages''
                          (\<lambda>ms. ms @ [message ''assistant'' [], message ''user'' continue_prompt]) body)
                       (ct\<lparr>ct_auto := ct_auto ct + 1\<rparr>) s)
                else Finished (st_send done_frame s))
             else
               (let ct = ct\<lparr>ct_tool_round := ct_tool_round ct + 1\<rparr>
                in if le_max_rounds env < ct_tool_round ct then
                     Finished (st_send done_frame
                       (st_send (sse_error_event (le_js env) ''agent loop exceeded''
                          (''max tool rounds ('' @ nat_to_string (le_max_rounds env) @ '') reached'')) s))
                   else if \<not> has_array ''messages'' body then
                     Finished (st_send_err ''internal: body has no messages array'' s)
                   else
                     (case run_calls env (ct_tool_round ct) (ro_tool_calls outcome) [] s of
                        (s, None) \<Rightarrow> Finished s
                      | (s, Some answers) \<Rightarrow>
                          NextRound (with_array ''messages'' (\<lambda>ms. ms @ round_entry outcome # answers) body) ct s)))"

text \<open>The request of the next round.\<close>

definition open_round :: "'w loop_env \<Rightarrow> json \<Rightarrow> 'w loop_state \<Rightarrow> 'w loop_state \<times> (json \<times> chunk list) option" where
  "open_round env body0 s =
     (let body = rebuild_tools_for_next_round (le_rnd env) (le_ln env) (le_perm env)
                   (Some (unwrap_or registry_empty (le_agents env))) (le_router env) (ls_discovered s) (le_session env) body0;
          (answer, w) = le_post env body (ls_world s);
          s = traced (Posted body) (s\<lparr>ls_world := w\<rparr>)
      in case answer of
           UpFailed e \<Rightarrow> (st_send_err (''upstream connect failed: '' @ e) s, None)
         | UpStatus status txt \<Rightarrow>
             (st_send done_frame
                (st_send (sse_error_event (le_js env) ''upstream error''
                   (''status '' @ le_status_text env status @ '': '' @ txt)) s), None)
         | UpStream stream \<Rightarrow> (s, Some (body, stream)))"

section \<open>The loop\<close>

definition rounds_left :: "'w loop_env \<Rightarrow> counters \<Rightarrow> nat" where
  "rounds_left env ct = (le_max_rounds env - ct_tool_round ct) + (le_max_auto env - ct_auto ct)"

lemma round_step_progress:
  "round_step env stream body ct s = NextRound body' ct' s' \<Longrightarrow>
   rounds_left env ct' < rounds_left env ct \<and>
   (ct' = ct\<lparr>ct_auto := ct_auto ct + 1\<rparr> \<and> ct_auto ct < le_max_auto env
    \<or> ct' = ct\<lparr>ct_tool_round := ct_tool_round ct + 1\<rparr> \<and> ct_tool_round ct < le_max_rounds env)"
  by (auto simp: round_step_def rounds_left_def Let_def split: prod.splits sum.splits if_splits option.splits)

function tool_loop :: "'w loop_env \<Rightarrow> chunk list \<Rightarrow> json \<Rightarrow> counters \<Rightarrow> 'w loop_state \<Rightarrow> 'w loop_state" where
  "tool_loop env stream body ct s =
     (case round_step env stream body ct s of
        Finished s \<Rightarrow> s
      | NextRound body ct s \<Rightarrow>
          (case open_round env body s of
             (s, None) \<Rightarrow> s
           | (s, Some (body, stream)) \<Rightarrow> tool_loop env stream body ct s))"
  by pat_completeness auto
termination
proof (relation "measure (\<lambda>(env, stream, body, ct, s). rounds_left env ct)", goal_cases)
  case 2
  then show ?case using round_step_progress by fastforce
qed simp

declare tool_loop.simps [simp del]

definition start_counters :: counters where
  "start_counters = \<lparr>ct_tool_round = 0, ct_auto = 0\<rparr>"

definition run_tool_loop :: "'w loop_env \<Rightarrow> chunk list \<Rightarrow> json \<Rightarrow> 'w loop_state \<Rightarrow> 'w loop_state" where
  "run_tool_loop env first_stream initial_body s = tool_loop env first_stream initial_body start_counters s"

end
