(* ===== verification/Llm_Chat.thy ===== *)
theory Llm_Chat
  imports Llm_Tool_Loop
begin

text \<open>
  The permission intercept of \<open>llm/permission.rs\<close> and the handler \<open>chat_completions\<close> of
  \<open>llm/proxy.rs\<close>, with the model lists of the same file. Outside the repository and parameters:
  the derived deserialisation of \<open>ChatRequest\<close>, the preferences row, the upstream. The handler
  and the task it spawns run one after the other here: the task is the only writer of the
  channel the response is read from, and the pre-frames are drained first.
\<close>

section \<open>The permission intercept\<close>

definition expired_payload :: string where
  "expired_payload = ''[error] approval expired or unknown; please ask the user again''"

definition deny_msg :: string where
  "deny_msg = ''Utilisateur a refus'' @ [CHR 0xC3, CHR 0xA9] @ '' l'' @ [CHR 0x27] @ ''op'' @ [CHR 0xC3, CHR 0xA9] @ ''ration.''"

definition is_user_message :: "json \<Rightarrow> bool" where
  "is_user_message m \<longleftrightarrow> jget_str ''role'' m = Some ''user''"

text \<open>The body with the sentinel removed from its message.\<close>

definition strip_sentinel :: "nat \<Rightarrow> string \<Rightarrow> json list \<Rightarrow> json list" where
  "strip_sentinel idx remainder ms =
     (let trimmed = trim_start remainder
      in if trimmed = [] then vec_remove idx ms else ms[idx := message ''user'' trimmed])"

definition intercept_context :: "'w loop_env \<Rightarrow> 'w user_context" where
  "intercept_context env =
     (case le_session env of
        Some sid \<Rightarrow> ctx_for_chat_session (le_user env) service_registry_empty (le_resolver env) None sid
      | None \<Rightarrow> ctx_for_tests (le_user env) service_registry_empty)"

definition push_messages :: "json list \<Rightarrow> json \<Rightarrow> json" where
  "push_messages new body = with_array ''messages'' (\<lambda>ms. ms @ new) body"

definition run_approved :: "'w loop_env \<Rightarrow> json \<Rightarrow> string \<Rightarrow> pending_approval \<Rightarrow> 'w agent \<Rightarrow> 'w loop_state
    \<Rightarrow> (json \<times> string list) \<times> 'w loop_state" where
  "run_approved env new_body tool_call_id pending a s =
     (let js = le_js env; name = pa_tool_name pending; args_str = js_show js (pa_args pending);
          call_frame = sse_tool_call_event js tool_call_id name args_str 1;
          ctx = record_invocation name (intercept_context env);
          (result, w) = ag_invoke a ctx (pa_args pending) (ls_world s);
          s = traced (Invoked tool_call_id name (pa_args pending)) (s\<lparr>ls_world := w\<rparr>);
          (ok, content) = (case result of
                             Inr r \<Rightarrow> (True, r)
                           | Inl e \<Rightarrow> (False, ''[error] '' @ agent_error_text e))
      in ((push_messages
             [assistant_entry [] [call_entry tool_call_id (JStr name) args_str], tool_message tool_call_id content]
             new_body,
           [call_frame, sse_tool_result_event js tool_call_id name ok content]), s))"

definition handle_decision ::
    "'w loop_env \<Rightarrow> json \<Rightarrow> decision_prefix \<Rightarrow> 'w loop_state \<Rightarrow> (json \<times> string list) \<times> 'w loop_state" where
  "handle_decision env new_body decision s =
     (let now = le_now env (ls_world s)
      in case decision of
           Approve i \<Rightarrow>
             (let (store, pending) =
                    (case le_session env of Some sid \<Rightarrow> take_pending now sid i (ls_store s) | None \<Rightarrow> (ls_store s, None));
                  s = s\<lparr>ls_store := store\<rparr>
              in case pending of
                   None \<Rightarrow> ((push_messages [tool_message i expired_payload] new_body, []), s)
                 | Some p \<Rightarrow>
                     (case le_agents env of
                        None \<Rightarrow>
                          ((push_messages [tool_message i (''[error] agents not registered; cannot run `''
                              @ pa_tool_name p @ ''`'')] new_body, []), s)
                      | Some agents \<Rightarrow>
                          (case registry_get agents (pa_tool_name p) of
                             None \<Rightarrow>
                               ((push_messages [tool_message i (''[error] unknown agent: `'' @ pa_tool_name p @ ''`'')]
                                   new_body, []), s)
                           | Some a \<Rightarrow> run_approved env new_body i p a s)))
         | ApproveAlways tool_name \<Rightarrow>
             ((new_body, []),
              (case le_session env of
                 Some sid \<Rightarrow> s\<lparr>ls_store := add_override now sid tool_name (ls_store s)\<rparr> | None \<Rightarrow> s))
         | Deny i \<Rightarrow>
             ((push_messages [tool_message i deny_msg] new_body,
               [sse_tool_result_event (le_js env) i ''<denied>'' False deny_msg]),
              (case le_session env of
                 Some sid \<Rightarrow> s\<lparr>ls_store := fst (take_pending now sid i (ls_store s))\<rparr> | None \<Rightarrow> s)))"

text \<open>The decision the last user message starts with, and the position of that message.\<close>

definition find_decision :: "json \<Rightarrow> (nat \<times> decision_prefix \<times> string) option" where
  "find_decision body =
     (case Option.bind (jget ''messages'' body) as_array of
        None \<Rightarrow> None
      | Some messages \<Rightarrow>
          (case rposition is_user_message messages of
             None \<Rightarrow> None
           | Some idx \<Rightarrow>
               Option.bind (jget_str ''content'' (messages ! idx)) (\<lambda>txt.
                 map_option (Pair idx) (parse_decision_prefix txt))))"

definition run_permission_intercept ::
    "'w loop_env \<Rightarrow> json \<Rightarrow> 'w loop_state \<Rightarrow> (json \<times> string list) option \<times> 'w loop_state" where
  "run_permission_intercept env body s =
     (case find_decision body of
        None \<Rightarrow> (None, s)
      | Some (idx, decision, remainder) \<Rightarrow>
          (case handle_decision env (with_array ''messages'' (strip_sentinel idx remainder) body) decision s of
             (res, s) \<Rightarrow> (Some res, s)))"

section \<open>The request\<close>

record chat_request =
  cr_stream :: "bool option"
  cr_model :: "string option"

record user_prefs =
  up_reply_language :: "string option"
  up_memory_enabled :: bool

record llm_config =
  lc_base_url :: string
  lc_api_key :: "string option"
  lc_default_model :: string
  lc_system_prompt :: "string option"
  lc_num_predict :: "nat option"
  lc_num_ctx :: "nat option"
  lc_allow_location :: bool
  lc_allow_timezone :: bool
  lc_allow_reply_language :: bool
  lc_allow_memory :: bool

text \<open>\<open>ce_memories\<close> of the loop environment is the memory source of the LLM state; \<open>ce_user\<close> the session's user.\<close>

record 'w chat_env =
  ce_loop :: "'w loop_env"
  ce_cfg :: llm_config
  ce_request :: "string \<Rightarrow> string + chat_request"
  ce_user :: "uuid option"
  ce_auth :: bool
  ce_prefs :: "uuid \<Rightarrow> 'w \<Rightarrow> (string + user_prefs) \<times> 'w"
  ce_models :: "string \<Rightarrow> 'w \<Rightarrow> json option \<times> 'w"

definition check_stream :: "chat_request \<Rightarrow> llm_error option" where
  "check_stream req =
     (case cr_stream req of
        Some True \<Rightarrow> None
      | Some False \<Rightarrow> Some (BadRequest ''stream must be true; this proxy only supports streaming responses'')
      | None \<Rightarrow> Some (BadRequest ''missing `stream` field; this proxy only supports streaming responses''))"

definition first_body :: "'w chat_env \<Rightarrow> string \<Rightarrow> json \<Rightarrow> json" where
  "first_body ce model body =
     (if as_object body = None then body
      else
        (let env = ce_loop ce;
             body = obj_insert ''stream'' (JBool True) (obj_insert ''model'' (JStr model) body);
             initial = build_tools_for_round (le_rnd env) (le_ln env) (le_perm env) (le_agents env) (le_router env) [] None []
         in if initial = [] then body
            else obj_insert ''tools'' (JArr (initial @ array_of ''tools'' body)) body))"

definition user_blocks :: "'w chat_env \<Rightarrow> json \<Rightarrow> 'w \<Rightarrow> json \<times> 'w" where
  "user_blocks ce body w =
     (case ce_user ce of
        Some user \<Rightarrow>
          (if \<not> ce_auth ce then (body, w)
           else (case ce_prefs ce user w of
                   (Inl e, w) \<Rightarrow> (body, w)
                 | (Inr prefs, w) \<Rightarrow>
                     (let body = (case build_reply_language_block (up_reply_language prefs) of
                                    Some block \<Rightarrow> inject_reply_language_block block body | None \<Rightarrow> body)
                      in if \<not> up_memory_enabled prefs then (body, w)
                         else (case le_memories (ce_loop ce) of
                                 None \<Rightarrow> (body, w)
                               | Some mem \<Rightarrow>
                                   (case ms_recall mem user None None None 10 w of
                                      (Inr rows, w) \<Rightarrow>
                                        ((case build_memories_block rows of
                                            Some block \<Rightarrow> inject_memories_block block body | None \<Rightarrow> body), w)
                                    | (Inl e, w) \<Rightarrow> (body, w))))))
      | None \<Rightarrow> (body, w))"

definition kill_switches :: "llm_config \<Rightarrow> json \<Rightarrow> json" where
  "kill_switches cfg body =
     strip_user_memories_if_disabled (lc_allow_memory cfg)
      (strip_user_reply_language_if_disabled (lc_allow_reply_language cfg)
        (strip_user_timezone_if_disabled (lc_allow_timezone cfg)
          (strip_user_location_if_disabled (lc_allow_location cfg) body)))"

definition prepare_body :: "'w chat_env \<Rightarrow> string \<Rightarrow> json \<Rightarrow> 'w \<Rightarrow> json \<times> 'w" where
  "prepare_body ce model body w =
     (let cfg = ce_cfg ce;
          body = first_body ce model body;
          body = inject_default_system_prompt (lc_system_prompt cfg) body;
          body = inject_ollama_num_predict (lc_num_predict cfg) body;
          body = inject_ollama_num_ctx (lc_num_ctx cfg) body;
          (body, w) = user_blocks ce body w
      in (kill_switches cfg body, w))"

section \<open>The upstream's errors and its models\<close>

definition model_ids :: "json \<Rightarrow> string list option" where
  "model_ids v =
     map_option (List.map_filter (jget_str ''id'')) (Option.bind (jget ''data'' v) as_array)"

definition upstream_url :: "llm_config \<Rightarrow> string \<Rightarrow> string" where
  "upstream_url cfg path = trim_end_matches (CHR ''/'') (lc_base_url cfg) @ path"

definition first_error :: "'w chat_env \<Rightarrow> nat \<Rightarrow> string \<Rightarrow> 'w \<Rightarrow> llm_error \<times> 'w" where
  "first_error ce status txt w =
     (case detect_model_not_found (le_js (ce_loop ce)) status txt of
        Some (name, upstream_message) \<Rightarrow>
          (case ce_models ce (upstream_url (ce_cfg ce) ''/v1/models'') w of
             (answer, w) \<Rightarrow> (ModelNotFound name upstream_message (Option.bind answer model_ids), w))
      | None \<Rightarrow> (LlmUpstream status txt, w))"

text \<open>\<open>fetch_upstream_model_list\<close>: the answer is None for a timeout, a transport error or a bad status.\<close>

definition fetch_upstream_model_list :: "llm_config \<Rightarrow> json option \<Rightarrow> string list" where
  "fetch_upstream_model_list cfg answer =
     (case answer of
        None \<Rightarrow> [lc_default_model cfg]
      | Some v \<Rightarrow> (let models = unwrap_or [] (model_ids v) in if models \<noteq> [] then models else [lc_default_model cfg]))"

definition models_list :: "json_codec \<Rightarrow> llm_config \<Rightarrow> json option \<Rightarrow> response" where
  "models_list js cfg answer =
     json_ok (js_show js (JObj [(''object'', JStr ''list''),
       (''data'', JArr (map (\<lambda>i. JObj [(''id'', JStr i), (''object'', JStr ''model'')])
                         (fetch_upstream_model_list cfg answer)))]))"

definition auth_header :: "llm_config \<Rightarrow> (string \<times> string) option" where
  "auth_header cfg =
     Option.bind (lc_api_key cfg) (\<lambda>key.
       if list_all (\<lambda>c. (32 \<le> byte c \<and> byte c < 127) \<or> byte c = 9) key
       then Some (''authorization'', ''Bearer '' @ key) else None)"

section \<open>The handler\<close>

definition chat_completions ::
    "'w chat_env \<Rightarrow> string \<Rightarrow> 'w loop_state \<Rightarrow> (llm_error + string list) \<times> 'w loop_state" where
  "chat_completions ce raw s =
     (let env = ce_loop ce; js = le_js env
      in case ce_request ce raw of
           Inl e \<Rightarrow> (Inl (BadRequest (''invalid json body: '' @ e)), s)
         | Inr req \<Rightarrow>
             (case check_stream req of
                Some err \<Rightarrow> (Inl err, s)
              | None \<Rightarrow>
                  (case js_parse js raw of
                     None \<Rightarrow> (Inl (BadRequest (''invalid json body: '' @ js_error js raw)), s)
                   | Some body0 \<Rightarrow>
                       (let model = unwrap_or (lc_default_model (ce_cfg ce)) (cr_model req);
                            (forward_body, w) = prepare_body ce model body0 (ls_world s);
                            (answer, w) = le_post env forward_body w;
                            s = traced (Posted forward_body) (s\<lparr>ls_world := w\<rparr>)
                        in case answer of
                             UpFailed e \<Rightarrow> (Inl (BadRequest (''upstream connect failed: '' @ e)), s)
                           | UpStatus status txt \<Rightarrow>
                               (case first_error ce status txt (ls_world s) of
                                  (err, w) \<Rightarrow> (Inl err, s\<lparr>ls_world := w\<rparr>))
                           | UpStream first_stream \<Rightarrow>
                               (case run_permission_intercept env forward_body s of
                                  (decided, s) \<Rightarrow>
                                    (let (body_for_loop, pre_frames) =
                                           (case decided of Some r \<Rightarrow> r | None \<Rightarrow> (forward_body, []))
                                     in (Inr pre_frames, run_tool_loop env first_stream body_for_loop s)))))))"

text \<open>What the client receives: the pre-frames, then what the loop wrote to its channel.\<close>

definition merge_pre_then_loop :: "string list \<Rightarrow> channel \<Rightarrow> frame list" where
  "merge_pre_then_loop pre ch = map FBytes pre @ ch_out ch"

end
