(* ===== verification/Llm_Sse_Props.thy ===== *)
theory Llm_Sse_Props
  imports Llm_Sse
begin

text \<open>
  What the event reader and the drain of a round do: the events are those of the whole text
  whatever the chunks are, and the drain forwards them up to the sentinel \<open>[DONE]\<close>, the first
  failed send or the first read error.
\<close>

section \<open>The first blank line\<close>

lemma strip_prefix_append_Some: "strip_prefix p s = Some r \<Longrightarrow> strip_prefix p (s @ t) = Some (r @ t)"
  by (simp add: strip_prefix_iff)

lemma strip_prefix_append_None:
  "strip_prefix p s = None \<Longrightarrow> length p \<le> length s \<Longrightarrow> strip_prefix p (s @ t) = None"
  by (induction p s rule: strip_prefix.induct) auto

lemma split_once_append:
  "split_once p s = Some (a, b) \<Longrightarrow> split_once p (s @ t) = Some (a, b @ t)"
proof (induction p s arbitrary: a rule: split_once.induct)
  case (1 p)
  then show ?case by (cases t) (auto split: if_splits)
next
  case (2 p c s)
  show ?case
  proof (cases "strip_prefix p (c # s)")
    case (Some r)
    then show ?thesis using 2 strip_prefix_append_Some [OF Some, of t] by simp
  next
    case None
    then obtain a' where a': "split_once p s = Some (a', b)" "a = c # a'"
      using "2.prems" by (auto split: option.splits)
    have "length p \<le> length (c # s)" using split_once_length [OF a'(1)] by simp
    then have "strip_prefix p (c # s @ t) = None" using strip_prefix_append_None [OF None, of t] by simp
    with "2.IH" [OF None a'(1)] a'(2) show ?thesis by simp
  qed
qed

section \<open>Events of a text\<close>

function frames :: "string \<Rightarrow> sse_event list" where
  "frames s =
     (case split_once blank_line s of
        Some (raw, rest) \<Rightarrow> parse_sse_frame raw # frames rest
      | None \<Rightarrow> if trim s = [] then [] else [parse_sse_frame s])"
  by pat_completeness auto
termination
  by (relation "measure length") (auto simp: blank_line_def dest!: split_once_length)

declare frames.simps [simp del]

function events_of :: "sse_stream \<Rightarrow> sse_event list \<times> string option" where
  "events_of s =
     (case next_event s of
        (s', Inl e) \<Rightarrow> ([], Some e)
      | (s', Inr None) \<Rightarrow> ([], None)
      | (s', Inr (Some ev)) \<Rightarrow> (case events_of s' of (es, r) \<Rightarrow> (ev # es, r)))"
  by pat_completeness auto
termination
proof (relation "measure stream_size", goal_cases)
  case 2
  then show ?case using next_event_decreases by (metis in_measure)
qed simp

declare events_of.simps [simp del]

abbreviation decoded :: "string list \<Rightarrow> string" where
  "decoded cs \<equiv> concat (map from_utf8_lossy cs)"

lemma next_event_frames:
  assumes "next_event_loop (map Chunk cs) buf = (s', r)"
  shows "\<exists>cs'. ss_src s' = map Chunk cs' \<and>
           (case r of
              Inl e \<Rightarrow> False
            | Inr None \<Rightarrow> frames (buf @ decoded cs) = []
            | Inr (Some ev) \<Rightarrow> frames (buf @ decoded cs) = ev # frames (ss_buf s' @ decoded cs'))"
  using assms
proof (induction cs arbitrary: buf)
  case Nil
  show ?case
  proof (cases "split_once blank_line buf")
    case None
    then show ?thesis
      using Nil by (auto simp: next_event_loop.simps [of "[]"] frames.simps [of buf] frames.simps [of "[]"] blank_line_def split: if_splits)
  next
    case (Some ab)
    then show ?thesis
      using Nil by (cases ab) (auto simp: next_event_loop.simps [of "[]"] frames.simps [of buf] intro!: exI [of _ "[]"])
  qed
next
  case (Cons c cs)
  show ?case
  proof (cases "split_once blank_line buf")
    case None
    then have "next_event_loop (map Chunk cs) (buf @ from_utf8_lossy c) = (s', r)"
      using Cons.prems next_event_loop.simps [of "map Chunk (c # cs)" buf] by simp
    moreover have "buf @ decoded (c # cs) = (buf @ from_utf8_lossy c) @ decoded cs" by simp
    ultimately show ?thesis using Cons.IH [of "buf @ from_utf8_lossy c"] by metis
  next
    case (Some ab)
    obtain a b where ab: "ab = (a, b)" by (cases ab)
    have "split_once blank_line (buf @ decoded (c # cs)) = Some (a, b @ decoded (c # cs))"
      using split_once_append Some ab by blast
    then have f: "frames (buf @ decoded (c # cs)) = parse_sse_frame a # frames (b @ decoded (c # cs))"
      by (subst frames.simps) simp
    have "s' = \<lparr>ss_src = map Chunk (c # cs), ss_buf = b\<rparr>" "r = Inr (Some (parse_sse_frame a))"
      using Cons.prems Some ab next_event_loop.simps [of "map Chunk (c # cs)" buf] by simp_all
    with f show ?thesis by (intro exI [of _ "c # cs"]) simp
  qed
qed

lemma events_of_frames:
  "ss_src s = map Chunk cs \<Longrightarrow> events_of s = (frames (ss_buf s @ decoded cs), None)"
proof (induction s arbitrary: cs rule: events_of.induct)
  case (1 s)
  obtain s' r where step: "next_event s = (s', r)" by (cases "next_event s")
  from step "1.prems" have "next_event_loop (map Chunk cs) (ss_buf s) = (s', r)" by (simp add: next_event_def)
  from next_event_frames [OF this] obtain cs' where cs': "ss_src s' = map Chunk cs'"
    and r: "case r of Inl e \<Rightarrow> False | Inr None \<Rightarrow> frames (ss_buf s @ decoded cs) = []
            | Inr (Some ev) \<Rightarrow> frames (ss_buf s @ decoded cs) = ev # frames (ss_buf s' @ decoded cs')"
    by blast
  show ?case
  proof (cases r)
    case (Inl e)
    then show ?thesis using r by simp
  next
    case inr: (Inr o')
    show ?thesis
    proof (cases o')
      case None
      then show ?thesis using inr r step by (simp add: events_of.simps [of s])
    next
      case (Some ev)
      have "events_of s' = (frames (ss_buf s' @ decoded cs'), None)"
        using "1.IH" cs' step inr Some by simp
      then show ?thesis using inr Some r step by (simp add: events_of.simps [of s])
    qed
  qed
qed

text \<open>
  C38: The events the reader yields are those of the decoded text as a whole, wherever the
  network cut it, and two ways to cut the same bytes give the same events when no chunk ends
  inside a character.
\<close>

theorem sse_chunking:
  "events_of (sse_new (map Chunk cs)) = (frames (decoded cs), None)
   \<and> (list_all valid_utf8 (cs @ ds) \<and> concat cs = concat ds
        \<longrightarrow> events_of (sse_new (map Chunk cs)) = events_of (sse_new (map Chunk ds)))"
proof -
  have e: "events_of (sse_new (map Chunk cs)) = (frames (decoded cs), None)" for cs
    using events_of_frames [of "sse_new (map Chunk cs)" cs] by (simp add: sse_new_def)
  then show ?thesis using lossy_concat [of cs] lossy_concat [of ds] by auto
qed

lemma sse_chunking_witness:
  "events_of (sse_new (map Chunk [''data: a'', nl, nl])) = events_of (sse_new (map Chunk [''data:'', '' a'' @ blank_line]))"
proof -
  have "list_all valid_utf8 ([''data: a'', nl, nl] @ [''data:'', '' a'' @ blank_line])"
    by (simp add: valid_ascii nl_def blank_line_def byte_def)
  moreover have "concat [''data: a'', nl, nl] = concat [''data:'', '' a'' @ blank_line]"
    by (simp add: nl_def blank_line_def)
  ultimately show ?thesis
    using sse_chunking [of "[''data: a'', nl, nl]" "[''data:'', '' a'' @ blank_line]"] by blast
qed

section \<open>What the drain forwards\<close>

definition is_done :: "sse_event \<Rightarrow> bool" where
  "is_done ev \<longleftrightarrow> trim (ev_data ev) = ''[DONE]''"

definition accepted :: "nat option \<Rightarrow> 'a list \<Rightarrow> 'a list" where
  "accepted left xs = (case left of None \<Rightarrow> xs | Some n \<Rightarrow> take n xs)"

definition drained :: "json_codec \<Rightarrow> sse_event list \<Rightarrow> drain_state \<Rightarrow> drain_state" where
  "drained js evs d = foldl (\<lambda>d ev. drain_data js (ev_data ev) d) d evs"

definition drain_spec :: "json_codec \<Rightarrow> sse_event list \<Rightarrow> string option \<Rightarrow> drain_state \<Rightarrow> nat option \<Rightarrow> string + round_outcome" where
  "drain_spec js evs err d left =
     (let body = takeWhile (\<lambda>ev. \<not> is_done ev) evs; sent = accepted left body
      in if length sent < length body \<or> list_ex is_done evs \<or> err = None
         then Inr (outcome_of (drained js sent d)) else Inl (the err))"

definition after_sends :: "nat option \<Rightarrow> nat \<Rightarrow> nat option" where
  "after_sends left n = map_option (\<lambda>l. l - n) left"

lemma tx_send_cases:
  "tx_send f ch = (if ch_left ch = Some 0 then (ch, False)
                   else (ch\<lparr>ch_out := ch_out ch @ [f], ch_left := after_sends (ch_left ch) 1\<rparr>, True))"
  by (cases ch) (auto simp: tx_send_def after_sends_def split: option.splits nat.splits)

lemma accepted_simps [simp]: "accepted left [] = []" "accepted (Some 0) xs = []"
  by (simp_all add: accepted_def split: option.splits)

lemma after_sends_0 [simp]: "after_sends left 0 = left"
  by (simp add: after_sends_def option.map_ident)

lemma accepted_Cons: "left \<noteq> Some 0 \<Longrightarrow> accepted left (x # xs) = x # accepted (after_sends left 1) xs"
  by (cases left) (auto simp: accepted_def after_sends_def take_Cons' split: option.splits)

lemma drain_loop_exact:
  "drain_loop js s d ch =
     (case events_of s of
        (evs, err) \<Rightarrow>
          (drain_spec js evs err d (ch_left ch),
           (let sent = accepted (ch_left ch) (takeWhile (\<lambda>ev. \<not> is_done ev) evs)
            in ch\<lparr>ch_out := ch_out ch @ map (\<lambda>ev. FBytes (forwarded ev)) sent,
                  ch_left := after_sends (ch_left ch) (length sent)\<rparr>)))"
proof (induction js s d ch rule: drain_loop.induct)
  case (1 js s d ch)
  have idle: "ch\<lparr>ch_left := ch_left ch\<rparr> = ch"
    by (cases ch) simp
  obtain s' r where step: "next_event s = (s', r)" by (cases "next_event s")
  show ?case
  proof (cases r)
    case (Inl e)
    then show ?thesis
      using step idle
      by (simp add: drain_loop.simps [of js s] events_of.simps [of s] drain_spec_def)
  next
    case inr: (Inr o')
    show ?thesis
    proof (cases o')
      case None
      then show ?thesis
        using step inr idle
        by (simp add: drain_loop.simps [of js s] events_of.simps [of s] drain_spec_def drained_def)
    next
      case (Some ev)
      obtain es err where rest: "events_of s' = (es, err)" by (cases "events_of s'")
      have evs: "events_of s = (ev # es, err)" using step inr Some rest by (simp add: events_of.simps [of s])
      show ?thesis
      proof (cases "is_done ev")
        case True
        then show ?thesis
          using step inr Some evs idle
          by (simp add: drain_loop.simps [of js s] is_done_def drain_spec_def drained_def)
      next
        case going: False
        show ?thesis
        proof (cases "ch_left ch = Some 0")
          case True
          then show ?thesis
            using step inr Some evs going idle
            by (simp add: drain_loop.simps [of js s] is_done_def [symmetric] tx_send_cases drain_spec_def drained_def)
        next
          case False
          let ?ch = "ch\<lparr>ch_out := ch_out ch @ [FBytes (forwarded ev)], ch_left := after_sends (ch_left ch) 1\<rparr>"
          have "drain_loop js s d ch = drain_loop js s' (drain_data js (ev_data ev) d) ?ch"
            using step inr Some going False by (simp add: drain_loop.simps [of js s d] is_done_def tx_send_cases)
          moreover have tx: "(?ch, True) = tx_send (FBytes (forwarded ev)) ch"
            using False by (simp add: tx_send_cases)
          moreover note "1.IH" [OF step [symmetric] inr Some _ tx refl]
          moreover have "after_sends (after_sends l 1) n = after_sends l (Suc n)" for l n
            by (cases l) (simp_all add: after_sends_def)
          ultimately show ?thesis
            using going evs rest False
            by (simp add: is_done_def drain_spec_def accepted_Cons drained_def Let_def)
        qed
      qed
    qed
  qed
qed

text \<open>
  C29: A round forwards, in order and each as one frame, the events before the sentinel
  \<open>[DONE]\<close>, or the first of them the client still takes, and not the sentinel itself; what it
  reports is what their data say, and a read error is reported only when neither the sentinel nor a disconnection came
  first.
\<close>

theorem drain_exact:
  "drain_upstream_round js src ch =
     (case events_of (sse_new src) of
        (evs, err) \<Rightarrow>
          (drain_spec js evs err drain_init (ch_left ch),
           (let sent = accepted (ch_left ch) (takeWhile (\<lambda>ev. \<not> is_done ev) evs)
            in ch\<lparr>ch_out := ch_out ch @ map (\<lambda>ev. FBytes (forwarded ev)) sent,
                  ch_left := after_sends (ch_left ch) (length sent)\<rparr>)))"
  unfolding drain_upstream_round_def by (rule drain_loop_exact)

section \<open>Where the reader departs from the format\<close>

text \<open>Events separated by CRLF lines are not separated: the two become one at the end of the stream.\<close>

lemma crlf_not_split:
  "frames (''data: a'' @ [CHR 0x0D, CHR 0x0A, CHR 0x0D, CHR 0x0A] @ ''data: b'' @ [CHR 0x0D, CHR 0x0A, CHR 0x0D, CHR 0x0A])
   = [\<lparr>ev_name = None, ev_data = ''a'' @ nl @ ''b''\<rparr>]"
  by code_simp

text \<open>An event with two data lines is forwarded with only the first of them as data.\<close>

lemma multi_line_data_lost:
  "map ev_data (frames (''data: a'' @ nl @ ''data: b'' @ blank_line)) = [''a'' @ nl @ ''b'']
   \<and> map ev_data (frames (forwarded \<lparr>ev_name = None, ev_data = ''a'' @ nl @ ''b''\<rparr>)) = [''a'']"
  by code_simp

text \<open>
  An event with an empty data line inside is forwarded as two events, and the second can be the
  sentinel, though the event is no sentinel for the loop.
\<close>

lemma sentinel_smuggled:
  "frames (''data: a'' @ nl @ ''data: '' @ nl @ ''data: data: [DONE]'' @ blank_line) = [\<lparr>ev_name = None, ev_data = ''a'' @ blank_line @ ''data: [DONE]''\<rparr>]
   \<and> \<not> is_done \<lparr>ev_name = None, ev_data = ''a'' @ blank_line @ ''data: [DONE]''\<rparr>
   \<and> forwarded \<lparr>ev_name = None, ev_data = ''a'' @ blank_line @ ''data: [DONE]''\<rparr> = ''data: a'' @ blank_line @ done_frame"
  by code_simp

text \<open>A character that two chunks share is replaced, here the two bytes of e-acute.\<close>

lemma split_character:
  "map ev_data (frames (decoded [''data: '' @ [CHR 0xC3], [CHR 0xA9] @ blank_line])) = [replacement @ replacement]
   \<and> map ev_data (frames (decoded [''data: '' @ [CHR 0xC3, CHR 0xA9] @ blank_line])) = [[CHR 0xC3, CHR 0xA9]]"
  by code_simp

section \<open>The events of the proxy read back\<close>

text \<open>The printer writes an object on one line, between braces.\<close>

definition compact :: "json_codec \<Rightarrow> json \<Rightarrow> bool" where
  "compact js v \<longleftrightarrow>
     js_show js v \<noteq> [] \<and> hd (js_show js v) = CHR ''{'' \<and> last (js_show js v) = CHR ''}''
     \<and> CHR 0x0A \<notin> set (js_show js v)"

lemma split_blank_here:
  "CHR 0x0A \<notin> set y \<Longrightarrow> split_once blank_line (y @ blank_line @ rest) = Some (y, rest)"
  by (induction y) (auto simp: blank_line_def)

lemma split_blank_later:
  "CHR 0x0A \<notin> set a \<Longrightarrow> z \<noteq> [] \<Longrightarrow> hd z \<noteq> CHR 0x0A \<Longrightarrow>
   split_once blank_line (a @ nl @ z) = map_option (\<lambda>(p, q). (a @ nl @ p, q)) (split_once blank_line z)"
proof (induction a)
  case Nil
  then show ?case by (cases z) (auto simp: nl_def blank_line_def)
next
  case (Cons c a)
  then show ?case by (auto simp: blank_line_def option.map_comp comp_def case_prod_beta split: option.splits)
qed

lemma event_names_trim:
  "name \<in> {''tool_call'', ''tool_result'', ''error'', ''round_paused''} \<Longrightarrow>
   trim ('' '' @ name) = name \<and> trim_end_matches (CHR 0x0D) (''event: '' @ name) = ''event: '' @ name
   \<and> CHR 0x0A \<notin> set name"
proof -
  have "list_all (\<lambda>name. trim ('' '' @ name) = name \<and> trim_end_matches (CHR 0x0D) (''event: '' @ name) = ''event: '' @ name
   \<and> \<not> list_ex (\<lambda>c. c = CHR 0x0A) name) [''tool_call'', ''tool_result'', ''error'', ''round_paused'']"
    by code_simp
  then show "name \<in> {''tool_call'', ''tool_result'', ''error'', ''round_paused''} \<Longrightarrow> ?thesis"
    by (auto simp: list_ex_iff)
qed

text \<open>
  An event the proxy adds is, for a reader of the stream, one event with its name and the
  printed payload as its data, and the events after it are not affected.
\<close>

theorem sse_frame_roundtrip:
  assumes "compact js v" "name \<in> {''tool_call'', ''tool_result'', ''error'', ''round_paused''}"
  shows "frames (sse_frame js name v @ rest) = \<lparr>ev_name = Some name, ev_data = js_show js v\<rparr> # frames rest"
proof -
  obtain p where p: "js_show js v = CHR ''{'' # p" "CHR 0x0A \<notin> set p" "last (CHR ''{'' # p) = CHR ''}''"
    using assms(1) by (cases "js_show js v") (auto simp: compact_def)
  note name = event_names_trim [OF assms(2)]
  let ?ev = "''event: '' @ name" and ?data = "''data: {'' @ p"
  have raw: "split_once blank_line (sse_frame js name v @ rest) = Some (?ev @ nl @ ?data, rest)"
    using split_blank_later [of ?ev "?data @ blank_line @ rest"] split_blank_here [of ?data rest] name p
    by (simp add: sse_frame_def)
  have pieces: "split_char (CHR 0x0A) (?ev @ nl @ ?data) = [?ev, ?data]"
    using split_char_append [of "CHR 0x0A" ?ev ?data] split_char_none [of "CHR 0x0A" ?data] name p by (simp add: nl_def)
  have data: "trim_end_matches (CHR 0x0D) ?data = ?data"
    using p(3) by (intro trim_end_matches_last) auto
  have start: "trim_start ('' {'' @ p) = CHR ''{'' # p"
    by (simp add: trim_start_ascii ascii_ws_def byte_def)
  show ?thesis
    using raw name p data start pieces
    by (subst frames.simps) (simp add: parse_sse_frame_def parse_sse_line_def)
qed

lemma sse_frame_roundtrip_witness:
  "frames (sse_frame \<lparr>js_parse = (\<lambda>_. None), js_error = (\<lambda>_. []), js_show = (\<lambda>_. ''{}'')\<rparr> ''error'' (JObj []) @ done_frame)
   = [\<lparr>ev_name = Some ''error'', ev_data = ''{}''\<rparr>, \<lparr>ev_name = None, ev_data = ''[DONE]''\<rparr>]"
proof -
  have "frames done_frame = [\<lparr>ev_name = None, ev_data = ''[DONE]''\<rparr>]" by code_simp
  then show ?thesis
    using sse_frame_roundtrip [of "\<lparr>js_parse = (\<lambda>_. None), js_error = (\<lambda>_. []), js_show = (\<lambda>_. ''{}'')\<rparr>" "JObj []" "''error''" done_frame]
    by (simp add: compact_def)
qed

end
