(* ===== verification/Llm_Loop_Props.thy ===== *)
theory Llm_Loop_Props
  imports Llm_Tool_Loop Llm_Sse_Props
begin

text \<open>
  The tool loop as a whole: who allowed the agents it invoked, how many requests it makes, what
  it adds to the conversation and how its output ends.
\<close>

section \<open>Frame conditions\<close>

lemma st_send_fields [simp]:
  "ls_world (st_send b s) = ls_world s" "ls_store (st_send b s) = ls_store s"
  "ls_discovered (st_send b s) = ls_discovered s" "ls_trace (st_send b s) = ls_trace s"
  by (simp_all add: st_send_def)

lemma st_send_err_fields [simp]:
  "ls_world (st_send_err b s) = ls_world s" "ls_store (st_send_err b s) = ls_store s"
  "ls_discovered (st_send_err b s) = ls_discovered s" "ls_trace (st_send_err b s) = ls_trace s"
  by (simp_all add: st_send_err_def)

lemma traced_fields [simp]:
  "ls_world (traced e s) = ls_world s" "ls_store (traced e s) = ls_store s"
  "ls_discovered (traced e s) = ls_discovered s" "ls_trace (traced e s) = ls_trace s @ [e]"
  "ls_chan (traced e s) = ls_chan s"
  by (simp_all add: traced_def)

lemma has_override_on_session:
  assumes "\<And>st. sp_overrides (f st) = sp_overrides st"
  shows "has_override sid' n (on_session now sid f store) = has_override sid' n store"
  using assms
  by (auto simp: has_override_def on_session_def Let_def dash_get_put evict_expired_def default_session_def
           split: option.splits)

lemma has_override_set_pending [simp]:
  "has_override sid' n (set_pending now now' sid i tool args store) = has_override sid' n store"
  by (simp add: set_pending_def has_override_on_session)

lemma has_override_take_pending [simp]:
  "has_override sid' n (fst (take_pending now sid i store)) = has_override sid' n store"
  by (simp add: take_pending_def Let_def has_override_on_session)

lemma has_override_add_override:
  "has_override sid' n (add_override now sid tool store) \<longleftrightarrow> (sid' = sid \<and> n = tool) \<or> has_override sid' n store"
  by (auto simp: has_override_def add_override_def on_session_def Let_def dash_get_put evict_expired_def
                 default_session_def split: option.splits)

section \<open>Who allowed an invocation\<close>

definition permitted_call :: "'w loop_env \<Rightarrow> permission_store \<Rightarrow> string \<Rightarrow> json \<Rightarrow> bool" where
  "permitted_call env store name args \<longleftrightarrow>
     (\<exists>a. registry_get (unwrap_or registry_empty (le_agents env)) name = Some a
        \<and> (ag_requires_confirmation a (call_context env) args = Allow
           \<or> ag_allow_session_override a
             \<and> (\<exists>sid. le_session env = Some sid \<and> has_override sid name store)))"

fun permitted :: "'w loop_env \<Rightarrow> permission_store \<Rightarrow> trace_event \<Rightarrow> bool" where
  "permitted env store (Posted body) = True"
| "permitted env store (Invoked i name args) = permitted_call env store name args"

fun is_post :: "trace_event \<Rightarrow> bool" where
  "is_post (Posted _) = True"
| "is_post (Invoked _ _ _) = False"

definition same_overrides :: "permission_store \<Rightarrow> permission_store \<Rightarrow> bool" where
  "same_overrides st st' \<longleftrightarrow> (\<forall>sid n. has_override sid n st' = has_override sid n st)"

lemma permitted_same: "same_overrides st st' \<Longrightarrow> permitted env st' ev = permitted env st ev"
  by (cases ev) (auto simp: same_overrides_def permitted_call_def)

text \<open>\<open>s'\<close> continues \<open>s\<close>: permitted events only, at most \<open>n\<close> of them requests, the overrides unchanged.\<close>

definition extends :: "'w loop_env \<Rightarrow> nat \<Rightarrow> 'w loop_state \<Rightarrow> 'w loop_state \<Rightarrow> bool" where
  "extends env n s s' \<longleftrightarrow>
     (\<exists>evs. ls_trace s' = ls_trace s @ evs \<and> list_all (permitted env (ls_store s)) evs \<and> length (filter is_post evs) \<le> n)
     \<and> same_overrides (ls_store s) (ls_store s')"

lemma extends_quiet: "ls_trace s' = ls_trace s \<Longrightarrow> same_overrides (ls_store s) (ls_store s') \<Longrightarrow> extends env 0 s s'"
  by (auto simp: extends_def)

lemma same_overrides_refl [simp]: "same_overrides st st"
  by (simp add: same_overrides_def)

lemma extends_trans:
  assumes "extends env m s s'" "extends env n s' s''"
  shows "extends env (m + n) s s''"
proof -
  obtain evs where e: "ls_trace s' = ls_trace s @ evs" "list_all (permitted env (ls_store s)) evs"
    "length (filter is_post evs) \<le> m" and o1: "same_overrides (ls_store s) (ls_store s')"
    using assms(1) by (auto simp: extends_def)
  obtain evs' where e': "ls_trace s'' = ls_trace s' @ evs'" "list_all (permitted env (ls_store s')) evs'"
    "length (filter is_post evs') \<le> n" and o2: "same_overrides (ls_store s') (ls_store s'')"
    using assms(2) by (auto simp: extends_def)
  have "list_all (permitted env (ls_store s)) evs'"
    using e'(2) permitted_same [OF o1] by (auto simp: list_all_iff)
  then show ?thesis
    using e e' o1 o2 unfolding extends_def
    by (intro conjI exI [of _ "evs @ evs'"]) (auto simp: same_overrides_def)
qed

lemma extends_mono: "extends env m s s' \<Longrightarrow> m \<le> n \<Longrightarrow> extends env n s s'"
  by (auto simp: extends_def intro: le_trans)

lemma force_allow_iff:
  "registry_get (unwrap_or registry_empty (le_agents env)) name = Some a \<Longrightarrow>
   force_allow env store name \<longleftrightarrow>
     ag_allow_session_override a \<and> (\<exists>sid. le_session env = Some sid \<and> has_override sid name store)"
  by (auto simp: force_allow_def split: option.splits)

lemma refuse_call_extends: "extends env 0 s (refuse_call env tc name args reason s)"
  by (rule extends_quiet) (auto simp: refuse_call_def Let_def same_overrides_def split: option.splits)

lemma invoke_agent_extends:
  assumes "permitted_call env (ls_store s) name args"
  shows "extends env 0 s (fst (invoke_agent env tc name args a s))"
proof -
  have "ls_trace (fst (invoke_agent env tc name args a s)) = ls_trace s @ [Invoked (tc_id tc) name args]
    \<and> ls_store (fst (invoke_agent env tc name args a s)) = ls_store s"
    by (auto simp: invoke_agent_def Let_def case_prod_beta split: option.splits)
  then show ?thesis using assms by (auto simp: extends_def)
qed

fun result_state :: "'w call_result \<Rightarrow> 'w loop_state" where
  "result_state (Paused s) = s"
| "result_state (Answered s m) = s"

lemma run_call_extends: "extends env 0 s (result_state (run_call env r tc s))"
proof (cases "tc_name tc")
  case None
  then show ?thesis by (simp add: run_call_def extends_quiet)
next
  case (Some name)
  let ?s = "st_send (sse_tool_call_event (le_js env) (tc_id tc) name (tc_arguments tc) r) s"
  let ?args = "unwrap_or JNull (js_parse (le_js env) (tc_arguments tc))"
  have start: "extends env 0 s ?s" by (simp add: extends_quiet)
  show ?thesis
  proof (cases "registry_get (unwrap_or registry_empty (le_agents env)) name")
    case None
    then show ?thesis using Some by (simp add: run_call_def Let_def extends_quiet)
  next
    case agent: (Some a)
    let ?decision = "if force_allow env (ls_store ?s) name then Allow else ag_requires_confirmation a (call_context env) ?args"
    show ?thesis
    proof (cases ?decision)
      case Allow
      then have "permitted_call env (ls_store ?s) name ?args"
        using agent force_allow_iff [OF agent] by (auto simp: permitted_call_def split: if_splits)
      then have "extends env 0 ?s (fst (invoke_agent env tc name ?args a ?s))" by (rule invoke_agent_extends)
      with start have "extends env (0 + 0) s (fst (invoke_agent env tc name ?args a ?s))" by (rule extends_trans)
      moreover have "run_call env r tc s = (case invoke_agent env tc name ?args a ?s of (s, m) \<Rightarrow> Answered s m)"
        using Some agent Allow by (simp add: run_call_def Let_def)
      ultimately show ?thesis by (simp add: case_prod_beta)
    next
      case (NeedsConfirmation reason)
      have "extends env (0 + 0) s (refuse_call env tc name ?args reason ?s)"
        using start refuse_call_extends by (rule extends_trans)
      moreover have "run_call env r tc s = Paused (refuse_call env tc name ?args reason ?s)"
        using Some agent NeedsConfirmation by (simp add: run_call_def Let_def)
      ultimately show ?thesis by simp
    qed
  qed
qed

lemma run_calls_extends: "extends env 0 s (fst (run_calls env r tcs pushed s))"
proof (induction tcs arbitrary: pushed s)
  case Nil
  then show ?case by (simp add: extends_quiet)
next
  case (Cons tc tcs)
  have step: "extends env 0 s (result_state (run_call env r tc s))" by (rule run_call_extends)
  show ?case
  proof (cases "run_call env r tc s")
    case (Paused s1)
    then show ?thesis using step by simp
  next
    case (Answered s1 m)
    then have "extends env (0 + 0) s (fst (run_calls env r tcs (pushed @ [m]) s1))"
      using step Cons.IH by (intro extends_trans) auto
    then show ?thesis using Answered by simp
  qed
qed

fun round_state :: "'w round_result \<Rightarrow> 'w loop_state" where
  "round_state (Finished s) = s"
| "round_state (NextRound body ct s) = s"

lemma round_step_extends: "extends env 0 s (round_state (round_step env stream body ct s))"
proof -
  obtain drained ch where d: "drain_upstream_round (le_js env) stream (ls_chan s) = (drained, ch)"
    by (cases "drain_upstream_round (le_js env) stream (ls_chan s)")
  let ?s = "s\<lparr>ls_chan := ch\<rparr>"
  have s: "extends env 0 s ?s" by (simp add: extends_quiet)
  show ?thesis
  proof (cases drained)
    case (Inl e)
    then show ?thesis using d by (simp add: round_step_def extends_quiet)
  next
    case (Inr outcome)
    obtain s' answers where c: "run_calls env (ct_tool_round ct + 1) (ro_tool_calls outcome) [] ?s = (s', answers)"
      by (cases "run_calls env (ct_tool_round ct + 1) (ro_tool_calls outcome) [] ?s")
    have "extends env 0 ?s s'" using run_calls_extends [of env ?s] c by (metis fst_conv)
    then have "extends env (0 + 0) s s'" using s by (intro extends_trans)
    then show ?thesis
      using d Inr c by (auto simp: round_step_def Let_def extends_quiet split: option.splits)
  qed
qed

lemma open_round_extends: "extends env 1 s (fst (open_round env body s))"
proof -
  have "\<exists>b. ls_trace (fst (open_round env body s)) = ls_trace s @ [Posted b]"
    "ls_store (fst (open_round env body s)) = ls_store s"
    by (auto simp: open_round_def Let_def split: prod.splits upstream_answer.splits)
  then show ?thesis by (auto simp: extends_def)
qed

lemma tool_loop_extends: "extends env (rounds_left env ct) s (tool_loop env stream body ct s)"
proof (induction env stream body ct s rule: tool_loop.induct)
  case (1 env stream body ct s)
  have step: "extends env 0 s (round_state (round_step env stream body ct s))" by (rule round_step_extends)
  show ?case
  proof (cases "round_step env stream body ct s")
    case (Finished s1)
    then show ?thesis using step extends_mono [of env 0 s s1] by (simp add: tool_loop.simps [of env stream])
  next
    case (NextRound body1 ct1 s1)
    note less = round_step_progress [OF NextRound, THEN conjunct1]
    obtain s2 nxt where o: "open_round env body1 s1 = (s2, nxt)" by (cases "open_round env body1 s1")
    have "extends env 1 s1 s2" using open_round_extends [of env s1 body1] o by simp
    with step NextRound have s2: "extends env (0 + 1) s s2" by (intro extends_trans) auto
    show ?thesis
    proof (cases nxt)
      case None
      then show ?thesis
        using extends_mono [OF s2, of "rounds_left env ct"] less NextRound o by (simp add: tool_loop.simps [of env stream])
    next
      case (Some bs)
      obtain body2 stream2 where bs: "bs = (body2, stream2)" by (cases bs)
      have "extends env (rounds_left env ct1) s2 (tool_loop env stream2 body2 ct1 s2)"
        using "1.IH" [OF NextRound] o Some bs by simp
      with s2 have "extends env (0 + 1 + rounds_left env ct1) s (tool_loop env stream2 body2 ct1 s2)" by (rule extends_trans)
      then have "extends env (rounds_left env ct) s (tool_loop env stream2 body2 ct1 s2)"
        using less by (rule_tac extends_mono) auto
      then show ?thesis using NextRound o Some bs by (simp add: tool_loop.simps [of env stream])
    qed
  qed
qed

text \<open>
  C2: Every agent the loop invokes was allowed: its own gate let the call with those arguments
  pass, or the session holds an override for it and the agent accepts overrides. The requests
  the loop makes are at most the tool rounds and the automatic continuations configured.
\<close>

theorem loop_calls_permitted:
  "\<exists>evs. ls_trace (run_tool_loop env first_stream body s) = ls_trace s @ evs
       \<and> list_all (permitted env (ls_store s)) evs
       \<and> length (filter is_post evs) \<le> le_max_rounds env + le_max_auto env"
  using tool_loop_extends [of env start_counters s first_stream body]
  by (simp add: run_tool_loop_def extends_def rounds_left_def start_counters_def)

section \<open>What is added to the conversation\<close>

definition answers_call :: "json \<Rightarrow> pending_tool_call \<Rightarrow> bool" where
  "answers_call m tc \<longleftrightarrow> jget_str ''role'' m = Some ''tool'' \<and> jget_str ''tool_call_id'' m = Some (tc_id tc)"

text \<open>Complete turns: a continuation, or an assistant message with its calls answered one by one.\<close>

inductive turns :: "json list \<Rightarrow> bool" where
  no_turn: "turns []"
| continuation: "turns ms \<Longrightarrow> turns (ms @ [message ''assistant'' [], message ''user'' continue_prompt])"
| tool_turn: "turns ms \<Longrightarrow> ro_tool_calls o' \<noteq> [] \<Longrightarrow> list_all2 answers_call answers (ro_tool_calls o')
    \<Longrightarrow> turns (ms @ round_entry o' # answers)"

lemma tool_message_answers [simp]: "tc_id tc = i \<Longrightarrow> answers_call (tool_message i content) tc"
  by (simp add: answers_call_def tool_message_def jget_str_def)

lemma run_call_answers: "run_call env r tc s = Answered s' m \<Longrightarrow> answers_call m tc"
  by (auto simp: run_call_def invoke_agent_def Let_def case_prod_beta
           split: option.splits confirmation_decision.splits if_splits)

lemma run_calls_answers:
  "run_calls env r tcs pushed s = (s', Some ms) \<Longrightarrow> \<exists>answers. ms = pushed @ answers \<and> list_all2 answers_call answers tcs"
proof (induction tcs arbitrary: pushed s)
  case (Cons tc tcs)
  then obtain s1 m where c: "run_call env r tc s = Answered s1 m" "run_calls env r tcs (pushed @ [m]) s1 = (s', Some ms)"
    by (cases "run_call env r tc s") auto
  from Cons.IH [OF c(2)] obtain answers where "ms = (pushed @ [m]) @ answers" "list_all2 answers_call answers tcs"
    by blast
  with run_call_answers [OF c(1)] show ?case by (intro exI [of _ "m # answers"]) simp
qed simp

definition conversation :: "json \<Rightarrow> json list" where
  "conversation body = array_of ''messages'' body"

definition continues :: "json list \<Rightarrow> json \<Rightarrow> bool" where
  "continues start body \<longleftrightarrow> (\<exists>added. conversation body = start @ added \<and> turns added)"

lemma continues_append:
  assumes "continues start body" "\<And>ms. turns ms \<Longrightarrow> turns (ms @ new)"
  shows "continues start (with_array ''messages'' (\<lambda>ms. ms @ new) body)"
proof (cases "has_array ''messages'' body")
  case True
  then show ?thesis using assms unfolding continues_def conversation_def by auto
next
  case False
  then show ?thesis using assms(1) by (simp add: with_array_absent)
qed

lemma round_step_continues:
  assumes "continues start body" "round_step env stream body ct s = NextRound body' ct' s'"
  shows "continues start body'"
proof -
  obtain drained ch where d: "drain_upstream_round (le_js env) stream (ls_chan s) = (drained, ch)"
    by (cases "drain_upstream_round (le_js env) stream (ls_chan s)")
  then obtain outcome where o: "drained = Inr outcome"
    using assms(2) by (cases drained) (auto simp: round_step_def)
  show ?thesis
  proof (cases "ro_tool_calls outcome = []")
    case True
    then have "body' = with_array ''messages'' (\<lambda>ms. ms @ [message ''assistant'' [], message ''user'' continue_prompt]) body"
      using assms(2) d o by (auto simp: round_step_def Let_def split: if_splits)
    then show ?thesis using continues_append [OF assms(1)] turns.continuation by simp
  next
    case False
    then obtain s1 answers where r: "run_calls env (ct_tool_round ct + 1) (ro_tool_calls outcome) [] (s\<lparr>ls_chan := ch\<rparr>) = (s1, Some answers)"
      and b: "body' = with_array ''messages'' (\<lambda>ms. ms @ round_entry outcome # answers) body"
      using assms(2) d o by (auto simp: round_step_def Let_def split: if_splits option.splits prod.splits)
    have "list_all2 answers_call answers (ro_tool_calls outcome)"
      using run_calls_answers [OF r] by simp
    then show ?thesis
      using continues_append [OF assms(1)] turns.tool_turn False b by simp
  qed
qed

lemma conversation_rebuild [simp]:
  "conversation (rebuild_tools_for_next_round rnd lnf perm agents router disc sid body) = conversation body"
  by (auto simp: rebuild_tools_for_next_round_def conversation_def array_of_def Let_def jget_obj_insert split: json.splits)

fun posted_continues :: "json list \<Rightarrow> trace_event \<Rightarrow> bool" where
  "posted_continues start (Posted body) = continues start body"
| "posted_continues start (Invoked _ _ _) = True"

definition posts_continue :: "json list \<Rightarrow> 'w loop_state \<Rightarrow> 'w loop_state \<Rightarrow> bool" where
  "posts_continue start s s' \<longleftrightarrow> (\<exists>evs. ls_trace s' = ls_trace s @ evs \<and> list_all (posted_continues start) evs)"

lemma posts_continue_trans: "posts_continue start s s' \<Longrightarrow> posts_continue start s' s'' \<Longrightarrow> posts_continue start s s''"
  unfolding posts_continue_def by force

lemma no_posts_continue: "extends env 0 s s' \<Longrightarrow> posts_continue start s s'"
proof -
  assume "extends env 0 s s'"
  then obtain evs where "ls_trace s' = ls_trace s @ evs" "filter is_post evs = []" by (auto simp: extends_def)
  moreover have "posted_continues start ev" if "\<not> is_post ev" for ev using that by (cases ev) auto
  ultimately show ?thesis by (auto simp: posts_continue_def filter_empty_conv list_all_iff)
qed

lemma tool_loop_continues:
  "continues start body \<Longrightarrow> posts_continue start s (tool_loop env stream body ct s)"
proof (induction env stream body ct s rule: tool_loop.induct)
  case (1 env stream body ct s)
  have step: "posts_continue start s (round_state (round_step env stream body ct s))"
    using round_step_extends no_posts_continue by blast
  show ?case
  proof (cases "round_step env stream body ct s")
    case (Finished s1)
    then show ?thesis using step by (simp add: tool_loop.simps [of env stream])
  next
    case (NextRound body1 ct1 s1)
    have c1: "continues start body1" by (rule round_step_continues [OF "1.prems" NextRound])
    obtain s2 nxt where o: "open_round env body1 s1 = (s2, nxt)" by (cases "open_round env body1 s1")
    have posted: "\<exists>b. ls_trace s2 = ls_trace s1 @ [Posted b] \<and> continues start b \<and> (case nxt of Some (b', _) \<Rightarrow> b' = b | None \<Rightarrow> True)"
      using o c1 by (auto simp: open_round_def Let_def continues_def split: prod.splits upstream_answer.splits)
    then have s2: "posts_continue start s s2"
      using step NextRound posts_continue_trans [of start s s1 s2] by (auto simp: posts_continue_def)
    show ?thesis
    proof (cases nxt)
      case None
      then show ?thesis using s2 NextRound o by (simp add: tool_loop.simps [of env stream])
    next
      case (Some bs)
      obtain body2 stream2 where bs: "bs = (body2, stream2)" by (cases bs)
      have "continues start body2" using posted Some bs by auto
      then have "posts_continue start s2 (tool_loop env stream2 body2 ct1 s2)"
        using "1.IH" [OF NextRound] o Some bs by simp
      then show ?thesis
        using s2 NextRound o Some bs posts_continue_trans by (simp add: tool_loop.simps [of env stream]) blast
    qed
  qed
qed

text \<open>
  C7: Every later request carries the conversation the loop started with, followed by complete
  turns only: each assistant message with tool calls is followed by exactly one tool message per
  call, in the order of the calls and with their ids.
\<close>

theorem conversation_well_formed:
  "\<exists>evs. ls_trace (run_tool_loop env first_stream body s) = ls_trace s @ evs
       \<and> list_all (posted_continues (conversation body)) evs"
proof -
  have "continues (conversation body) body" by (auto simp: continues_def intro: turns.no_turn)
  from tool_loop_continues [OF this] show ?thesis by (simp add: run_tool_loop_def posts_continue_def)
qed

section \<open>How the output ends\<close>

fun ordinary :: "frame \<Rightarrow> bool" where
  "ordinary (FBytes b) = (b \<noteq> done_frame)"
| "ordinary (FErr e) = False"

definition final :: "frame \<Rightarrow> bool" where
  "final f \<longleftrightarrow> f = FBytes done_frame \<or> (\<exists>e. f = FErr e)"

text \<open>The client is there and has received \<open>out\<close> and then ordinary frames only.\<close>

definition streaming :: "frame list \<Rightarrow> 'w loop_state \<Rightarrow> bool" where
  "streaming out s \<longleftrightarrow>
     ch_left (ls_chan s) = None \<and> (\<exists>fs. ch_out (ls_chan s) = out @ fs \<and> list_all ordinary fs)"

definition ended :: "frame list \<Rightarrow> 'w loop_state \<Rightarrow> bool" where
  "ended out s \<longleftrightarrow> (\<exists>fs f. ch_out (ls_chan s) = out @ fs @ [f] \<and> list_all ordinary fs \<and> final f)"

lemma sse_frame_ordinary [simp]: "sse_frame js name v \<noteq> done_frame"
  by (simp add: sse_frame_def done_frame_def)

lemma built_ordinary [simp]:
  "sse_tool_call_event js i name a n \<noteq> done_frame" "sse_tool_result_event js i name ok t \<noteq> done_frame"
  "sse_error_event js r d \<noteq> done_frame" "sse_round_paused js i name t \<noteq> done_frame"
  "sse_tool_result_needs_approval js i name t p \<noteq> done_frame"
  by (simp_all add: sse_tool_call_event_def sse_tool_result_event_def sse_error_event_def sse_round_paused_def
                    sse_tool_result_needs_approval_def)

lemma trim_done: "trim ''[DONE]'' = ''[DONE]''"
  by code_simp

lemma forwarded_ordinary: "\<not> is_done ev \<Longrightarrow> forwarded ev \<noteq> done_frame"
  using trim_done by (auto simp: forwarded_def done_frame_def is_done_def blank_line_def split: option.splits)

lemma streaming_send: "streaming out s \<Longrightarrow> b \<noteq> done_frame \<Longrightarrow> streaming out (st_send b s)"
  by (auto simp: streaming_def st_send_def send_def tx_send_def)

lemma ended_done: "streaming out s \<Longrightarrow> ended out (st_send done_frame s)"
  by (auto simp: streaming_def ended_def final_def st_send_def send_def tx_send_def)

lemma ended_err: "streaming out s \<Longrightarrow> ended out (st_send_err e s)"
  by (auto simp: streaming_def ended_def final_def st_send_err_def send_err_def tx_send_def)

lemma streaming_chan [simp]:
  "streaming out (s\<lparr>ls_store := x\<rparr>) = streaming out s" "streaming out (s\<lparr>ls_world := w\<rparr>) = streaming out s"
  "streaming out (s\<lparr>ls_discovered := d\<rparr>) = streaming out s" "streaming out (traced e s) = streaming out s"
  by (simp_all add: streaming_def traced_def)

lemma streaming_drain:
  assumes "streaming out s" "drain_upstream_round js src (ls_chan s) = (dr, ch)"
  shows "streaming out (s\<lparr>ls_chan := ch\<rparr>)"
proof -
  obtain evs err where e: "events_of (sse_new src) = (evs, err)" by (cases "events_of (sse_new src)")
  let ?sent = "takeWhile (\<lambda>ev. \<not> is_done ev) evs"
  have left: "ch_left (ls_chan s) = None" using assms(1) by (simp add: streaming_def)
  have "ch_out ch = ch_out (ls_chan s) @ map (\<lambda>ev. FBytes (forwarded ev)) ?sent" "ch_left ch = None"
    using assms(2) e left drain_loop_exact [of js "sse_new src" drain_init "ls_chan s"]
    by (auto simp: drain_upstream_round_def accepted_def after_sends_def Let_def)
  moreover have "list_all ordinary (map (\<lambda>ev. FBytes (forwarded ev)) ?sent)"
    by (auto simp: list_all_iff dest: set_takeWhileD forwarded_ordinary)
  ultimately show ?thesis using assms(1) by (auto simp: streaming_def)
qed

lemma refuse_call_ends: "streaming out s \<Longrightarrow> ended out (refuse_call env tc name args reason s)"
  by (auto simp: refuse_call_def Let_def intro!: ended_done streaming_send split: option.splits)

lemma invoke_agent_streams: "streaming out s \<Longrightarrow> streaming out (fst (invoke_agent env tc name args a s))"
  by (auto simp: invoke_agent_def Let_def case_prod_beta intro!: streaming_send split: option.splits)

fun result_ok :: "frame list \<Rightarrow> 'w call_result \<Rightarrow> bool" where
  "result_ok out (Paused s) = ended out s"
| "result_ok out (Answered s m) = streaming out s"

lemma run_call_output: "streaming out s \<Longrightarrow> result_ok out (run_call env r tc s)"
  by (auto simp: run_call_def Let_def case_prod_beta
           intro!: invoke_agent_streams refuse_call_ends streaming_send split: option.splits confirmation_decision.splits)

lemma run_calls_output:
  "streaming out s \<Longrightarrow> run_calls env r tcs pushed s = (s', res) \<Longrightarrow>
   (case res of None \<Rightarrow> ended out s' | Some _ \<Rightarrow> streaming out s')"
proof (induction tcs arbitrary: pushed s)
  case (Cons tc tcs)
  have "result_ok out (run_call env r tc s)" using Cons.prems(1) by (rule run_call_output)
  then show ?case using Cons by (cases "run_call env r tc s") auto
qed auto

fun round_ok :: "frame list \<Rightarrow> 'w round_result \<Rightarrow> bool" where
  "round_ok out (Finished s) = ended out s"
| "round_ok out (NextRound body ct s) = streaming out s"

lemma round_step_output: "streaming out s \<Longrightarrow> round_ok out (round_step env stream body ct s)"
proof -
  assume s: "streaming out s"
  obtain drained ch where d: "drain_upstream_round (le_js env) stream (ls_chan s) = (drained, ch)"
    by (cases "drain_upstream_round (le_js env) stream (ls_chan s)")
  have s1: "streaming out (s\<lparr>ls_chan := ch\<rparr>)" by (rule streaming_drain [OF s d])
  show ?thesis
  proof (cases drained)
    case (Inl e)
    then show ?thesis using d s1 by (simp add: round_step_def ended_err)
  next
    case (Inr outcome)
    obtain s' answers where c: "run_calls env (ct_tool_round ct + 1) (ro_tool_calls outcome) [] (s\<lparr>ls_chan := ch\<rparr>) = (s', answers)"
      by (cases "run_calls env (ct_tool_round ct + 1) (ro_tool_calls outcome) [] (s\<lparr>ls_chan := ch\<rparr>)")
    have "case answers of None \<Rightarrow> ended out s' | Some _ \<Rightarrow> streaming out s'" by (rule run_calls_output [OF s1 c])
    then show ?thesis
      using d Inr c s1 by (auto simp: round_step_def Let_def intro!: ended_done ended_err streaming_send split: option.splits)
  qed
qed

lemma open_round_output:
  "streaming out s \<Longrightarrow> open_round env body s = (s', nxt) \<Longrightarrow>
   (case nxt of None \<Rightarrow> ended out s' | Some _ \<Rightarrow> streaming out s')"
  by (auto simp: open_round_def Let_def intro!: ended_done ended_err streaming_send split: prod.splits upstream_answer.splits)

lemma tool_loop_output: "streaming out s \<Longrightarrow> ended out (tool_loop env stream body ct s)"
proof (induction env stream body ct s rule: tool_loop.induct)
  case (1 env stream body ct s)
  have step: "round_ok out (round_step env stream body ct s)" using "1.prems" by (rule round_step_output)
  show ?case
  proof (cases "round_step env stream body ct s")
    case (Finished s1)
    then show ?thesis using step by (simp add: tool_loop.simps [of env stream])
  next
    case (NextRound body1 ct1 s1)
    obtain s2 nxt where o: "open_round env body1 s1 = (s2, nxt)" by (cases "open_round env body1 s1")
    have out: "case nxt of None \<Rightarrow> ended out s2 | Some _ \<Rightarrow> streaming out s2"
      using step NextRound o by (intro open_round_output [of out s1]) auto
    show ?thesis
    proof (cases nxt)
      case None
      then show ?thesis using out NextRound o by (simp add: tool_loop.simps [of env stream])
    next
      case (Some bs)
      obtain body2 stream2 where bs: "bs = (body2, stream2)" by (cases bs)
      then show ?thesis
        using "1.IH" [OF NextRound] o Some out NextRound by (simp add: tool_loop.simps [of env stream])
    qed
  qed
qed

text \<open>
  C39: To a client that stays, the loop sends its frames and then exactly one end: the frame of the
  sentinel \<open>[DONE]\<close>, which is none of the frames before, or a transport error. The claim is about
  whole frames: what stands inside a forwarded event is the upstream's, and an event with an empty
  data line carries its rest as another event (\<open>sentinel_smuggled\<close>).
\<close>

theorem output_ends_once:
  "\<exists>fs f. ch_out (ls_chan (run_tool_loop env first_stream body (s\<lparr>ls_chan := \<lparr>ch_out = out, ch_left = None\<rparr>\<rparr>)))
            = out @ fs @ [f]
        \<and> FBytes done_frame \<notin> set fs \<and> (f = FBytes done_frame \<or> (\<exists>e. f = FErr e))"
proof -
  have "streaming out (s\<lparr>ls_chan := \<lparr>ch_out = out, ch_left = None\<rparr>\<rparr>)" by (simp add: streaming_def)
  from tool_loop_output [OF this, of env first_stream body start_counters]
  obtain fs f where "ch_out (ls_chan (run_tool_loop env first_stream body (s\<lparr>ls_chan := \<lparr>ch_out = out, ch_left = None\<rparr>\<rparr>)))
      = out @ fs @ [f]" "list_all ordinary fs" "final f"
    by (auto simp: ended_def run_tool_loop_def)
  then show ?thesis by (intro exI [of _ fs] exI [of _ f]) (auto simp: final_def list_all_iff)
qed

end
