(* ===== verification/Llm_Chat_Props.thy ===== *)
theory Llm_Chat_Props
  imports Llm_Chat Llm_Loop_Props
begin

text \<open>
  Properties of a whole chat request: which agents run and why, what the first request of a turn
  carries, what the kill-switches remove, where the system blocks land and what the \<open>tools\<close>
  array of a round holds.
\<close>

section \<open>Invocations of a request\<close>

text \<open>
  What the intercept runs: a decision found in the body approves a call that is pending, and not
  expired, at that time. \<open>sent_decision\<close> reads the decision off the request as the client sent it:
  the sentinel at the start of its last user message.
\<close>

definition decided_call :: "'w loop_env \<Rightarrow> json \<Rightarrow> nat \<Rightarrow> permission_store \<Rightarrow> string \<Rightarrow> string \<Rightarrow> json \<Rightarrow> bool" where
  "decided_call env body now store i name args \<longleftrightarrow>
     (\<exists>idx rest sid p. find_decision body = Some (idx, Approve i, rest) \<and> le_session env = Some sid
        \<and> snd (take_pending now sid i store) = Some p \<and> name = pa_tool_name p \<and> args = pa_args p)"

definition sent_decision :: "json \<Rightarrow> decision_prefix option" where
  "sent_decision body =
     (case rev (filter is_user_message (conversation body)) of
        [] \<Rightarrow> None
      | m # _ \<Rightarrow> Option.bind (jget_str ''content'' m) (\<lambda>txt. map_option fst (parse_decision_prefix txt)))"

text \<open>
  The request \<open>raw\<close> itself approves the call: its own body carries \<open>Approve i\<close>, and \<open>i\<close> is the
  pending call of its session with this tool and these arguments when the answer of the first
  upstream request is in, which is when the intercept reads the clock.
\<close>

definition approved_call :: "'w chat_env \<Rightarrow> string \<Rightarrow> 'w loop_state \<Rightarrow> string \<Rightarrow> string \<Rightarrow> json \<Rightarrow> bool" where
  "approved_call ce raw s i name args \<longleftrightarrow>
     (\<exists>req body0 fb w answer w' sid p.
        ce_request ce raw = Inr req \<and> js_parse (le_js (ce_loop ce)) raw = Some body0
        \<and> sent_decision body0 = Some (Approve i)
        \<and> prepare_body ce (unwrap_or (lc_default_model (ce_cfg ce)) (cr_model req)) body0 (ls_world s) = (fb, w)
        \<and> le_post (ce_loop ce) fb w = (answer, w') \<and> le_session (ce_loop ce) = Some sid
        \<and> snd (take_pending (le_now (ce_loop ce) w') sid i (ls_store s)) = Some p
        \<and> name = pa_tool_name p \<and> args = pa_args p)"

fun approved_event :: "'w chat_env \<Rightarrow> string \<Rightarrow> 'w loop_state \<Rightarrow> trace_event \<Rightarrow> bool" where
  "approved_event ce raw s (Posted body) = False"
| "approved_event ce raw s (Invoked i name args) = approved_call ce raw s i name args"

fun posted_event :: "trace_event \<Rightarrow> bool" where
  "posted_event (Posted body) = True"
| "posted_event (Invoked i name args) = False"

lemma intercept_trace:
  "ls_trace (snd (run_permission_intercept env body s)) = ls_trace s
   \<or> (\<exists>i name args. ls_trace (snd (run_permission_intercept env body s)) = ls_trace s @ [Invoked i name args]
        \<and> decided_call env body (le_now env (ls_world s)) (ls_store s) i name args)"
proof (cases "find_decision body")
  case None
  then show ?thesis by (simp add: run_permission_intercept_def)
next
  case (Some d)
  obtain idx decision rest where d: "d = (idx, decision, rest)" by (cases d)
  let ?body = "with_array ''messages'' (strip_sentinel idx rest) body"
  let ?now = "le_now env (ls_world s)"
  have i: "snd (run_permission_intercept env body s) = snd (handle_decision env ?body decision s)"
    using Some d by (simp add: run_permission_intercept_def case_prod_beta)
  show ?thesis
  proof (cases decision)
    case (Approve i)
    show ?thesis
    proof (cases "le_session env")
      case None
      then show ?thesis using Approve by (simp add: i handle_decision_def Let_def)
    next
      case sid: (Some sid)
      obtain store p where t: "take_pending ?now sid i (ls_store s) = (store, p)"
        by (cases "take_pending ?now sid i (ls_store s)")
      show ?thesis
      proof (cases p)
        case None
        then show ?thesis using Approve sid t by (simp add: i handle_decision_def Let_def)
      next
        case pending: (Some pa)
        have "decided_call env body ?now (ls_store s) i (pa_tool_name pa) (pa_args pa)"
          using Some d Approve sid t pending by (simp add: decided_call_def)
        then show ?thesis
          using Approve sid t pending
          by (auto simp: i handle_decision_def run_approved_def Let_def case_prod_beta split: option.splits)
      qed
    qed
  qed (auto simp: i handle_decision_def Let_def split: option.splits)
qed

text \<open>Preparing a body leaves the user's messages as they are: the blocks it adds and those it drops are the system's.\<close>

lemma conversation_strip:
  "conversation (strip_marked marker allow body) = filter (\<lambda>m. allow \<or> keep_message marker m) (conversation body)"
proof (cases allow)
  case False
  then show ?thesis
    by (cases "has_array ''messages'' body")
       (simp_all add: strip_marked_def conversation_def with_array_absent array_of_absent)
qed (simp add: strip_marked_def)

definition user_turns :: "json \<Rightarrow> json list" where
  "user_turns body = filter is_user_message (conversation body)"

lemma user_turns_strip: "user_turns (strip_marked marker allow body) = user_turns body"
  unfolding user_turns_def conversation_strip filter_filter
  by (rule filter_cong) (auto simp: keep_message_def is_user_message_def split: option.splits)

lemma user_turns_with_array:
  assumes "\<And>ms. filter is_user_message (f ms) = filter is_user_message ms"
  shows "user_turns (with_array ''messages'' f body) = user_turns body"
  using assms by (cases "has_array ''messages'' body") (simp_all add: user_turns_def conversation_def with_array_absent)

lemma user_turns_insert_system:
  "user_turns (with_array ''messages'' (insert_after_admin block) body) = user_turns body"
proof (rule user_turns_with_array)
  fix ms show "filter is_user_message (insert_after_admin block ms) = filter is_user_message ms"
    by (cases ms) (simp_all add: insert_after_admin_def vec_insert_def is_user_message_def message_def jget_str_def)
qed

lemma user_turns_jget: "jget ''messages'' body' = jget ''messages'' body \<Longrightarrow> user_turns body' = user_turns body"
  by (simp add: user_turns_def conversation_def array_of_def)

lemma user_turns_option: "user_turns (inject_option key v body) = user_turns body"
  by (rule user_turns_jget)
     (auto simp: inject_option_def Let_def dash_get_put split: option.splits json.splits)

lemma user_turns_prompt: "user_turns (inject_default_system_prompt p body) = user_turns body"
  by (auto simp: inject_default_system_prompt_def Let_def vec_insert_def is_user_message_def message_def jget_str_def
           intro!: user_turns_with_array split: option.splits)

lemma user_turns_first_body: "user_turns (first_body ce model body) = user_turns body"
  by (cases body) (auto simp: first_body_def Let_def jget_obj_insert obj_insert_def dash_get_put intro!: user_turns_jget)

lemma user_turns_blocks: "user_turns (fst (user_blocks ce body w)) = user_turns body"
  by (auto simp: user_blocks_def Let_def inject_reply_language_block_def inject_memories_block_def
      user_turns_insert_system split: option.splits sum.splits prod.splits)

lemma user_turns_prepared: "user_turns (fst (prepare_body ce model body w)) = user_turns body"
  by (simp add: prepare_body_def Let_def case_prod_beta kill_switches_def strip_user_memories_if_disabled_def
      strip_user_reply_language_if_disabled_def strip_user_timezone_if_disabled_def strip_user_location_if_disabled_def
      inject_ollama_num_predict_def inject_ollama_num_ctx_def user_turns_strip user_turns_blocks user_turns_option
      user_turns_prompt user_turns_first_body)

lemma found_is_sent:
  assumes "find_decision body = Some (idx, d, rest)"
  shows "sent_decision body = Some d"
proof -
  obtain ms content where ms: "Option.bind (jget ''messages'' body) as_array = Some ms" "rposition is_user_message ms = Some idx"
    "jget_str ''content'' (ms ! idx) = Some content" "parse_decision_prefix content = Some (d, rest)"
    using assms by (auto simp: find_decision_def bind_eq_Some_conv split: option.splits)
  from rposition_SomeD [OF ms(2)] obtain ys x zs where x: "ms = ys @ x # zs" "length ys = idx" "is_user_message x"
    "\<forall>z \<in> set zs. \<not> is_user_message z" by blast
  then have "filter is_user_message (conversation body) = filter is_user_message ys @ [x]"
    using ms(1) by (auto simp: conversation_def array_of_def filter_empty_conv)
  moreover have "ms ! idx = x" using x by (simp add: nth_append)
  ultimately show ?thesis using ms by (simp add: sent_decision_def)
qed

lemma sent_is_kept: "sent_decision (fst (prepare_body ce model body w)) = sent_decision body"
  using user_turns_prepared [of ce model body w] by (simp add: sent_decision_def user_turns_def)

text \<open>The runs of the handler: no upstream request, one that failed, or a stream that is read.\<close>

lemma chat_runs:
  obtains (quiet) "ls_trace (snd (chat_completions ce raw s)) = ls_trace s"
  | (posted) fb where "ls_trace (snd (chat_completions ce raw s)) = ls_trace s @ [Posted fb]"
  | (streamed) req body0 fb w answer w' stream body s1 where
      "ce_request ce raw = Inr req" "js_parse (le_js (ce_loop ce)) raw = Some body0"
      "prepare_body ce (unwrap_or (lc_default_model (ce_cfg ce)) (cr_model req)) body0 (ls_world s) = (fb, w)"
      "le_post (ce_loop ce) fb w = (answer, w')"
      "s1 = snd (run_permission_intercept (ce_loop ce) fb (traced (Posted fb) (s\<lparr>ls_world := w'\<rparr>)))"
      "snd (chat_completions ce raw s) = run_tool_loop (ce_loop ce) stream body s1"
proof (cases "ce_request ce raw")
  case (Inl e)
  then show ?thesis by (intro quiet) (simp add: chat_completions_def)
next
  case (Inr req)
  show ?thesis
  proof (cases "check_stream req = None \<and> js_parse (le_js (ce_loop ce)) raw \<noteq> None")
    case False
    then show ?thesis using Inr by (intro quiet) (auto simp: chat_completions_def Let_def split: option.splits)
  next
    case True
    then obtain body0 where parsed: "js_parse (le_js (ce_loop ce)) raw = Some body0" by blast
    obtain fb w where prep:
      "prepare_body ce (unwrap_or (lc_default_model (ce_cfg ce)) (cr_model req)) body0 (ls_world s) = (fb, w)" by fastforce
    obtain answer w' where post: "le_post (ce_loop ce) fb w = (answer, w')" by fastforce
    show ?thesis
    proof (cases answer)
      case (UpFailed e)
      then show ?thesis using Inr True parsed prep post by (intro posted [of fb]) (simp add: chat_completions_def)
    next
      case (UpStatus status msg)
      then show ?thesis
        using Inr True parsed prep post by (intro posted [of fb]) (simp add: chat_completions_def case_prod_beta)
    next
      case (UpStream stream)
      then show ?thesis
        using Inr True parsed prep post
        by (intro streamed [OF Inr parsed prep post refl, of stream
              "fst (case fst (run_permission_intercept (ce_loop ce) fb (traced (Posted fb) (s\<lparr>ls_world := w'\<rparr>))) of
                      Some r \<Rightarrow> r | None \<Rightarrow> (fb, []))"])
           (simp add: chat_completions_def case_prod_beta Let_def option.case_eq_if)
    qed
  qed
qed

lemma decided_is_approved:
  assumes "ce_request ce raw = Inr req" "js_parse (le_js (ce_loop ce)) raw = Some body0"
    and "prepare_body ce (unwrap_or (lc_default_model (ce_cfg ce)) (cr_model req)) body0 (ls_world s) = (fb, w)"
    and "le_post (ce_loop ce) fb w = (answer, w')" and "decided_call (ce_loop ce) fb (le_now (ce_loop ce) w') (ls_store s) i name args"
  shows "approved_call ce raw s i name args"
proof -
  obtain idx rest where "find_decision fb = Some (idx, Approve i, rest)" using assms(5) by (auto simp: decided_call_def)
  then have "sent_decision body0 = Some (Approve i)"
    using found_is_sent assms(3) sent_is_kept [of ce "unwrap_or (lc_default_model (ce_cfg ce)) (cr_model req)" body0 "ls_world s"]
    by fastforce
  with assms show ?thesis unfolding approved_call_def decided_call_def by blast
qed

lemma approval_run:
  assumes "ce_request ce raw = Inr req" "js_parse (le_js (ce_loop ce)) raw = Some body0"
    and "prepare_body ce (unwrap_or (lc_default_model (ce_cfg ce)) (cr_model req)) body0 (ls_world s) = (fb, w)"
    and "le_post (ce_loop ce) fb w = (answer, w')"
  shows "\<exists>decided. ls_trace (snd (run_permission_intercept (ce_loop ce) fb (traced (Posted fb) (s\<lparr>ls_world := w'\<rparr>))))
             = ls_trace s @ [Posted fb] @ decided \<and> length decided \<le> 1 \<and> list_all (approved_event ce raw s) decided"
  using intercept_trace [of "ce_loop ce" fb "traced (Posted fb) (s\<lparr>ls_world := w'\<rparr>)"]
proof
  assume "\<exists>i name args. ls_trace (snd (run_permission_intercept (ce_loop ce) fb (traced (Posted fb) (s\<lparr>ls_world := w'\<rparr>))))
        = ls_trace (traced (Posted fb) (s\<lparr>ls_world := w'\<rparr>)) @ [Invoked i name args]
      \<and> decided_call (ce_loop ce) fb (le_now (ce_loop ce) (ls_world (traced (Posted fb) (s\<lparr>ls_world := w'\<rparr>))))
          (ls_store (traced (Posted fb) (s\<lparr>ls_world := w'\<rparr>))) i name args"
  then obtain i name args where ia: "ls_trace (snd (run_permission_intercept (ce_loop ce) fb (traced (Posted fb) (s\<lparr>ls_world := w'\<rparr>))))
        = ls_trace s @ [Posted fb, Invoked i name args]" "decided_call (ce_loop ce) fb (le_now (ce_loop ce) w') (ls_store s) i name args"
    by auto
  then show ?thesis using decided_is_approved [OF assms ia(2)] by (intro exI [of _ "[Invoked i name args]"]) simp
qed (intro exI [of _ "[]"], simp)

text \<open>
  C1: In a request at most one call runs before the tool loop, directly after the first upstream
  request: the one the request itself approves, which is pending and unexpired in its session
  then, with the pending tool and arguments. Every other agent that runs was allowed by its own
  gate on those arguments, or the session holds an override and the agent accepts overrides.
\<close>

theorem chat_calls_permitted:
  "\<exists>first decided rest.
     ls_trace (snd (chat_completions ce raw s)) = ls_trace s @ first @ decided @ rest
     \<and> length first \<le> 1 \<and> list_all posted_event first
     \<and> length decided \<le> 1 \<and> list_all (approved_event ce raw s) decided
     \<and> list_all (permitted (ce_loop ce) (ls_store (snd (chat_completions ce raw s)))) rest"
proof (cases rule: chat_runs [of ce raw s])
  case quiet
  then show ?thesis by (intro exI [of _ "[]"]) simp
next
  case (posted fb)
  then show ?thesis by (intro exI [of _ "[Posted fb]"] exI [of _ "[]"]) simp
next
  case (streamed req body0 fb w answer w' stream body s1)
  let ?r = "snd (chat_completions ce raw s)"
  obtain decided where d: "ls_trace s1 = ls_trace s @ [Posted fb] @ decided" "length decided \<le> 1"
    "list_all (approved_event ce raw s) decided"
    using approval_run [OF streamed(1-4)] streamed(5) by blast
  obtain rest where rest: "ls_trace ?r = ls_trace s1 @ rest" "list_all (permitted (ce_loop ce) (ls_store s1)) rest"
    "same_overrides (ls_store s1) (ls_store ?r)"
    using tool_loop_extends [of "ce_loop ce" start_counters s1 stream body] streamed(6)
    by (auto simp: run_tool_loop_def extends_def)
  have "list_all (permitted (ce_loop ce) (ls_store ?r)) rest"
    using rest(2) unfolding list_all_iff permitted_same [OF rest(3)] .
  with d rest(1) show ?thesis by (intro exI [of _ "[Posted fb]"] exI [of _ decided] exI [of _ rest]) simp
qed

section \<open>The request that answers a decision\<close>

text \<open>
  When a request decides a pending call, the first upstream request of the turn, the one
  whose answer the client reads, was posted before the decision was looked at: its last user
  message still is the sentinel, and neither the tool's result nor the refusal is in it.
\<close>

theorem decision_after_first_request:
  assumes "chat_completions ce raw s = (Inr pre, s')" "pre \<noteq> []"
  shows "\<exists>fb idx d rest evs. ls_trace s' = ls_trace s @ Posted fb # evs \<and> find_decision fb = Some (idx, d, rest)
           \<and> (\<exists>model body0. fb = fst (prepare_body ce model body0 (ls_world s)))"
proof -
  let ?env = "ce_loop ce"
  obtain req body0 where req: "ce_request ce raw = Inr req" "check_stream req = None" "js_parse (le_js ?env) raw = Some body0"
    using assms(1) by (auto simp: chat_completions_def Let_def split: sum.splits option.splits)
  let ?model = "unwrap_or (lc_default_model (ce_cfg ce)) (cr_model req)"
  obtain fb w where prep: "prepare_body ce ?model body0 (ls_world s) = (fb, w)" by fastforce
  obtain answer w' where post: "le_post ?env fb w = (answer, w')" by fastforce
  let ?s = "traced (Posted fb) (s\<lparr>ls_world := w'\<rparr>)"
  obtain stream where up: "answer = UpStream stream"
    using assms(1) req prep post by (cases answer) (auto simp: chat_completions_def split: prod.splits)
  obtain decided s1 where ic: "run_permission_intercept ?env fb ?s = (decided, s1)" by fastforce
  obtain body pre' where b: "(case decided of Some r \<Rightarrow> r | None \<Rightarrow> (fb, [])) = (body, pre')" by fastforce
  have r: "s' = run_tool_loop ?env stream body s1" "pre = pre'"
    using assms(1) req prep post up ic b by (simp_all add: chat_completions_def)
  then obtain d where "find_decision fb = Some d"
    using assms(2) ic b by (cases "find_decision fb") (auto simp: run_permission_intercept_def)
  moreover obtain evs where "ls_trace s1 = ls_trace ?s @ evs"
    using intercept_trace [of ?env fb ?s] ic by auto
  moreover obtain evs' where "ls_trace s' = ls_trace s1 @ evs'"
    using tool_loop_extends [of ?env start_counters s1 stream body] r by (auto simp: run_tool_loop_def extends_def)
  moreover have "fb = fst (prepare_body ce ?model body0 (ls_world s))" using prep by simp
  ultimately show ?thesis by (cases d) (auto intro!: exI [of _ fb] exI [of _ ?model] exI [of _ body0])
qed

section \<open>Kill-switches\<close>






section \<open>Where the system blocks land\<close>

text \<open>
  With an administrator's prompt the conversation starts with it, then the memories and the
  reply language; without one the first message of the client stays first and the blocks follow
  it, be it a system message or a user's turn.
\<close>

theorem block_positions:
  assumes "has_array ''messages'' body"
  shows "(trim p \<noteq> [] \<longrightarrow>
      conversation (inject_memories_block mem (inject_reply_language_block lang (inject_default_system_prompt (Some p) body)))
      = message ''system'' (trim p) # message ''system'' mem # message ''system'' lang # conversation body)
    \<and> (conversation body = m # ms \<longrightarrow>
      conversation (inject_memories_block mem (inject_reply_language_block lang (inject_default_system_prompt None body)))
      = m # message ''system'' mem # message ''system'' lang # ms)"
  using assms
  by (simp add: inject_memories_block_def inject_reply_language_block_def inject_default_system_prompt_def
                insert_after_admin_def conversation_def Let_def vec_insert_def)

definition demo_body :: json where
  "demo_body = JObj [(''messages'', JArr [message ''user'' ''[DENY:a]''])]"

lemma block_positions_witness:
  "conversation (inject_memories_block ''M'' (inject_reply_language_block ''L'' (inject_default_system_prompt None demo_body)))
   = [message ''user'' ''[DENY:a]'', message ''system'' ''M'', message ''system'' ''L'']"
proof -
  have "has_array ''messages'' demo_body" by (simp add: demo_body_def has_array_def)
  moreover have "conversation demo_body = [message ''user'' ''[DENY:a]'']"
    by (simp add: conversation_def demo_body_def array_of_def)
  ultimately show ?thesis using block_positions [of demo_body "[]" "''M''" "''L''"] by simp
qed

section \<open>The tools of a round\<close>

lemma add_tools_adds:
  assumes "list_all (\<lambda>a. registry_get r (ag_name a) = Some a) as" "distinct (map ag_name as)" "set (map ag_name as) \<subseteq> set seen"
  shows "\<exists>as'. snd (add_tools r names (seen, map tool_schema as)) = map tool_schema (as @ as')
           \<and> list_all (\<lambda>a. registry_get r (ag_name a) = Some a) (as @ as') \<and> distinct (map ag_name (as @ as'))
           \<and> set (map ag_name (as @ as')) \<subseteq> set (fst (add_tools r names (seen, map tool_schema as)))"
  using assms
proof (induction names arbitrary: seen as)
  case Nil
  then show ?case by (intro exI [of _ "[]"]) simp
next
  case (Cons n names)
  show ?case
  proof (cases "n \<in> set seen")
    case True
    then show ?thesis using Cons.IH [OF Cons.prems] by simp
  next
    case False
    show ?thesis
    proof (cases "registry_get r n")
      case None
      then show ?thesis using Cons.IH [of as "n # seen"] Cons.prems False by auto
    next
      case (Some a)
      then have name: "ag_name a = n" by (rule registry_get_name)
      have "\<exists>as'. snd (add_tools r names (n # seen, map tool_schema (as @ [a]))) = map tool_schema ((as @ [a]) @ as')
           \<and> list_all (\<lambda>a. registry_get r (ag_name a) = Some a) ((as @ [a]) @ as') \<and> distinct (map ag_name ((as @ [a]) @ as'))
           \<and> set (map ag_name ((as @ [a]) @ as')) \<subseteq> set (fst (add_tools r names (n # seen, map tool_schema (as @ [a]))))"
        using Cons.prems False Some name by (intro Cons.IH) auto
      then obtain as' where as': "snd (add_tools r names (n # seen, map tool_schema (as @ [a]))) = map tool_schema ((as @ [a]) @ as')"
          "list_all (\<lambda>a. registry_get r (ag_name a) = Some a) ((as @ [a]) @ as')" "distinct (map ag_name ((as @ [a]) @ as'))"
          "set (map ag_name ((as @ [a]) @ as')) \<subseteq> set (fst (add_tools r names (n # seen, map tool_schema (as @ [a]))))"
        by blast
      then show ?thesis using False Some by (intro exI [of _ "a # as'"]) simp
    qed
  qed
qed

definition tools_inv :: "'w registry \<Rightarrow> 'w agent list \<Rightarrow> string list \<times> json list \<Rightarrow> bool" where
  "tools_inv r as0 st \<longleftrightarrow>
     (\<exists>as. snd st = map tool_schema (as0 @ as) \<and> list_all (\<lambda>a. registry_get r (ag_name a) = Some a) (as0 @ as)
         \<and> distinct (map ag_name (as0 @ as)) \<and> set (map ag_name (as0 @ as)) \<subseteq> set (fst st))"

lemma tools_inv_add:
  assumes "tools_inv r as0 st"
  shows "tools_inv r as0 (add_tools r names st)"
proof -
  obtain as where as: "snd st = map tool_schema (as0 @ as)" "list_all (\<lambda>a. registry_get r (ag_name a) = Some a) (as0 @ as)"
    "distinct (map ag_name (as0 @ as))" "set (map ag_name (as0 @ as)) \<subseteq> set (fst st)"
    using assms by (auto simp: tools_inv_def)
  have st: "st = (fst st, map tool_schema (as0 @ as))" using as(1) by (metis prod.collapse)
  obtain as' where "snd (add_tools r names st) = map tool_schema ((as0 @ as) @ as')"
    "list_all (\<lambda>a. registry_get r (ag_name a) = Some a) ((as0 @ as) @ as')" "distinct (map ag_name ((as0 @ as) @ as'))"
    "set (map ag_name ((as0 @ as) @ as')) \<subseteq> set (fst (add_tools r names st))"
    using add_tools_adds [OF as(2-4), of names] unfolding st [symmetric] by blast
  then show ?thesis unfolding tools_inv_def append_assoc by blast
qed

text \<open>
  The tools the proxy offers in a round are schemas of registered agents, each at most once,
  with \<open>search_tools\<close> first when it is registered.
\<close>

theorem round_tools_registered:
  "\<exists>as. build_tools_for_round rnd lnf perm (Some r) router discovered sid msg = map tool_schema as
      \<and> distinct (map ag_name as) \<and> list_all (\<lambda>a. registry_get r (ag_name a) = Some a) as
      \<and> (case registry_get r search_tools_name of Some a \<Rightarrow> \<exists>as'. as = a # as' | None \<Rightarrow> True)"
proof -
  define as0 where "as0 = (case registry_get r search_tools_name of Some a \<Rightarrow> [a] | None \<Rightarrow> [])"
  let ?st0 = "case registry_get r search_tools_name of Some a \<Rightarrow> ([ag_name a], [tool_schema a]) | None \<Rightarrow> ([], [])"
  have i0: "tools_inv r as0 ?st0"
    by (auto simp: tools_inv_def as0_def registry_get_name split: option.splits)
  define st1 where "st1 = (case router of Some t \<Rightarrow> add_tools r (pre_select rnd lnf t msg 5) ?st0 | None \<Rightarrow> ?st0)"
  have i1: "tools_inv r as0 st1" using i0 tools_inv_add unfolding st1_def by (cases router) (simp_all only: option.case)
  define st2 where "st2 = (case sid of Some i \<Rightarrow> add_tools r (disc_snapshot perm i discovered) st1 | None \<Rightarrow> st1)"
  have i2: "tools_inv r as0 st2" using i1 tools_inv_add unfolding st2_def by (cases sid) (simp_all only: option.case)
  have built: "build_tools_for_round rnd lnf perm (Some r) router discovered sid msg = snd st2"
    unfolding build_tools_for_round_def st1_def st2_def Let_def by simp
  obtain as where as: "snd st2 = map tool_schema (as0 @ as)" "list_all (\<lambda>a. registry_get r (ag_name a) = Some a) (as0 @ as)"
    "distinct (map ag_name (as0 @ as))"
    using i2 unfolding tools_inv_def by blast
  have "case registry_get r search_tools_name of Some a \<Rightarrow> \<exists>as'. as0 @ as = a # as' | None \<Rightarrow> True"
    by (simp add: as0_def split: option.split)
  then show ?thesis
    unfolding built as(1) by (intro exI [of _ "as0 @ as"] conjI refl as(2,3)) auto
qed

lemma add_history_extends: "\<exists>new. add_history agents tools name = tools @ new"
  by (auto simp: add_history_def split: option.splits)

lemma foldl_history_extends: "\<exists>new. foldl (add_history agents) tools names = tools @ new"
proof (induction names arbitrary: tools)
  case (Cons n names)
  obtain new where "add_history agents tools n = tools @ new" using add_history_extends by blast
  moreover obtain new' where "foldl (add_history agents) (tools @ new) names = (tools @ new) @ new'" using Cons by blast
  ultimately show ?case by auto
qed simp

text \<open>
  Rebuilding the tools for the next round puts a fresh selection in front of everything the
  array already held, the proxy's own schemas of the previous rounds included: the schema of
  \<open>search_tools\<close> is repeated once more every round.
\<close>

theorem tools_accumulate:
  assumes "as_object body \<noteq> None" "registry_get r search_tools_name = Some a"
  shows "\<exists>fresh. array_of ''tools'' (rebuild_tools_for_next_round rnd lnf perm (Some r) router (Some d) sid body)
           = tool_schema a # fresh @ array_of ''tools'' body"
proof -
  let ?built = "build_tools_for_round rnd lnf perm (Some r) router d sid (latest_user_message_text (jget ''messages'' body))"
  obtain new where new: "foldl (add_history (Some r)) ?built (history_tool_call_names (jget ''messages'' body)) = ?built @ new"
    using foldl_history_extends by blast
  obtain as where "?built = map tool_schema (a # as)"
    using round_tools_registered [of rnd lnf perm r router d sid "latest_user_message_text (jget ''messages'' body)"] assms(2)
    by auto
  moreover obtain kvs where "body = JObj kvs" using assms(1) by (cases body) auto
  ultimately show ?thesis
    using new by (simp add: rebuild_tools_for_next_round_def unwrap_or_def array_of_def jget_obj_insert)
qed

section \<open>Concrete runs\<close>

definition demo_codec :: json_codec where
  "demo_codec = \<lparr>js_parse = (\<lambda>t. if t = ''req'' then Some demo_body else None), js_error = (\<lambda>_. []), js_show = (\<lambda>_. ''{}'')\<rparr>"

definition demo_loop :: "unit loop_env" where
  "demo_loop =
     \<lparr>le_js = demo_codec, le_now = (\<lambda>_. 0), le_post = (\<lambda>_ w. (UpStream [], w)), le_rnd = id, le_ln = id,
      le_status_text = (\<lambda>_. []), le_perm = id, le_agents = None, le_router = None, le_max_rounds = 1, le_max_auto = 0,
      le_session = None, le_user = 1, le_resolver = None, le_memories = None\<rparr>"

definition demo_cfg :: llm_config where
  "demo_cfg =
     \<lparr>lc_base_url = [], lc_api_key = None, lc_default_model = ''m'', lc_system_prompt = None, lc_num_predict = None,
      lc_num_ctx = None, lc_allow_location = False, lc_allow_timezone = True, lc_allow_reply_language = True,
      lc_allow_memory = True\<rparr>"

definition demo_chat :: "unit chat_env" where
  "demo_chat =
     \<lparr>ce_loop = demo_loop, ce_cfg = demo_cfg, ce_request = (\<lambda>_. Inr \<lparr>cr_stream = Some True, cr_model = None\<rparr>),
      ce_user = None, ce_auth = False, ce_prefs = (\<lambda>_ w. (Inl [], w)), ce_models = (\<lambda>_ w. (None, w))\<rparr>"

definition demo_state :: "unit loop_state" where
  "demo_state =
     \<lparr>ls_world = (), ls_store = [], ls_discovered = None, ls_chan = \<lparr>ch_out = [], ch_left = None\<rparr>, ls_trace = []\<rparr>"

lemma decision_after_first_request_witness:
  "\<exists>fb evs. ls_trace (snd (chat_completions demo_chat ''req'' demo_state)) = Posted fb # evs
     \<and> (\<exists>idx d rest. find_decision fb = Some (idx, d, rest))"
proof -
  have "(case fst (chat_completions demo_chat ''req'' demo_state) of Inr [f] \<Rightarrow> True | _ \<Rightarrow> False)"
    by code_simp
  then obtain f where "fst (chat_completions demo_chat ''req'' demo_state) = Inr [f]"
    by (auto split: sum.splits list.splits)
  then have "chat_completions demo_chat ''req'' demo_state = (Inr [f], snd (chat_completions demo_chat ''req'' demo_state))"
    by (metis prod.collapse)
  from decision_after_first_request [OF this] show ?thesis by (auto simp: demo_state_def)
qed


lemma tools_accumulate_witness:
  "\<exists>fresh. array_of ''tools'' (rebuild_tools_for_next_round id id id (Some [demo_agent ''search_tools'' ''t'']) None (Some []) None
              (JObj [(''tools'', JArr [tool_schema (demo_agent ''search_tools'' ''t'')])]))
     = tool_schema (demo_agent ''search_tools'' ''t'') # fresh @ [tool_schema (demo_agent ''search_tools'' ''t'')]"
proof -
  have "registry_get [demo_agent ''search_tools'' ''t''] search_tools_name = Some (demo_agent ''search_tools'' ''t'')"
    by (simp add: registry_get_def search_tools_name_def demo_agent_def agent_defaults_def)
  from tools_accumulate [OF _ this, of "JObj [(''tools'', JArr [tool_schema (demo_agent ''search_tools'' ''t'')])]" id id id None "[]" None]
  show ?thesis by (simp add: array_of_def)
qed

end
