(* ===== verification/Memory_Agents.thy ===== *)
theory Memory_Agents
  imports Llm_Chat
begin

text \<open>
  The four memory agents of \<open>nagent-agents/src/agents/memory.rs\<close>: the parsing of their arguments,
  their gates and their invocations on the memory source of the context. Conversions between
  JSON numbers and \<open>f32\<close>, the \<open>uuid\<close> crate, \<open>Debug\<close> of a string and the wall clock are
  parameters; an \<open>f32\<close> is its bits, so the range test is on the bits.
\<close>

section \<open>Arguments\<close>

record 'w mem_env =
  me_js :: json_codec
  me_f32_of_json :: "json_num \<Rightarrow> 32 word"
  me_json_of_f32 :: "32 word \<Rightarrow> json"
  me_f32_text :: "32 word \<Rightarrow> string"
  me_uuid_parse :: "string \<Rightarrow> uuid option"
  me_uuid_text :: "uuid \<Rightarrow> string"
  me_debug :: "string \<Rightarrow> string"
  me_now_text :: "'w \<Rightarrow> string"

definition memory_not_wired :: string where
  "memory_not_wired = ''memory is disabled in user preferences''"

definition source_unavailable :: "'w user_context \<Rightarrow> agent_error" where
  "source_unavailable ctx =
     (if cx_memories ctx = None then AgentFailed ''memory: source not wired in this context''
      else AgentFailed memory_not_wired)"

text \<open>\<open>(0.0..=1.0).contains(&c) && c.is_finite()\<close>: the bits up to those of 1.0, and minus zero.\<close>

definition unit_interval :: "32 word \<Rightarrow> bool" where
  "unit_interval c \<longleftrightarrow> c \<le> 0x3F800000 \<or> c = 0x80000000"

record store_args =
  sa_subject :: string
  sa_predicate :: string
  sa_value :: string
  sa_notes :: "string option"
  sa_tags :: string
  sa_confidence :: "32 word"
  sa_source_kind :: string

definition required_text :: "string \<Rightarrow> json \<Rightarrow> agent_error + string" where
  "required_text key args =
     (case jget_str key args of
        None \<Rightarrow> Inl (InvalidArguments (''`'' @ key @ ''` (string) is required''))
      | Some s \<Rightarrow>
          (let v = trim s
           in if v = [] then Inl (InvalidArguments (''`'' @ key @ ''` must not be empty'')) else Inr v))"

definition optional_text :: "string \<Rightarrow> json \<Rightarrow> string option" where
  "optional_text key args =
     (case jget_str key args of None \<Rightarrow> None | Some s \<Rightarrow> (let v = trim s in if v = [] then None else Some v))"

definition store_confidence :: "'w mem_env \<Rightarrow> json \<Rightarrow> 32 word" where
  "store_confidence me args =
     (case jget ''confidence'' args of Some (JNum n) \<Rightarrow> me_f32_of_json me n | _ \<Rightarrow> 0x3F800000)"

definition parse_store_args :: "'w mem_env \<Rightarrow> json \<Rightarrow> agent_error + store_args" where
  "parse_store_args me args =
     (if as_object args = None then Inl (InvalidArguments ''memory_store arguments must be a JSON object'')
      else case required_text ''subject'' args of Inl e \<Rightarrow> Inl e | Inr subject \<Rightarrow>
       (case required_text ''predicate'' args of Inl e \<Rightarrow> Inl e | Inr predicate \<Rightarrow>
        (case required_text ''value'' args of Inl e \<Rightarrow> Inl e | Inr v \<Rightarrow>
          (let notes = optional_text ''notes'' args; tags = unwrap_or [] (optional_text ''tags'' args);
               confidence = store_confidence me args
           in if \<not> unit_interval confidence then
                Inl (InvalidArguments (''`confidence` must be a finite number in [0.0, 1.0]; got ''
                  @ me_f32_text me confidence))
              else
                (let kind = unwrap_or ''user_stated'' (optional_text ''source_kind'' args)
                 in if kind \<noteq> ''user_stated'' \<and> kind \<noteq> ''llm_inferred'' then
                      Inl (InvalidArguments (''`source_kind` must be '' @ [CHR 0x22] @ ''user_stated'' @ [CHR 0x22] @ '' or '' @ [CHR 0x22] @ ''llm_inferred'' @ [CHR 0x22] @ ''; got '' @ me_debug me kind))
                    else
                      Inr \<lparr>sa_subject = subject, sa_predicate = predicate, sa_value = v, sa_notes = notes, sa_tags = tags,
                           sa_confidence = confidence, sa_source_kind = kind\<rparr>)))))"

text \<open>\<open>limit\<close> of the recall and list agents: absent or not an integer is no limit, zero is refused.\<close>

definition parse_limit :: "json \<Rightarrow> agent_error + nat option" where
  "parse_limit args =
     (let limit = Option.bind (jget ''limit'' args) as_u64
      in if limit = Some 0 then Inl (InvalidArguments ''`limit` must be >= 1'') else Inr limit)"

record recall_args =
  ra_subject :: "string option"
  ra_predicate :: "string option"
  ra_tags :: "string option"
  ra_limit :: "nat option"

definition parse_recall_args :: "json \<Rightarrow> agent_error + recall_args" where
  "parse_recall_args args =
     (if as_object args = None then Inl (InvalidArguments ''memory_recall arguments must be a JSON object'')
      else case parse_limit args of
             Inl e \<Rightarrow> Inl e
           | Inr limit \<Rightarrow>
               Inr \<lparr>ra_subject = optional_text ''subject'' args, ra_predicate = optional_text ''predicate'' args,
                    ra_tags = optional_text ''tags'' args, ra_limit = limit\<rparr>)"

definition parse_list_args :: "json \<Rightarrow> agent_error + nat option" where
  "parse_list_args args =
     (if as_object args = None then Inl (InvalidArguments ''memory_list arguments must be a JSON object'')
      else parse_limit args)"

definition parse_forget_args :: "'w mem_env \<Rightarrow> json \<Rightarrow> agent_error + uuid" where
  "parse_forget_args me args =
     (if as_object args = None then Inl (InvalidArguments ''memory_forget arguments must be a JSON object'')
      else case jget_str ''memory_id'' args of
             None \<Rightarrow> Inl (InvalidArguments ''`memory_id` (string) is required'')
           | Some s \<Rightarrow>
               (let raw = trim s
                in case me_uuid_parse me raw of
                     Some i \<Rightarrow> Inr i
                   | None \<Rightarrow> Inl (InvalidArguments (''`memory_id` must be a UUID; got '' @ me_debug me raw))))"

section \<open>Results\<close>

definition memory_envelope :: "'w mem_env \<Rightarrow> json \<Rightarrow> nat option \<Rightarrow> 'w \<Rightarrow> string" where
  "memory_envelope me data rows w =
     js_show (me_js me)
       (JObj ([(''ok'', JBool True), (''data'', data)]
              @ (case rows of Some n \<Rightarrow> [(''count'', nat_json n)] | None \<Rightarrow> [])
              @ [(''source'', JStr ''memory''), (''fetched_at'', JStr (me_now_text me w))]))"

definition meta_fields :: "'w mem_env \<Rightarrow> ('a memory_meta_scheme) \<Rightarrow> (string \<times> json) list" where
  "meta_fields me m =
     [(''id'', JStr (me_uuid_text me (mm_id m))), (''subject'', JStr (mm_subject m)),
      (''predicate'', JStr (mm_predicate m)), (''tags'', JStr (mm_tags m)),
      (''confidence'', me_json_of_f32 me (mm_confidence m)),
      (''source_session_id'', opt_str (mm_source_session_id m)), (''source_kind'', JStr (mm_source_kind m)),
      (''created_at'', JStr (mm_created_at m)), (''last_used_at'', opt_str (mm_last_used_at m)),
      (''expires_at'', opt_str (mm_expires_at m))]"

definition recall_row :: "'w mem_env \<Rightarrow> decrypted_memory \<Rightarrow> json" where
  "recall_row me m =
     JObj (meta_fields me m @ [(''value'', JStr (dm_value m)), (''notes'', opt_str (dm_notes m))])"

definition list_row :: "'w mem_env \<Rightarrow> memory_meta \<Rightarrow> json" where
  "list_row me m = JObj (meta_fields me m)"

section \<open>Invocations\<close>

definition memory_store_invoke :: "'w mem_env \<Rightarrow> 'w user_context \<Rightarrow> json \<Rightarrow> 'w \<Rightarrow> (agent_error + string) \<times> 'w" where
  "memory_store_invoke me ctx args w =
     (case parse_store_args me args of
        Inl e \<Rightarrow> (Inl e, w)
      | Inr req \<Rightarrow>
          (case cx_memories ctx of
             None \<Rightarrow> (Inl (source_unavailable ctx), w)
           | Some source \<Rightarrow>
               (case ms_store source (cx_user_id ctx)
                       \<lparr>mw_subject = sa_subject req, mw_predicate = sa_predicate req, mw_value = sa_value req,
                        mw_notes = sa_notes req, mw_tags = sa_tags req, mw_confidence = sa_confidence req,
                        mw_source_session_id = map_option (me_uuid_text me) (cx_chat_session_id ctx),
                        mw_source_kind = sa_source_kind req\<rparr> w of
                  (Inl e, w) \<Rightarrow> (Inl e, w)
                | (Inr i, w) \<Rightarrow>
                    (Inr (memory_envelope me
                       (JObj [(''memory_id'', JStr (me_uuid_text me i)), (''subject'', JStr (sa_subject req)),
                              (''predicate'', JStr (sa_predicate req)), (''tags'', JStr (sa_tags req)),
                              (''source_kind'', JStr (sa_source_kind req))]) None w), w))))"

definition memory_recall_invoke ::
    "'w mem_env \<Rightarrow> nat \<Rightarrow> 'w user_context \<Rightarrow> json \<Rightarrow> 'w \<Rightarrow> (agent_error + string) \<times> 'w" where
  "memory_recall_invoke me recalled_top_k ctx args w =
     (case parse_recall_args args of
        Inl e \<Rightarrow> (Inl e, w)
      | Inr req \<Rightarrow>
          (case cx_memories ctx of
             None \<Rightarrow> (Inl (source_unavailable ctx), w)
           | Some source \<Rightarrow>
               (case ms_recall source (cx_user_id ctx) (ra_subject req) (ra_predicate req) (ra_tags req)
                       (unwrap_or recalled_top_k (ra_limit req)) w of
                  (Inl e, w) \<Rightarrow> (Inl e, w)
                | (Inr rows, w) \<Rightarrow>
                    (Inr (memory_envelope me (JArr (map (recall_row me) rows)) (Some (length rows)) w), w))))"

definition memory_list_invoke :: "'w mem_env \<Rightarrow> 'w user_context \<Rightarrow> json \<Rightarrow> 'w \<Rightarrow> (agent_error + string) \<times> 'w" where
  "memory_list_invoke me ctx args w =
     (case parse_list_args args of
        Inl e \<Rightarrow> (Inl e, w)
      | Inr limit \<Rightarrow>
          (case cx_memories ctx of
             None \<Rightarrow> (Inl (source_unavailable ctx), w)
           | Some source \<Rightarrow>
               (case ms_list_meta source (cx_user_id ctx) (unwrap_or 64 limit) w of
                  (Inl e, w) \<Rightarrow> (Inl e, w)
                | (Inr rows, w) \<Rightarrow>
                    (Inr (memory_envelope me (JArr (map (list_row me) rows)) (Some (length rows)) w), w))))"

definition memory_forget_invoke :: "'w mem_env \<Rightarrow> 'w user_context \<Rightarrow> json \<Rightarrow> 'w \<Rightarrow> (agent_error + string) \<times> 'w" where
  "memory_forget_invoke me ctx args w =
     (case parse_forget_args me args of
        Inl e \<Rightarrow> (Inl e, w)
      | Inr i \<Rightarrow>
          (case cx_memories ctx of
             None \<Rightarrow> (Inl (source_unavailable ctx), w)
           | Some source \<Rightarrow>
               (case ms_forget source (cx_user_id ctx) i w of
                  (Inl e, w) \<Rightarrow> (Inl e, w)
                | (Inr _, w) \<Rightarrow>
                    (Inr (memory_envelope me (JObj [(''memory_id'', JStr (me_uuid_text me i))]) None w), w))))"

section \<open>Gates\<close>

definition memory_store_reason :: string where
  "memory_store_reason =
     ''Store a durable fact the user explicitly stated '' @ [CHR 0xE2, CHR 0x80, CHR 0x94] @ '' the agent persists it ''
     @ ''in encrypted form. The user should be warned before writing a new fact.''"

definition memory_recall_reason :: string where
  "memory_recall_reason =
     ''Recall specific memories for the current user '' @ [CHR 0xE2, CHR 0x80, CHR 0x94] @ '' the LLM uses this when ''
     @ ''an auto-injected system block didn'' @ [CHR 0x27] @ ''t include the fact it needs. The ''
     @ ''recall is read-only and does not modify state, so the gate is a ''
     @ ''courtesy rather than a safety requirement.''"

definition memory_list_reason :: string where
  "memory_list_reason =
     ''List the durable facts currently stored for the current user '' @ [CHR 0xE2, CHR 0x80, CHR 0x94] @ '' metadata ''
     @ ''only no plaintext value or notes, so this cannot be used to dump ''
     @ ''secrets. The gate ensures the chat UI doesn'' @ [CHR 0x27] @ ''t accidentally expose ''
     @ ''encrypted values via the list endpoint.''"

definition memory_forget_reason :: string where
  "memory_forget_reason =
     ''memory_forget permanently removes the row; confirm before proceeding so ''
     @ ''the user sees a '' @ [CHR 0x27] @ ''forget this memory?'' @ [CHR 0x27] @ '' bubble.''"

definition memory_agent ::
    "string \<Rightarrow> string \<Rightarrow> json \<Rightarrow> string \<Rightarrow> ('w user_context \<Rightarrow> json \<Rightarrow> 'w \<Rightarrow> (agent_error + string) \<times> 'w) \<Rightarrow> 'w agent" where
  "memory_agent name description schema reason invoke =
     (agent_defaults name description schema invoke)
       \<lparr>ag_requires_confirmation := (\<lambda>ctx args. NeedsConfirmation reason), ag_untrusted_output := False\<rparr>"

text \<open>The four agents; descriptions and schemas are texts for the model and arguments here.\<close>

definition memory_agents :: "'w mem_env \<Rightarrow> nat \<Rightarrow> (string \<Rightarrow> string) \<Rightarrow> (string \<Rightarrow> json) \<Rightarrow> 'w registry" where
  "memory_agents me recalled_top_k describe schema =
     [memory_agent ''memory_store'' (describe ''memory_store'') (schema ''memory_store'') memory_store_reason (memory_store_invoke me),
      memory_agent ''memory_recall'' (describe ''memory_recall'') (schema ''memory_recall'') memory_recall_reason
        (memory_recall_invoke me recalled_top_k),
      memory_agent ''memory_list'' (describe ''memory_list'') (schema ''memory_list'') memory_list_reason (memory_list_invoke me),
      memory_agent ''memory_forget'' (describe ''memory_forget'') (schema ''memory_forget'') memory_forget_reason
        (memory_forget_invoke me)]"

section \<open>Lemmas\<close>

lemma required_text_Inr: "required_text key args = Inr v \<Longrightarrow> v \<noteq> [] \<and> (\<exists>s. jget_str key args = Some s \<and> v = trim s)"
  by (auto simp: required_text_def Let_def split: option.splits if_splits)

text \<open>
  What \<open>memory_store\<close> accepts has a subject, a predicate and a value that are not empty
  after trimming, a confidence between 0 and 1 and one of the two provenance tags.
\<close>

theorem store_args_valid:
  assumes "parse_store_args me args = Inr req"
  shows "sa_subject req \<noteq> [] \<and> sa_predicate req \<noteq> [] \<and> sa_value req \<noteq> [] \<and> unit_interval (sa_confidence req)
         \<and> sa_source_kind req \<in> {''user_stated'', ''llm_inferred''} \<and> sa_notes req \<noteq> Some []
         \<and> (\<exists>s. jget_str ''value'' args = Some s \<and> sa_value req = trim s)"
proof -
  obtain kvs where obj: "as_object args = Some kvs"
    using assms by (cases "as_object args") (simp_all add: parse_store_args_def)
  obtain s where s: "required_text ''subject'' args = Inr s"
    using assms obj by (cases "required_text ''subject'' args") (simp_all add: parse_store_args_def)
  obtain p where p: "required_text ''predicate'' args = Inr p"
    using assms obj s by (cases "required_text ''predicate'' args") (simp_all add: parse_store_args_def)
  obtain v where v: "required_text ''value'' args = Inr v"
    using assms obj s p by (cases "required_text ''value'' args") (simp_all add: parse_store_args_def)
  have noted: "optional_text ''notes'' args \<noteq> Some []" by (simp add: optional_text_def Let_def split: option.split)
  let ?kind = "unwrap_or ''user_stated'' (optional_text ''source_kind'' args)"
  have conf: "unit_interval (store_confidence me args)"
    using assms obj s p v by (cases "unit_interval (store_confidence me args)") (simp_all add: parse_store_args_def)
  have kind: "?kind \<in> {''user_stated'', ''llm_inferred''}"
    using assms obj s p v conf by (cases "?kind \<in> {''user_stated'', ''llm_inferred''}") (simp_all add: parse_store_args_def)
  have "req = \<lparr>sa_subject = s, sa_predicate = p, sa_value = v, sa_notes = optional_text ''notes'' args,
      sa_tags = unwrap_or [] (optional_text ''tags'' args), sa_confidence = store_confidence me args, sa_source_kind = ?kind\<rparr>"
    using assms obj s p v conf kind by (simp add: parse_store_args_def Let_def split: if_splits)
  then show ?thesis
    using required_text_Inr [OF s] required_text_Inr [OF p] required_text_Inr [OF v] noted conf kind by simp
qed

definition demo_mem :: "unit mem_env" where
  "demo_mem =
     \<lparr>me_js = \<lparr>js_parse = (\<lambda>_. None), js_error = (\<lambda>_. []), js_show = (\<lambda>_. ''{}'')\<rparr>, me_f32_of_json = (\<lambda>_. 0), me_json_of_f32 = (\<lambda>_. JNull), me_f32_text = (\<lambda>_. []),
      me_uuid_parse = (\<lambda>_. None), me_uuid_text = (\<lambda>_. []), me_debug = id, me_now_text = (\<lambda>_. [])\<rparr>"

text \<open>The context of an approved call has no memory source, whatever the request was configured with.\<close>

lemma intercept_context_unwired [simp]: "cx_memories (intercept_context env) = None"
  by (simp add: intercept_context_def ctx_for_chat_session_def ctx_for_tests_def split: option.splits)

lemma record_invocation_memories [simp]: "cx_memories (record_invocation n ctx) = cx_memories ctx"
  by (simp add: record_invocation_def)

lemma unwired_fails:
  assumes "a \<in> set (memory_agents me k describe schema)" "cx_memories ctx = None"
  shows "\<exists>e. ag_invoke a ctx args w = (Inl e, w)"
  using assms
  by (auto simp: memory_agents_def memory_agent_def agent_defaults_def memory_store_invoke_def memory_recall_invoke_def
                 memory_list_invoke_def memory_forget_invoke_def split: sum.splits)

text \<open>
  A memory agent never runs without an approval, and a call the user approves cannot
  succeed: the approved invocation has no memory source, so it reports an error and leaves the
  memories as they were.
\<close>

theorem approved_memory_call_fails:
  assumes "a \<in> set (memory_agents me k describe schema)"
  shows "\<not> is_allowed (ag_requires_confirmation a ctx args)
    \<and> (\<exists>e. run_approved env body i p a s =
         ((push_messages
             [assistant_entry [] [call_entry i (JStr (pa_tool_name p)) (js_show (le_js env) (pa_args p))],
              tool_message i (''[error] '' @ agent_error_text e)] body,
           [sse_tool_call_event (le_js env) i (pa_tool_name p) (js_show (le_js env) (pa_args p)) 1,
            sse_tool_result_event (le_js env) i (pa_tool_name p) False (''[error] '' @ agent_error_text e)]),
          traced (Invoked i (pa_tool_name p) (pa_args p)) s))"
proof -
  obtain e where "ag_invoke a (record_invocation (pa_tool_name p) (intercept_context env)) (pa_args p) (ls_world s)
      = (Inl e, ls_world s)"
    using unwired_fails [OF assms] by fastforce
  moreover have "s\<lparr>ls_world := ls_world s\<rparr> = s" by simp
  moreover have "\<not> is_allowed (ag_requires_confirmation a ctx args)"
    using assms by (auto simp: memory_agents_def memory_agent_def is_allowed_def)
  ultimately show ?thesis by (auto simp: run_approved_def Let_def)
qed

lemma store_args_valid_witness:
  "\<exists>req. parse_store_args demo_mem
      (JObj [(''subject'', JStr '' doctor ''), (''predicate'', JStr ''name''), (''value'', JStr ''Martin'')]) = Inr req
      \<and> sa_subject req \<noteq> [] \<and> unit_interval (sa_confidence req)"
proof -
  let ?args = "JObj [(''subject'', JStr '' doctor ''), (''predicate'', JStr ''name''), (''value'', JStr ''Martin'')]"
  have "(case parse_store_args demo_mem ?args of Inr _ \<Rightarrow> True | Inl _ \<Rightarrow> False)" by code_simp
  then obtain req where "parse_store_args demo_mem ?args = Inr req" by (auto split: sum.splits)
  with store_args_valid [OF this] show ?thesis by blast
qed

lemma approved_memory_call_fails_witness:
  "let a = memory_agents demo_mem 5 id (\<lambda>_. JNull) ! 3
   in ag_name a = ''memory_forget'' \<and> \<not> is_allowed (ag_requires_confirmation a (ctx_for_tests 1 []) JNull)"
proof -
  have "memory_agents demo_mem 5 id (\<lambda>_. JNull) ! 3 \<in> set (memory_agents demo_mem 5 id (\<lambda>_. JNull))"
    by (simp add: memory_agents_def)
  from approved_memory_call_fails [OF this, THEN conjunct1]
  show ?thesis by (simp add: memory_agents_def memory_agent_def agent_defaults_def)
qed

end
