(* ===== verification/Ical.thy ===== *)
theory Ical
  imports Agents Rust_Utf8
begin

text \<open>
  The iCalendar half of \<open>nagent-agents/src/agents/caldav/mod.rs\<close>: the escaping of TEXT values, the
  unfolding of lines, the split into blocks and properties, durations and date-times, the reader
  of a \<open>VEVENT\<close> and the writer of a new event. A \<open>DateTime<Utc>\<close> and a \<open>chrono::Duration\<close> are
  integers (nanoseconds); what \<open>chrono\<close> and \<open>chrono-tz\<close> do is the parameter \<open>cal_env\<close>, where
  \<open>None\<close> of the duration operations is their documented panic.
\<close>

section \<open>The calendar library\<close>

datatype 'a outcome = Returned 'a | Panicked

record cal_env =
  cal_format :: "int \<Rightarrow> string"
  cal_parse :: "string \<Rightarrow> string \<Rightarrow> int option"
  cal_parse_date :: "string \<Rightarrow> int option"
  cal_tz :: "string \<Rightarrow> (int \<Rightarrow> int option) option"
  cal_days :: "int \<Rightarrow> int option"
  cal_seconds :: "int \<Rightarrow> int option"
  cal_plus :: "int \<Rightarrow> int \<Rightarrow> int option"

abbreviation lf :: char where "lf \<equiv> CHR 0x0A"
abbreviation cr :: char where "cr \<equiv> CHR 0x0D"
abbreviation crlf :: string where "crlf \<equiv> [cr, lf]"
abbreviation backslash :: char where "backslash \<equiv> CHR 0x5C"
abbreviation quote :: char where "quote \<equiv> CHR 0x22"

section \<open>TEXT values\<close>

definition escape_char :: "char \<Rightarrow> string" where
  "escape_char c =
     (if c = backslash then [backslash, backslash]
      else if c = CHR 0x3B then [backslash, CHR 0x3B]
      else if c = CHR 0x2C then [backslash, CHR 0x2C]
      else if c = lf then [backslash, CHR ''n'']
      else if c = cr then []
      else [c])"

definition ical_escape :: "string \<Rightarrow> string" where
  "ical_escape s = concat (map escape_char s)"

fun ical_unescape :: "string \<Rightarrow> string" where
  "ical_unescape [] = []"
| "ical_unescape [c] = [c]"
| "ical_unescape (c # d # s) =
     (if c = backslash then (if d = CHR ''n'' \<or> d = CHR ''N'' then lf else d) # ical_unescape s
      else c # ical_unescape (d # s))"

definition without_cr :: "string \<Rightarrow> string" where
  "without_cr s = filter (\<lambda>c. c \<noteq> cr) s"

section \<open>Lines\<close>

definition strip_suffix :: "string \<Rightarrow> string \<Rightarrow> string option" where
  "strip_suffix p s = map_option rev (strip_prefix (rev p) (rev s))"

lemma strip_suffix_iff: "strip_suffix p s = Some r \<longleftrightarrow> s = r @ p"
proof -
  have "strip_prefix (rev p) (rev s) = Some r' \<longleftrightarrow> s = rev r' @ p" for r'
    by (metis rev_append rev_rev_ident strip_prefix_iff)
  then show ?thesis by (auto simp: strip_suffix_def) (metis rev_rev_ident)
qed

definition strip_artifact :: "string \<Rightarrow> string option" where
  "strip_artifact s =
     or_else (strip_suffix [cr] s)
       (or_else (strip_suffix ''&#13;'' s) (or_else (strip_suffix ''&#xD;'' s) (strip_suffix ''&#xd;'' s)))"

lemma strip_artifact_shorter: "strip_artifact s = Some r \<Longrightarrow> length r < length s"
  by (auto simp: strip_artifact_def or_else_def strip_suffix_iff split: option.splits)

function strip_line_terminator_artifacts :: "string \<Rightarrow> string" where
  "strip_line_terminator_artifacts s =
     (case strip_artifact s of Some r \<Rightarrow> strip_line_terminator_artifacts r | None \<Rightarrow> s)"
  by pat_completeness auto
termination by (relation "measure length") (auto dest: strip_artifact_shorter)

declare strip_line_terminator_artifacts.simps [simp del]

definition continuation_rest :: "string \<Rightarrow> string option" where
  "continuation_rest line = or_else (strip_prefix '' '' line) (strip_prefix [CHR 0x09] line)"

fun unfold_lines :: "string list \<Rightarrow> string \<Rightarrow> string" where
  "unfold_lines [] out = out"
| "unfold_lines (raw # raws) out =
     (let line = strip_line_terminator_artifacts raw
      in unfold_lines raws
           (case continuation_rest line of
              Some rest \<Rightarrow> out @ rest
            | None \<Rightarrow> if out \<noteq> [] then out @ lf # line else out @ line))"

definition unfold :: "string \<Rightarrow> string" where
  "unfold ical = unfold_lines (split_char lf ical) []"

text \<open>\<open>str::lines\<close>: pieces ended by a line feed lose one carriage return, an empty last piece is no line.\<close>

definition chomp_cr :: "string \<Rightarrow> string" where
  "chomp_cr s = unwrap_or s (strip_suffix [cr] s)"

definition lines :: "string \<Rightarrow> string list" where
  "lines s =
     (let ps = split_char lf s
      in map chomp_cr (butlast ps) @ (if last ps = [] then [] else [last ps]))"

section \<open>Properties and blocks\<close>

type_synonym ical_property = "string \<times> (string \<times> string) list \<times> string"

record ical_block =
  bk_kind :: string
  bk_properties :: "ical_property list"

definition ascii_upper :: "char \<Rightarrow> char" where
  "ascii_upper c = (if 97 \<le> byte c \<and> byte c \<le> 122 then char_of (byte c - 32) else c)"

definition to_ascii_uppercase :: "string \<Rightarrow> string" where
  "to_ascii_uppercase s = map ascii_upper s"

definition trim_quotes :: "string \<Rightarrow> string" where
  "trim_quotes s = trim_end_matches quote (dropWhile (\<lambda>c. c = quote) s)"

definition split_property :: "string \<Rightarrow> ical_property" where
  "split_property line =
     (let (head, v) = (case split_at_char CHR '':'' line of Some (a, b) \<Rightarrow> (a, b) | None \<Rightarrow> (line, []));
          parts = split_char CHR 0x3B head
      in (to_ascii_uppercase (hd parts),
          List.map_filter (\<lambda>p. map_option (\<lambda>(k, x). (to_ascii_uppercase k, trim_quotes x)) (split_at_char CHR ''='' p)) (tl parts),
          v))"

text \<open>The head of \<open>stack\<close> is the innermost open block.\<close>

definition add_line :: "string \<Rightarrow> ical_block list \<times> ical_block list \<Rightarrow> ical_block list \<times> ical_block list" where
  "add_line line acc =
     (case acc of (blocks, stack) \<Rightarrow>
       (case strip_prefix ''BEGIN:'' line of
          Some kind \<Rightarrow> (blocks, \<lparr>bk_kind = kind, bk_properties = []\<rparr> # stack)
        | None \<Rightarrow>
            (case strip_prefix ''END:'' line of
               Some kind \<Rightarrow>
                 (case stack of
                    [] \<Rightarrow> (blocks, [])
                  | b # stack \<Rightarrow> (if bk_kind b = kind \<and> length stack = 1 then blocks @ [b] else blocks, stack))
             | None \<Rightarrow>
                 (case stack of
                    [] \<Rightarrow> (blocks, [])
                  | b # stack \<Rightarrow> (blocks, b\<lparr>bk_properties := bk_properties b @ [split_property line]\<rparr> # stack)))))"

definition split_blocks :: "string \<Rightarrow> ical_block list" where
  "split_blocks body = fst (fold add_line (lines body) ([], []))"

section \<open>Date-times\<close>

definition parse_tz_dt :: "cal_env \<Rightarrow> string \<Rightarrow> (int \<Rightarrow> int option) \<Rightarrow> int option" where
  "parse_tz_dt env raw resolve =
     or_else (Option.bind (cal_parse env ''%Y%m%dT%H%M%S'' raw) resolve)
       (or_else (Option.bind (cal_parse env ''%Y%m%dT%H%M'' raw) resolve)
          (Option.bind (cal_parse_date env raw) resolve))"

definition parse_dt :: "cal_env \<Rightarrow> string \<Rightarrow> (string \<times> string) list \<Rightarrow> int option" where
  "parse_dt env raw params =
     (case find (\<lambda>(k, v). k = ''TZID'') params of
        Some (k, tzid) \<Rightarrow> (case cal_tz env tzid of Some resolve \<Rightarrow> parse_tz_dt env raw resolve | None \<Rightarrow> None)
      | None \<Rightarrow>
          or_else (cal_parse env ''%Y%m%dT%H%M%SZ'' raw)
            (or_else (cal_parse env ''%Y%m%dT%H%M%S'' raw) (cal_parse_date env raw)))"

section \<open>Durations\<close>

text \<open>
  \<open>num.parse::<i64>()\<close> of a string of digits: no digits and a value past \<open>i64::MAX\<close> are errors. The
  sums and products are on 64 bits and wrap, as in the release profile.
\<close>

definition i64_max :: nat where "i64_max = 2 ^ 63 - 1"

definition digits_value :: "string \<Rightarrow> nat" where
  "digits_value s = foldl (\<lambda>n c. n * 10 + (byte c - 48)) 0 s"

definition parse_i64_digits :: "string \<Rightarrow> 64 word option" where
  "parse_i64_digits num =
     (if num = [] \<or> i64_max < digits_value num then None else Some (of_nat (digits_value num)))"

definition is_digit :: "char \<Rightarrow> bool" where
  "is_digit c \<longleftrightarrow> 48 \<le> byte c \<and> byte c \<le> 57"

record duration_state =
  du_days :: "64 word"
  du_secs :: "64 word"
  du_time :: bool
  du_num :: string

definition duration_init :: duration_state where
  "duration_init = \<lparr>du_days = 0, du_secs = 0, du_time = False, du_num = []\<rparr>"

definition duration_char :: "char \<Rightarrow> duration_state \<Rightarrow> duration_state option" where
  "duration_char ch d =
     (if ch = CHR ''T'' then Some (d\<lparr>du_time := True\<rparr>)
      else if is_digit ch then Some (d\<lparr>du_num := du_num d @ [ch]\<rparr>)
      else if ch = CHR ''D'' then
        map_option (\<lambda>n. d\<lparr>du_days := n, du_num := []\<rparr>) (parse_i64_digits (du_num d))
      else if ch = CHR ''H'' \<and> du_time d then
        map_option (\<lambda>n. d\<lparr>du_secs := du_secs d + n * 3600, du_num := []\<rparr>) (parse_i64_digits (du_num d))
      else if ch = CHR ''M'' \<and> du_time d then
        map_option (\<lambda>n. d\<lparr>du_secs := du_secs d + n * 60, du_num := []\<rparr>) (parse_i64_digits (du_num d))
      else if ch = CHR ''S'' \<and> du_time d then
        map_option (\<lambda>n. d\<lparr>du_secs := du_secs d + n, du_num := []\<rparr>) (parse_i64_digits (du_num d))
      else if ch = CHR ''W'' then
        map_option (\<lambda>n. d\<lparr>du_days := n * 7, du_num := []\<rparr>) (parse_i64_digits (du_num d))
      else None)"

fun duration_chars :: "string \<Rightarrow> duration_state \<Rightarrow> duration_state option" where
  "duration_chars [] d = Some d"
| "duration_chars (c # cs) d = Option.bind (duration_char c d) (duration_chars cs)"

definition duration_total :: "cal_env \<Rightarrow> duration_state \<Rightarrow> int outcome" where
  "duration_total env d =
     (case (cal_days env (sint (du_days d)), cal_seconds env (sint (du_secs d))) of
        (Some a, Some b) \<Rightarrow> (case cal_plus env a b of Some c \<Rightarrow> Returned c | None \<Rightarrow> Panicked)
      | _ \<Rightarrow> Panicked)"

definition parse_duration :: "cal_env \<Rightarrow> string \<Rightarrow> int option outcome" where
  "parse_duration env raw =
     (case strip_prefix ''P'' (trim raw) of
        None \<Rightarrow> Returned None
      | Some s \<Rightarrow>
          (case duration_chars s duration_init of
             None \<Rightarrow> Returned None
           | Some d \<Rightarrow> (case duration_total env d of Returned t \<Rightarrow> Returned (Some t) | Panicked \<Rightarrow> Panicked)))"

section \<open>Reading an event\<close>

record event =
  evt_uid :: string
  evt_href :: string
  evt_summary :: string
  evt_start :: int
  evt_end :: "int option"
  evt_description :: "string option"
  evt_location :: "string option"
  evt_rrule :: "string option"

record vevent_acc =
  va_uid :: "string option"
  va_summary :: string
  va_start :: "int option"
  va_end :: "int option"
  va_duration :: "int option"
  va_description :: "string option"
  va_location :: "string option"
  va_rrule :: "string option"

definition vevent_init :: vevent_acc where
  "vevent_init = \<lparr>va_uid = None, va_summary = [], va_start = None, va_end = None, va_duration = None,
     va_description = None, va_location = None, va_rrule = None\<rparr>"

definition vevent_property :: "cal_env \<Rightarrow> ical_property \<Rightarrow> vevent_acc \<Rightarrow> vevent_acc outcome" where
  "vevent_property env p a =
     (case p of (name, params, v) \<Rightarrow>
       if name = ''UID'' then Returned (a\<lparr>va_uid := Some v\<rparr>)
       else if name = ''SUMMARY'' then Returned (a\<lparr>va_summary := ical_unescape v\<rparr>)
       else if name = ''DTSTART'' then Returned (a\<lparr>va_start := parse_dt env v params\<rparr>)
       else if name = ''DTEND'' then Returned (a\<lparr>va_end := parse_dt env v params\<rparr>)
       else if name = ''DURATION'' then
         (case parse_duration env v of Returned d \<Rightarrow> Returned (a\<lparr>va_duration := d\<rparr>) | Panicked \<Rightarrow> Panicked)
       else if name = ''DESCRIPTION'' then Returned (a\<lparr>va_description := Some (ical_unescape v)\<rparr>)
       else if name = ''LOCATION'' then Returned (a\<lparr>va_location := Some (ical_unescape v)\<rparr>)
       else if name = ''RRULE'' then Returned (a\<lparr>va_rrule := Some v\<rparr>)
       else Returned a)"

fun vevent_properties :: "cal_env \<Rightarrow> ical_property list \<Rightarrow> vevent_acc \<Rightarrow> vevent_acc outcome" where
  "vevent_properties env [] a = Returned a"
| "vevent_properties env (p # ps) a =
     (case vevent_property env p a of Returned a \<Rightarrow> vevent_properties env ps a | Panicked \<Rightarrow> Panicked)"

text \<open>\<open>dt_end.or_else(|| duration.map(|d| dt_start + d))\<close>.\<close>

definition event_end :: "cal_env \<Rightarrow> int \<Rightarrow> vevent_acc \<Rightarrow> int option outcome" where
  "event_end env start a =
     (case va_end a of
        Some e \<Rightarrow> Returned (Some e)
      | None \<Rightarrow>
          (case va_duration a of
             None \<Rightarrow> Returned None
           | Some d \<Rightarrow> (case cal_plus env start d of Some e \<Rightarrow> Returned (Some e) | None \<Rightarrow> Panicked)))"

definition event_of :: "string \<Rightarrow> string \<Rightarrow> string \<Rightarrow> int \<Rightarrow> int option \<Rightarrow> vevent_acc \<Rightarrow> event" where
  "event_of uid href summary start end' a =
     \<lparr>evt_uid = uid, evt_href = href, evt_summary = summary, evt_start = start, evt_end = end',
      evt_description = va_description a, evt_location = va_location a, evt_rrule = va_rrule a\<rparr>"

definition read_vevent :: "cal_env \<Rightarrow> string \<Rightarrow> ical_block \<Rightarrow> (agent_error + event) outcome" where
  "read_vevent env href b =
     (case vevent_properties env (bk_properties b) vevent_init of
        Panicked \<Rightarrow> Panicked
      | Returned a \<Rightarrow>
          (case (va_uid a, va_start a) of
             (None, _) \<Rightarrow> Returned (Inl (AgentFailed ''VEVENT missing UID''))
           | (Some uid, None) \<Rightarrow> Returned (Inl (AgentFailed ''VEVENT missing DTSTART''))
           | (Some uid, Some start) \<Rightarrow>
               (case event_end env start a of
                  Panicked \<Rightarrow> Panicked
                | Returned e \<Rightarrow> Returned (Inr (event_of uid href (va_summary a) start e a)))))"

definition parse_vevent :: "cal_env \<Rightarrow> string \<Rightarrow> string \<Rightarrow> (agent_error + event) outcome" where
  "parse_vevent env ical href =
     (case find (\<lambda>b. bk_kind b = ''VEVENT'') (split_blocks (unfold ical)) of
        Some b \<Rightarrow> read_vevent env href b
      | None \<Rightarrow> Returned (Inl (AgentFailed ''iCalendar body did not contain a VEVENT'')))"

section \<open>Writing an event\<close>

record event_patch =
  ep_summary :: string
  ep_start :: int
  ep_end :: "int option"
  ep_description :: "string option"
  ep_location :: "string option"

definition int_to_string :: "int \<Rightarrow> string" where
  "int_to_string i = (if i < 0 then ''-'' @ nat_to_string (nat (- i)) else nat_to_string (nat i))"

definition hex2 :: "8 word \<Rightarrow> string" where
  "hex2 b = [digit (unat b div 16), digit (unat b mod 16)]"

definition random_hex_suffix :: "8 word list \<Rightarrow> string" where
  "random_hex_suffix bytes = concat (map hex2 bytes)"

text \<open>\<open>nanos\<close> is \<open>timestamp_nanos_opt()\<close>, which is \<open>None\<close> past the year 2262.\<close>

definition fresh_uid :: "int option \<Rightarrow> 8 word list \<Rightarrow> string" where
  "fresh_uid nanos bytes = int_to_string (unwrap_or 0 nanos) @ ''-'' @ random_hex_suffix bytes @ ''@nagent''"

definition optional_line :: "string \<Rightarrow> string option \<Rightarrow> string list" where
  "optional_line name x =
     (case x of Some d \<Rightarrow> if d \<noteq> [] then [name @ ical_escape d] else [] | None \<Rightarrow> [])"

definition ical_lines :: "cal_env \<Rightarrow> int \<Rightarrow> string \<Rightarrow> event_patch \<Rightarrow> string list" where
  "ical_lines env now uid p =
     [''BEGIN:VCALENDAR'', ''VERSION:2.0'', ''PRODID:-//nagent//CalDAV//EN'', ''BEGIN:VEVENT'',
      ''UID:'' @ uid, ''DTSTAMP:'' @ cal_format env now, ''DTSTART:'' @ cal_format env (ep_start p),
      (case ep_end p of Some e \<Rightarrow> ''DTEND:'' @ cal_format env e | None \<Rightarrow> ''DURATION:PT1H''),
      ''SUMMARY:'' @ ical_escape (ep_summary p)]
     @ optional_line ''DESCRIPTION:'' (ep_description p)
     @ optional_line ''LOCATION:'' (ep_location p)
     @ [''END:VEVENT'', ''END:VCALENDAR'']"

definition to_ical :: "cal_env \<Rightarrow> int \<Rightarrow> int option \<Rightarrow> 8 word list \<Rightarrow> event_patch \<Rightarrow> string" where
  "to_ical env now nanos bytes p = concat (map (\<lambda>l. l @ crlf) (ical_lines env now (fresh_uid nanos bytes) p))"

end
