(* ===== verification/Dav_Xml.thy ===== *)
theory Dav_Xml
  imports Ical Egress
begin

text \<open>
  The XML half of \<open>nagent-agents/src/agents/caldav/mod.rs\<close>: the scan for open and close tags by
  local name, the text of an element, and the readers of the answers of a server. Positions are
  byte positions in the answer. A string slice that cuts a character is a panic, as in Rust; the
  \<open>url\<close> crate is a parameter.
\<close>

section \<open>Tags\<close>

definition position_from :: "string \<Rightarrow> nat \<Rightarrow> char \<Rightarrow> nat option" where
  "position_from s i c = map_option (\<lambda>(a, b). i + length a) (split_at_char c (drop i s))"

definition tag_end :: "char \<Rightarrow> bool" where
  "tag_end c \<longleftrightarrow> c \<in> {CHR ''>'', CHR '' '', CHR 0x09, CHR 0x0A, CHR 0x0D, CHR ''/''}"

text \<open>The text after a namespace prefix, which ends at a colon; \<open>stop\<close> ends the search for one.\<close>

definition after_prefix :: "(char \<Rightarrow> bool) \<Rightarrow> string \<Rightarrow> string" where
  "after_prefix stop s =
     (case dropWhile (\<lambda>c. c \<noteq> CHR '':'' \<and> \<not> stop c) s of
        [] \<Rightarrow> s
      | c # r \<Rightarrow> if c = CHR '':'' then r else s)"

text \<open>The test at a \<open><\<close>, on the text after it.\<close>

definition tag_matches :: "string \<Rightarrow> string \<Rightarrow> bool" where
  "tag_matches s name =
     (case strip_prefix name (after_prefix tag_end s) of
        None \<Rightarrow> False
      | Some [] \<Rightarrow> True
      | Some (c # r) \<Rightarrow> tag_end c)"

function next_open_tag_at :: "string \<Rightarrow> nat \<Rightarrow> string \<Rightarrow> nat option" where
  "next_open_tag_at lower i name =
     (if i < length lower then
        (if lower ! i = CHR ''<'' \<and> tag_matches (drop (Suc i) lower) name then Some i
         else next_open_tag_at lower (Suc i) name)
      else None)"
  by pat_completeness auto
termination by (relation "measure (\<lambda>(lower, i, name). length lower - i)") auto

declare next_open_tag_at.simps [simp del]

definition find_open_tag :: "string \<Rightarrow> nat \<Rightarrow> string \<Rightarrow> nat option" where
  "find_open_tag xml start name = next_open_tag_at (to_ascii_lowercase xml) start name"

text \<open>The test after a \<open></\<close>: the name is compared as a string slice.\<close>

definition is_close_at :: "string \<Rightarrow> string \<Rightarrow> bool outcome" where
  "is_close_at s name =
     (if s = [] then Returned False
      else (let l = after_prefix (\<lambda>c. c = CHR ''>'') s
            in if length l < length name then Returned False
               else if \<not> is_char_boundary l (length name) then Panicked
               else Returned (case strip_prefix name l of
                                None \<Rightarrow> False
                              | Some [] \<Rightarrow> True
                              | Some (c # r) \<Rightarrow> c = CHR ''>'')))"

definition after_tag :: "string \<Rightarrow> nat \<Rightarrow> nat" where
  "after_tag lower lt = (case position_from lower lt CHR ''>'' of Some p \<Rightarrow> p + 1 | None \<Rightarrow> length lower)"

lemma position_from_bounds: "position_from s i c = Some p \<Longrightarrow> i \<le> p \<and> p < length s \<and> s ! p = c"
proof -
  assume "position_from s i c = Some p"
  then obtain a b where "split_at_char c (drop i s) = Some (a, b)" and p: "p = i + length a"
    by (auto simp: position_from_def)
  then have d: "drop i s = a @ c # b" by (auto dest: split_at_char_Some)
  from d have "length s - i = length a + Suc (length b)" using length_drop [of i s] by simp
  moreover from d have "drop i s ! length a = c" by simp
  ultimately show ?thesis using p by (simp add: nth_drop)
qed

lemma after_tag_progress: "lt < length lower \<Longrightarrow> lt < after_tag lower lt"
  using position_from_bounds [of lower lt "CHR ''>''"] by (auto simp: after_tag_def split: option.splits)

lemma scan_decreases:
  "i < length lower \<Longrightarrow> position_from lower i c = Some lt \<Longrightarrow> length lower - after_tag lower lt < length lower - i"
  using position_from_bounds [of lower i c lt] after_tag_progress [of lt lower] by linarith

function close_loop :: "string \<Rightarrow> string \<Rightarrow> nat \<Rightarrow> nat \<Rightarrow> nat option outcome" where
  "close_loop lower name i depth =
     (if i < length lower then
        (case position_from lower i CHR ''<'' of
           None \<Rightarrow> Returned None
         | Some lt \<Rightarrow>
             if length lower \<le> lt + 1 then Returned None
             else if lower ! (lt + 1) = CHR ''/'' then
               (case is_close_at (drop (lt + 2) lower) name of
                  Panicked \<Rightarrow> Panicked
                | Returned True \<Rightarrow>
                    if depth - 1 = 0 then Returned (Some lt) else close_loop lower name (after_tag lower lt) (depth - 1)
                | Returned False \<Rightarrow> close_loop lower name (after_tag lower lt) depth)
             else if lower ! (lt + 1) = CHR ''!'' \<or> lower ! (lt + 1) = CHR ''?'' then
               close_loop lower name (after_tag lower lt) depth
             else
               close_loop lower name (after_tag lower lt)
                 (if next_open_tag_at lower lt name = Some lt then depth + 1 else depth))
      else Returned None)"
  by pat_completeness auto
termination
  by (relation "measure (\<lambda>(lower, name, i, depth). length lower - i)")
    (simp_all only: wf_measure in_measure prod.case scan_decreases)

declare close_loop.simps [simp del]

definition find_close_tag_in_lower :: "string \<Rightarrow> nat \<Rightarrow> string \<Rightarrow> nat option outcome" where
  "find_close_tag_in_lower lower start name =
     (case position_from lower start CHR ''>'' of
        None \<Rightarrow> Returned None
      | Some p \<Rightarrow> close_loop lower name (p + 1) 1)"

lemma close_loop_cases:
  obtains "close_loop lower name i depth = Returned None" | "close_loop lower name i depth = Panicked"
  | lt where "i < length lower" "position_from lower i CHR ''<'' = Some lt" "close_loop lower name i depth = Returned (Some lt)"
  | lt d where "i < length lower" "position_from lower i CHR ''<'' = Some lt"
      "close_loop lower name i depth = close_loop lower name (after_tag lower lt) d"
proof (cases "i < length lower")
  case False
  then show ?thesis using that(1) by (simp add: close_loop.simps [of lower name i])
next
  case True
  show ?thesis
  proof (cases "position_from lower i CHR ''<''")
    case None
    then show ?thesis using that(1) True by (simp add: close_loop.simps [of lower name i])
  next
    case (Some lt)
    note step = close_loop.simps [of lower name i depth, unfolded Some option.case if_P [OF True]]
    show ?thesis
    proof (cases "length lower \<le> lt + 1 \<or> lower ! (lt + 1) \<noteq> CHR ''/''")
      case True
      then show ?thesis
        using step that(1) that(4) [OF \<open>i < length lower\<close> Some]
        by (cases "length lower \<le> lt + 1"; cases "lower ! (lt + 1) = CHR ''!'' \<or> lower ! (lt + 1) = CHR ''?''") simp_all
    next
      case False
      then show ?thesis
        using step that(2) that(3) [OF \<open>i < length lower\<close> Some] that(4) [OF \<open>i < length lower\<close> Some]
        by (cases "is_close_at (drop (lt + 2) lower) name") (simp_all split: bool.splits if_splits)
    qed
  qed
qed

lemma close_loop_bounds: "close_loop lower name i depth = Returned (Some e) \<Longrightarrow> i \<le> e \<and> e < length lower"
proof (induction "length lower - i" arbitrary: i depth rule: less_induct)
  case less
  show ?case
  proof (cases rule: close_loop_cases [of lower name i depth])
    case (3 lt)
    then show ?thesis using less.prems position_from_bounds by fastforce
  next
    case (4 lt d)
    from less.hyps [OF scan_decreases [OF 4(1,2)]] less.prems 4(3) have "after_tag lower lt \<le> e \<and> e < length lower" by simp
    then show ?thesis using position_from_bounds [OF 4(2)] after_tag_progress [of lt lower] by simp
  qed (use less.prems in auto)
qed

lemma find_close_bounds:
  assumes "find_close_tag_in_lower lower start name = Returned (Some e)" and "position_from lower start CHR ''>'' = Some p"
  shows "start < e \<and> p + 1 \<le> e \<and> e < length lower"
  using assms close_loop_bounds [of lower name "p + 1" 1 e] position_from_bounds [OF assms(2)]
  by (simp add: find_close_tag_in_lower_def)

lemma find_close_after: "find_close_tag_in_lower lower start name = Returned (Some e) \<Longrightarrow> start < e \<and> e < length lower"
  using find_close_bounds by (cases "position_from lower start CHR ''>''") (auto simp: find_close_tag_in_lower_def)

lemma next_open_bounds: "next_open_tag_at lower i name = Some p \<Longrightarrow> i \<le> p \<and> p < length lower \<and> lower ! p = CHR ''<''"
proof (induction lower i name rule: next_open_tag_at.induct)
  case (1 lower i name)
  then show ?case by (auto simp: next_open_tag_at.simps [of lower i] split: if_splits)
qed

lemma next_open_here: "next_open_tag_at lower i name = Some i \<longleftrightarrow> i < length lower \<and> lower ! i = CHR ''<'' \<and> tag_matches (drop (Suc i) lower) name"
  using next_open_bounds [of lower "Suc i" name i] by (auto simp: next_open_tag_at.simps [of lower i])

section \<open>Elements\<close>

definition slice :: "nat \<Rightarrow> nat \<Rightarrow> string \<Rightarrow> string" where
  "slice a b s = take (b - a) (drop a s)"

definition and_then :: "'a outcome \<Rightarrow> ('a \<Rightarrow> 'b outcome) \<Rightarrow> 'b outcome" where
  "and_then x f = (case x of Returned a \<Rightarrow> f a | Panicked \<Rightarrow> Panicked)"

definition extract_inner :: "string \<Rightarrow> string \<Rightarrow> string option outcome" where
  "extract_inner xml name =
     (let lower = to_ascii_lowercase xml
      in case find_open_tag lower 0 name of
           None \<Rightarrow> Returned None
         | Some open_pos \<Rightarrow>
             (case position_from lower open_pos CHR ''>'' of
                None \<Rightarrow> Returned None
              | Some p \<Rightarrow>
                  and_then (find_close_tag_in_lower lower open_pos name)
                    (\<lambda>e. Returned (map_option (\<lambda>e. trim (slice (p + 1) e xml)) e))))"

text \<open>The loop over the elements of a name; \<open>body\<close> sees the start and the end of each.\<close>

function for_elements :: "string \<Rightarrow> string \<Rightarrow> (nat \<Rightarrow> nat \<Rightarrow> 's \<Rightarrow> 's outcome) \<Rightarrow> nat \<Rightarrow> 's \<Rightarrow> 's outcome" where
  "for_elements lower name body cursor out =
     (case find_open_tag lower cursor name of
        None \<Rightarrow> Returned out
      | Some start \<Rightarrow>
          (case find_close_tag_in_lower lower start name of
             Panicked \<Rightarrow> Panicked
           | Returned None \<Rightarrow> Returned out
           | Returned (Some e) \<Rightarrow>
               (case body start e out of
                  Panicked \<Rightarrow> Panicked
                | Returned out \<Rightarrow> for_elements lower name body e out)))"
  by pat_completeness auto
termination
proof (relation "measure (\<lambda>(lower, name, body, cursor, out). length lower - cursor)", goal_cases)
  case (2 lower name body cursor out start e_opt e out')
  then have "cursor \<le> start" "start < e" "e < length lower"
    using next_open_bounds find_close_after by (auto simp: find_open_tag_def)
  then show ?case by simp
qed simp

declare for_elements.simps [simp del]

section \<open>Discovery\<close>

record url_env =
  ue_parse :: "string \<Rightarrow> string option"
  ue_join :: "string \<Rightarrow> string \<Rightarrow> string option"

definition resolve_href :: "url_env \<Rightarrow> string \<Rightarrow> string \<Rightarrow> string" where
  "resolve_href ue href base_url =
     (case ue_parse ue href of Some u \<Rightarrow> u | None \<Rightarrow> unwrap_or href (ue_join ue base_url href))"

definition is_user_calendar :: "string \<Rightarrow> bool" where
  "is_user_calendar resourcetype =
     (find_open_tag resourcetype 0 ''calendar'' \<noteq> None
      \<and> \<not> list_ex (\<lambda>blocker. contains blocker resourcetype)
            [''calendar-collection'', ''calendar-proxy-'', ''schedule-inbox'', ''schedule-outbox'']
      \<and> find_open_tag resourcetype 0 ''schedule'' = None)"

record propfind_response =
  pr_href :: string
  pr_display_name :: string
  pr_ctag :: "string option"
  pr_is_calendar :: bool

definition propfind_response :: "url_env \<Rightarrow> string \<Rightarrow> string \<Rightarrow> propfind_response outcome" where
  "propfind_response ue base_url chunk =
     and_then (extract_inner chunk ''href'') (\<lambda>href.
       and_then (extract_inner chunk ''displayname'') (\<lambda>name.
         and_then (extract_inner chunk ''getctag'') (\<lambda>ctag.
           and_then (extract_inner chunk ''resourcetype'') (\<lambda>kind.
             Returned \<lparr>pr_href = (case href of Some h \<Rightarrow> resolve_href ue h base_url | None \<Rightarrow> []),
                       pr_display_name = unwrap_or [] name, pr_ctag = ctag,
                       pr_is_calendar = is_user_calendar (to_ascii_lowercase (unwrap_or [] kind))\<rparr>))))"

definition extract_propfind_responses :: "url_env \<Rightarrow> string \<Rightarrow> string \<Rightarrow> propfind_response list outcome" where
  "extract_propfind_responses ue xml base_url =
     for_elements (to_ascii_lowercase xml) ''response''
       (\<lambda>start e out. and_then (propfind_response ue base_url (slice start e xml)) (\<lambda>r. Returned (out @ [r]))) 0 []"

function href_loop :: "url_env \<Rightarrow> string \<Rightarrow> string \<Rightarrow> string \<Rightarrow> nat \<Rightarrow> nat \<Rightarrow> string list \<Rightarrow> string list outcome" where
  "href_loop ue base_url xml lower abs_end inner_cursor out =
     (case find_open_tag lower inner_cursor ''href'' of
        None \<Rightarrow> Returned out
      | Some href_open \<Rightarrow>
          if abs_end \<le> href_open then Returned out
          else (case find_close_tag_in_lower lower href_open ''href'' of
                  Panicked \<Rightarrow> Panicked
                | Returned None \<Rightarrow> Returned out
                | Returned (Some lt) \<Rightarrow>
                    (let text_start = (case position_from lower href_open CHR ''>'' of Some p \<Rightarrow> p + 1 | None \<Rightarrow> lt);
                         href_text = trim (slice text_start lt xml);
                         resolved = resolve_href ue href_text base_url
                     in href_loop ue base_url xml lower abs_end (after_tag lower lt)
                          (if href_text \<noteq> [] \<and> resolved \<notin> set out then out @ [resolved] else out))))"
  by pat_completeness auto
termination
proof (relation "measure (\<lambda>(ue, base_url, xml, lower, abs_end, inner_cursor, out). length lower - inner_cursor)", goal_cases)
  case (2 ue base_url xml lower abs_end inner_cursor out href_open e_opt lt)
  then have "inner_cursor \<le> href_open" "href_open < lt" "lt < length lower"
    using next_open_bounds find_close_after by (auto simp: find_open_tag_def)
  then show ?case using after_tag_progress [of lt lower] by simp
qed simp

declare href_loop.simps [simp del]

definition extract_calendar_home_hrefs :: "url_env \<Rightarrow> string \<Rightarrow> string \<Rightarrow> string list outcome" where
  "extract_calendar_home_hrefs ue xml base_url =
     for_elements (to_ascii_lowercase xml) ''calendar-home-set''
       (\<lambda>start e out. href_loop ue base_url xml (to_ascii_lowercase xml) e start out) 0 []"

section \<open>Events of a report\<close>

text \<open>The block reader of \<open>extract_events_from_multistatus\<close>: a block without \<open>UID\<close> or start is left out.\<close>

definition collect_vevent :: "cal_env \<Rightarrow> string \<Rightarrow> ical_block \<Rightarrow> event list \<Rightarrow> event list outcome" where
  "collect_vevent env href b events =
     (if bk_kind b \<noteq> ''VEVENT'' then Returned events
      else
        and_then (vevent_properties env (bk_properties b) vevent_init) (\<lambda>a.
          case (va_uid a, va_start a) of
            (Some uid, Some start) \<Rightarrow>
              and_then (event_end env start a) (\<lambda>e. Returned (events @ [event_of uid href (va_summary a) start e a]))
          | _ \<Rightarrow> Returned events))"

fun collect_blocks :: "cal_env \<Rightarrow> string \<Rightarrow> ical_block list \<Rightarrow> event list \<Rightarrow> event list outcome" where
  "collect_blocks env href [] events = Returned events"
| "collect_blocks env href (b # bs) events = and_then (collect_vevent env href b events) (collect_blocks env href bs)"

definition collect_response :: "cal_env \<Rightarrow> url_env \<Rightarrow> string \<Rightarrow> string \<Rightarrow> event list \<Rightarrow> event list outcome" where
  "collect_response env ue calendar_url chunk events =
     and_then (extract_inner chunk ''href'') (\<lambda>h.
       let href = (case h of Some h \<Rightarrow> resolve_href ue h calendar_url | None \<Rightarrow> [])
       in and_then (extract_inner chunk ''calendar-data'') (\<lambda>data.
            case data of
              None \<Rightarrow> Returned events
            | Some ical \<Rightarrow> collect_blocks env href (split_blocks (unfold ical)) events))"

definition extract_events_from_multistatus :: "cal_env \<Rightarrow> url_env \<Rightarrow> string \<Rightarrow> string \<Rightarrow> event list outcome" where
  "extract_events_from_multistatus env ue xml calendar_url =
     for_elements (to_ascii_lowercase xml) ''response''
       (\<lambda>start e events. collect_response env ue calendar_url (slice start e xml) events) 0 []"

section \<open>Requests\<close>

definition build_propfind_body :: string where
  "build_propfind_body =
     ''<?xml version='' @ [CHR 0x22] @ ''1.0'' @ [CHR 0x22] @ '' encoding='' @ [CHR 0x22] @ ''utf-8'' @ [CHR 0x22] @ '' ?>'' @ [CHR 0x0A]
     @ ''<D:propfind xmlns:D='' @ [CHR 0x22] @ ''DAV:'' @ [CHR 0x22] @ '' xmlns:C='' @ [CHR 0x22] @ ''urn:ietf:params:xml:ns:caldav'' @ [CHR 0x22] @ '' xmlns:CS='' @ [CHR 0x22] @ ''http://calendarserver.org/ns/'' @ [CHR 0x22] @ ''>'' @ [CHR 0x0A]
     @ ''  <D:prop>'' @ [CHR 0x0A]
     @ ''    <D:displayname/>'' @ [CHR 0x0A]
     @ ''    <D:resourcetype/>'' @ [CHR 0x0A]
     @ ''    <CS:getctag/>'' @ [CHR 0x0A]
     @ ''    <C:calendar-home-set/>'' @ [CHR 0x0A]
     @ ''    <D:principal-URL/>'' @ [CHR 0x0A]
     @ ''  </D:prop>'' @ [CHR 0x0A]
     @ ''</D:propfind>'' @ [CHR 0x0A]"

definition build_calendar_query_body :: "cal_env \<Rightarrow> int \<Rightarrow> int \<Rightarrow> string" where
  "build_calendar_query_body env start end' =
     ''<?xml version='' @ [CHR 0x22] @ ''1.0'' @ [CHR 0x22] @ '' encoding='' @ [CHR 0x22] @ ''utf-8'' @ [CHR 0x22] @ '' ?>'' @ [CHR 0x0A]
     @ ''<C:calendar-query xmlns:D='' @ [CHR 0x22] @ ''DAV:'' @ [CHR 0x22] @ '' xmlns:C='' @ [CHR 0x22] @ ''urn:ietf:params:xml:ns:caldav'' @ [CHR 0x22] @ ''>'' @ [CHR 0x0A]
     @ ''  <D:prop>'' @ [CHR 0x0A]
     @ ''    <D:getetag/>'' @ [CHR 0x0A]
     @ ''    <C:calendar-data>'' @ [CHR 0x0A]
     @ ''      <C:expand start='' @ [CHR 0x22]
     @ cal_format env start
     @ [CHR 0x22] @ '' end='' @ [CHR 0x22]
     @ cal_format env end'
     @ [CHR 0x22] @ ''/>'' @ [CHR 0x0A]
     @ ''    </C:calendar-data>'' @ [CHR 0x0A]
     @ ''  </D:prop>'' @ [CHR 0x0A]
     @ ''  <C:filter>'' @ [CHR 0x0A]
     @ ''    <C:comp-filter name='' @ [CHR 0x22] @ ''VCALENDAR'' @ [CHR 0x22] @ ''>'' @ [CHR 0x0A]
     @ ''      <C:comp-filter name='' @ [CHR 0x22] @ ''VEVENT'' @ [CHR 0x22] @ ''>'' @ [CHR 0x0A]
     @ ''        <C:time-range start='' @ [CHR 0x22]
     @ cal_format env start
     @ [CHR 0x22] @ '' end='' @ [CHR 0x22]
     @ cal_format env end'
     @ [CHR 0x22] @ ''/>'' @ [CHR 0x0A]
     @ ''      </C:comp-filter>'' @ [CHR 0x0A]
     @ ''    </C:comp-filter>'' @ [CHR 0x0A]
     @ ''  </C:filter>'' @ [CHR 0x0A]
     @ ''</C:calendar-query>'' @ [CHR 0x0A]"

end
