(* ===== verification/Caldav_Agents.thy ===== *)
theory Caldav_Agents
  imports Dav_Xml
begin

text \<open>
  The CalDAV client of \<open>nagent-agents/src/agents/caldav/mod.rs\<close> and the three agents on it,
  \<open>create_event.rs\<close>, \<open>get_event.rs\<close> and \<open>list_events.rs\<close>. Every function that talks to the server
  returns, beside its result, the requests it handed the HTTP client. One \<open>dv_send\<close> stands for one
  call of that client, which follows up to five redirects on its own (\<open>egress.rs\<close>,
  \<open>Policy::limited(MAX_REDIRECTS)\<close>): the follow-up requests, which no policy looks at, are not in
  the list. Base64, the clock, RFC 3339 and the network are parameters. An invocation that panics
  has the outcome \<open>Panicked\<close>.
\<close>

section \<open>Environment\<close>

record dav_request =
  rq_method :: string
  rq_url :: string
  rq_authorization :: "string option"
  rq_body :: string

record dav_response =
  rs_status :: nat
  rs_body :: "string + string"
  rs_text :: "string option"

record dav_env =
  dv_net :: egress_env
  dv_send :: "dav_request \<Rightarrow> string + dav_response"
  dv_cal :: cal_env
  dv_urls :: url_env
  dv_join :: "string \<Rightarrow> string \<Rightarrow> string + string"
  dv_base64 :: "string \<Rightarrow> string"
  dv_js :: json_codec
  dv_rfc3339 :: "string \<Rightarrow> string + int"
  dv_rfc3339_text :: "int \<Rightarrow> string"
  dv_addr_text :: "ip_addr \<Rightarrow> nat \<Rightarrow> string"
  dv_utf8_error :: "string \<Rightarrow> string"

record dav_config =
  dc_timeout_ms :: nat
  dc_allowlist :: "string list"
  dc_max_body_bytes :: nat
  dc_max_events :: nat

text \<open>What an invocation reads from outside once: the clock, the uid's nanoseconds, random bytes.\<close>

record dav_input =
  di_now :: int
  di_nanos :: "int option"
  di_random :: "8 word list"

definition build_egress :: "dav_config \<Rightarrow> egress_config" where
  "build_egress cfg =
     egress_finalize \<lparr>eg_timeout_ms = dc_timeout_ms cfg, eg_allow_public = True,
       eg_allowlist = dc_allowlist cfg, eg_max_bytes = dc_max_body_bytes cfg\<rparr>"

section \<open>The client\<close>

record basic_auth =
  ba_username :: string
  ba_password :: string

definition header_value :: "dav_env \<Rightarrow> basic_auth \<Rightarrow> string" where
  "header_value env a = ''Basic '' @ dv_base64 env (ba_username a @ '':'' @ ba_password a)"

record caldav_client =
  cl_egress :: egress_config
  cl_base :: parsed_url
  cl_auth :: basic_auth

fun map_egress :: "dav_env \<Rightarrow> egress_error \<Rightarrow> agent_error" where
  "map_egress env (EgScheme s) = InvalidArguments (''unsupported scheme `'' @ s @ ''`'')"
| "map_egress env EgNoHost = InvalidArguments ''url has no host''"
| "map_egress env (EgNotInAllowlist host) = SandboxDenied (''host `'' @ host @ ''` is not in the CalDAV allowlist'')"
| "map_egress env (EgDisallowedAddress host addr port) =
     SandboxDenied (''host `'' @ host @ ''` resolves to a disallowed address ('' @ dv_addr_text env addr port @ '')'')"
| "map_egress env (EgDns msg) = AgentFailed (''dns resolve: '' @ msg)"
| "map_egress env (EgUpstream status body) = AgentUpstream status body"
| "map_egress env (EgResponseExceeded budget) = ResponseExceeded budget"
| "map_egress env (EgTransport msg) = AgentFailed (''transport: '' @ msg)"
| "map_egress env (EgUrlParse msg) = InvalidArguments (''url parse: '' @ msg)"

definition truncate_str :: "string \<Rightarrow> string" where
  "truncate_str s = truncate_body s 2048"

text \<open>\<open>propfind\<close> and \<open>report\<close> differ in the method and the depth header, which is not modelled.\<close>

definition dav_query :: "dav_env \<Rightarrow> caldav_client \<Rightarrow> string \<Rightarrow> string \<Rightarrow> string \<Rightarrow> dav_request list \<times> (agent_error + string)" where
  "dav_query env cl verb url body =
     (case egress_validate (dv_net env) (cl_egress cl) url of
        Inl e \<Rightarrow> ([], Inl (map_egress env e))
      | Inr ok \<Rightarrow>
          (let rq = \<lparr>rq_method = verb, rq_url = pu_text (vo_url ok),
                     rq_authorization = Some (header_value env (cl_auth cl)), rq_body = body\<rparr>
           in ([rq],
               case dv_send env rq of
                 Inl e \<Rightarrow> Inl (AgentFailed (verb @ '' transport: '' @ e))
               | Inr resp \<Rightarrow>
                   (case rs_body resp of
                      Inl e \<Rightarrow> Inl (AgentFailed (verb @ '' read: '' @ e))
                    | Inr bytes \<Rightarrow>
                        if \<not> is_success (rs_status resp) \<and> rs_status resp \<noteq> 207 then
                          Inl (AgentUpstream (rs_status resp) (truncate_str (from_utf8_lossy bytes)))
                        else Inr bytes))))"

definition propfind :: "dav_env \<Rightarrow> caldav_client \<Rightarrow> string \<Rightarrow> string \<Rightarrow> dav_request list \<times> (agent_error + string)" where
  "propfind env cl url body = dav_query env cl ''PROPFIND'' url body"

definition report :: "dav_env \<Rightarrow> caldav_client \<Rightarrow> string \<Rightarrow> string \<Rightarrow> dav_request list \<times> (agent_error + string)" where
  "report env cl url body = dav_query env cl ''REPORT'' url body"

text \<open>\<open>get\<close> goes through the streaming path of the egress client, which takes no header.\<close>

definition dav_get :: "dav_env \<Rightarrow> caldav_client \<Rightarrow> string \<Rightarrow> dav_request list \<times> (agent_error + string)" where
  "dav_get env cl url =
     (case egress_get (dv_net env) (cl_egress cl) url None of
        (urls, r) \<Rightarrow>
          (map (\<lambda>u. \<lparr>rq_method = ''GET'', rq_url = u, rq_authorization = None, rq_body = []\<rparr>) urls,
           case r of Inl e \<Rightarrow> Inl (map_egress env e) | Inr bytes \<Rightarrow> Inr bytes))"

definition dav_put :: "dav_env \<Rightarrow> caldav_client \<Rightarrow> string \<Rightarrow> string \<Rightarrow> dav_request list \<times> (agent_error + unit)" where
  "dav_put env cl href_path body =
     (case dv_join env (pu_text (cl_base cl)) href_path of
        Inl e \<Rightarrow> ([], Inl (InvalidArguments (''href join: '' @ e)))
      | Inr full \<Rightarrow>
          (case egress_validate (dv_net env) (cl_egress cl) full of
             Inl e \<Rightarrow> ([], Inl (map_egress env e))
           | Inr ok \<Rightarrow>
               (let rq = \<lparr>rq_method = ''PUT'', rq_url = pu_text (vo_url ok),
                          rq_authorization = Some (header_value env (cl_auth cl)), rq_body = body\<rparr>
                in ([rq],
                    case dv_send env rq of
                      Inl e \<Rightarrow> Inl (AgentFailed (''PUT transport: '' @ e))
                    | Inr resp \<Rightarrow>
                        if \<not> is_success (rs_status resp) then
                          Inl (AgentUpstream (rs_status resp) (truncate_str (unwrap_or [] (rs_text resp))))
                        else Inr ()))))"

section \<open>Credentials\<close>

definition missing_field :: "string \<Rightarrow> agent_error" where
  "missing_field field =
     AgentFailed (''caldav credentials are not configured: set the `'' @ field @ ''` field in the Integrations page'')"

text \<open>The vault, read through \<open>UserContext::secret\<close>: a field of the service \<open>caldav\<close>, or none.\<close>

type_synonym vault = "string \<Rightarrow> agent_error + string option"

definition required_secret :: "vault \<Rightarrow> string \<Rightarrow> agent_error + string" where
  "required_secret v field =
     (case v field of Inl e \<Rightarrow> Inl e | Inr None \<Rightarrow> Inl (missing_field field) | Inr (Some s) \<Rightarrow> Inr s)"

definition build_client :: "dav_env \<Rightarrow> dav_config \<Rightarrow> vault \<Rightarrow> agent_error + caldav_client" where
  "build_client env cfg v =
     (case required_secret v ''url'' of Inl e \<Rightarrow> Inl e | Inr url \<Rightarrow>
       (case required_secret v ''username'' of Inl e \<Rightarrow> Inl e | Inr username \<Rightarrow>
         (case required_secret v ''password'' of Inl e \<Rightarrow> Inl e | Inr password \<Rightarrow>
           (case ee_parse (dv_net env) url of
              Inl e \<Rightarrow> Inl (InvalidArguments (''stored caldav url: '' @ e))
            | Inr base_url \<Rightarrow>
                Inr \<lparr>cl_egress = build_egress cfg, cl_base = base_url,
                     cl_auth = \<lparr>ba_username = username, ba_password = password\<rparr>\<rparr>))))"

text \<open>\<open>list_events\<close> also compares the scheme and the host of the calendar the model asks for.\<close>

definition build_list_client :: "dav_env \<Rightarrow> dav_config \<Rightarrow> vault \<Rightarrow> string \<Rightarrow> agent_error + caldav_client" where
  "build_list_client env cfg v calendar_url =
     (case build_client env cfg v of
        Inl e \<Rightarrow> Inl e
      | Inr cl \<Rightarrow>
          if calendar_url = [] then Inr cl
          else (case ee_parse (dv_net env) calendar_url of
                  Inl e \<Rightarrow> Inl (InvalidArguments (''calendar_url: '' @ e))
                | Inr llm \<Rightarrow>
                    if pu_scheme llm \<noteq> pu_scheme (cl_base cl) \<or> pu_host llm \<noteq> pu_host (cl_base cl) then
                      Inl (InvalidArguments ''calendar_url host does not match the configured CalDAV server'')
                    else Inr cl))"

section \<open>Arguments\<close>

definition object_required :: "json \<Rightarrow> (agent_error + 'a) \<Rightarrow> agent_error + 'a" where
  "object_required args k =
     (if as_object args = None then Inl (InvalidArguments ''arguments must be a JSON object'') else k)"

definition rfc3339_arg :: "dav_env \<Rightarrow> string \<Rightarrow> string \<Rightarrow> agent_error + int" where
  "rfc3339_arg env field s =
     (case dv_rfc3339 env s of
        Inl e \<Rightarrow> Inl (InvalidArguments (''`'' @ field @ ''` must be RFC 3339: '' @ e))
      | Inr t \<Rightarrow> Inr t)"

definition required_string :: "string \<Rightarrow> string \<Rightarrow> json \<Rightarrow> agent_error + string" where
  "required_string field kind args =
     (case jget_str field args of
        None \<Rightarrow> Inl (InvalidArguments (''`'' @ field @ ''` ('' @ kind @ '') is required''))
      | Some s \<Rightarrow> Inr s)"

definition trimmed_arg :: "string \<Rightarrow> json \<Rightarrow> string option" where
  "trimmed_arg field args =
     (case jget_str field args of Some s \<Rightarrow> (if trim s = [] then None else Some (trim s)) | None \<Rightarrow> None)"

definition nonempty_arg :: "string \<Rightarrow> json \<Rightarrow> agent_error + string" where
  "nonempty_arg field args =
     (case required_string field ''string'' args of
        Inl e \<Rightarrow> Inl e
      | Inr s \<Rightarrow> if trim s = [] then Inl (InvalidArguments (''`'' @ field @ ''` must not be empty'')) else Inr (trim s))"

definition parse_create_args :: "dav_env \<Rightarrow> json \<Rightarrow> agent_error + event_patch" where
  "parse_create_args env args =
     object_required args
       (case nonempty_arg ''summary'' args of Inl e \<Rightarrow> Inl e | Inr summary \<Rightarrow>
         (case required_string ''start'' ''RFC 3339 string'' args of Inl e \<Rightarrow> Inl e | Inr start_text \<Rightarrow>
           (case rfc3339_arg env ''start'' start_text of Inl e \<Rightarrow> Inl e | Inr start \<Rightarrow>
             (case (case jget_str ''end'' args of None \<Rightarrow> Inr None | Some s \<Rightarrow>
                      (case rfc3339_arg env ''end'' s of Inl e \<Rightarrow> Inl e | Inr t \<Rightarrow> Inr (Some t))) of
                Inl e \<Rightarrow> Inl e
              | Inr end' \<Rightarrow>
                  if (case end' of Some e \<Rightarrow> e < start | None \<Rightarrow> False) then
                    Inl (InvalidArguments ''`end` must not be before `start`'')
                  else Inr \<lparr>ep_summary = summary, ep_start = start, ep_end = end',
                            ep_description = trimmed_arg ''description'' args,
                            ep_location = trimmed_arg ''location'' args\<rparr>))))"

definition parse_get_args :: "json \<Rightarrow> agent_error + string" where
  "parse_get_args args = object_required args (nonempty_arg ''uid'' args)"

record list_args =
  la_start :: int
  la_end :: int
  la_calendar_url :: string
  la_max_events :: "nat option"

definition parse_list_events_args :: "dav_env \<Rightarrow> json \<Rightarrow> agent_error + list_args" where
  "parse_list_events_args env args =
     object_required args
       (case required_string ''start'' ''RFC 3339 string'' args of Inl e \<Rightarrow> Inl e | Inr start_text \<Rightarrow>
         (case required_string ''end'' ''RFC 3339 string'' args of Inl e \<Rightarrow> Inl e | Inr end_text \<Rightarrow>
           (case rfc3339_arg env ''start'' start_text of Inl e \<Rightarrow> Inl e | Inr start \<Rightarrow>
             (case rfc3339_arg env ''end'' end_text of Inl e \<Rightarrow> Inl e | Inr end' \<Rightarrow>
               if end' \<le> start then Inl (InvalidArguments ''`end` must be after `start`'')
               else Inr \<lparr>la_start = start, la_end = end',
                         la_calendar_url = unwrap_or [] (trimmed_arg ''calendar_url'' args),
                         la_max_events = Option.bind (jget ''max_events'' args) as_u64\<rparr>))))"

section \<open>Invocations\<close>

type_synonym dav_result = "dav_request list \<times> (agent_error + string) outcome"

definition opt_time :: "dav_env \<Rightarrow> int option \<Rightarrow> json" where
  "opt_time env t = opt_str (map_option (dv_rfc3339_text env) t)"

definition event_json :: "dav_env \<Rightarrow> event \<Rightarrow> json" where
  "event_json env e =
     JObj [(''uid'', JStr (evt_uid e)), (''summary'', JStr (evt_summary e)),
           (''start'', JStr (dv_rfc3339_text env (evt_start e))), (''end'', opt_time env (evt_end e)),
           (''description'', opt_str (evt_description e)), (''location'', opt_str (evt_location e)),
           (''rrule'', opt_str (evt_rrule e))]"

definition envelope :: "dav_env \<Rightarrow> json \<Rightarrow> string" where
  "envelope env data = js_show (dv_js env) (JObj [(''ok'', JBool True), (''data'', data)])"

definition uid_line :: "string \<Rightarrow> string option" where
  "uid_line body = (case List.map_filter (strip_prefix ''UID:'') (lines body) of [] \<Rightarrow> None | u # us \<Rightarrow> Some u)"

definition create_event_invoke :: "dav_env \<Rightarrow> dav_config \<Rightarrow> vault \<Rightarrow> dav_input \<Rightarrow> json \<Rightarrow> dav_result" where
  "create_event_invoke env cfg v inp args =
     (case parse_create_args env args of Inl e \<Rightarrow> ([], Returned (Inl e)) | Inr patch \<Rightarrow>
       (case build_client env cfg v of Inl e \<Rightarrow> ([], Returned (Inl e)) | Inr cl \<Rightarrow>
         (let body = to_ical (dv_cal env) (di_now inp) (di_nanos inp) (di_random inp) patch
          in case uid_line body of
               None \<Rightarrow> ([], Returned (Inl (AgentFailed ''generated VEVENT missing UID'')))
             | Some uid \<Rightarrow>
                 (let href_stem = uid @ ''.ics''
                  in case dav_put env cl href_stem body of
                       (rqs, Inl e) \<Rightarrow> (rqs, Returned (Inl e))
                     | (rqs, Inr _) \<Rightarrow>
                         (let full_href = (case dv_join env (pu_text (cl_base cl)) href_stem of Inr u \<Rightarrow> u | Inl _ \<Rightarrow> [])
                          in (rqs, Returned (Inr (envelope env
                               (JObj [(''uid'', JStr uid), (''href'', JStr full_href), (''summary'', JStr (ep_summary patch)),
                                      (''start'', JStr (dv_rfc3339_text env (ep_start patch))),
                                      (''end'', opt_time env (ep_end patch))]))))))))) "

text \<open>\<open>std::str::from_utf8(&bytes).unwrap_or("")\<close>.\<close>

definition utf8_or_empty :: "string \<Rightarrow> string" where
  "utf8_or_empty bytes = (if valid_utf8 bytes then bytes else [])"

definition days_ns :: "int \<Rightarrow> int" where "days_ns n = n * 86400 * 1000000000"

definition get_event_invoke :: "dav_env \<Rightarrow> dav_config \<Rightarrow> vault \<Rightarrow> dav_input \<Rightarrow> json \<Rightarrow> dav_result" where
  "get_event_invoke env cfg v inp args =
     (case parse_get_args args of Inl e \<Rightarrow> ([], Returned (Inl e)) | Inr uid \<Rightarrow>
       (case build_client env cfg v of Inl e \<Rightarrow> ([], Returned (Inl e)) | Inr cl \<Rightarrow>
         (let query = build_calendar_query_body (dv_cal env) (di_now inp - days_ns 366) (di_now inp + days_ns 366)
          in case report env cl (pu_text (cl_base cl)) query of
               (rqs, Inl e) \<Rightarrow> (rqs, Returned (Inl e))
             | (rqs, Inr bytes) \<Rightarrow>
                 (case extract_events_from_multistatus (dv_cal env) (dv_urls env) (utf8_or_empty bytes) (pu_text (cl_base cl)) of
                    Panicked \<Rightarrow> (rqs, Panicked)
                  | Returned events \<Rightarrow>
                      (case find (\<lambda>e. evt_uid e = uid) events of
                         Some e \<Rightarrow> (rqs, Returned (Inr (envelope env (event_json env e))))
                       | None \<Rightarrow>
                           (case dv_join env (pu_text (cl_base cl)) (uid @ ''.ics'') of
                              Inl e \<Rightarrow> (rqs, Returned (Inl (InvalidArguments (''href join: '' @ e))))
                            | Inr full \<Rightarrow>
                                (case dav_get env cl full of
                                   (rqs', Inr bytes) \<Rightarrow>
                                     (rqs @ rqs',
                                      if \<not> valid_utf8 bytes then
                                        Returned (Inl (AgentFailed (''iCalendar body not utf-8: '' @ dv_utf8_error env bytes)))
                                      else
                                        and_then (parse_vevent (dv_cal env) bytes full)
                                          (\<lambda>r. Returned (case r of Inl e \<Rightarrow> Inl e | Inr e \<Rightarrow> Inr (envelope env (event_json env e)))))
                                 | (rqs', Inl (AgentUpstream status b)) \<Rightarrow>
                                     (rqs @ rqs',
                                      Returned (Inl (if status = 404
                                                     then AgentFailed (''no event with uid `'' @ uid @ ''` in the configured calendar'')
                                                     else AgentUpstream status b)))
                                 | (rqs', Inl e) \<Rightarrow> (rqs @ rqs', Returned (Inl e)))))))))"

definition list_events_invoke :: "dav_env \<Rightarrow> dav_config \<Rightarrow> vault \<Rightarrow> json \<Rightarrow> dav_result" where
  "list_events_invoke env cfg v args =
     (case parse_list_events_args env args of Inl e \<Rightarrow> ([], Returned (Inl e)) | Inr req \<Rightarrow>
       (case build_list_client env cfg v (la_calendar_url req) of Inl e \<Rightarrow> ([], Returned (Inl e)) | Inr cl \<Rightarrow>
         (let calendar_url = (if la_calendar_url req = [] then pu_text (cl_base cl) else la_calendar_url req);
              query = build_calendar_query_body (dv_cal env) (la_start req) (la_end req)
          in case report env cl calendar_url query of
               (rqs, Inl e) \<Rightarrow> (rqs, Returned (Inl e))
             | (rqs, Inr bytes) \<Rightarrow>
                 (rqs,
                  and_then (extract_events_from_multistatus (dv_cal env) (dv_urls env) (utf8_or_empty bytes) (pu_text (cl_base cl)))
                    (\<lambda>events.
                      let events = take (unwrap_or (dc_max_events cfg) (la_max_events req)) events
                      in Returned (Inr (envelope env
                           (JObj [(''events'', JArr (map (event_json env) events)), (''count'', nat_json (length events)),
                                  (''start'', JStr (dv_rfc3339_text env (la_start req))),
                                  (''end'', JStr (dv_rfc3339_text env (la_end req)))]))))))))"

section \<open>Gates\<close>

text \<open>The three agents ask for every call, whatever the arguments and the history.\<close>

definition create_event_reason :: string where
  "create_event_reason =
     ''`caldav_create_event` is a write tool that appends a new VEVENT to the user'' @ [CHR 0x27] @ ''s CalDAV ''
     @ ''calendar. The user must explicitly confirm the create in chat before this ''
     @ ''call runs. Wait for the user to click '' @ [quote] @ ''Autoriser'' @ [quote] @ '' in the chat UI; the ''
     @ ''tool will execute on their next message and you will see its result then.''"

definition get_event_reason :: string where
  "get_event_reason =
     ''`caldav_get_event` reads a single event from the user'' @ [CHR 0x27] @ ''s CalDAV calendar. Calendar ''
     @ ''contents are sensitive. The user must explicitly confirm the read in chat ''
     @ ''before this call runs. Wait for the user to click '' @ [quote] @ ''Autoriser'' @ [quote] @ '' in the chat ''
     @ ''UI; the tool will execute on their next message and you will see its result ''
     @ ''then.''"

definition list_events_reason :: string where
  "list_events_reason =
     ''`caldav_list_events` reads the user'' @ [CHR 0x27] @ ''s CalDAV calendar. Calendar contents are ''
     @ ''sensitive (event titles, locations, descriptions). The user must ''
     @ ''explicitly confirm the read in chat before this call runs. Wait for ''
     @ ''the user to click '' @ [quote] @ ''Autoriser'' @ [quote] @ '' in the chat UI; the tool will execute ''
     @ ''on their next message and you will see its result then.''"

definition create_event_confirmation :: "'w user_context \<Rightarrow> json \<Rightarrow> confirmation_decision" where
  "create_event_confirmation ctx args = NeedsConfirmation create_event_reason"

definition get_event_confirmation :: "'w user_context \<Rightarrow> json \<Rightarrow> confirmation_decision" where
  "get_event_confirmation ctx args = NeedsConfirmation get_event_reason"

definition list_events_confirmation :: "'w user_context \<Rightarrow> json \<Rightarrow> confirmation_decision" where
  "list_events_confirmation ctx args = NeedsConfirmation list_events_reason"

section \<open>Where the credentials go\<close>

lemma query_requests:
  "dav_query env cl verb url body = (rqs, r) \<Longrightarrow>
   rqs = [] \<or> (\<exists>ok. egress_validate (dv_net env) (cl_egress cl) url = Inr ok
      \<and> rqs = [\<lparr>rq_method = verb, rq_url = pu_text (vo_url ok), rq_authorization = Some (header_value env (cl_auth cl)),
                 rq_body = body\<rparr>])"
  by (auto simp: dav_query_def Let_def split: sum.splits if_splits)

lemma validate_url: "egress_validate net cfg url = Inr ok \<Longrightarrow> ee_parse net url = Inr (vo_url ok)"
  by (auto simp: egress_validate_def Let_def split: sum.splits if_splits option.splits list.splits)

lemma list_client:
  "build_list_client env cfg v calendar_url = Inr cl \<Longrightarrow>
   build_client env cfg v = Inr cl
   \<and> (calendar_url \<noteq> [] \<longrightarrow> (\<exists>u. ee_parse (dv_net env) calendar_url = Inr u
        \<and> pu_scheme u = pu_scheme (cl_base cl) \<and> pu_host u = pu_host (cl_base cl)))"
  by (auto simp: build_list_client_def split: sum.splits if_splits)

lemma built_client:
  "build_client env cfg v = Inr cl \<Longrightarrow>
   \<exists>url user pass. v ''url'' = Inr (Some url) \<and> v ''username'' = Inr (Some user) \<and> v ''password'' = Inr (Some pass)
     \<and> ee_parse (dv_net env) url = Inr (cl_base cl) \<and> cl_egress cl = build_egress cfg
     \<and> cl_auth cl = \<lparr>ba_username = user, ba_password = pass\<rparr>"
  by (auto simp: build_client_def required_secret_def split: sum.splits option.splits)

text \<open>A parsed address printed and parsed again is the same, as the \<open>url\<close> crate documents.\<close>

definition reparses :: "egress_env \<Rightarrow> bool" where
  "reparses net \<longleftrightarrow> (\<forall>s u. ee_parse net s = Inr u \<longrightarrow> ee_parse net (pu_text u) = Inr u)"

text \<open>
  The request for \<open>req\<close>, with the user name, the password and the address of the vault: it goes to
  an address the egress policy accepts, on the scheme and the host of the stored one.
\<close>

definition listing_request :: "dav_env \<Rightarrow> dav_config \<Rightarrow> vault \<Rightarrow> list_args \<Rightarrow> dav_request \<Rightarrow> bool" where
  "listing_request env cfg v req rq \<longleftrightarrow>
     (\<exists>url user pass stored ok.
        v ''url'' = Inr (Some url) \<and> v ''username'' = Inr (Some user) \<and> v ''password'' = Inr (Some pass)
        \<and> ee_parse (dv_net env) url = Inr stored
        \<and> egress_validate (dv_net env) (build_egress cfg)
            (if la_calendar_url req = [] then pu_text stored else la_calendar_url req) = Inr ok
        \<and> pu_scheme (vo_url ok) = pu_scheme stored \<and> pu_host (vo_url ok) = pu_host stored
        \<and> rq = \<lparr>rq_method = ''REPORT'', rq_url = pu_text (vo_url ok),
                rq_authorization = Some (header_value env \<lparr>ba_username = user, ba_password = pass\<rparr>),
                rq_body = build_calendar_query_body (dv_cal env) (la_start req) (la_end req)\<rparr>)"

lemma report_listing:
  assumes "reparses (dv_net env)" and "build_list_client env cfg v (la_calendar_url req) = Inr cl"
    and "report env cl (if la_calendar_url req = [] then pu_text (cl_base cl) else la_calendar_url req)
           (build_calendar_query_body (dv_cal env) (la_start req) (la_end req)) = (rqs, r)"
    and "rqs \<noteq> []"
  shows "\<exists>rq. rqs = [rq] \<and> listing_request env cfg v req rq"
proof -
  let ?target = "if la_calendar_url req = [] then pu_text (cl_base cl) else la_calendar_url req"
  obtain ok where ok: "egress_validate (dv_net env) (cl_egress cl) ?target = Inr ok"
    "rqs = [\<lparr>rq_method = ''REPORT'', rq_url = pu_text (vo_url ok), rq_authorization = Some (header_value env (cl_auth cl)),
             rq_body = build_calendar_query_body (dv_cal env) (la_start req) (la_end req)\<rparr>]"
    using query_requests [OF assms(3) [unfolded report_def]] assms(4) by blast
  obtain url user pass where built: "v ''url'' = Inr (Some url)" "v ''username'' = Inr (Some user)"
    "v ''password'' = Inr (Some pass)" "ee_parse (dv_net env) url = Inr (cl_base cl)" "cl_egress cl = build_egress cfg"
    "cl_auth cl = \<lparr>ba_username = user, ba_password = pass\<rparr>"
    using list_client [OF assms(2)] built_client by blast
  have "ee_parse (dv_net env) (pu_text (cl_base cl)) = Inr (cl_base cl)"
    using assms(1) built(4) by (simp add: reparses_def)
  then have "pu_scheme (vo_url ok) = pu_scheme (cl_base cl) \<and> pu_host (vo_url ok) = pu_host (cl_base cl)"
    using validate_url [OF ok(1)] list_client [OF assms(2)] by (auto split: if_splits)
  then have "listing_request env cfg v req (hd rqs)"
    using ok built unfolding listing_request_def by auto
  with ok(2) show ?thesis by simp
qed

text \<open>
  C26: A listing hands the HTTP client no request when it is refused before, and else exactly one:
  a \<open>REPORT\<close> for the range that was asked for, with the user name and the password of the vault in
  its authorization header, to an address that the egress policy of the agent accepts and that has
  the scheme and the host of the address in the vault, whatever calendar the model names. The port
  is not compared, and what the client does with a redirect answer is outside the statement: it
  follows up to five of them without asking the policy again.
\<close>

theorem list_stays_on_server:
  assumes "reparses (dv_net env)" and "list_events_invoke env cfg v args = (rqs, r)" and "rqs \<noteq> []"
  shows "\<exists>req rq. parse_list_events_args env args = Inr req \<and> rqs = [rq] \<and> listing_request env cfg v req rq"
proof -
  obtain req where req: "parse_list_events_args env args = Inr req"
    using assms(2,3) by (auto simp: list_events_invoke_def split: sum.splits)
  obtain cl where cl: "build_list_client env cfg v (la_calendar_url req) = Inr cl"
    using assms(2,3) req by (auto simp: list_events_invoke_def split: sum.splits)
  obtain r' where "report env cl (if la_calendar_url req = [] then pu_text (cl_base cl) else la_calendar_url req)
      (build_calendar_query_body (dv_cal env) (la_start req) (la_end req)) = (rqs, r')"
    using assms(2) req cl by (auto simp: list_events_invoke_def Let_def split: sum.splits prod.splits)
  from report_listing [OF assms(1) cl this assms(3)] req show ?thesis by blast
qed

text \<open>The direct fetch of an event never carries the credentials.\<close>

lemma get_request_plain: "dav_get env cl url = (rqs, r) \<Longrightarrow> rq \<in> set rqs \<Longrightarrow> rq_authorization rq = None"
  by (auto simp: dav_get_def split: prod.splits)

section \<open>Arguments accepted\<close>

text \<open>
  C32: A call that is accepted names its title, and the event has that title without the blanks
  around it, which is not empty. Its start is the instant the argument \<open>start\<close> denotes, its end the
  one \<open>end\<close> denotes, not before the start, or none when there is no text argument \<open>end\<close>. The
  description and the location are the arguments without the blanks around them, and none when the
  argument is missing, is not a text or is blank.
\<close>

theorem create_args_valid:
  assumes "parse_create_args env args = Inr p"
  shows "(\<exists>title. jget_str ''summary'' args = Some title \<and> ep_summary p = trim title \<and> trim title \<noteq> [])
    \<and> (\<exists>t0. jget_str ''start'' args = Some t0 \<and> dv_rfc3339 env t0 = Inr (ep_start p))
    \<and> (case jget_str ''end'' args of
         None \<Rightarrow> ep_end p = None
       | Some t1 \<Rightarrow> (\<exists>e. dv_rfc3339 env t1 = Inr e \<and> ep_end p = Some e \<and> ep_start p \<le> e))
    \<and> ep_description p = Option.bind (jget_str ''description'' args) (\<lambda>d. if trim d = [] then None else Some (trim d))
    \<and> ep_location p = Option.bind (jget_str ''location'' args) (\<lambda>d. if trim d = [] then None else Some (trim d))"
  using assms
  by (auto simp: parse_create_args_def object_required_def nonempty_arg_def required_string_def rfc3339_arg_def trimmed_arg_def
      split: sum.splits if_splits option.splits)

end
