(* ===== verification/Ical_Props.thy ===== *)
theory Ical_Props
  imports Ical
begin

text \<open>
  What the iCalendar code guarantees: an event that is written is read back with the fields it was
  written with, durations of the supported form are read exactly, and where the reader departs
  from the format or from 64 bits.
\<close>

section \<open>TEXT values\<close>

lemma unescape_plain: "c \<noteq> backslash \<Longrightarrow> ical_unescape (c # s) = c # ical_unescape s"
  by (cases s) auto

lemma unescape_escape: "ical_unescape (ical_escape s) = without_cr s"
proof (induction s)
  case Nil
  show ?case by (simp add: ical_escape_def without_cr_def)
next
  case (Cons c s)
  then show ?case by (auto simp: ical_escape_def escape_char_def without_cr_def unescape_plain)
qed

lemma escape_no_breaks: "cr \<notin> set (ical_escape s) \<and> lf \<notin> set (ical_escape s)"
  by (auto simp: ical_escape_def escape_char_def split: if_splits)

lemma escape_append: "ical_escape (s @ t) = ical_escape s @ ical_escape t"
  by (simp add: ical_escape_def)

lemma escaped_semicolon: "ical_escape s = u @ [CHR 0x3B] \<Longrightarrow> \<exists>v. u = v @ [backslash]"
proof (induction s arbitrary: u rule: rev_induct)
  case (snoc c s)
  then show ?case by (auto simp: escape_append ical_escape_def escape_char_def split: if_splits)
qed (simp add: ical_escape_def)

section \<open>Lines written are the lines read\<close>

definition clean_line :: "string \<Rightarrow> bool" where
  "clean_line l \<longleftrightarrow>
     cr \<notin> set l \<and> lf \<notin> set l \<and> strip_artifact l = None \<and> continuation_rest l = None \<and> l \<noteq> []"

lemma strip_artifact_cr: "strip_artifact (l @ [cr]) = Some l"
  using strip_suffix_iff [of "[cr]" "l @ [cr]" l] by (simp add: strip_artifact_def or_else_def)

lemma strip_clean: "clean_line l \<Longrightarrow> strip_line_terminator_artifacts (l @ [cr]) = l"
  by (simp add: strip_line_terminator_artifacts.simps [of "l @ [cr]"]
      strip_line_terminator_artifacts.simps [of l] strip_artifact_cr clean_line_def)

lemma strip_empty: "strip_line_terminator_artifacts [] = []"
  by (simp add: strip_line_terminator_artifacts.simps [of "[]"] strip_artifact_def or_else_def strip_suffix_def)

lemma continuation_Nil: "continuation_rest [] = None"
  by (simp add: continuation_rest_def or_else_def)

lemma unfold_more:
  "out \<noteq> [] \<Longrightarrow> \<forall>l \<in> set ls. clean_line l \<Longrightarrow>
   unfold_lines (map (\<lambda>l. l @ [cr]) ls @ [[]]) out = out @ concat (map (\<lambda>l. lf # l) ls) @ [lf]"
proof (induction ls arbitrary: out)
  case Nil
  then show ?case by (simp add: strip_empty continuation_Nil)
next
  case (Cons l ls)
  then have "continuation_rest l = None" by (simp add: clean_line_def)
  with Cons show ?case by (simp add: strip_clean)
qed

lemma split_written:
  "\<forall>l \<in> set ls. lf \<notin> set l \<Longrightarrow> split_char lf (concat (map (\<lambda>l. l @ crlf) ls)) = map (\<lambda>l. l @ [cr]) ls @ [[]]"
proof (induction ls)
  case (Cons l ls)
  then show ?case using split_char_append [of lf "l @ [cr]" "concat (map (\<lambda>l. l @ crlf) ls)"] by simp
qed simp

lemma unfold_written:
  assumes "\<forall>l \<in> set (l # ls). clean_line l"
  shows "unfold (concat (map (\<lambda>l. l @ crlf) (l # ls))) = l @ concat (map (\<lambda>l. lf # l) ls) @ [lf]"
proof -
  have "split_char lf (concat (map (\<lambda>l. l @ crlf) (l # ls))) = map (\<lambda>l. l @ [cr]) (l # ls) @ [[]]"
    using assms by (intro split_written) (auto simp: clean_line_def)
  moreover have "continuation_rest l = None" "l \<noteq> []" using assms by (auto simp: clean_line_def)
  ultimately show ?thesis using assms unfold_more [of l ls] by (simp add: unfold_def strip_clean)
qed

lemma split_joined:
  "\<forall>l \<in> set (l # ls). lf \<notin> set l \<Longrightarrow> split_char lf (l @ concat (map (\<lambda>l. lf # l) ls) @ [lf]) = (l # ls) @ [[]]"
proof (induction ls arbitrary: l)
  case Nil
  then show ?case using split_char_append [of lf l "[]"] by simp
next
  case (Cons m ls)
  then show ?case using split_char_append [of lf l "m @ concat (map (\<lambda>l. lf # l) ls) @ [lf]"] by simp
qed

lemma chomp_no_cr: "cr \<notin> set l \<Longrightarrow> chomp_cr l = l"
proof -
  assume "cr \<notin> set l"
  then have "strip_suffix [cr] l \<noteq> Some r" for r by (auto simp: strip_suffix_iff)
  then show ?thesis by (cases "strip_suffix [cr] l") (auto simp: chomp_cr_def unwrap_or_def)
qed

lemma lines_written:
  assumes "\<forall>l \<in> set ls. clean_line l" and "ls \<noteq> []"
  shows "lines (unfold (concat (map (\<lambda>l. l @ crlf) ls))) = ls"
proof (cases ls)
  case (Cons l ls')
  have "split_char lf (l @ concat (map (\<lambda>l. lf # l) ls') @ [lf]) = ls @ [[]]"
    using split_joined [of l ls'] assms(1) Cons by (auto simp: clean_line_def)
  moreover have "map chomp_cr ls = ls"
    using assms(1) by (intro map_idI) (auto simp: clean_line_def chomp_no_cr)
  ultimately show ?thesis
    using unfold_written [of l ls'] assms(1) Cons by (simp add: lines_def butlast_append)
qed (use assms in simp)

lemma strip_suffix_last: "l \<noteq> [] \<Longrightarrow> last l \<noteq> c \<Longrightarrow> strip_suffix (p @ [c]) l = None"
  by (cases "strip_suffix (p @ [c]) l") (auto simp: strip_suffix_iff)

lemma strip_artifact_last: "l \<noteq> [] \<Longrightarrow> last l \<noteq> cr \<Longrightarrow> last l \<noteq> CHR 0x3B \<Longrightarrow> strip_artifact l = None"
  using strip_suffix_last [of l cr "[]"] strip_suffix_last [of l "CHR 0x3B" "''&#13''"]
    strip_suffix_last [of l "CHR 0x3B" "''&#xD''"] strip_suffix_last [of l "CHR 0x3B" "''&#xd''"]
  by (simp add: strip_artifact_def or_else_def)

lemma clean_lineI:
  assumes "cr \<notin> set l" and "lf \<notin> set l" and "l \<noteq> []" and "last l \<noteq> CHR 0x3B" and "hd l \<noteq> CHR '' ''" and "hd l \<noteq> CHR 0x09"
  shows "clean_line l"
proof -
  have "last l \<noteq> cr" using assms(1,3) last_in_set by metis
  then have "strip_artifact l = None" using assms(3,4) by (intro strip_artifact_last)
  moreover have "continuation_rest l = None"
    using assms(3,5,6) by (cases l) (auto simp: continuation_rest_def or_else_def)
  ultimately show ?thesis using assms by (simp add: clean_line_def)
qed

lemma clean_named:
  assumes "is_ascii_alphanumeric n" and "cr \<notin> set (n # name @ v)" and "lf \<notin> set (n # name @ v)"
    and "v = [] \<Longrightarrow> last (n # name) \<noteq> CHR 0x3B" and "v \<noteq> [] \<Longrightarrow> last v \<noteq> CHR 0x3B"
  shows "clean_line ((n # name) @ v)"
proof (rule clean_lineI)
  show "hd ((n # name) @ v) \<noteq> CHR '' ''" "hd ((n # name) @ v) \<noteq> CHR 0x09"
    using assms(1) by (auto simp: is_ascii_alphanumeric_def byte_def)
  show "last ((n # name) @ v) \<noteq> CHR 0x3B" using assms(4,5) by (cases "v = []") (simp_all only: append_Nil2 last_appendR simp_thms)
qed (use assms in auto)

lemma strip_suffix_escaped:
  assumes "x \<noteq> backslash" and "name \<noteq> []" and "last name \<noteq> CHR 0x3B"
  shows "strip_suffix (p @ [x, CHR 0x3B]) (name @ ical_escape s) = None"
proof (cases "strip_suffix (p @ [x, CHR 0x3B]) (name @ ical_escape s)")
  case (Some r)
  then have eq: "name @ ical_escape s = (r @ p @ [x]) @ [CHR 0x3B]" by (simp add: strip_suffix_iff)
  then have "ical_escape s \<noteq> []" using assms(2,3) by (metis append_Nil2 last_snoc)
  then obtain u where u: "ical_escape s = u @ [CHR 0x3B]" using eq by (metis append_butlast_last_id last_appendR last_snoc)
  then obtain v where "u = v @ [backslash]" using escaped_semicolon by blast
  with u eq have "(name @ v) @ [backslash] = (r @ p) @ [x]" by simp
  then have "x = backslash" by (metis last_snoc)
  with assms(1) show ?thesis by simp
qed simp

lemma clean_escaped:
  assumes "is_ascii_alphanumeric n" and "cr \<notin> set name" and "lf \<notin> set name" and "last (n # name) \<noteq> CHR 0x3B" and "last (n # name) \<noteq> cr"
  shows "clean_line ((n # name) @ ical_escape s)"
proof -
  let ?l = "(n # name) @ ical_escape s"
  have n: "n \<noteq> cr" "n \<noteq> lf" "n \<noteq> CHR '' ''" "n \<noteq> CHR 0x09"
    using assms(1) by (auto simp: is_ascii_alphanumeric_def byte_def)
  then have "cr \<notin> set ?l" "lf \<notin> set ?l" using assms escape_no_breaks by auto
  moreover have "strip_suffix [cr] ?l = None"
    using \<open>cr \<notin> set ?l\<close> by (metis in_set_conv_decomp not_None_eq strip_suffix_iff)
  ultimately show ?thesis
    using strip_suffix_escaped [of "CHR ''3''" "n # name" "''&#1''" s] strip_suffix_escaped [of "CHR ''D''" "n # name" "''&#x''" s]
      strip_suffix_escaped [of "CHR ''d''" "n # name" "''&#x''" s] n assms
    by (simp add: clean_line_def strip_artifact_def or_else_def continuation_rest_def)
qed

section \<open>Fresh identifiers\<close>

lemma digit_alnum: "d < 16 \<Longrightarrow> is_ascii_alphanumeric (digit d)"
  by (auto simp: is_ascii_alphanumeric_def digit_def byte_char_of)

lemma lower_hex_alnum: "lower_hex c \<Longrightarrow> is_ascii_alphanumeric c"
  by (auto simp: lower_hex_def is_ascii_alphanumeric_def)

definition uid_char :: "char \<Rightarrow> bool" where
  "uid_char c \<longleftrightarrow> is_ascii_alphanumeric c \<or> c = CHR ''-'' \<or> c = CHR ''@''"

lemma fresh_uid_chars: "list_all uid_char (fresh_uid nanos bytes)"
proof -
  have hexs: "list_all uid_char (nat_to_string n)" for n
    using nat_to_string_hex(1) [of n] by (auto simp: list_all_iff uid_char_def lower_hex_alnum)
  have "list_all uid_char (hex2 b)" for b
  proof -
    have "unat b div 16 < 16" using unsigned_less [of b, where 'a = nat] by simp
    then show ?thesis by (simp add: hex2_def uid_char_def digit_alnum)
  qed
  then have "list_all uid_char (random_hex_suffix bytes)" by (auto simp: random_hex_suffix_def list_all_iff)
  moreover have "list_all uid_char ''@nagent''" "list_all uid_char ''-''"
    by (simp_all add: uid_char_def is_ascii_alphanumeric_def byte_def)
  ultimately show ?thesis using hexs by (simp add: fresh_uid_def int_to_string_def)
qed

lemma uid_char_clean: "list_all uid_char s \<Longrightarrow> cr \<notin> set s \<and> lf \<notin> set s \<and> CHR 0x3B \<notin> set s"
  by (auto simp: list_all_iff uid_char_def is_ascii_alphanumeric_def byte_def)

section \<open>An event written is the event read\<close>

text \<open>
  What the documentation of \<open>chrono\<close> says of an instant, of whatever nanoseconds, in a year of
  four digits: its \<open>%Y%m%dT%H%M%SZ\<close> text is digits, \<open>T\<close> and \<open>Z\<close>, and parses back to the second
  the instant lies in; the format does not print the fraction.
\<close>

definition whole_second :: "int \<Rightarrow> int" where
  "whole_second t = t - t mod 1000000000"

definition printable_instant :: "cal_env \<Rightarrow> int \<Rightarrow> bool" where
  "printable_instant env t \<longleftrightarrow>
     list_all is_ascii_alphanumeric (cal_format env t)
     \<and> cal_parse env ''%Y%m%dT%H%M%SZ'' (cal_format env t) = Some (whole_second t)"

lemma alnum_clean: "list_all is_ascii_alphanumeric s \<Longrightarrow> cr \<notin> set s \<and> lf \<notin> set s \<and> CHR 0x3B \<notin> set s"
  using uid_char_clean [of s] by (auto simp: list_all_iff uid_char_def)

lemma clean_value:
  assumes "is_ascii_alphanumeric n" and "cr \<notin> set name" and "lf \<notin> set name" and "last (n # name) \<noteq> CHR 0x3B"
    and "cr \<notin> set v \<and> lf \<notin> set v \<and> CHR 0x3B \<notin> set v"
  shows "clean_line ((n # name) @ v)"
proof -
  have "n \<noteq> cr" "n \<noteq> lf" using assms(1) by (auto simp: is_ascii_alphanumeric_def byte_def)
  moreover have "v \<noteq> [] \<Longrightarrow> last v \<noteq> CHR 0x3B" using assms(5) last_in_set by metis
  ultimately show ?thesis using assms by (intro clean_named) auto
qed

lemma alnum_chars:
  "is_ascii_alphanumeric CHR ''B''" "is_ascii_alphanumeric CHR ''V''" "is_ascii_alphanumeric CHR ''P''"
  "is_ascii_alphanumeric CHR ''U''" "is_ascii_alphanumeric CHR ''D''" "is_ascii_alphanumeric CHR ''S''"
  "is_ascii_alphanumeric CHR ''L''" "is_ascii_alphanumeric CHR ''E''"
  by (simp_all add: is_ascii_alphanumeric_def byte_def)

lemma optional_line_clean:
  assumes "is_ascii_alphanumeric n" and "cr \<notin> set name" and "lf \<notin> set name" and "last (n # name) \<noteq> CHR 0x3B" and "last (n # name) \<noteq> cr"
  shows "\<forall>l \<in> set (optional_line (n # name) x). clean_line l"
  using clean_escaped [OF assms] by (auto simp: optional_line_def split: option.splits)

lemma ical_lines_clean:
  assumes "printable_instant env now" and "printable_instant env (ep_start p)"
    and "\<And>e. ep_end p = Some e \<Longrightarrow> printable_instant env e" and "list_all uid_char uid"
  shows "\<forall>l \<in> set (ical_lines env now uid p). clean_line l"
proof -
  have fixed: "clean_line ''BEGIN:VCALENDAR''" "clean_line ''VERSION:2.0''" "clean_line ''PRODID:-//nagent//CalDAV//EN''"
    "clean_line ''BEGIN:VEVENT''" "clean_line ''END:VEVENT''" "clean_line ''END:VCALENDAR''" "clean_line ''DURATION:PT1H''"
    by (rule clean_lineI; simp)+
  have "clean_line (''DTSTAMP:'' @ cal_format env now)" "clean_line (''DTSTART:'' @ cal_format env (ep_start p))"
    "ep_end p = Some e \<Longrightarrow> clean_line (''DTEND:'' @ cal_format env e)" for e
    using assms by (intro clean_value; simp add: alnum_chars alnum_clean printable_instant_def)+
  moreover have "clean_line (''UID:'' @ uid)"
    using uid_char_clean [OF assms(4)] by (intro clean_value) (simp_all add: alnum_chars)
  moreover have "clean_line (''SUMMARY:'' @ ical_escape s)" for s
    by (intro clean_escaped) (simp_all add: alnum_chars)
  moreover have "\<forall>l \<in> set (optional_line ''DESCRIPTION:'' x). clean_line l" "\<forall>l \<in> set (optional_line ''LOCATION:'' x). clean_line l" for x
    by (rule optional_line_clean; simp add: alnum_chars)+
  ultimately show ?thesis using fixed by (auto simp: ical_lines_def split: option.splits)
qed

lemma lines_ical:
  assumes "printable_instant env now" and "printable_instant env (ep_start p)"
    and "\<And>e. ep_end p = Some e \<Longrightarrow> printable_instant env e"
  shows "lines (unfold (to_ical env now nanos bytes p)) = ical_lines env now (fresh_uid nanos bytes) p"
  unfolding to_ical_def
  using ical_lines_clean [OF assms fresh_uid_chars] by (intro lines_written) (auto simp: ical_lines_def)

definition optional_property :: "string \<Rightarrow> string option \<Rightarrow> ical_property list" where
  "optional_property name x =
     (case x of Some d \<Rightarrow> if d \<noteq> [] then [(name, [], ical_escape d)] else [] | None \<Rightarrow> [])"

definition written_properties :: "cal_env \<Rightarrow> int \<Rightarrow> string \<Rightarrow> event_patch \<Rightarrow> ical_property list" where
  "written_properties env now uid p =
     [(''UID'', [], uid), (''DTSTAMP'', [], cal_format env now), (''DTSTART'', [], cal_format env (ep_start p)),
      (case ep_end p of Some e \<Rightarrow> (''DTEND'', [], cal_format env e) | None \<Rightarrow> (''DURATION'', [], ''PT1H'')),
      (''SUMMARY'', [], ical_escape (ep_summary p))]
     @ optional_property ''DESCRIPTION'' (ep_description p) @ optional_property ''LOCATION'' (ep_location p)"

lemma upper_chars [simp]: "ascii_upper (CHR ''U'') = CHR ''U''" "ascii_upper (CHR ''I'') = CHR ''I''"
  "ascii_upper (CHR ''D'') = CHR ''D''" "ascii_upper (CHR ''T'') = CHR ''T''" "ascii_upper (CHR ''S'') = CHR ''S''"
  "ascii_upper (CHR ''A'') = CHR ''A''" "ascii_upper (CHR ''M'') = CHR ''M''" "ascii_upper (CHR ''P'') = CHR ''P''"
  "ascii_upper (CHR ''R'') = CHR ''R''" "ascii_upper (CHR ''E'') = CHR ''E''" "ascii_upper (CHR ''N'') = CHR ''N''"
  "ascii_upper (CHR ''O'') = CHR ''O''" "ascii_upper (CHR ''C'') = CHR ''C''" "ascii_upper (CHR ''L'') = CHR ''L''"
  "ascii_upper (CHR ''V'') = CHR ''V''" "ascii_upper (CHR ''Y'') = CHR ''Y''"
  by (simp_all add: ascii_upper_def byte_def)

lemma split_written_property:
  "split_property (''UID:'' @ v) = (''UID'', [], v)" "split_property (''DTSTAMP:'' @ v) = (''DTSTAMP'', [], v)"
  "split_property (''DTSTART:'' @ v) = (''DTSTART'', [], v)" "split_property (''DTEND:'' @ v) = (''DTEND'', [], v)"
  "split_property (''DURATION:'' @ v) = (''DURATION'', [], v)" "split_property (''SUMMARY:'' @ v) = (''SUMMARY'', [], v)"
  "split_property (''DESCRIPTION:'' @ v) = (''DESCRIPTION'', [], v)" "split_property (''LOCATION:'' @ v) = (''LOCATION'', [], v)"
  by (simp_all add: split_property_def to_ascii_uppercase_def List.map_filter_def)

lemma add_property_line:
  "strip_prefix ''BEGIN:'' l = None \<Longrightarrow> strip_prefix ''END:'' l = None \<Longrightarrow>
   add_line l (bs, b # st) = (bs, b\<lparr>bk_properties := bk_properties b @ [split_property l]\<rparr> # st)"
  by (simp add: add_line_def)

lemma fold_property_lines:
  "\<forall>l \<in> set ls. strip_prefix ''BEGIN:'' l = None \<and> strip_prefix ''END:'' l = None \<Longrightarrow>
   fold add_line ls (bs, b # st) = (bs, b\<lparr>bk_properties := bk_properties b @ map split_property ls\<rparr> # st)"
proof (induction ls arbitrary: b)
  case (Cons l ls)
  then show ?case by (simp add: add_property_line)
qed simp

definition body_lines :: "cal_env \<Rightarrow> int \<Rightarrow> string \<Rightarrow> event_patch \<Rightarrow> string list" where
  "body_lines env now uid p =
     [''UID:'' @ uid, ''DTSTAMP:'' @ cal_format env now, ''DTSTART:'' @ cal_format env (ep_start p),
      (case ep_end p of Some e \<Rightarrow> ''DTEND:'' @ cal_format env e | None \<Rightarrow> ''DURATION:'' @ ''PT1H''),
      ''SUMMARY:'' @ ical_escape (ep_summary p)]
     @ optional_line ''DESCRIPTION:'' (ep_description p) @ optional_line ''LOCATION:'' (ep_location p)"

lemma ical_lines_body:
  "ical_lines env now uid p =
     ''BEGIN:VCALENDAR'' # ''VERSION:2.0'' # ''PRODID:-//nagent//CalDAV//EN'' # ''BEGIN:VEVENT''
     # body_lines env now uid p @ [''END:VEVENT'', ''END:VCALENDAR'']"
  by (simp add: ical_lines_def body_lines_def split: option.split)

lemma optional_properties:
  "map split_property (optional_line ''DESCRIPTION:'' x) = optional_property ''DESCRIPTION'' x"
  "map split_property (optional_line ''LOCATION:'' x) = optional_property ''LOCATION'' x"
  by (simp_all only: optional_line_def optional_property_def split_written_property list.map if_distrib [of "map split_property"]
      option.case_distrib [of "map split_property"])

lemma end_property:
  "split_property (case e of Some e \<Rightarrow> ''DTEND:'' @ cal_format env e | None \<Rightarrow> ''DURATION:'' @ ''PT1H'')
   = (case e of Some e \<Rightarrow> (''DTEND'', [], cal_format env e) | None \<Rightarrow> (''DURATION'', [], ''PT1H''))"
  by (simp only: split_written_property option.case_distrib [of split_property])

lemma body_properties: "map split_property (body_lines env now uid p) = written_properties env now uid p"
  by (simp only: body_lines_def written_properties_def map_append list.map split_written_property optional_properties end_property)

lemma body_lines_plain:
  "\<forall>l \<in> set (body_lines env now uid p). strip_prefix ''BEGIN:'' l = None \<and> strip_prefix ''END:'' l = None"
  by (auto simp: body_lines_def optional_line_def split: option.splits if_splits)

lemma blocks_written:
  assumes "lines body = ical_lines env now uid p"
  shows "split_blocks body = [\<lparr>bk_kind = ''VEVENT'', bk_properties = written_properties env now uid p\<rparr>]"
  using fold_property_lines [OF body_lines_plain, of env now uid p]
  by (simp add: split_blocks_def assms ical_lines_body add_line_def body_properties)

lemma not_ws: "\<not> ascii_ws (byte CHR ''P'')" "byte CHR ''P'' < 128" "\<not> ascii_ws (byte CHR ''H'')" "byte CHR ''H'' < 128"
  "\<not> ascii_ws (byte CHR ''S'')" "byte CHR ''S'' < 128" "\<not> ascii_ws (byte CHR ''D'')" "byte CHR ''D'' < 128"
  by (simp_all add: ascii_ws_def byte_def)

definition hour_laws :: "cal_env \<Rightarrow> int \<Rightarrow> int \<Rightarrow> bool" where
  "hour_laws env start h \<longleftrightarrow>
     cal_days env 0 = Some 0 \<and> cal_seconds env 3600 = Some h \<and> cal_plus env 0 h = Some h \<and> cal_plus env start h = Some (start + h)"

lemma one_hour: "hour_laws env start h \<Longrightarrow> parse_duration env ''PT1H'' = Returned (Some h)"
proof -
  assume h: "hour_laws env start h"
  have "trim ''PT1H'' = ''PT1H''" using trim_ascii [of "CHR ''P''" "CHR ''H''" "''T1''"] not_ws by simp
  then show ?thesis
    using h by (simp add: parse_duration_def duration_init_def duration_char_def is_digit_def byte_def parse_i64_digits_def
        digits_value_def i64_max_def duration_total_def hour_laws_def)
qed

lemma parse_dt_utc: "printable_instant env t \<Longrightarrow> parse_dt env (cal_format env t) [] = Some (whole_second t)"
  by (simp add: parse_dt_def printable_instant_def or_else_def)

lemma vevent_properties_append:
  "vevent_properties env (ps @ qs) a =
     (case vevent_properties env ps a of Returned a \<Rightarrow> vevent_properties env qs a | Panicked \<Rightarrow> Panicked)"
  by (induction ps arbitrary: a) (auto split: outcome.splits)

definition written_text :: "string option \<Rightarrow> string option" where
  "written_text x = (case x of Some d \<Rightarrow> if d \<noteq> [] then Some (without_cr d) else None | None \<Rightarrow> None)"

lemma read_description:
  "va_description a = None \<Longrightarrow> vevent_properties env (optional_property ''DESCRIPTION'' x) a = Returned (a\<lparr>va_description := written_text x\<rparr>)"
  by (auto simp: optional_property_def vevent_property_def written_text_def unescape_escape split: option.splits)

lemma read_location:
  "va_location a = None \<Longrightarrow> vevent_properties env (optional_property ''LOCATION'' x) a = Returned (a\<lparr>va_location := written_text x\<rparr>)"
  by (auto simp: optional_property_def vevent_property_def written_text_def unescape_escape split: option.splits)

lemma read_written:
  assumes "printable_instant env (ep_start p)"
    and "\<And>e. ep_end p = Some e \<Longrightarrow> printable_instant env e" and "ep_end p = None \<Longrightarrow> hour_laws env (whole_second (ep_start p)) h"
  shows "vevent_properties env (written_properties env now uid p) vevent_init =
     Returned \<lparr>va_uid = Some uid, va_summary = without_cr (ep_summary p), va_start = Some (whole_second (ep_start p)), va_end = map_option whole_second (ep_end p),
       va_duration = (if ep_end p = None then Some h else None), va_description = written_text (ep_description p),
       va_location = written_text (ep_location p), va_rrule = None\<rparr>"
  unfolding written_properties_def vevent_properties_append
  using assms
  by (cases "ep_end p")
    (simp_all add: vevent_property_def parse_dt_utc one_hour unescape_escape read_description read_location vevent_init_def)

lemma written_event_read:
  assumes "printable_instant env now" and "printable_instant env (ep_start p)"
    and "\<And>e. ep_end p = Some e \<Longrightarrow> printable_instant env e" and "ep_end p = None \<Longrightarrow> hour_laws env (whole_second (ep_start p)) h"
  shows "parse_vevent env (to_ical env now nanos bytes p) href =
     Returned (Inr \<lparr>evt_uid = fresh_uid nanos bytes, evt_href = href, evt_summary = without_cr (ep_summary p),
       evt_start = whole_second (ep_start p),
       evt_end = Some (unwrap_or (whole_second (ep_start p) + h) (map_option whole_second (ep_end p))),
       evt_description = written_text (ep_description p), evt_location = written_text (ep_location p), evt_rrule = None\<rparr>)"
proof -
  have "split_blocks (unfold (to_ical env now nanos bytes p)) =
    [\<lparr>bk_kind = ''VEVENT'', bk_properties = written_properties env now (fresh_uid nanos bytes) p\<rparr>]"
    using blocks_written [OF lines_ical [OF assms(1-3)]] .
  moreover note read_written [OF assms(2-4), where now = now and uid = "fresh_uid nanos bytes"]
  ultimately show ?thesis
    using assms(4)
    by (cases "ep_end p") (simp_all add: parse_vevent_def read_vevent_def event_end_def event_of_def unwrap_or_def hour_laws_def)
qed

text \<open>
  C6: An event written by \<open>to_ical\<close> at any time, with any start and end whose years have four
  digits, is read by \<open>parse_vevent\<close> with the fresh identifier, the second the start lies in, the
  second the given end lies in or else \<open>h\<close>, the hour of the calendar library, after that start
  (the addition not overflowing), and the same texts without their carriage returns, an empty
  description or location as none. Fractions of seconds are not written and so read as zero. No
  text, whatever line breaks, separators or \<open>END:\<close> lines it holds, changes another field.
\<close>

theorem event_roundtrip:
  assumes "printable_instant env now" and "printable_instant env (ep_start p)"
    and "\<And>e. ep_end p = Some e \<Longrightarrow> printable_instant env e" and "ep_end p = None \<Longrightarrow> hour_laws env (whole_second (ep_start p)) h"
  shows "parse_vevent env (to_ical env now nanos bytes p) href =
     Returned (Inr \<lparr>evt_uid = fresh_uid nanos bytes, evt_href = href, evt_summary = without_cr (ep_summary p),
       evt_start = whole_second (ep_start p),
       evt_end = Some (unwrap_or (whole_second (ep_start p) + h) (map_option whole_second (ep_end p))),
       evt_description = written_text (ep_description p), evt_location = written_text (ep_location p), evt_rrule = None\<rparr>)"
  by (rule written_event_read [OF assms])

definition ex_cal :: cal_env where
  "ex_cal =
     \<lparr>cal_format = (\<lambda>t. ''20250102T030405Z''),
      cal_parse = (\<lambda>fmt s. if fmt = ''%Y%m%dT%H%M%SZ'' \<and> s = ''20250102T030405Z'' then Some 1735787045000000000 else None),
      cal_parse_date = (\<lambda>s. None), cal_tz = (\<lambda>s. None),
      cal_days = (\<lambda>d. if \<bar>d\<bar> \<le> 106751991167 then Some (d * 86400000000000) else None),
      cal_seconds = (\<lambda>s. Some (s * 1000000000)),
      cal_plus = (\<lambda>a b. Some (a + b))\<rparr>"

definition ex_patch :: event_patch where
  "ex_patch = \<lparr>ep_summary = ''a,b'' @ crlf @ ''END:VEVENT'', ep_start = 1735787045987654321, ep_end = None,
     ep_description = Some ''x&#13;'', ep_location = None\<rparr>"

lemma event_roundtrip_witness:
  "parse_vevent ex_cal (to_ical ex_cal 1735787045123456789 None [7] ex_patch) ''h'' =
     Returned (Inr \<lparr>evt_uid = fresh_uid None [7], evt_href = ''h'', evt_summary = ''a,b'' @ lf # ''END:VEVENT'',
       evt_start = 1735787045000000000, evt_end = Some 1735790645000000000,
       evt_description = Some ''x&#13;'', evt_location = None, evt_rrule = None\<rparr>)"
proof -
  have "printable_instant ex_cal 1735787045123456789" "printable_instant ex_cal 1735787045987654321"
    by (simp_all add: printable_instant_def whole_second_def ex_cal_def is_ascii_alphanumeric_def byte_def)
  moreover have "hour_laws ex_cal 1735787045000000000 3600000000000" by (simp add: hour_laws_def ex_cal_def)
  ultimately show ?thesis
    using event_roundtrip [of ex_cal 1735787045123456789 ex_patch 3600000000000 None "[7]" "''h''"]
    by (simp add: ex_patch_def without_cr_def written_text_def unwrap_or_def whole_second_def)
qed

section \<open>Durations\<close>

lemma digits_value_digits_of: "foldl (\<lambda>n c. n * 10 + (byte c - 48)) 0 (digits_of 10 n acc) = foldl (\<lambda>n c. n * 10 + (byte c - 48)) n acc"
proof (induction "10 :: nat" n acc rule: digits_of.induct)
  case (1 n acc)
  then show ?case by (simp add: digits_of.simps [of 10 n acc] byte_digit Let_def)
qed

lemma digits_value_nat [simp]: "digits_value (nat_to_string n) = n"
  by (simp add: digits_value_def nat_to_string_def digits_value_digits_of)

lemma digits_of_is_digit: "list_all is_digit acc \<Longrightarrow> list_all is_digit (digits_of 10 n acc)"
proof (induction "10 :: nat" n acc rule: digits_of.induct)
  case (1 n acc)
  have "is_digit (digit k)" if "k < 10" for k using that by (simp add: is_digit_def byte_digit)
  with 1 show ?case by (simp add: digits_of.simps [of 10 n acc] Let_def)
qed

lemma nat_to_string_digits: "list_all is_digit (nat_to_string n)"
  by (simp add: nat_to_string_def digits_of_is_digit)

lemma duration_digits:
  "list_all is_digit ds \<Longrightarrow> duration_chars (ds @ r) d = duration_chars r (d\<lparr>du_num := du_num d @ ds\<rparr>)"
proof (induction ds arbitrary: d)
  case (Cons c ds)
  then have "c \<noteq> CHR ''T''" by (auto simp: is_digit_def byte_def)
  with Cons show ?case by (simp add: duration_char_def)
qed simp

lemma parse_i64_nat: "n \<le> i64_max \<Longrightarrow> parse_i64_digits (nat_to_string n) = Some (of_nat n)"
  by (simp add: parse_i64_digits_def)

lemma duration_number:
  assumes "n \<le> i64_max" and "du_num d = []"
  shows "duration_chars (nat_to_string n @ c # r) d = Option.bind (duration_char c (d\<lparr>du_num := nat_to_string n\<rparr>)) (duration_chars r)"
  using assms by (simp add: duration_digits [OF nat_to_string_digits])

lemma sint_small: "n \<le> i64_max \<Longrightarrow> sint (of_nat n :: 64 word) = int n"
proof -
  assume "n \<le> i64_max"
  then have "int n < 2 ^ 63" by (simp add: i64_max_def)
  then have "signed_take_bit 63 (int n) = int n" by (intro signed_take_bit_int_eq_self) auto
  then show ?thesis using sint_sbintrunc' [of "int n", where 'a = 64] by simp
qed

definition duration_text :: "nat \<Rightarrow> nat \<Rightarrow> nat \<Rightarrow> nat \<Rightarrow> string" where
  "duration_text d h m s =
     ''P'' @ nat_to_string d @ ''DT'' @ nat_to_string h @ ''H'' @ nat_to_string m @ ''M'' @ nat_to_string s @ ''S''"

text \<open>
  A duration in days, hours, minutes and seconds whose days and whose seconds in total fit
  64 bits is read as exactly that many days and seconds of the calendar library; it panics when
  the library does.
\<close>

theorem duration_exact:
  assumes "d \<le> i64_max" and "h * 3600 + m * 60 + s \<le> i64_max"
  shows "parse_duration env (duration_text d h m s) =
     (case (cal_days env (int d), cal_seconds env (int (h * 3600 + m * 60 + s))) of
        (Some a, Some b) \<Rightarrow> (case cal_plus env a b of Some c \<Rightarrow> Returned (Some c) | None \<Rightarrow> Panicked)
      | _ \<Rightarrow> Panicked)"
proof -
  have small: "h \<le> i64_max" "m \<le> i64_max" "s \<le> i64_max" using assms(2) by linarith+
  have "trim (duration_text d h m s) = duration_text d h m s"
    using trim_ascii [of "CHR ''P''" "CHR ''S''"
        "nat_to_string d @ ''DT'' @ nat_to_string h @ ''H'' @ nat_to_string m @ ''M'' @ nat_to_string s"] not_ws
    by (simp add: duration_text_def)
  moreover have "duration_chars (nat_to_string d @ ''DT'' @ nat_to_string h @ ''H'' @ nat_to_string m @ ''M'' @ nat_to_string s @ ''S'') duration_init
    = Some \<lparr>du_days = of_nat d, du_secs = of_nat (h * 3600 + m * 60 + s), du_time = True, du_num = []\<rparr>"
    using assms(1) small
    by (simp add: duration_number duration_init_def duration_char_def is_digit_def byte_def parse_i64_nat)
  ultimately show ?thesis
    using sint_small [OF assms(1)] sint_small [OF assms(2)]
    by (simp add: parse_duration_def duration_text_def duration_total_def split: option.split)
qed

lemma duration_exact_witness:
  "parse_duration ex_cal (duration_text 1 2 3 4) = Returned (Some 93784000000000)"
  using duration_exact [of 1 2 3 4 ex_cal] by (simp add: ex_cal_def i64_max_def)

text \<open>
  A calendar server chooses the text of a duration. Days past the range of the library are its
  documented panic, and hours past 64 bits wrap around to a negative duration.
\<close>

lemma duration_text_word:
  "list_all is_digit ds \<Longrightarrow> trim (''P'' @ ds @ ''D'') = ''P'' @ ds @ ''D''"
  "list_all is_digit ds \<Longrightarrow> trim (''PT'' @ ds @ ''H'') = ''PT'' @ ds @ ''H''"
  using trim_ascii [of "CHR ''P''" "CHR ''D''" ds] trim_ascii [of "CHR ''P''" "CHR ''H''" "CHR ''T'' # ds"] not_ws
  by simp_all

lemma duration_panics: "parse_duration ex_cal (''P'' @ ''106751991168'' @ ''D'') = Panicked"
proof -
  have "list_all is_digit ''106751991168''" by (simp add: is_digit_def byte_def)
  from duration_text_word(1) [OF this] show ?thesis
    by (simp add: parse_duration_def duration_init_def duration_char_def is_digit_def byte_def parse_i64_digits_def
        digits_value_def i64_max_def duration_total_def ex_cal_def)
qed

lemma duration_wraps: "parse_duration ex_cal (''PT'' @ ''5124095576030431'' @ ''H'') = Returned (Some (- 16000000000))"
proof -
  have "list_all is_digit ''5124095576030431''" by (simp add: is_digit_def byte_def)
  from duration_text_word(2) [OF this] show ?thesis
    by (simp add: parse_duration_def duration_init_def duration_char_def is_digit_def byte_def parse_i64_digits_def
        digits_value_def i64_max_def duration_total_def ex_cal_def)
qed

text \<open>A separator inside a quoted parameter value ends the parameters: the value read is not the value sent.\<close>

lemma quoted_colon_splits:
  "split_property (''SUMMARY;ALTREP='' @ [quote] @ ''cid:1'' @ [quote] @ '':Party'') =
     (''SUMMARY'', [(''ALTREP'', ''cid'')], ''1'' @ [quote] @ '':Party'')"
  by (simp add: split_property_def to_ascii_uppercase_def List.map_filter_def trim_quotes_def trim_end_matches_def)

text \<open>An unknown time zone drops the date, although the same text without it is read.\<close>

lemma unknown_zone_drops:
  "parse_dt ex_cal ''20250102T030405Z'' [(''TZID'', ''Mars/Olympus'')] = None"
  "parse_dt ex_cal ''20250102T030405Z'' [] = Some 1735787045000000000"
  by (simp_all add: parse_dt_def ex_cal_def or_else_def)

end
