(* ===== verification/Dav_Xml_Props.thy ===== *)
theory Dav_Xml_Props
  imports Dav_Xml
begin

text \<open>
  The tag scan against a grammar: documents are trees of elements, empty-element tags and texts, and
  the scan for the close tag of an element finds the end of that element, however the elements inside
  it are nested and whatever their prefixes, unless an empty-element tag of its name is among them,
  when it never does. A close tag followed by text outside ASCII can make it panic.
\<close>

section \<open>Documents\<close>

datatype xml =
    Txt string
  | El "string option" string string "xml list"
  | Em "string option" string string

definition qname :: "string option \<Rightarrow> string \<Rightarrow> string" where
  "qname p l = (case p of Some p \<Rightarrow> p @ CHR '':'' # l | None \<Rightarrow> l)"

fun render :: "xml \<Rightarrow> string" where
  "render (Txt s) = s"
| "render (El p l a cs) =
     CHR ''<'' # qname p l @ a @ CHR ''>'' # concat (map render cs) @ ''</'' @ qname p l @ ''>''"
| "render (Em p l a) = CHR ''<'' # qname p l @ a @ ''/>''"

definition plain_name :: "string \<Rightarrow> bool" where
  "plain_name n \<longleftrightarrow>
     n \<noteq> [] \<and> list_all (\<lambda>c. \<not> tag_end c \<and> c \<notin> {CHR '':'', CHR ''<'', CHR ''!'', CHR ''?''}) n"

definition plain_qname :: "string option \<Rightarrow> string \<Rightarrow> bool" where
  "plain_qname p l \<longleftrightarrow> plain_name l \<and> (case p of Some p \<Rightarrow> plain_name p | None \<Rightarrow> True)"

definition attributes_ok :: "string \<Rightarrow> bool" where
  "attributes_ok a \<longleftrightarrow> (a = [] \<or> hd a = CHR '' '') \<and> CHR ''<'' \<notin> set a \<and> CHR ''>'' \<notin> set a"

text \<open>The number of empty-element tags of the name searched for: the scan takes each for an open tag.\<close>

fun well_formed :: "xml \<Rightarrow> bool" where
  "well_formed (Txt s) \<longleftrightarrow> CHR ''<'' \<notin> set s"
| "well_formed (El p l a cs) \<longleftrightarrow> plain_qname p l \<and> attributes_ok a \<and> list_all well_formed cs"
| "well_formed (Em p l a) \<longleftrightarrow> plain_qname p l \<and> attributes_ok a"

fun self_closed :: "string \<Rightarrow> xml \<Rightarrow> nat" where
  "self_closed n (Txt s) = 0"
| "self_closed n (El p l a cs) = sum_list (map (self_closed n) cs)"
| "self_closed n (Em p l a) = (if l = n then 1 else 0)"

section \<open>Names at tags\<close>

lemma name_up_to:
  assumes "list_all (\<lambda>c. \<not> P c) n" and "list_all (\<lambda>c. \<not> P c) l" and "P c"
  shows "(case strip_prefix n (l @ c # y) of None \<Rightarrow> False | Some [] \<Rightarrow> True | Some (d # r) \<Rightarrow> P d) \<longleftrightarrow> l = n"
  using assms
proof (induction n arbitrary: l)
  case Nil
  then show ?case by (cases l) auto
next
  case (Cons m n)
  then show ?case by (cases l) auto
qed

lemma after_prefix_qname:
  assumes "plain_qname p l" and "stop c" and "c \<noteq> CHR '':''" and "\<And>d. stop d \<Longrightarrow> tag_end d"
  shows "after_prefix stop (qname p l @ c # y) = l @ c # y"
proof -
  have free: "dropWhile (\<lambda>c. c \<noteq> CHR '':'' \<and> \<not> stop c) (n @ x) = dropWhile (\<lambda>c. c \<noteq> CHR '':'' \<and> \<not> stop c) x"
    if "plain_name n" for n x
    using that assms(4) by (intro dropWhile_append2) (auto simp: plain_name_def list_all_iff)
  show ?thesis
  proof (cases p)
    case None
    then show ?thesis using assms free [of l] by (simp add: after_prefix_def qname_def plain_qname_def)
  next
    case (Some q)
    then show ?thesis using assms free [of q] by (simp add: after_prefix_def qname_def plain_qname_def)
  qed
qed

lemma plain_name_free: "plain_name n \<Longrightarrow> list_all (\<lambda>c. \<not> tag_end c) n" "plain_name n \<Longrightarrow> list_all (\<lambda>c. c \<noteq> CHR ''>'') n"
  by (auto simp: plain_name_def list_all_iff tag_end_def)

lemma tag_matches_qname:
  assumes "plain_qname p l" and "plain_name n" and "tag_end c"
  shows "tag_matches (qname p l @ c # y) n \<longleftrightarrow> l = n"
proof -
  have "after_prefix tag_end (qname p l @ c # y) = l @ c # y"
    using assms by (intro after_prefix_qname) (auto simp: tag_end_def)
  moreover have "list_all (\<lambda>c. \<not> tag_end c) l" using assms(1) by (auto simp: plain_qname_def plain_name_free)
  ultimately show ?thesis
    unfolding tag_matches_def using name_up_to [of tag_end n l c y] plain_name_free(1) [OF assms(2)] assms(3) by simp
qed

lemma close_matches_qname:
  assumes "plain_qname p l" and "plain_name n"
  shows "is_close_at (qname p l @ CHR ''>'' # y) n = Panicked \<or> is_close_at (qname p l @ CHR ''>'' # y) n = Returned (l = n)"
proof -
  have eq: "after_prefix (\<lambda>c. c = CHR ''>'') (qname p l @ CHR ''>'' # y) = l @ CHR ''>'' # y"
    using assms(1) by (intro after_prefix_qname) (auto simp: tag_end_def)
  have "list_all (\<lambda>c. c \<noteq> CHR ''>'') l" using assms(1) by (auto simp: plain_qname_def plain_name_free)
  note name = name_up_to [of "\<lambda>c. c = CHR ''>''" n l "CHR ''>''" y, OF plain_name_free(2) [OF assms(2)] this refl]
  show ?thesis
  proof (cases "length (l @ CHR ''>'' # y) < length n")
    case True
    then have "l \<noteq> n" by auto
    with True show ?thesis by (simp add: is_close_at_def eq)
  next
    case False
    then show ?thesis by (simp only: is_close_at_def eq Let_def if_False name) simp
  qed
qed

section \<open>Steps of the scan\<close>

lemma drop_cons: "drop i s = c # r \<Longrightarrow> i < length s \<and> s ! i = c \<and> drop (Suc i) s = r"
  by (metis Cons_nth_drop_Suc drop_all linorder_not_less list.distinct(1) list.inject)

lemma drop_add: "drop i s = u @ v \<Longrightarrow> drop (i + length u) s = v"
  by (metis append_eq_conv_conj drop_drop add.commute)

lemma position_here: "drop i s = a @ c # r \<Longrightarrow> c \<notin> set a \<Longrightarrow> position_from s i c = Some (i + length a)"
  by (simp add: position_from_def split_at_char_append)

lemma after_tag_here:
  assumes "drop i s = CHR ''<'' # u @ CHR ''>'' # v" and "CHR ''>'' \<notin> set u"
  shows "after_tag s i = i + length u + 2" and "drop (i + length u + 2) s = v"
proof -
  show "after_tag s i = i + length u + 2"
    using position_here [of i s "CHR ''<'' # u"] assms by (simp add: after_tag_def)
  show "drop (i + length u + 2) s = v"
    using drop_add [of i s "CHR ''<'' # u @ [CHR ''>'']" v] assms(1) by (simp add: add.commute)
qed

lemma step_open:
  assumes "drop i s = CHR ''<'' # u @ CHR ''>'' # v" and "CHR ''>'' \<notin> set u" and "u \<noteq> []"
    and "hd u \<notin> {CHR ''/'', CHR ''!'', CHR ''?''}"
  shows "close_loop s n i d = close_loop s n (i + length u + 2) (if tag_matches (u @ CHR ''>'' # v) n then d + 1 else d)"
proof -
  obtain c u' where u: "u = c # u'" using assms(3) by (cases u) auto
  have at: "i < length s" "s ! i = CHR ''<''" and rest: "drop (Suc i) s = u @ CHR ''>'' # v" using drop_cons [OF assms(1)] by auto
  moreover have "Suc i < length s" "s ! Suc i = c" using drop_cons [of "Suc i" s c] rest u by auto
  ultimately show ?thesis
    using assms u position_here [of i s "[]" "CHR ''<''"] after_tag_here(1) [OF assms(1,2)]
    by (simp add: close_loop.simps [of s n i] next_open_here)
qed

lemma step_close:
  assumes "drop i s = CHR ''<'' # CHR ''/'' # u @ CHR ''>'' # v" and "CHR ''>'' \<notin> set u"
  shows "close_loop s n i d =
    (case is_close_at (u @ CHR ''>'' # v) n of
       Panicked \<Rightarrow> Panicked
     | Returned True \<Rightarrow> if d - 1 = 0 then Returned (Some i) else close_loop s n (i + length u + 3) (d - 1)
     | Returned False \<Rightarrow> close_loop s n (i + length u + 3) d)"
proof -
  have at: "i < length s" and rest: "drop (Suc i) s = CHR ''/'' # u @ CHR ''>'' # v" using drop_cons [OF assms(1)] by auto
  from drop_cons [OF rest] have "Suc i < length s" "s ! Suc i = CHR ''/''" "drop (i + 2) s = u @ CHR ''>'' # v" by auto
  moreover have "after_tag s i = i + length u + 3"
    using after_tag_here(1) [of i s "CHR ''/'' # u" v] assms by simp
  ultimately show ?thesis
    using at position_here [of i s "[]" "CHR ''<''"] assms(1)
    by (simp add: close_loop.simps [of s n i] split: outcome.split bool.split)
qed

lemma step_text:
  assumes "drop i s = t @ v" and "CHR ''<'' \<notin> set t"
  shows "close_loop s n i d = close_loop s n (i + length t) d"
proof (cases "CHR ''<'' \<in> set v")
  case True
  then obtain a r where v: "v = a @ CHR ''<'' # r" "CHR ''<'' \<notin> set a" using split_list_first by metis
  have d: "drop (i + length t) s = a @ CHR ''<'' # r" using drop_add [OF assms(1)] v by simp
  then have "i + length t < length s" by (metis drop_all linorder_not_less append_is_Nil_conv list.distinct(1))
  moreover have "position_from s i CHR ''<'' = Some (i + length t + length a)"
    using position_here [of i s "t @ a" "CHR ''<''" r] assms v by simp
  moreover have "position_from s (i + length t) CHR ''<'' = Some (i + length t + length a)"
    using position_here [OF d v(2)] .
  ultimately show ?thesis by (simp add: close_loop.simps [of s n i] close_loop.simps [of s n "i + length t"])
next
  case False
  have none: "position_from s j CHR ''<'' = None" if "CHR ''<'' \<notin> set (drop j s)" for j
    using that split_at_char_None [of "CHR ''<''" "drop j s"] by (simp add: position_from_def)
  have "CHR ''<'' \<notin> set (drop i s)" "CHR ''<'' \<notin> set (drop (i + length t) s)"
    using assms False drop_add [OF assms(1)] by auto
  then show ?thesis by (simp add: close_loop.simps [of s n i] close_loop.simps [of s n "i + length t"] none)
qed

section \<open>The scan over a document\<close>

lemma name_ok:
  assumes "plain_name m"
  shows "CHR ''>'' \<notin> set m" and "m \<noteq> []" and "hd m \<notin> {CHR ''/'', CHR ''!'', CHR ''?''}"
proof -
  show ne: "m \<noteq> []" using assms by (simp add: plain_name_def)
  have all: "\<not> tag_end c \<and> c \<notin> {CHR ''!'', CHR ''?''}" if "c \<in> set m" for c
    using assms that by (simp add: plain_name_def list_all_iff)
  show "CHR ''>'' \<notin> set m" using all by (auto simp: tag_end_def)
  show "hd m \<notin> {CHR ''/'', CHR ''!'', CHR ''?''}" using all [OF hd_in_set [OF ne]] by (auto simp: tag_end_def)
qed

lemma qname_ok:
  assumes "plain_qname p l"
  shows "CHR ''>'' \<notin> set (qname p l)" and "qname p l \<noteq> []" and "hd (qname p l) \<notin> {CHR ''/'', CHR ''!'', CHR ''?''}"
proof -
  have l: "plain_name l" using assms by (simp add: plain_qname_def)
  have "CHR ''>'' \<notin> set (qname p l) \<and> qname p l \<noteq> [] \<and> hd (qname p l) \<notin> {CHR ''/'', CHR ''!'', CHR ''?''}"
  proof (cases p)
    case None
    then show ?thesis using name_ok [OF l] by (simp add: qname_def)
  next
    case (Some q)
    then have q: "plain_name q" using assms by (simp add: plain_qname_def)
    show ?thesis using name_ok [OF q] name_ok [OF l] Some by (simp add: qname_def)
  qed
  then show "CHR ''>'' \<notin> set (qname p l)" "qname p l \<noteq> []" "hd (qname p l) \<notin> {CHR ''/'', CHR ''!'', CHR ''?''}" by auto
qed

lemma tag_matches_open:
  assumes "plain_qname p l" and "plain_name n" and "attributes_ok a" and "tag_end c"
  shows "tag_matches (qname p l @ a @ c # y) n \<longleftrightarrow> l = n"
proof (cases a)
  case Nil
  then show ?thesis using tag_matches_qname [OF assms(1,2,4)] by simp
next
  case (Cons b a')
  then have "tag_end b" using assms(3) by (simp add: attributes_ok_def tag_end_def)
  then show ?thesis using tag_matches_qname [OF assms(1,2)] Cons by simp
qed

lemma step_el:
  assumes "drop i s = CHR ''<'' # qname p l @ a @ CHR ''>'' # v" and "plain_qname p l" and "attributes_ok a" and "plain_name n"
  shows "close_loop s n i d = close_loop s n (i + length (qname p l @ a) + 2) (if l = n then d + 1 else d)"
proof -
  have "tag_matches ((qname p l @ a) @ CHR ''>'' # v) n \<longleftrightarrow> l = n"
    using tag_matches_open [OF assms(2,4,3)] by (simp add: tag_end_def)
  moreover have "CHR ''>'' \<notin> set (qname p l @ a)" "hd (qname p l @ a) \<notin> {CHR ''/'', CHR ''!'', CHR ''?''}" "qname p l @ a \<noteq> []"
    using qname_ok [OF assms(2)] assms(3) by (simp_all add: attributes_ok_def)
  ultimately show ?thesis
    using step_open [of i s "qname p l @ a" v n d] assms(1) by simp
qed

lemma step_em:
  assumes "drop i s = CHR ''<'' # qname p l @ a @ ''/>'' @ v" and "plain_qname p l" and "attributes_ok a" and "plain_name n"
  shows "close_loop s n i d = close_loop s n (i + length (qname p l @ a) + 3) (if l = n then d + 1 else d)"
proof -
  have "tag_matches ((qname p l @ a @ ''/'') @ CHR ''>'' # v) n \<longleftrightarrow> l = n"
    using tag_matches_open [OF assms(2,4,3), of "CHR ''/''" "CHR ''>'' # v"] by (simp add: tag_end_def)
  moreover have "CHR ''>'' \<notin> set (qname p l @ a @ ''/'')" "hd (qname p l @ a @ ''/'') \<notin> {CHR ''/'', CHR ''!'', CHR ''?''}" "qname p l @ a @ ''/'' \<noteq> []"
    using qname_ok [OF assms(2)] assms(3) by (simp_all add: attributes_ok_def)
  ultimately show ?thesis
    using step_open [of i s "qname p l @ a @ ''/''" v n d] assms(1) by (simp add: eval_nat_numeral)
qed

lemma step_end:
  assumes "drop i s = ''</'' @ qname p l @ CHR ''>'' # v" and "plain_qname p l" and "plain_name n"
  shows "close_loop s n i d = Panicked
    \<or> close_loop s n i d =
        (if l = n then if d - 1 = 0 then Returned (Some i) else close_loop s n (i + length (qname p l) + 3) (d - 1)
         else close_loop s n (i + length (qname p l) + 3) d)"
  using close_matches_qname [OF assms(2,3), of v] step_close [of i s "qname p l" v n d] assms(1) qname_ok(1) [OF assms(2)]
  by auto

lemma scan_trees:
  assumes "\<And>x i d post. x \<in> set xs \<Longrightarrow> drop i s = render x @ post \<Longrightarrow> 1 \<le> d \<Longrightarrow>
      close_loop s n i d = Panicked \<or> close_loop s n i d = close_loop s n (i + length (render x)) (d + self_closed n x)"
    and "drop i s = concat (map render xs) @ post" and "1 \<le> d"
  shows "close_loop s n i d = Panicked
    \<or> close_loop s n i d = close_loop s n (i + length (concat (map render xs))) (d + sum_list (map (self_closed n) xs))"
  using assms
proof (induction xs arbitrary: i d)
  case (Cons x xs)
  have "drop i s = render x @ concat (map render xs) @ post" using Cons.prems(2) by simp
  with Cons.prems(1) [of x i "concat (map render xs) @ post" d] Cons.prems(3)
  have first: "close_loop s n i d = Panicked \<or> close_loop s n i d = close_loop s n (i + length (render x)) (d + self_closed n x)" by simp
  have "drop (i + length (render x)) s = concat (map render xs) @ post"
    using drop_add [of i s "render x"] Cons.prems(2) by simp
  then have "close_loop s n (i + length (render x)) (d + self_closed n x) = Panicked
    \<or> close_loop s n (i + length (render x)) (d + self_closed n x)
      = close_loop s n (i + length (render x) + length (concat (map render xs)))
          (d + self_closed n x + sum_list (map (self_closed n) xs))"
    using Cons.prems(1,3) by (intro Cons.IH) auto
  with first show ?case by (auto simp: add.assoc)
qed simp

lemma scan_tree:
  assumes "plain_name n"
  shows "well_formed x \<Longrightarrow> drop i s = render x @ post \<Longrightarrow> 1 \<le> d \<Longrightarrow>
    close_loop s n i d = Panicked \<or> close_loop s n i d = close_loop s n (i + length (render x)) (d + self_closed n x)"
proof (induction x arbitrary: i d post)
  case (Txt t)
  then show ?case using step_text [of i s t post] by simp
next
  case (Em p l a)
  then show ?case using step_em [of i s p l a post n d] assms by (simp add: eval_nat_numeral)
next
  case (El p l a cs)
  let ?open = "CHR ''<'' # qname p l @ a @ ''>''" and ?body = "concat (map render cs)" and ?fin = "''</'' @ qname p l @ ''>''"
  let ?d = "if l = n then d + 1 else d" and ?k = "sum_list (map (self_closed n) cs)"
  have names: "plain_qname p l" "attributes_ok a" using El.prems(1) by auto
  have whole: "drop i s = ?open @ ?body @ ?fin @ post" using El.prems(2) by simp
  have opened: "close_loop s n i d = close_loop s n (i + length ?open) ?d"
    using step_el [of i s p l a "?body @ ?fin @ post" n d] whole names assms by (simp add: eval_nat_numeral)
  have rest: "drop (i + length ?open) s = ?body @ ?fin @ post" using drop_add [OF whole] .
  have inner: "close_loop s n (i + length ?open) ?d = Panicked
    \<or> close_loop s n (i + length ?open) ?d = close_loop s n (i + length ?open + length ?body) (?d + ?k)"
    using El.prems(1,3) by (intro scan_trees [OF El.IH rest]) (auto simp: list_all_iff)
  have "drop (i + length ?open + length ?body) s = ''</'' @ qname p l @ CHR ''>'' # post" using drop_add [OF rest] by simp
  from step_end [OF this names(1) assms, of "?d + ?k"] El.prems(3)
  have "close_loop s n (i + length ?open + length ?body) (?d + ?k) = Panicked
    \<or> close_loop s n (i + length ?open + length ?body) (?d + ?k)
      = close_loop s n (i + length ?open + length ?body + length ?fin) (d + ?k)"
    by (auto simp: eval_nat_numeral split: if_splits)
  then show ?case using opened inner by (auto simp: add.assoc)
qed

section \<open>Panics\<close>

definition ascii :: "string \<Rightarrow> bool" where
  "ascii s \<longleftrightarrow> list_all (\<lambda>c. byte c < 128) s"

lemma ascii_boundary: "ascii s \<Longrightarrow> i \<le> length s \<Longrightarrow> is_char_boundary s i"
proof (cases "i = length s")
  case False
  assume "ascii s" and "i \<le> length s"
  with False have "byte (s ! i) < 128" by (simp add: ascii_def list_all_length)
  then show ?thesis using \<open>i \<le> length s\<close> False by (simp add: is_char_boundary_def is_continuation_def)
qed (simp add: is_char_boundary_def)

lemma after_prefix_suffix: "\<exists>u. s = u @ after_prefix stop s"
proof (cases "dropWhile (\<lambda>c. c \<noteq> CHR '':'' \<and> \<not> stop c) s")
  case (Cons c r)
  have "s = (takeWhile (\<lambda>c. c \<noteq> CHR '':'' \<and> \<not> stop c) s @ [c]) @ r" using Cons by (metis append.assoc append_Cons append_Nil takeWhile_dropWhile_id)
  then have "\<exists>u. s = u @ r" by blast
  then show ?thesis using Cons by (cases "c = CHR '':''") (simp_all add: after_prefix_def)
next
  case Nil
  then have "after_prefix stop s = s" by (simp only: after_prefix_def list.case)
  then show ?thesis by simp
qed

lemma ascii_suffix: "ascii s \<Longrightarrow> ascii (drop i s)" "ascii (u @ v) \<Longrightarrow> ascii v"
  by (auto simp: ascii_def list_all_iff dest: in_set_dropD)

lemma ascii_is_close_at: "ascii s \<Longrightarrow> is_close_at s n \<noteq> Panicked"
proof -
  assume "ascii s"
  moreover obtain u where "s = u @ after_prefix (\<lambda>c. c = CHR ''>'') s" using after_prefix_suffix by blast
  ultimately have "ascii (after_prefix (\<lambda>c. c = CHR ''>'') s)" by (metis ascii_suffix(2))
  then show ?thesis using ascii_boundary by (auto simp: is_close_at_def Let_def)
qed

lemma ascii_close_loop: "ascii s \<Longrightarrow> close_loop s n i d \<noteq> Panicked"
proof (induction "length s - i" arbitrary: i d rule: less_induct)
  case less
  note panic = ascii_is_close_at [OF ascii_suffix(1) [OF less.prems]]
  show ?case
  proof (cases "i < length s")
    case True
    show ?thesis
    proof (cases "position_from s i CHR ''<''")
      case (Some lt)
      have ih: "close_loop s n (after_tag s lt) d' \<noteq> Panicked" for d'
        using less.hyps [OF scan_decreases [OF True Some] less.prems] .
      show ?thesis
      proof (cases "is_close_at (drop (lt + 2) s) n")
        case (Returned b)
        then show ?thesis using True Some ih by (cases b) (simp_all add: close_loop.simps [of s n i])
      qed (use panic in simp)
    qed (use True in \<open>simp add: close_loop.simps [of s n i]\<close>)
  qed (simp add: close_loop.simps [of s n i])
qed

section \<open>Close tags and texts\<close>

lemma close_tag_reached:
  assumes "plain_qname p n" and "attributes_ok a" and "list_all well_formed cs"
    and "doc = pre @ CHR ''<'' # qname p n @ a @ CHR ''>'' # concat (map render cs) @ ''</'' @ qname p n @ CHR ''>'' # post"
    and "i = length pre + length (qname p n @ a) + 2 + length (concat (map render cs))"
    and "k = sum_list (map (self_closed n) cs)"
  shows "find_close_tag_in_lower doc (length pre) n = Panicked \<and> \<not> ascii doc
    \<or> find_close_tag_in_lower doc (length pre) n
       = (if k = 0 then Returned (Some i) else close_loop doc n (i + length (qname p n) + 3) k)"
proof -
  let ?body = "concat (map render cs)"
  let ?i = "length pre + length (qname p n @ a) + 2"
  have n: "plain_name n" using assms(1) by (simp add: plain_qname_def)
  have d: "drop (length pre) doc = (CHR ''<'' # qname p n @ a) @ CHR ''>'' # ?body @ ''</'' @ qname p n @ CHR ''>'' # post"
    using assms(4) by simp
  have "CHR ''>'' \<notin> set (CHR ''<'' # qname p n @ a)"
    using qname_ok(1) [OF assms(1)] assms(2) by (simp add: attributes_ok_def)
  note start = position_here [OF d this]
  have rest: "drop ?i doc = ?body @ ''</'' @ qname p n @ CHR ''>'' # post"
    using drop_add [of "length pre" doc "CHR ''<'' # qname p n @ a @ ''>''"] d by simp
  have scan: "close_loop doc n ?i 1 = Panicked \<or> close_loop doc n ?i 1 = close_loop doc n i (1 + k)"
    unfolding assms(5,6) using assms(3) by (intro scan_trees [OF scan_tree [OF n] rest]) (auto simp: list_all_iff)
  have "drop i doc = ''</'' @ qname p n @ CHR ''>'' # post" unfolding assms(5) using drop_add [OF rest] .
  from step_end [OF this assms(1) n, of "1 + k"]
  have "close_loop doc n i (1 + k) = Panicked
    \<or> close_loop doc n i (1 + k) = (if k = 0 then Returned (Some i) else close_loop doc n (i + length (qname p n) + 3) k)"
    by (cases k) simp_all
  moreover have "find_close_tag_in_lower doc (length pre) n = close_loop doc n ?i 1"
    using start by (simp add: find_close_tag_in_lower_def)
  ultimately show ?thesis using scan ascii_close_loop [of doc n ?i 1] by auto
qed

lemma close_tag_found:
  assumes "plain_qname p n" and "attributes_ok a" and "list_all well_formed cs"
    and "doc = pre @ CHR ''<'' # qname p n @ a @ CHR ''>'' # concat (map render cs) @ ''</'' @ qname p n @ CHR ''>'' # post"
    and "i = length pre + length (qname p n @ a) + 2 + length (concat (map render cs))"
  shows "find_close_tag_in_lower doc (length pre) n = Panicked \<and> \<not> ascii doc
    \<or> (if sum_list (map (self_closed n) cs) = 0 then find_close_tag_in_lower doc (length pre) n = Returned (Some i)
       else find_close_tag_in_lower doc (length pre) n = Returned None
         \<or> (\<exists>e. find_close_tag_in_lower doc (length pre) n = Returned (Some e) \<and> i + length (qname p n) + 3 \<le> e))"
proof -
  let ?k = "sum_list (map (self_closed n) cs)" and ?r = "find_close_tag_in_lower doc (length pre) n"
  let ?loop = "close_loop doc n (i + length (qname p n) + 3) ?k"
  have reached: "?r = Panicked \<and> \<not> ascii doc \<or> ?r = (if ?k = 0 then Returned (Some i) else ?loop)"
    by (rule close_tag_reached [OF assms refl])
  show ?thesis
  proof (cases "?k = 0 \<or> ?r = Panicked \<and> \<not> ascii doc")
    case True
    then show ?thesis using reached by auto
  next
    case False
    with reached have r: "?r = ?loop" by auto
    show ?thesis
    proof (cases ?loop)
      case Panicked
      then show ?thesis using r ascii_close_loop [of doc n "i + length (qname p n) + 3" ?k] by auto
    next
      case (Returned x)
      then show ?thesis
        using r False close_loop_bounds [of doc n "i + length (qname p n) + 3" ?k] by (cases x) auto
    qed
  qed
qed


text \<open>
  The text read for an element is the trimmed text between its tags, in the case the server
  sent it, when the tags before it have other names and no empty-element tag of its name is in it.
\<close>

theorem inner_text_exact:
  assumes "plain_qname p n" and "attributes_ok a" and "list_all well_formed cs" and "sum_list (map (self_closed n) cs) = 0"
    and "to_ascii_lowercase xml = pre @ CHR ''<'' # qname p n @ a @ CHR ''>'' # concat (map render cs) @ ''</'' @ qname p n @ CHR ''>'' # post"
    and "next_open_tag_at (to_ascii_lowercase xml) 0 n = Some (length pre)"
    and "extract_inner xml n \<noteq> Panicked"
  shows "extract_inner xml n =
    Returned (Some (trim (take (length (concat (map render cs))) (drop (length pre + length (qname p n @ a) + 2) xml))))"
proof -
  let ?l = "to_ascii_lowercase xml"
  have d: "drop (length pre) ?l = (CHR ''<'' # qname p n @ a) @ CHR ''>'' # concat (map render cs) @ ''</'' @ qname p n @ CHR ''>'' # post"
    using assms(5) by simp
  have "CHR ''>'' \<notin> set (CHR ''<'' # qname p n @ a)"
    using qname_ok(1) [OF assms(1)] assms(2) by (simp add: attributes_ok_def)
  note start = position_here [OF d this]
  have "find_open_tag ?l 0 n = Some (length pre)" using assms(6) by (simp add: find_open_tag_def)
  then show ?thesis
    using close_tag_found [OF assms(1-3,5) refl] start assms(4,7)
    by (auto simp: extract_inner_def Let_def and_then_def slice_def)
qed

definition ex_doc :: string where
  "ex_doc = ''<d:a><d:href>/<x:href>cal</x:href></d:href></d:a>''"

lemma ex_doc_tree:
  "ex_doc = ''<d:a>'' @ CHR ''<'' # qname (Some ''d'') ''href'' @ [] @ CHR ''>''
     # concat (map render [Txt ''/'', El (Some ''x'') ''href'' [] [Txt ''cal'']]) @ ''</'' @ qname (Some ''d'') ''href'' @ CHR ''>'' # ''</d:a>''"
  by (simp add: ex_doc_def qname_def)

lemma ex_doc_ascii: "ascii ex_doc"
  by (simp add: ex_doc_def ascii_def byte_def)

lemma ex_names: "plain_qname (Some ''d'') ''href''" "plain_qname (Some ''x'') ''href''"
  by (simp_all add: plain_qname_def plain_name_def tag_end_def)


text \<open>A nested empty element of the same name: the end of the outer element is not found.\<close>

definition ex_em_doc :: string where
  "ex_em_doc = ''<href><href/></href>''"

lemma ex_em_lost: "find_close_tag_in_lower ex_em_doc 0 ''href'' = Returned None"
  by code_simp

lemma inner_text_exact_witness: "extract_inner ex_doc ''href'' = Returned (Some ''/<x:href>cal</x:href>'')"
proof -
  have lower: "to_ascii_lowercase ex_doc = ex_doc"
    by (simp add: ex_doc_def to_ascii_lowercase_def ascii_lower_def byte_def)
  have "next_open_tag_at ex_doc 0 ''href'' = Some 5"
    by (simp add: next_open_tag_at.simps ex_doc_def tag_matches_def after_prefix_def tag_end_def)
  then have first: "next_open_tag_at (to_ascii_lowercase ex_doc) 0 ''href'' = Some (length ''<d:a>'')" by (simp add: lower)
  have "extract_inner ex_doc ''href'' \<noteq> Panicked"
    using ascii_close_loop [OF ex_doc_ascii]
    by (auto simp: extract_inner_def lower and_then_def find_close_tag_in_lower_def split: option.splits outcome.splits)
  note exact = inner_text_exact [OF ex_names(1) _ _ _ trans [OF lower ex_doc_tree] first this]
  have "trim ''/<x:href>cal</x:href>'' = ''/<x:href>cal</x:href>''"
    using trim_ascii [of "CHR ''/''" "CHR ''>''" "''<x:href>cal</x:href''"] by (simp add: ascii_ws_def byte_def)
  with exact show ?thesis using ex_names by (simp add: attributes_ok_def qname_def ex_doc_def)
qed

text \<open>
  A server can make the scan panic: the name at a close tag is compared as a string slice of the
  length of the name searched for, and here its end is inside the two bytes of a letter.
\<close>

definition hostile_doc :: string where
  "hostile_doc = ''<response><a></a>aaaaa'' @ [CHR 0xC3, CHR 0xA9] @ ''</response>''"

lemma hostile_doc_panics: "find_close_tag_in_lower hostile_doc 0 ''response'' = Panicked"
proof -
  have opened: "drop 10 hostile_doc = CHR ''<'' # ''a'' @ CHR ''>'' # ''</a>aaaaa'' @ [CHR 0xC3, CHR 0xA9] @ ''</response>''"
    and closed: "drop 13 hostile_doc = CHR ''<'' # CHR ''/'' # ''a'' @ CHR ''>'' # ''aaaaa'' @ [CHR 0xC3, CHR 0xA9] @ ''</response>''"
    by (simp_all add: hostile_doc_def)
  have "close_loop hostile_doc ''response'' 13 1 = Panicked"
    using step_close [OF closed, of "''response''" 1]
    by (simp add: is_close_at_def after_prefix_def is_char_boundary_def is_continuation_def byte_def)
  then have "close_loop hostile_doc ''response'' 10 1 = Panicked"
    using step_open [OF opened, of "''response''" 1] by (simp add: tag_matches_def after_prefix_def tag_end_def)
  moreover have "position_from hostile_doc 0 CHR ''>'' = Some 9"
    by (simp add: position_from_def hostile_doc_def)
  ultimately show ?thesis by (simp add: find_close_tag_in_lower_def)
qed

end
