(* ===== verification/Caldav_Props.thy ===== *)
theory Caldav_Props
  imports Caldav_Agents Ical_Props Dav_Xml_Props
begin

text \<open>
  Properties that join the CalDAV agents, the iCalendar code and the tag scan, and concrete runs.
\<close>

section \<open>The event that is created\<close>

lemma lines_crlf:
  assumes "\<forall>l \<in> set ls. cr \<notin> set l \<and> lf \<notin> set l"
  shows "lines (concat (map (\<lambda>l. l @ crlf) ls)) = ls"
proof -
  have "chomp_cr (l @ [cr]) = l" for l
    using strip_suffix_iff [of "[cr]" "l @ [cr]" l] by (simp add: chomp_cr_def unwrap_or_def)
  moreover have "split_char lf (concat (map (\<lambda>l. l @ crlf) ls)) = map (\<lambda>l. l @ [cr]) ls @ [[]]"
    using assms by (intro split_written) auto
  ultimately show ?thesis by (simp add: lines_def butlast_append map_idI)
qed

lemma uid_of_written:
  assumes "printable_instant env now" and "printable_instant env (ep_start p)"
    and "\<And>e. ep_end p = Some e \<Longrightarrow> printable_instant env e"
  shows "uid_line (to_ical env now nanos bytes p) = Some (fresh_uid nanos bytes)"
proof -
  have "lines (to_ical env now nanos bytes p) = ical_lines env now (fresh_uid nanos bytes) p"
    using ical_lines_clean [OF assms fresh_uid_chars] unfolding to_ical_def
    by (intro lines_crlf) (auto simp: clean_line_def)
  then show ?thesis by (simp add: uid_line_def ical_lines_def List.map_filter_def)
qed

lemma put_requests:
  "dav_put env cl stem body = (rqs, r) \<Longrightarrow>
   rqs = [] \<or> (\<exists>full ok. dv_join env (pu_text (cl_base cl)) stem = Inr full
      \<and> egress_validate (dv_net env) (cl_egress cl) full = Inr ok
      \<and> rqs = [\<lparr>rq_method = ''PUT'', rq_url = pu_text (vo_url ok), rq_authorization = Some (header_value env (cl_auth cl)),
                 rq_body = body\<rparr>])"
  by (auto simp: dav_put_def Let_def split: sum.splits if_splits)

lemma create_puts:
  assumes "create_event_invoke env cfg v inp args = (rqs, r)" and "parse_create_args env args = Inr p"
    and "build_client env cfg v = Inr cl" and "uid_line (to_ical (dv_cal env) (di_now inp) (di_nanos inp) (di_random inp) p) = Some uid"
  shows "\<exists>r'. dav_put env cl (uid @ ''.ics'') (to_ical (dv_cal env) (di_now inp) (di_nanos inp) (di_random inp) p) = (rqs, r')"
proof -
  obtain rqs' r' where d: "dav_put env cl (uid @ ''.ics'') (to_ical (dv_cal env) (di_now inp) (di_nanos inp) (di_random inp) p) = (rqs', r')"
    by fastforce
  then have "rqs' = rqs"
    using assms by (cases r') (simp_all add: create_event_invoke_def Let_def)
  with d show ?thesis by blast
qed

text \<open>
  The request that stores \<open>stem\<close>: a \<open>PUT\<close> with the credentials of the vault to what the address in
  the vault joined with \<open>stem\<close> is, when the egress policy accepts it.
\<close>

definition creation_request :: "dav_env \<Rightarrow> dav_config \<Rightarrow> vault \<Rightarrow> string \<Rightarrow> dav_request \<Rightarrow> bool" where
  "creation_request env cfg v stem rq \<longleftrightarrow>
     (\<exists>url user pass stored full ok.
        v ''url'' = Inr (Some url) \<and> v ''username'' = Inr (Some user) \<and> v ''password'' = Inr (Some pass)
        \<and> ee_parse (dv_net env) url = Inr stored \<and> dv_join env (pu_text stored) stem = Inr full
        \<and> egress_validate (dv_net env) (build_egress cfg) full = Inr ok
        \<and> rq_method rq = ''PUT'' \<and> rq_url rq = pu_text (vo_url ok)
        \<and> rq_authorization rq = Some (header_value env \<lparr>ba_username = user, ba_password = pass\<rparr>))"

text \<open>
  C30: When the arguments of a creation are accepted, with a clock, a start and an end whose years
  have four digits, what it hands the HTTP client is nothing or exactly one request: the \<open>PUT\<close> with
  the credentials of the vault to the address in the vault joined with the fresh identifier and
  \<open>.ics\<close>. Whoever reads its body with the same code gets the event that was asked for: that
  identifier, the title, the second the start lies in, the second the end lies in or else one hour
  of the calendar library, the description and the location, without carriage returns.
\<close>

theorem created_event_readable:
  assumes "create_event_invoke env cfg v inp args = (rqs, r)" and "rqs \<noteq> []"
    and "parse_create_args env args = Inr p"
    and "printable_instant (dv_cal env) (di_now inp)" and "printable_instant (dv_cal env) (ep_start p)"
    and "\<And>e. ep_end p = Some e \<Longrightarrow> printable_instant (dv_cal env) e"
    and "ep_end p = None \<Longrightarrow> hour_laws (dv_cal env) (whole_second (ep_start p)) h"
  shows "\<exists>rq. rqs = [rq]
    \<and> creation_request env cfg v (fresh_uid (di_nanos inp) (di_random inp) @ ''.ics'') rq
    \<and> parse_vevent (dv_cal env) (rq_body rq) href =
        Returned (Inr \<lparr>evt_uid = fresh_uid (di_nanos inp) (di_random inp), evt_href = href,
          evt_summary = without_cr (ep_summary p), evt_start = whole_second (ep_start p),
          evt_end = Some (unwrap_or (whole_second (ep_start p) + h) (map_option whole_second (ep_end p))),
          evt_description = written_text (ep_description p), evt_location = written_text (ep_location p), evt_rrule = None\<rparr>)"
proof -
  let ?uid = "fresh_uid (di_nanos inp) (di_random inp)"
  let ?body = "to_ical (dv_cal env) (di_now inp) (di_nanos inp) (di_random inp) p"
  obtain cl where cl: "build_client env cfg v = Inr cl"
    using assms(1-3) by (auto simp: create_event_invoke_def split: sum.splits)
  have uid: "uid_line ?body = Some ?uid" by (rule uid_of_written [OF assms(4-6)])
  obtain r' where "dav_put env cl (?uid @ ''.ics'') ?body = (rqs, r')"
    using create_puts [OF assms(1,3) cl uid] by blast
  then obtain full ok where put: "dv_join env (pu_text (cl_base cl)) (?uid @ ''.ics'') = Inr full"
    "egress_validate (dv_net env) (cl_egress cl) full = Inr ok"
    "rqs = [\<lparr>rq_method = ''PUT'', rq_url = pu_text (vo_url ok), rq_authorization = Some (header_value env (cl_auth cl)),
             rq_body = ?body\<rparr>]"
    using put_requests assms(2) by blast
  have "creation_request env cfg v (?uid @ ''.ics'') (hd rqs)"
    unfolding creation_request_def using built_client [OF cl] put by fastforce
  then show ?thesis
    using put(3) written_event_read [OF assms(4-7), of "di_nanos inp" "di_random inp" href] by simp
qed

section \<open>What a listing returns\<close>

text \<open>
  A listing that succeeds printed at most as many events as the call or else the configuration
  allows, and counts what it printed. The cap of the call is not bounded by the configuration.
\<close>

theorem list_capped:
  assumes "list_events_invoke env cfg v args = (rqs, Returned (Inr out))"
  shows "\<exists>req events. parse_list_events_args env args = Inr req
    \<and> length events \<le> unwrap_or (dc_max_events cfg) (la_max_events req)
    \<and> out = envelope env (JObj [(''events'', JArr (map (event_json env) events)), (''count'', nat_json (length events)),
              (''start'', JStr (dv_rfc3339_text env (la_start req))), (''end'', JStr (dv_rfc3339_text env (la_end req)))])"
proof -
  obtain req where req: "parse_list_events_args env args = Inr req"
    using assms by (auto simp: list_events_invoke_def split: sum.splits)
  obtain cl where cl: "build_list_client env cfg v (la_calendar_url req) = Inr cl"
    using assms req by (auto simp: list_events_invoke_def split: sum.splits)
  from assms req cl obtain events where
    "out = envelope env (JObj [(''events'', JArr (map (event_json env) (take (unwrap_or (dc_max_events cfg) (la_max_events req)) events))),
       (''count'', nat_json (length (take (unwrap_or (dc_max_events cfg) (la_max_events req)) events))),
       (''start'', JStr (dv_rfc3339_text env (la_start req))), (''end'', JStr (dv_rfc3339_text env (la_end req)))])"
    by (auto simp: list_events_invoke_def Let_def and_then_def split: sum.splits prod.splits outcome.splits)
  moreover have "length (take (unwrap_or (dc_max_events cfg) (la_max_events req)) events) \<le> unwrap_or (dc_max_events cfg) (la_max_events req)"
    by simp
  ultimately show ?thesis using req by metis
qed

section \<open>Concrete runs\<close>

text \<open>A server \<open>h\<close> that answers every report with no event; port 8443 of the same host is another address.\<close>

definition ex_dav_parse :: "string \<Rightarrow> string + parsed_url" where
  "ex_dav_parse s =
     (if s = ''https://h/'' then Inr \<lparr>pu_text = s, pu_scheme = ''https'', pu_host = Some ''h'', pu_port_or_known_default = Some 443\<rparr>
      else if s = ''https://h:8443/'' then
        Inr \<lparr>pu_text = s, pu_scheme = ''https'', pu_host = Some ''h'', pu_port_or_known_default = Some 8443\<rparr>
      else Inl ''relative URL without a base'')"

definition ex_dav :: dav_env where
  "ex_dav =
     \<lparr>dv_net = \<lparr>ee_parse = ex_dav_parse, ee_lookup = (\<lambda>h p. Inr [V4 (IPv4 203 0 113 5)]), ee_send = (\<lambda>u. Inl ''refused'')\<rparr>,
      dv_send = (\<lambda>rq. Inr \<lparr>rs_status = 207, rs_body = Inr [], rs_text = None\<rparr>),
      dv_cal = ex_cal, dv_urls = \<lparr>ue_parse = (\<lambda>s. None), ue_join = (\<lambda>a b. None)\<rparr>,
      dv_join = (\<lambda>a b. Inr ''https://h/''), dv_base64 = (\<lambda>s. s),
      dv_js = \<lparr>js_parse = (\<lambda>s. None), js_error = (\<lambda>s. []), js_show = (\<lambda>v. [])\<rparr>,
      dv_rfc3339 = (\<lambda>s. if s = ''t0'' then Inr 1735787045000000000 else if s = ''t1'' then Inr 1735787046000000000 else Inl ''bad''),
      dv_rfc3339_text = (\<lambda>t. ''t''), dv_addr_text = (\<lambda>a p. []), dv_utf8_error = (\<lambda>s. [])\<rparr>"

definition ex_vault :: vault where
  "ex_vault field = Inr (Some (if field = ''url'' then ''https://h/'' else if field = ''username'' then ''u'' else ''p''))"

definition ex_dav_config :: dav_config where
  "ex_dav_config = \<lparr>dc_timeout_ms = 5000, dc_allowlist = [''h''], dc_max_body_bytes = 65536, dc_max_events = 100\<rparr>"

definition ex_call :: "(string \<times> string) list \<Rightarrow> json" where
  "ex_call kvs = JObj (map (\<lambda>(k, s). (k, JStr s)) kvs)"

lemma ex_reparses: "reparses (dv_net ex_dav)"
  by (auto simp: reparses_def ex_dav_def ex_dav_parse_def split: if_splits)

lemma ex_trim: "trim ''https://h:8443/'' = ''https://h:8443/''" "trim ''Lunch'' = ''Lunch''"
  using trim_ascii [of "CHR ''h''" "CHR ''/''" "''ttps://h:8443''"] trim_ascii [of "CHR ''L''" "CHR ''h''" "''unc''"]
  by (simp_all add: ascii_ws_def byte_def)

definition ex_list_call :: json where
  "ex_list_call = ex_call [(''start'', ''t0''), (''end'', ''t1''), (''calendar_url'', ''https://h:8443/'')]"

definition ex_list_args :: list_args where
  "ex_list_args = \<lparr>la_start = 1735787045000000000, la_end = 1735787046000000000, la_calendar_url = ''https://h:8443/'', la_max_events = None\<rparr>"

lemma ex_list_parsed: "parse_list_events_args ex_dav ex_list_call = Inr ex_list_args"
  by (simp add: parse_list_events_args_def object_required_def required_string_def rfc3339_arg_def trimmed_arg_def
      ex_list_call_def ex_call_def ex_list_args_def ex_dav_def jget_str_def ex_trim unwrap_or_def)

definition ex_client :: caldav_client where
  "ex_client = \<lparr>cl_egress = build_egress ex_dav_config,
     cl_base = \<lparr>pu_text = ''https://h/'', pu_scheme = ''https'', pu_host = Some ''h'', pu_port_or_known_default = Some 443\<rparr>,
     cl_auth = \<lparr>ba_username = ''u'', ba_password = ''p''\<rparr>\<rparr>"

lemma ex_client_built: "build_client ex_dav ex_dav_config ex_vault = Inr ex_client"
  by (simp add: build_client_def required_secret_def ex_vault_def ex_dav_def ex_dav_parse_def ex_client_def)

lemma ex_list_client: "build_list_client ex_dav ex_dav_config ex_vault ''https://h:8443/'' = Inr ex_client"
  by (simp add: build_list_client_def ex_client_built) (simp add: ex_dav_def ex_dav_parse_def ex_client_def)

definition ex_port_request :: "string \<Rightarrow> dav_request" where
  "ex_port_request query =
     \<lparr>rq_method = ''REPORT'', rq_url = ''https://h:8443/'', rq_authorization = Some ''Basic u:p'', rq_body = query\<rparr>"

lemma ex_validate:
  "egress_validate (dv_net ex_dav) (build_egress ex_dav_config) ''https://h:8443/'' =
     Inr \<lparr>vo_url = \<lparr>pu_text = ''https://h:8443/'', pu_scheme = ''https'', pu_host = Some ''h'', pu_port_or_known_default = Some 8443\<rparr>,
          vo_host = ''h'', vo_addresses = [(V4 (IPv4 203 0 113 5), 8443)]\<rparr>"
proof -
  have "host_matches_allowlist ''h'' [''h'']"
    by (simp add: host_matches_allowlist_def entry_matches_def to_ascii_lowercase_def ascii_lower_def byte_def)
  then show ?thesis
    by (simp add: egress_validate_def ex_dav_def ex_dav_parse_def build_egress_def ex_dav_config_def egress_finalize_def Let_def)
qed

lemma ex_empty_report: "extract_events_from_multistatus c u [] b = Returned []"
  by (simp add: extract_events_from_multistatus_def for_elements.simps find_open_tag_def next_open_tag_at.simps to_ascii_lowercase_def)

text \<open>The credentials reach another port of the host: only the scheme and the host are compared.\<close>

lemma list_other_port:
  "list_events_invoke ex_dav ex_dav_config ex_vault ex_list_call =
     ([ex_port_request (build_calendar_query_body ex_cal 1735787045000000000 1735787046000000000)], Returned (Inr []))"
proof -
  let ?q = "build_calendar_query_body ex_cal 1735787045000000000 1735787046000000000"
  have "report ex_dav ex_client ''https://h:8443/'' ?q = ([ex_port_request ?q], Inr [])"
    using ex_validate
    by (simp add: report_def dav_query_def ex_client_def ex_port_request_def header_value_def)
       (simp add: ex_dav_def)
  moreover have "dv_cal ex_dav = ex_cal" by (simp add: ex_dav_def)
  moreover have "utf8_or_empty [] = []" by (simp add: utf8_or_empty_def)
  moreover have "envelope ex_dav v = []" for v by (simp add: envelope_def ex_dav_def)
  ultimately show ?thesis
    by (simp add: list_events_invoke_def ex_list_parsed ex_list_args_def ex_list_client ex_empty_report and_then_def)
qed

lemma list_stays_on_server_witness:
  "listing_request ex_dav ex_dav_config ex_vault ex_list_args
     (ex_port_request (build_calendar_query_body ex_cal 1735787045000000000 1735787046000000000))"
  using list_stays_on_server [OF ex_reparses list_other_port] by (simp add: ex_list_parsed)

lemma list_capped_witness: "\<exists>req. parse_list_events_args ex_dav ex_list_call = Inr req"
  using list_capped [OF list_other_port] by blast

definition ex_create_call :: json where
  "ex_create_call = ex_call [(''summary'', ''Lunch''), (''start'', ''t0'')]"

definition ex_create_args :: event_patch where
  "ex_create_args = \<lparr>ep_summary = ''Lunch'', ep_start = 1735787045000000000, ep_end = None, ep_description = None, ep_location = None\<rparr>"

lemma ex_create_parsed: "parse_create_args ex_dav ex_create_call = Inr ex_create_args"
  by (simp add: parse_create_args_def object_required_def nonempty_arg_def required_string_def rfc3339_arg_def trimmed_arg_def
      ex_create_call_def ex_call_def ex_create_args_def ex_dav_def jget_str_def ex_trim)

lemma create_args_valid_witness:
  "ep_summary ex_create_args = ''Lunch'' \<and> ep_end ex_create_args = None \<and> ep_location ex_create_args = None"
  using create_args_valid [OF ex_create_parsed] by (simp add: ex_create_call_def ex_call_def jget_str_def ex_trim)

text \<open>Without an allow-list the addresses accepted are the public ones.\<close>

lemma empty_allowlist_public:
  assumes "dc_allowlist cfg = []" and "egress_validate net (build_egress cfg) url = Inr ok"
  shows "\<forall>(a, p) \<in> set (vo_addresses ok). is_addr_allowed a True"
  using assms
  by (auto simp: egress_validate_def build_egress_def egress_finalize_def Let_def find_None_iff
      split: sum.splits if_splits option.splits list.splits)

definition ex_input :: dav_input where
  "ex_input = \<lparr>di_now = 1735787045123456789, di_nanos = None, di_random = [7]\<rparr>"

abbreviation ex_body :: string where
  "ex_body \<equiv> to_ical ex_cal 1735787045123456789 None [7] ex_create_args"

definition ex_put :: dav_request where
  "ex_put = \<lparr>rq_method = ''PUT'', rq_url = ''https://h/'', rq_authorization = Some ''Basic u:p'', rq_body = ex_body\<rparr>"

lemma ex_plain: "printable_instant ex_cal 1735787045000000000" "printable_instant ex_cal 1735787045123456789"
  and ex_hour: "hour_laws ex_cal (whole_second 1735787045000000000) 3600000000000"
  by (simp_all add: printable_instant_def whole_second_def ex_cal_def is_ascii_alphanumeric_def byte_def hour_laws_def)

lemma ex_create_run: "\<exists>r. create_event_invoke ex_dav ex_dav_config ex_vault ex_input ex_create_call = ([ex_put], r)"
proof -
  have cal: "dv_cal ex_dav = ex_cal" by (simp add: ex_dav_def)
  have uid: "uid_line ex_body = Some (fresh_uid None [7])"
    by (rule uid_of_written) (simp_all add: ex_plain ex_create_args_def)
  have joined: "dv_join ex_dav a b = Inr ''https://h/''" for a b by (simp add: ex_dav_def)
  have sent: "dv_send ex_dav rq = Inr \<lparr>rs_status = 207, rs_body = Inr [], rs_text = None\<rparr>" for rq by (simp add: ex_dav_def)
  have header: "header_value ex_dav \<lparr>ba_username = ''u'', ba_password = ''p''\<rparr> = ''Basic u:p''"
    by (simp add: header_value_def ex_dav_def)
  have allowed: "host_matches_allowlist ''h'' [''h'']"
    by (simp add: host_matches_allowlist_def entry_matches_def to_ascii_lowercase_def ascii_lower_def byte_def)
  have "egress_validate (dv_net ex_dav) (build_egress ex_dav_config) ''https://h/'' =
     Inr \<lparr>vo_url = \<lparr>pu_text = ''https://h/'', pu_scheme = ''https'', pu_host = Some ''h'', pu_port_or_known_default = Some 443\<rparr>,
          vo_host = ''h'', vo_addresses = [(V4 (IPv4 203 0 113 5), 443)]\<rparr>"
    using allowed
    by (simp add: egress_validate_def ex_dav_def ex_dav_parse_def build_egress_def ex_dav_config_def egress_finalize_def Let_def)
  then have "fst (dav_put ex_dav ex_client stem ex_body) = [ex_put]" for stem
    using joined header sent by (simp add: dav_put_def ex_client_def ex_put_def is_success_def)
  then obtain r where "dav_put ex_dav ex_client (fresh_uid None [7] @ ''.ics'') ex_body = ([ex_put], r)"
    by (metis prod.collapse)
  then show ?thesis
    by (cases r) (simp_all add: create_event_invoke_def ex_create_parsed ex_client_built cal ex_input_def uid Let_def)
qed

lemma created_event_readable_witness:
  "parse_vevent ex_cal (rq_body ex_put) [] =
     Returned (Inr \<lparr>evt_uid = fresh_uid None [7], evt_href = [], evt_summary = ''Lunch'', evt_start = 1735787045000000000,
       evt_end = Some 1735790645000000000, evt_description = None, evt_location = None, evt_rrule = None\<rparr>)"
proof -
  have cal: "dv_cal ex_dav = ex_cal" by (simp add: ex_dav_def)
  obtain r where "create_event_invoke ex_dav ex_dav_config ex_vault ex_input ex_create_call = ([ex_put], r)"
    using ex_create_run by blast
  from created_event_readable [OF this _ ex_create_parsed, of 3600000000000 "[]"] show ?thesis
    using ex_plain ex_hour
    by (simp add: cal ex_input_def ex_create_args_def without_cr_def written_text_def unwrap_or_def whole_second_def)
qed

end
