(* ===== verification/Blocking_Pool.thy ===== *)
theory Blocking_Pool
  imports Prelude
begin

text \<open>
  \<open>run_bounded\<close> of \<open>nagent-support/src/cpu.rs\<close>: callers that share one semaphore of permits and,
  when configured, a queue gate and a wait timeout. The function is split at its \<open>await\<close> points
  and every caller has a control point; a step moves one caller, the clock, or closes the
  semaphore, in any order. The semaphores of the tokio runtime are their documented counters: an
  acquisition takes a free permit and an owned permit gives it back when it is dropped, also by a
  panic or by a caller that goes away. The semaphore is fair, as tokio documents it: \<open>line\<close> holds the
  waiting callers in the order of their requests and a free permit goes to the first of them. The
  gate and the request follow each other without an \<open>await\<close> and are one step.
\<close>

section \<open>Configuration and errors\<close>

datatype run_error = Closed | Join | QueueFull nat | QueueTimeout duration

record bounded_config =
  bc_queue :: "nat option"
  bc_timeout :: "duration option"

definition unbounded :: bounded_config where
  "unbounded = \<lparr>bc_queue = None, bc_timeout = None\<rparr>"

definition with_queue :: "nat \<Rightarrow> bounded_config" where
  "with_queue n = \<lparr>bc_queue = Some n, bc_timeout = None\<rparr>"

definition with_queue_and_timeout :: "nat \<Rightarrow> duration \<Rightarrow> bounded_config" where
  "with_queue_and_timeout n d = \<lparr>bc_queue = Some n, bc_timeout = Some d\<rparr>"

section \<open>State\<close>

text \<open>
  \<open>Waiting\<close> holds the queue slot, \<open>Granted\<close> the slot and a permit, \<open>Running\<close> a permit; \<open>Detached\<close>
  is the closure of a caller that went away, which still holds its permit.
\<close>

datatype 'r caller =
    Fresh | Waiting instant | Granted | Running | Detached | Finished "run_error + 'r" | Dropped

record 'r pool =
  permits :: nat
  slots :: nat
  shut :: bool
  clock :: instant
  callers :: "'r caller list"
  line :: "nat list"

abbreviation at :: "'r pool \<Rightarrow> nat \<Rightarrow> 'r caller \<Rightarrow> bool" where
  "at s i c \<equiv> i < length (callers s) \<and> callers s ! i = c"

definition goto :: "nat \<Rightarrow> 'r caller \<Rightarrow> 'r pool \<Rightarrow> 'r pool" where
  "goto i c s = s\<lparr>callers := (callers s)[i := c]\<rparr>"

text \<open>The gate: one try, and the caller is refused when no slot is free.\<close>

definition queue_gate :: "bounded_config \<Rightarrow> 'r pool \<Rightarrow> run_error + 'r pool" where
  "queue_gate cfg s =
     (case bc_queue cfg of
        Some n \<Rightarrow> if slots s = 0 then Inl (QueueFull n) else Inr (s\<lparr>slots := slots s - 1\<rparr>)
      | None \<Rightarrow> Inr s)"

definition drop_slot :: "bounded_config \<Rightarrow> 'r pool \<Rightarrow> 'r pool" where
  "drop_slot cfg s = (if bc_queue cfg = None then s else s\<lparr>slots := slots s + 1\<rparr>)"

definition drop_permit :: "'r pool \<Rightarrow> 'r pool" where
  "drop_permit s = s\<lparr>permits := permits s + 1\<rparr>"

definition join_line :: "nat \<Rightarrow> 'r pool \<Rightarrow> 'r pool" where
  "join_line i s = s\<lparr>line := line s @ [i]\<rparr>"

definition leave_line :: "nat \<Rightarrow> 'r pool \<Rightarrow> 'r pool" where
  "leave_line i s = s\<lparr>line := removeAll i (line s)\<rparr>"

definition take_permit :: "'r pool \<Rightarrow> 'r pool" where
  "take_permit s = s\<lparr>permits := permits s - 1\<rparr>"

section \<open>Steps\<close>

inductive run_step :: "bounded_config \<Rightarrow> 'r pool \<Rightarrow> 'r pool \<Rightarrow> bool" for cfg where
  refused: "at s i Fresh \<Longrightarrow> queue_gate cfg s = Inl e \<Longrightarrow> run_step cfg s (goto i (Finished (Inl e)) s)"
| enter: "at s i Fresh \<Longrightarrow> queue_gate cfg s = Inr s' \<Longrightarrow> run_step cfg s (goto i (Waiting (clock s)) (join_line i s'))"
| grant: "at s i (Waiting t) \<Longrightarrow> \<not> shut s \<Longrightarrow> 0 < permits s \<Longrightarrow> line s = i # rest \<Longrightarrow>
    run_step cfg s (goto i Granted (leave_line i (take_permit s)))"
| closed: "at s i (Waiting t) \<Longrightarrow> shut s \<Longrightarrow>
    run_step cfg s (goto i (Finished (Inl Closed)) (leave_line i (drop_slot cfg s)))"
| elapsed: "at s i (Waiting t) \<Longrightarrow> bc_timeout cfg = Some d \<Longrightarrow> t + d \<le> clock s \<Longrightarrow>
    run_step cfg s (goto i (Finished (Inl (QueueTimeout d))) (leave_line i (drop_slot cfg s)))"
| spawn: "at s i Granted \<Longrightarrow> run_step cfg s (goto i Running (drop_slot cfg s))"
| returned: "at s i Running \<Longrightarrow> run_step cfg s (goto i (Finished (Inr r)) (drop_permit s))"
| panicked: "at s i Running \<Longrightarrow> run_step cfg s (goto i (Finished (Inl Join)) (drop_permit s))"
| cancel_wait: "at s i (Waiting t) \<Longrightarrow> run_step cfg s (goto i Dropped (leave_line i (drop_slot cfg s)))"
| cancel_granted: "at s i Granted \<Longrightarrow> run_step cfg s (goto i Dropped (drop_slot cfg (drop_permit s)))"
| cancel_run: "at s i Running \<Longrightarrow> run_step cfg s (goto i Detached s)"
| detached_end: "at s i Detached \<Longrightarrow> run_step cfg s (goto i Dropped (drop_permit s))"
| close: "run_step cfg s (s\<lparr>shut := True\<rparr>)"
| tick: "clock s \<le> now \<Longrightarrow> run_step cfg s (s\<lparr>clock := now\<rparr>)"

definition pool_init :: "bounded_config \<Rightarrow> nat \<Rightarrow> nat \<Rightarrow> 'r pool" where
  "pool_init cfg cap n =
     \<lparr>permits = cap, slots = (case bc_queue cfg of Some q \<Rightarrow> q | None \<Rightarrow> 0), shut = False, clock = 0,
      callers = replicate n Fresh, line = []\<rparr>"

inductive run_reachable :: "bounded_config \<Rightarrow> 'r pool \<Rightarrow> 'r pool \<Rightarrow> bool" for cfg s0 where
  start: "run_reachable cfg s0 s0"
| step: "run_reachable cfg s0 s \<Longrightarrow> run_step cfg s s' \<Longrightarrow> run_reachable cfg s0 s'"

section \<open>Permits and slots are accounted for\<close>

fun holds_permit :: "'r caller \<Rightarrow> bool" where
  "holds_permit Granted = True"
| "holds_permit Running = True"
| "holds_permit Detached = True"
| "holds_permit _ = False"

fun holds_slot :: "'r caller \<Rightarrow> bool" where
  "holds_slot (Waiting t) = True"
| "holds_slot Granted = True"
| "holds_slot _ = False"

definition holding :: "('r caller \<Rightarrow> bool) \<Rightarrow> 'r pool \<Rightarrow> nat" where
  "holding P s = length (filter P (callers s))"

lemma holding_goto:
  assumes "i < length (callers s)"
  shows "holding P (goto i c s) + (if P (callers s ! i) then 1 else 0) = holding P s + (if P c then 1 else 0)"
proof -
  have split: "callers s = take i (callers s) @ callers s ! i # drop (Suc i) (callers s)"
    using assms by (simp add: id_take_nth_drop)
  have "filter P (callers s) = filter P (take i (callers s)) @ filter P (callers s ! i # drop (Suc i) (callers s))"
    by (subst split) simp
  moreover have "filter P ((callers s)[i := c]) = filter P (take i (callers s)) @ filter P (c # drop (Suc i) (callers s))"
    using assms by (simp add: upd_conv_take_nth_drop)
  ultimately show ?thesis by (simp add: holding_def goto_def)
qed

lemma holding_frame [simp]:
  "holding P (s\<lparr>permits := p\<rparr>) = holding P s" "holding P (s\<lparr>slots := q\<rparr>) = holding P s"
  "holding P (s\<lparr>shut := b\<rparr>) = holding P s" "holding P (s\<lparr>clock := t\<rparr>) = holding P s"
  "holding P (drop_slot cfg s) = holding P s" "holding P (drop_permit s) = holding P s"
  "holding P (join_line i s) = holding P s" "holding P (leave_line i s) = holding P s" "holding P (take_permit s) = holding P s"
  by (simp_all add: holding_def drop_slot_def drop_permit_def join_line_def leave_line_def take_permit_def)

lemma goto_frame [simp]:
  "permits (goto i c s) = permits s" "slots (goto i c s) = slots s"
  "shut (goto i c s) = shut s" "clock (goto i c s) = clock s"
  "line (goto i c s) = line s" "length (callers (goto i c s)) = length (callers s)"
  by (simp_all add: goto_def)

lemma line_frame [simp]:
  "callers (join_line i s) = callers s" "permits (join_line i s) = permits s" "slots (join_line i s) = slots s"
  "shut (join_line i s) = shut s" "clock (join_line i s) = clock s" "line (join_line i s) = line s @ [i]"
  "callers (leave_line i s) = callers s" "permits (leave_line i s) = permits s" "slots (leave_line i s) = slots s"
  "shut (leave_line i s) = shut s" "clock (leave_line i s) = clock s" "line (leave_line i s) = removeAll i (line s)"
  "callers (take_permit s) = callers s" "permits (take_permit s) = permits s - 1" "slots (take_permit s) = slots s"
  "shut (take_permit s) = shut s" "clock (take_permit s) = clock s" "line (take_permit s) = line s"
  "shut (drop_slot cfg s) = shut s" "shut (drop_permit s) = shut s" "line (drop_slot cfg s) = line s" "line (drop_permit s) = line s"
  "clock (drop_slot cfg s) = clock s" "clock (drop_permit s) = clock s"
  by (simp_all add: join_line_def leave_line_def take_permit_def drop_slot_def drop_permit_def)

lemma drop_frame [simp]:
  "callers (drop_slot cfg s) = callers s" "callers (drop_permit s) = callers s"
  "permits (drop_slot cfg s) = permits s" "slots (drop_permit s) = slots s"
  "permits (drop_permit s) = permits s + 1"
  "slots (drop_slot cfg s) = (if bc_queue cfg = None then slots s else slots s + 1)"
  by (simp_all add: drop_slot_def drop_permit_def)

definition accounted :: "bounded_config \<Rightarrow> nat \<Rightarrow> 'r pool \<Rightarrow> bool" where
  "accounted cfg cap s \<longleftrightarrow>
     permits s + holding holds_permit s = cap
     \<and> (case bc_queue cfg of Some q \<Rightarrow> slots s + holding holds_slot s = q | None \<Rightarrow> True)"

lemma queue_gate_Inr:
  "queue_gate cfg s = Inr s' \<Longrightarrow>
   s' = (if bc_queue cfg = None then s else s\<lparr>slots := slots s - 1\<rparr>) \<and> (bc_queue cfg \<noteq> None \<longrightarrow> 0 < slots s)"
  by (auto simp: queue_gate_def split: option.splits if_splits)

lemma accounted_move:
  assumes "accounted cfg cap s" and "i < length (callers s)" and "callers s' = callers s"
    and "permits s' + (if holds_permit c then 1 else 0) = permits s + (if holds_permit (callers s ! i) then 1 else 0)"
    and "bc_queue cfg \<noteq> None \<Longrightarrow>
         slots s' + (if holds_slot c then 1 else 0) = slots s + (if holds_slot (callers s ! i) then 1 else 0)"
  shows "accounted cfg cap (goto i c s')"
proof -
  have "holding P s' = holding P s" for P using assms(3) by (simp add: holding_def)
  moreover note holding_goto [of i s' holds_permit c] holding_goto [of i s' holds_slot c]
  ultimately show ?thesis
    using assms by (auto simp: accounted_def split: option.splits if_splits)
qed

lemma run_step_accounted:
  assumes "run_step cfg s s'" and "accounted cfg cap s"
  shows "accounted cfg cap s'"
  using assms
proof (induction rule: run_step.induct)
  case (refused s i e)
  then show ?case by (intro accounted_move) auto
next
  case (enter s i s')
  then show ?case by (intro accounted_move [of cfg cap s]) (auto dest!: queue_gate_Inr split: if_splits)
next
  case (close s)
  then show ?case by (simp add: accounted_def split: option.splits)
next
  case (tick s now)
  then show ?case by (simp add: accounted_def split: option.splits)
qed (erule accounted_move; auto)+

lemma accounted_init: "accounted cfg cap (pool_init cfg cap n)"
  by (simp add: accounted_def pool_init_def holding_def split: option.splits)

lemma reachable_accounted: "run_reachable cfg (pool_init cfg cap n) s \<Longrightarrow> accounted cfg cap s"
  by (induction rule: run_reachable.induct) (auto intro: accounted_init run_step_accounted)


section \<open>What the pool guarantees\<close>

text \<open>
  C9: In every reachable state the closures that run are at most the permits and the callers that
  wait at most the slots; a permit or a slot is held by exactly one caller or free, so that no
  error, panic or disconnection loses one.
\<close>

theorem pool_bounded:
  assumes "run_reachable cfg (pool_init cfg cap n) s"
  shows "holding holds_permit s \<le> cap
         \<and> permits s = cap - holding holds_permit s
         \<and> (case bc_queue cfg of Some q \<Rightarrow> holding holds_slot s \<le> q \<and> slots s = q - holding holds_slot s | None \<Rightarrow> True)"
  using reachable_accounted [OF assms] by (auto simp: accounted_def split: option.splits)

text \<open>
  A caller is refused at the gate exactly when a queue is configured and as many callers hold
  a slot as it has; the error carries the configured number.
\<close>

theorem queue_full_exact:
  assumes "run_reachable cfg (pool_init cfg cap n) s"
  shows "queue_gate cfg s = Inl e \<longleftrightarrow> (\<exists>q. bc_queue cfg = Some q \<and> holding holds_slot s = q \<and> e = QueueFull q)"
  using reachable_accounted [OF assms] by (auto simp: accounted_def queue_gate_def split: option.splits)

section \<open>Waiters are served in order\<close>

fun is_waiting :: "'r caller \<Rightarrow> bool" where
  "is_waiting (Waiting t) = True"
| "is_waiting _ = False"

lemma is_waiting_iff: "is_waiting c \<longleftrightarrow> (\<exists>t. c = Waiting t)"
  by (cases c) simp_all

text \<open>The line holds the waiting callers, each once.\<close>

definition line_ok :: "'r pool \<Rightarrow> bool" where
  "line_ok s \<longleftrightarrow> distinct (line s)
     \<and> (\<forall>i. i \<in> set (line s) \<longleftrightarrow> i < length (callers s) \<and> is_waiting (callers s ! i))"

lemma goto_at [simp]: "i < length (callers s) \<Longrightarrow> callers (goto i c s) ! j = (if j = i then c else callers s ! j)"
  by (simp add: goto_def nth_list_update)

lemma queue_gate_fields:
  "queue_gate cfg s = Inr s' \<Longrightarrow> callers s' = callers s \<and> line s' = line s \<and> shut s' = shut s \<and> clock s' = clock s"
  using queue_gate_Inr [of cfg s s'] by (simp split: if_splits)

lemma ok_move:
  "line_ok s \<Longrightarrow> i < length (callers s) \<Longrightarrow> callers s' = callers s \<Longrightarrow> line s' = line s \<Longrightarrow> is_waiting c = is_waiting (callers s ! i)
     \<Longrightarrow> line_ok (goto i c s')"
  by (simp add: line_ok_def)

lemma ok_leave:
  "line_ok s \<Longrightarrow> i < length (callers s) \<Longrightarrow> callers s' = callers s \<Longrightarrow> line s' = line s \<Longrightarrow> \<not> is_waiting c
     \<Longrightarrow> line_ok (goto i c (leave_line i s'))"
  by (simp add: line_ok_def distinct_removeAll)

lemma ok_join:
  "line_ok s \<Longrightarrow> i < length (callers s) \<Longrightarrow> callers s' = callers s \<Longrightarrow> line s' = line s \<Longrightarrow> \<not> is_waiting (callers s ! i)
     \<Longrightarrow> is_waiting c \<Longrightarrow> line_ok (goto i c (join_line i s'))"
  by (simp add: line_ok_def)

lemma line_ok_step: "run_step cfg s s' \<Longrightarrow> line_ok s \<Longrightarrow> line_ok s'"
proof (induction rule: run_step.induct)
  case (enter s i s')
  then show ?case using queue_gate_fields [OF enter(2)] by (intro ok_join [of s]) simp_all
next
  case (close s)
  then show ?case by (simp add: line_ok_def)
next
  case (tick s now)
  then show ?case by (simp add: line_ok_def)
next
  case (grant s i t rest)
  then show ?case by (intro ok_leave [of s]) simp_all
next
  case (closed s i t)
  then show ?case by (intro ok_leave [of s]) simp_all
next
  case (elapsed s i t d)
  then show ?case by (intro ok_leave [of s]) simp_all
next
  case (cancel_wait s i t)
  then show ?case by (intro ok_leave [of s]) simp_all
next
  case (refused s i e)
  then show ?case by (intro ok_move [of s]) simp_all
next
  case (spawn s i)
  then show ?case by (intro ok_move [of s]) simp_all
next
  case (returned s i r)
  then show ?case by (intro ok_move [of s]) simp_all
next
  case (panicked s i)
  then show ?case by (intro ok_move [of s]) simp_all
next
  case (cancel_granted s i)
  then show ?case by (intro ok_move [of s]) simp_all
next
  case (cancel_run s i)
  then show ?case by (intro ok_move [of s]) simp_all
next
  case (detached_end s i)
  then show ?case by (intro ok_move [of s]) simp_all
qed

lemma reachable_line_ok: "run_reachable cfg (pool_init cfg cap n) s \<Longrightarrow> line_ok s"
proof (induction rule: run_reachable.induct)
  case start
  show ?case by (simp add: line_ok_def pool_init_def)
next
  case (step s s')
  then show ?case by (blast intro: line_ok_step)
qed

text \<open>The callers a step grants a permit, and those a run grants one, in order.\<close>

definition granted :: "'r pool \<Rightarrow> 'r pool \<Rightarrow> nat list" where
  "granted s s' = filter (\<lambda>i. is_waiting (callers s ! i) \<and> callers s' ! i = Granted) [0..<length (callers s)]"

inductive run_trace :: "bounded_config \<Rightarrow> 'r pool \<Rightarrow> nat list \<Rightarrow> 'r pool \<Rightarrow> bool" for cfg s where
  trace_start: "run_trace cfg s [] s"
| trace_step: "run_trace cfg s gs s1 \<Longrightarrow> run_step cfg s1 s2 \<Longrightarrow> run_trace cfg s (gs @ granted s1 s2) s2"

lemma filter_one: "i < n \<Longrightarrow> filter (\<lambda>j. j = i) [0..<n] = [i]"
  by (induction n) (auto simp: less_Suc_eq)

lemma granted_goto:
  assumes "i < length (callers s)" "callers s' = callers s"
  shows "granted s (goto i c s') = (if is_waiting (callers s ! i) \<and> c = Granted then [i] else [])"
proof -
  have "granted s (goto i c s') = filter (\<lambda>j. is_waiting (callers s ! i) \<and> c = Granted \<and> j = i) [0..<length (callers s)]"
    unfolding granted_def using assms by (intro filter_cong) auto
  then show ?thesis using filter_one [OF assms(1)] by (cases "is_waiting (callers s ! i) \<and> c = Granted") auto
qed

lemma granted_same: "callers s' = callers s \<Longrightarrow> granted s s' = []"
  by (auto simp: granted_def filter_empty_conv)

text \<open>What a step does to the line.\<close>

definition line_step :: "'r pool \<Rightarrow> 'r pool \<Rightarrow> bool" where
  "line_step s s' \<longleftrightarrow> (\<exists>i. line s = i # line s' \<and> granted s s' = [i])
     \<or> granted s s' = [] \<and> ((\<exists>i. line s' = line s @ [i] \<and> at s i Fresh) \<or> (\<exists>P. line s' = filter P (line s)))"

lemma line_keep: "granted s s' = [] \<Longrightarrow> line s' = line s \<Longrightarrow> line_step s s'"
  unfolding line_step_def by (intro disjI2 conjI exI [of _ "\<lambda>_. True"]) simp_all

lemma line_move:
  "i < length (callers s) \<Longrightarrow> callers s' = callers s \<Longrightarrow> line s' = line s \<Longrightarrow> c \<noteq> Granted \<Longrightarrow> line_step s (goto i c s')"
  by (rule line_keep) (simp_all add: granted_goto)

lemma line_leave:
  "i < length (callers s) \<Longrightarrow> callers s' = callers s \<Longrightarrow> line s' = line s \<Longrightarrow> c \<noteq> Granted \<Longrightarrow> line_step s (goto i c (leave_line i s'))"
  unfolding line_step_def
  by (intro disjI2 conjI exI [of _ "\<lambda>j. j \<noteq> i"]) (simp_all add: granted_goto removeAll_filter_not_eq eq_commute)

lemma step_line:
  assumes "run_step cfg s s'" "line_ok s"
  shows "line_step s s'"
  using assms
proof (induction rule: run_step.induct)
  case (grant s i t rest)
  then have "removeAll i (line s) = rest" by (simp add: line_ok_def)
  then show ?case using grant by (simp add: line_step_def granted_goto)
next
  case (enter s i s')
  then show ?case using queue_gate_fields [OF enter(2)] by (simp add: line_step_def granted_goto)
next
  case (close s)
  then show ?case by (simp add: line_keep granted_same)
next
  case (tick s now)
  then show ?case by (simp add: line_keep granted_same)
next
  case (closed s i t)
  then show ?case by (intro line_leave) simp_all
next
  case (elapsed s i t d)
  then show ?case by (intro line_leave) simp_all
next
  case (cancel_wait s i t)
  then show ?case by (intro line_leave) simp_all
next
  case (refused s i e)
  then show ?case by (intro line_move) simp_all
next
  case (spawn s i)
  then show ?case by (intro line_move) simp_all
next
  case (returned s i r)
  then show ?case by (intro line_move) simp_all
next
  case (panicked s i)
  then show ?case by (intro line_move) simp_all
next
  case (cancel_granted s i)
  then show ?case by (intro line_move) simp_all
next
  case (cancel_run s i)
  then show ?case by (intro line_move) simp_all
next
  case (detached_end s i)
  then show ?case by (intro line_move) simp_all
qed

lemma step_fresh: "run_step cfg s s' \<Longrightarrow> length (callers s') = length (callers s) \<and> (callers s ! j \<noteq> Fresh \<longrightarrow> callers s' ! j \<noteq> Fresh)"
  by (induction rule: run_step.induct) (auto dest!: queue_gate_fields split: if_splits)

lemma no_overtaking:
  assumes "run_trace cfg s gs t" "line_ok s" "line s = xs @ i # ys"
  shows "line_ok t \<and> callers t ! i \<noteq> Fresh
     \<and> (i \<in> set (line t) \<longrightarrow> set gs \<subseteq> set xs \<and> (\<exists>P zs. line t = filter P xs @ i # zs))"
  using assms(1)
proof (induction rule: run_trace.induct)
  case trace_start
  have "i \<in> set (line s)" using assms(3) by simp
  then have "is_waiting (callers s ! i)" using assms(2) unfolding line_ok_def by blast
  then have "callers s ! i \<noteq> Fresh" by (auto simp: is_waiting_iff)
  moreover have "line s = filter (\<lambda>_. True) xs @ i # ys" using assms(3) by simp
  ultimately show ?case using assms(2) by (metis empty_subsetI list.set(1))
next
  case (trace_step gs s1 s2)
  note ok = line_ok_step [OF trace_step(2)] step_fresh [OF trace_step(2), of i]
  show ?case
  proof (intro conjI impI)
    assume mem: "i \<in> set (line s2)"
    from step_line [OF trace_step(2)] trace_step(3) have l: "line_step s1 s2" by blast
    have "callers s1 ! i \<noteq> Fresh" using trace_step(3) by blast
    with l mem have "i \<in> set (line s1)" by (auto simp: line_step_def)
    then obtain P zs where h: "set gs \<subseteq> set xs" "line s1 = filter P xs @ i # zs" using trace_step(3) by blast
    have d: "distinct (line s1)" using trace_step(3) by (simp add: line_ok_def)
    from l consider j where "line s1 = j # line s2" "granted s1 s2 = [j]"
      | j where "granted s1 s2 = []" "line s2 = line s1 @ [j]"
      | Q where "granted s1 s2 = []" "line s2 = filter Q (line s1)"
      unfolding line_step_def by blast
    then have "set (granted s1 s2) \<subseteq> set xs \<and> (\<exists>P zs. line s2 = filter P xs @ i # zs)"
    proof cases
      case 1
      then obtain ws where ws: "filter P xs = j # ws" using h(2) mem d by (cases "filter P xs") auto
      then have "line s2 = ws @ i # zs" "j \<in> set xs" using 1(1) h(2) by (simp_all, metis filter_is_subset list.set_intros(1) subsetD ws)
      moreover have "ws = filter (\<lambda>x. P x \<and> x \<noteq> j) xs"
      proof -
        have "distinct (j # ws)" using d h(2) ws by simp
        then have "filter (\<lambda>x. x \<noteq> j) ws = ws" by (auto simp: filter_id_conv)
        then have "ws = filter (\<lambda>x. x \<noteq> j) (filter P xs)" using ws by simp
        then show ?thesis by simp
      qed
      ultimately show ?thesis using 1(2) by auto
    next
      case 2
      then show ?thesis using h(2) by auto
    next
      case (3 Q)
      have "Q i" using mem 3(2) by simp
      then have "line s2 = filter (\<lambda>x. P x \<and> Q x) xs @ i # filter Q zs" using 3(2) h(2) by simp
      then show ?thesis using 3(1) by auto
    qed
    then show "set (gs @ granted s1 s2) \<subseteq> set xs" "\<exists>P zs. line s2 = filter P xs @ i # zs" using h(1) by auto
  qed (use ok trace_step(3) in auto)
qed

text \<open>The steps of the pool itself: nobody arrives, goes away or times out.\<close>

inductive work_step :: "bounded_config \<Rightarrow> 'r pool \<Rightarrow> 'r pool \<Rightarrow> bool" for cfg where
  work_grant: "at s i (Waiting t) \<Longrightarrow> \<not> shut s \<Longrightarrow> 0 < permits s \<Longrightarrow> line s = i # rest \<Longrightarrow>
    work_step cfg s (goto i Granted (leave_line i (take_permit s)))"
| work_spawn: "at s i Granted \<Longrightarrow> work_step cfg s (goto i Running (drop_slot cfg s))"
| work_returned: "at s i Running \<Longrightarrow> work_step cfg s (goto i (Finished (Inr r)) (drop_permit s))"
| work_panicked: "at s i Running \<Longrightarrow> work_step cfg s (goto i (Finished (Inl Join)) (drop_permit s))"
| work_detached: "at s i Detached \<Longrightarrow> work_step cfg s (goto i Dropped (drop_permit s))"

inductive work_run :: "bounded_config \<Rightarrow> 'r pool \<Rightarrow> nat \<Rightarrow> nat list \<Rightarrow> 'r pool \<Rightarrow> bool" for cfg s where
  work_start: "work_run cfg s 0 [] s"
| work_more: "work_run cfg s k gs s1 \<Longrightarrow> work_step cfg s1 s2 \<Longrightarrow> work_run cfg s (Suc k) (gs @ granted s1 s2) s2"

fun stages :: "'r caller \<Rightarrow> nat" where
  "stages (Waiting t) = 3"
| "stages Granted = 2"
| "stages Running = 1"
| "stages Detached = 1"
| "stages _ = 0"

definition work_left :: "'r pool \<Rightarrow> nat" where
  "work_left s = sum_list (map stages (callers s))"

lemma work_is_run: "work_step cfg s s' \<Longrightarrow> run_step cfg s s'"
  by (induction rule: work_step.induct) (auto intro: run_step.intros)

lemma work_left_goto:
  "i < length (callers s) \<Longrightarrow> work_left (goto i c s) + stages (callers s ! i) = work_left s + stages c"
  using elem_le_sum_list [of i "map stages (callers s)"]
  by (simp add: work_left_def goto_def map_update sum_list_update)

lemma work_left_frame [simp]:
  "work_left (leave_line i s) = work_left s" "work_left (take_permit s) = work_left s"
  "work_left (drop_slot cfg s) = work_left s" "work_left (drop_permit s) = work_left s"
  by (simp_all add: work_left_def)

lemma work_decreases: "work_step cfg s s' \<Longrightarrow> work_left s' < work_left s"
proof (induction rule: work_step.induct)
  case (work_grant s i t rest)
  then show ?case using work_left_goto [of i "leave_line i (take_permit s)" Granted] by simp
next
  case (work_spawn s i)
  then show ?case using work_left_goto [of i "drop_slot cfg s" Running] by simp
next
  case (work_returned s i r)
  then show ?case using work_left_goto [of i "drop_permit s" "Finished (Inr r)"] by simp
next
  case (work_panicked s i)
  then show ?case using work_left_goto [of i "drop_permit s" "Finished (Inl Join)"] by simp
next
  case (work_detached s i)
  then show ?case using work_left_goto [of i "drop_permit s" Dropped] by simp
qed

lemma work_line: "work_step cfg s s' \<Longrightarrow> line_ok s \<Longrightarrow> line s = granted s s' @ line s' \<and> shut s' = shut s"
proof (induction rule: work_step.induct)
  case (work_grant s i t rest)
  then have "removeAll i (line s) = rest" by (simp add: line_ok_def)
  then show ?case using work_grant by (simp add: granted_goto)
qed (simp_all add: granted_goto)

lemma work_run_line:
  "work_run cfg s k gs s' \<Longrightarrow> line_ok s \<Longrightarrow>
     line_ok s' \<and> line s = gs @ line s' \<and> shut s' = shut s \<and> k + work_left s' \<le> work_left s \<and> run_reachable cfg s s'"
proof (induction rule: work_run.induct)
  case (work_more k gs s1 s2)
  then show ?case using work_decreases [OF work_more(2)] work_line [OF work_more(2)] line_ok_step [OF work_is_run [OF work_more(2)]]
      run_reachable.step [OF _ work_is_run [OF work_more(2)]] by auto
qed (simp add: run_reachable.start)

lemma run_reachable_trans: "run_reachable cfg s t \<Longrightarrow> run_reachable cfg r s \<Longrightarrow> run_reachable cfg r t"
  by (induction rule: run_reachable.induct) (auto intro: run_reachable.intros)

lemma work_left_bound: "work_left s \<le> 3 * length (callers s)"
proof -
  have "stages c \<le> 3" for c :: "'r caller" by (cases c) simp_all
  then have "sum_list (map stages cs) \<le> 3 * length cs" for cs :: "'r caller list"
    by (induction cs) (auto intro: add_mono)
  then show ?thesis by (simp add: work_left_def)
qed

lemma holding_pos: "0 < holding P s \<Longrightarrow> \<exists>i. i < length (callers s) \<and> P (callers s ! i)"
  by (auto simp: holding_def filter_empty_conv in_set_conv_nth)

text \<open>An open pool that can do no work of its own has no waiter.\<close>

lemma idle_no_waiter:
  assumes "accounted cfg cap s" "line_ok s" "\<not> shut s" "0 < cap" "\<And>s'. \<not> work_step cfg s s'"
  shows "line s = []"
proof (rule ccontr)
  assume "line s \<noteq> []"
  then obtain i rest where l: "line s = i # rest" by (cases "line s") auto
  then have "i \<in> set (line s)" by simp
  then obtain t where "at s i (Waiting t)" using assms(2) unfolding line_ok_def is_waiting_iff by blast
  then have "permits s = 0" using work_grant [of i s t rest cfg] l assms(3,5) by auto
  then have "0 < holding holds_permit s" using assms(1,4) by (simp add: accounted_def)
  then obtain j where j: "j < length (callers s)" "holds_permit (callers s ! j)" using holding_pos by blast
  show False using j assms(5) work_spawn [of j s cfg] work_panicked [of j s cfg] work_detached [of j s cfg]
    by (cases "callers s ! j") auto
qed

text \<open>
  C31: Waiters are served in the order of their requests, and all of them are. In every run from a
  reachable state, as long as a caller waits, permits are granted to callers that were ahead of it
  only. In an open pool with at least one permit, any sequence of the pool's own steps (grants,
  starts and ends of closures, panics, ends of abandoned closures) is at most three steps per caller
  long, grants the permits along the line, and where no such step is left every caller that waited
  has been granted one.
\<close>

theorem waiters_served_in_order:
  assumes "run_reachable cfg (pool_init cfg cap n) s"
  shows "(\<forall>i. i \<in> set (line s) \<longleftrightarrow> (\<exists>t. at s i (Waiting t)))
     \<and> (\<forall>gs s' xs i ys. run_trace cfg s gs s' \<and> line s = xs @ i # ys \<and> i \<in> set (line s') \<longrightarrow> set gs \<subseteq> set xs)
     \<and> (\<forall>k gs s'. \<not> shut s \<and> 0 < cap \<and> work_run cfg s k gs s' \<longrightarrow>
          k \<le> 3 * length (callers s) \<and> line s = gs @ line s' \<and> ((\<forall>s''. \<not> work_step cfg s' s'') \<longrightarrow> gs = line s))"
proof (intro conjI allI impI)
  have ok: "line_ok s" by (rule reachable_line_ok [OF assms])
  then show "i \<in> set (line s) \<longleftrightarrow> (\<exists>t. at s i (Waiting t))" for i by (auto simp: line_ok_def is_waiting_iff)
  show "set gs \<subseteq> set xs" if "run_trace cfg s gs s' \<and> line s = xs @ i # ys \<and> i \<in> set (line s')" for gs s' xs i ys
    using no_overtaking [OF _ ok] that by blast
  fix k gs s' assume w: "\<not> shut s \<and> 0 < cap \<and> work_run cfg s k gs s'"
  then have r: "line_ok s'" "line s = gs @ line s'" "\<not> shut s'" "k + work_left s' \<le> work_left s" "run_reachable cfg s s'"
    using work_run_line [OF _ ok] by blast+
  show "k \<le> 3 * length (callers s)" using r(4) work_left_bound [of s] by linarith
  show "line s = gs @ line s'" by (rule r(2))
  assume "\<forall>s''. \<not> work_step cfg s' s''"
  then have "line s' = []"
    using idle_no_waiter [OF reachable_accounted [OF run_reachable_trans [OF r(5) assms]] r(1,3)] w by blast
  then show "gs = line s" using r(2) by simp
qed

text \<open>A caller refused with a free permit: the only slot is held by a caller that has its permit already.\<close>

definition full_with_free_permit :: "unit pool" where
  "full_with_free_permit =
     \<lparr>permits = 1, slots = 0, shut = False, clock = 0, callers = [Granted, Fresh], line = []\<rparr>"

lemma full_with_free_permit_reachable:
  "run_reachable (with_queue 1) (pool_init (with_queue 1) 2 2) full_with_free_permit"
proof -
  let ?c = "with_queue 1" and ?s0 = "pool_init (with_queue 1) 2 2 :: unit pool"
  let ?s1 = "goto 0 (Waiting 0) (join_line 0 (?s0\<lparr>slots := 0\<rparr>))"
  have "run_step ?c ?s0 (goto 0 (Waiting (clock ?s0)) (join_line 0 (?s0\<lparr>slots := 0\<rparr>)))"
    by (rule enter) (auto simp: pool_init_def with_queue_def queue_gate_def)
  then have "run_reachable ?c ?s0 ?s1" by (auto intro: run_reachable.intros simp: pool_init_def)
  moreover have "run_step ?c ?s1 (goto 0 Granted (leave_line 0 (take_permit ?s1)))"
    by (rule grant [where t = 0 and rest = "[]"]) (auto simp: goto_def pool_init_def)
  ultimately have "run_reachable ?c ?s0 (goto 0 Granted (leave_line 0 (take_permit ?s1)))" by (rule step)
  moreover have "goto 0 Granted (leave_line 0 (take_permit ?s1)) = full_with_free_permit"
    by (simp add: full_with_free_permit_def goto_def pool_init_def with_queue_def numeral_2_eq_2 join_line_def leave_line_def take_permit_def)
  ultimately show ?thesis by simp
qed

lemma pool_bounded_witness: "holding holds_permit full_with_free_permit \<le> 2"
  using pool_bounded [OF full_with_free_permit_reachable] by blast

lemma queue_full_exact_witness:
  "queue_gate (with_queue 1) full_with_free_permit = Inl (QueueFull 1) \<and> 0 < permits full_with_free_permit"
  using queue_full_exact [OF full_with_free_permit_reachable, of "QueueFull 1"]
  by (simp add: with_queue_def holding_def full_with_free_permit_def)

definition one_waiter :: "unit pool" where
  "one_waiter = \<lparr>permits = 1, slots = 0, shut = False, clock = 0, callers = [Waiting 0], line = [0]\<rparr>"

lemma one_waiter_reachable: "run_reachable unbounded (pool_init unbounded 1 1) one_waiter"
proof -
  let ?s0 = "pool_init unbounded 1 1 :: unit pool"
  have "run_step unbounded ?s0 (goto 0 (Waiting (clock ?s0)) (join_line 0 ?s0))"
    by (rule enter) (auto simp: pool_init_def unbounded_def queue_gate_def)
  moreover have "goto 0 (Waiting (clock ?s0)) (join_line 0 ?s0) = one_waiter"
    by (simp add: one_waiter_def goto_def pool_init_def unbounded_def join_line_def)
  ultimately show ?thesis by (auto intro: run_reachable.intros)
qed

lemma waiters_served_in_order_witness:
  "\<exists>s'. work_run unbounded one_waiter 3 [0] s' \<and> line one_waiter = [0] @ line s' \<and> 3 \<le> 3 * length (callers one_waiter)"
proof -
  let ?s1 = "goto 0 Granted (leave_line 0 (take_permit one_waiter))"
  let ?s2 = "goto 0 Running (drop_slot unbounded ?s1)"
  let ?s3 = "goto 0 (Finished (Inr ())) (drop_permit ?s2)"
  have s1: "work_run unbounded one_waiter (Suc 0) ([] @ granted one_waiter ?s1) ?s1"
    by (intro work_more work_start work_grant [where t = 0 and rest = "[]"]) (simp_all add: one_waiter_def)
  have s2: "work_run unbounded one_waiter (Suc (Suc 0)) (([] @ granted one_waiter ?s1) @ granted ?s1 ?s2) ?s2"
    by (rule work_more [OF s1 work_spawn]) (simp add: one_waiter_def)
  have "work_run unbounded one_waiter (Suc (Suc (Suc 0))) ((([] @ granted one_waiter ?s1) @ granted ?s1 ?s2) @ granted ?s2 ?s3) ?s3"
    by (rule work_more [OF s2 work_returned]) (simp add: one_waiter_def)
  moreover have "granted one_waiter ?s1 = [0]" "granted ?s1 ?s2 = []" "granted ?s2 ?s3 = []"
    by (simp_all add: granted_def one_waiter_def)
  ultimately have "work_run unbounded one_waiter 3 [0] ?s3" by (simp add: numeral_3_eq_3)
  then show ?thesis using waiters_served_in_order [OF one_waiter_reachable] by (auto simp: one_waiter_def)
qed

end
