(* ===== verification/Seal.thy ===== *)
theory Seal
  imports Rust_Utf8 Prelude
begin

text \<open>
  Sealing at rest: the key of the vault (\<open>nagent-server/src/credentials/key.rs\<close>) and the
  AES-256-GCM helpers (\<open>credentials/crypto.rs\<close>) the credentials, the memories and the page
  store share. The \<open>aes-gcm\<close> and \<open>hex\<close> crates and the random bytes of the operating system are
  parameters; \<open>aead_ok\<close> is what the code relies on. A byte string is a \<open>string\<close>, and the number of
  nonces drawn so far is threaded through, so that no two sealings see the same draw.
\<close>

section \<open>The key\<close>

datatype key_error = KeyMissing string | KeyInvalidHex string string

definition key_of_text :: "(string \<Rightarrow> string + string) \<Rightarrow> string \<Rightarrow> string \<Rightarrow> key_error + string" where
  "key_of_text hex_decode name trimmed =
     (case hex_decode trimmed of
        Inl reason \<Rightarrow> Inl (KeyInvalidHex name reason)
      | Inr bytes \<Rightarrow>
          (if length bytes \<noteq> 32
           then Inl (KeyInvalidHex name (''expected 32 bytes after hex decode, got '' @ nat_to_string (length bytes)))
           else Inr bytes))"

definition from_hex :: "(string \<Rightarrow> string + string) \<Rightarrow> string \<Rightarrow> key_error + string" where
  "from_hex hex_decode hex_str =
     (let trimmed = trim hex_str
      in if trimmed = [] then Inl (KeyMissing ''auth.credentials.key'')
         else key_of_text hex_decode ''auth.credentials.key'' trimmed)"

definition from_env :: "(string \<Rightarrow> string + string) \<Rightarrow> (string \<Rightarrow> string option) \<Rightarrow> string \<Rightarrow> key_error + string" where
  "from_env hex_decode env_var name =
     (case env_var name of
        None \<Rightarrow> Inl (KeyMissing name)
      | Some raw \<Rightarrow>
          (if trim raw = [] then Inl (KeyMissing name) else key_of_text hex_decode name (trim raw)))"

lemma key_length:
  "from_hex h s = Inr k \<Longrightarrow> length k = 32"
  "from_env h v n = Inr k \<Longrightarrow> length k = 32"
  by (auto simp: from_hex_def from_env_def key_of_text_def Let_def split: if_splits sum.splits option.splits)

section \<open>Seal and open\<close>

record aead =
  gcm_seal :: "string \<Rightarrow> string \<Rightarrow> string \<Rightarrow> string option"
  gcm_open :: "string \<Rightarrow> string \<Rightarrow> string \<Rightarrow> string option"
  os_random :: "nat \<Rightarrow> string"

definition aead_ok :: "aead \<Rightarrow> bool" where
  "aead_ok a \<longleftrightarrow>
     (\<forall>k n m c. gcm_seal a k n m = Some c \<longrightarrow> gcm_open a k n c = Some m) \<and> (\<forall>i. length (os_random a i) = 12)"

record encrypted_secret =
  en_nonce :: string
  en_ciphertext :: string

datatype crypto_error = DecryptFailed

definition encrypt :: "aead \<Rightarrow> string \<Rightarrow> string \<Rightarrow> nat \<Rightarrow> (crypto_error + encrypted_secret) \<times> nat" where
  "encrypt a key plaintext drawn =
     (let nonce_bytes = os_random a drawn
      in case gcm_seal a key nonce_bytes plaintext of
           None \<Rightarrow> (Inl DecryptFailed, Suc drawn)
         | Some ciphertext \<Rightarrow> (Inr \<lparr>en_nonce = nonce_bytes, en_ciphertext = ciphertext\<rparr>, Suc drawn))"

definition decrypt :: "aead \<Rightarrow> string \<Rightarrow> encrypted_secret \<Rightarrow> crypto_error + string" where
  "decrypt a key sealed =
     (if length (en_nonce sealed) \<noteq> 12 then Inl DecryptFailed
      else case gcm_open a key (en_nonce sealed) (en_ciphertext sealed) of
             None \<Rightarrow> Inl DecryptFailed
           | Some plaintext \<Rightarrow> if valid_utf8 plaintext then Inr plaintext else Inl DecryptFailed)"

lemma encrypt_drawn [simp]: "snd (encrypt a k p i) = Suc i"
  by (simp add: encrypt_def Let_def split: option.split)

lemma encrypt_nonce: "aead_ok a \<Longrightarrow> encrypt a k p i = (Inr s, j) \<Longrightarrow> en_nonce s = os_random a i \<and> length (en_nonce s) = 12"
  by (auto simp: encrypt_def aead_ok_def Let_def split: option.splits)

lemma decrypt_encrypt:
  "aead_ok a \<Longrightarrow> valid_utf8 p \<Longrightarrow> encrypt a k p i = (Inr s, j) \<Longrightarrow> decrypt a k s = Inr p"
  by (auto simp: encrypt_def decrypt_def aead_ok_def Let_def split: option.splits)

lemma decrypt_valid: "decrypt a k s = Inr p \<Longrightarrow> valid_utf8 p"
  by (simp add: decrypt_def split: if_splits option.splits)

text \<open>A cipher for the examples: the tag is sixteen copies of the first byte of the key.\<close>

definition demo_tag :: "string \<Rightarrow> string" where
  "demo_tag k = replicate 16 (case k of [] \<Rightarrow> CHR ''0'' | c # _ \<Rightarrow> c)"

definition demo_aead :: aead where
  "demo_aead =
     \<lparr>gcm_seal = \<lambda>k n m. Some (m @ demo_tag k),
      gcm_open = \<lambda>k n c. (let m = take (length c - 16) c in if c = m @ demo_tag k then Some m else None),
      os_random = \<lambda>i. replicate 12 (char_of (i mod 256))\<rparr>"

lemma demo_tag_length [simp]: "length (demo_tag k) = 16"
  by (simp add: demo_tag_def)

lemma demo_aead_ok [simp]: "aead_ok demo_aead"
  by (simp add: aead_ok_def demo_aead_def Let_def)

end
