(* ===== verification/Vault.thy ===== *)
theory Vault
  imports Seal Agents Auth_Session "HOL-Library.List_Lexorder" "HOL-Library.Char_ord"
begin

text \<open>
  The credentials vault: the table \<open>user_credentials\<close> (\<open>nagent-db/src/credentials.rs\<close>), the audit
  rows (\<open>nagent-db/src/events.rs\<close>), the resolver and the write-back sink
  (\<open>nagent-server/src/credentials/resolver.rs\<close>), the adapter the agents see
  (\<open>nagent-server/src/agents/mod.rs\<close>) and the routes of \<open>/api/integrations\<close>
  (\<open>credentials/routes.rs\<close>).

  The two engines run the same statements, and a table is the list of its rows. Every statement
  or transaction consults \<open>ve_fault\<close>, which says whether the database fails at that call; a failed
  transaction is rolled back. The audit rows are the ones submitted; their insertion is spawned
  and its failure only logged. The identifiers and timestamps of the rows, which nothing here
  reads, are left out.
\<close>

section \<open>The tables\<close>

datatype db_error =
    DbDatabase string | DbInvalidUuid string | DbBadRequest string | DbConflict string | DbInternal string

fun db_error_text :: "db_error \<Rightarrow> string" where
  "db_error_text (DbDatabase m) = ''database error: '' @ m"
| "db_error_text (DbInvalidUuid m) = ''invalid uuid in database column: '' @ m"
| "db_error_text (DbBadRequest m) = ''bad request: '' @ m"
| "db_error_text (DbConflict m) = ''conflict: '' @ m"
| "db_error_text (DbInternal m) = ''internal: '' @ m"

fun auth_of_db_error :: "db_error \<Rightarrow> auth_error" where
  "auth_of_db_error (DbDatabase m) = AuthInternal (''database error: '' @ m)"
| "auth_of_db_error (DbBadRequest m) = AuthBadRequest m"
| "auth_of_db_error (DbConflict m) = AuthConflict m"
| "auth_of_db_error (DbInternal m) = AuthInternal m"
| "auth_of_db_error (DbInvalidUuid m) = AuthInternal (''invalid uuid in database column: '' @ m)"

record audit_event =
  ev_user_id :: "uuid option"
  ev_kind :: string
  ev_provider :: string
  ev_ip :: "string option"
  ev_user_agent :: "string option"
  ev_target_service :: "string option"

record cred_row =
  cr_user :: uuid
  cr_service :: string
  cr_field :: string
  cr_sealed :: encrypted_secret

record vault =
  va_rows :: "cred_row list"
  va_events :: "audit_event list"
  va_calls :: nat
  va_drawn :: nat

record vault_env =
  ve_aead :: aead
  ve_key :: string
  ve_fault :: "nat \<Rightarrow> string option"
  ve_debug :: "string \<Rightarrow> string"
  ve_debug_declared :: "service_def \<Rightarrow> string"
  ve_ip :: "string option"
  ve_user_agent :: "string option"

definition db_call :: "vault_env \<Rightarrow> vault \<Rightarrow> db_error option \<times> vault" where
  "db_call env w = (map_option DbDatabase (ve_fault env (va_calls w)), w\<lparr>va_calls := Suc (va_calls w)\<rparr>)"

definition owned_by :: "uuid \<Rightarrow> string \<Rightarrow> cred_row \<Rightarrow> bool" where
  "owned_by user service r \<longleftrightarrow> cr_user r = user \<and> cr_service r = service"

text \<open>The insertions of \<open>upsert\<close>; the table is unique in user, service and field.\<close>

fun insert_rows ::
    "vault_env \<Rightarrow> uuid \<Rightarrow> string \<Rightarrow> (string \<times> encrypted_secret) list \<Rightarrow> cred_row list \<Rightarrow> db_error + cred_row list" where
  "insert_rows env user service [] rows = Inr rows"
| "insert_rows env user service ((field_key, sealed) # pairs) rows =
     (if length (en_nonce sealed) \<noteq> 12
      then Inl (DbBadRequest (''nonce for field '' @ ve_debug env field_key @ '' must be 12 bytes, got ''
                  @ nat_to_string (length (en_nonce sealed))))
      else if \<exists>r \<in> set rows. owned_by user service r \<and> cr_field r = field_key
      then Inl (DbDatabase ''UNIQUE constraint failed'')
      else insert_rows env user service pairs
             (rows @ [\<lparr>cr_user = user, cr_service = service, cr_field = field_key, cr_sealed = sealed\<rparr>]))"

definition upsert ::
    "vault_env \<Rightarrow> uuid \<Rightarrow> string \<Rightarrow> (string \<times> encrypted_secret) list \<Rightarrow> vault \<Rightarrow> (db_error + unit) \<times> vault" where
  "upsert env user service pairs w =
     (case db_call env w of
        (Some e, w) \<Rightarrow> (Inl e, w)
      | (None, w) \<Rightarrow>
          (case insert_rows env user service pairs (filter (\<lambda>r. \<not> owned_by user service r) (va_rows w)) of
             Inl e \<Rightarrow> (Inl e, w)
           | Inr rows \<Rightarrow> (Inr (), w\<lparr>va_rows := rows\<rparr>)))"

definition delete_service :: "vault_env \<Rightarrow> uuid \<Rightarrow> string \<Rightarrow> vault \<Rightarrow> (db_error + nat) \<times> vault" where
  "delete_service env user service w =
     (case db_call env w of
        (Some e, w) \<Rightarrow> (Inl e, w)
      | (None, w) \<Rightarrow>
          (Inr (length (filter (owned_by user service) (va_rows w))),
           w\<lparr>va_rows := filter (\<lambda>r. \<not> owned_by user service r) (va_rows w)\<rparr>))"

definition list_field_keys :: "vault_env \<Rightarrow> uuid \<Rightarrow> string \<Rightarrow> vault \<Rightarrow> (db_error + string list) \<times> vault" where
  "list_field_keys env user service w =
     (case db_call env w of
        (Some e, w) \<Rightarrow> (Inl e, w)
      | (None, w) \<Rightarrow> (Inr (sort (map cr_field (filter (owned_by user service) (va_rows w)))), w))"

definition stored :: "uuid \<Rightarrow> string \<Rightarrow> string \<Rightarrow> cred_row list \<Rightarrow> encrypted_secret option" where
  "stored user service field rows =
     map_option cr_sealed (List.find (\<lambda>r. owned_by user service r \<and> cr_field r = field) rows)"

definition fetch_row ::
    "vault_env \<Rightarrow> uuid \<Rightarrow> string \<Rightarrow> string \<Rightarrow> vault \<Rightarrow> (db_error + encrypted_secret option) \<times> vault" where
  "fetch_row env user service field w =
     (case db_call env w of
        (Some e, w) \<Rightarrow> (Inl e, w)
      | (None, w) \<Rightarrow> (Inr (stored user service field (va_rows w)), w))"

section \<open>The resolver and the sink\<close>

datatype credential_error =
    CredMissing string string | CredDecryptFailed string string | CredStore db_error

definition audit :: "vault_env \<Rightarrow> uuid \<Rightarrow> string \<Rightarrow> string \<Rightarrow> vault \<Rightarrow> vault" where
  "audit env user kind target_service w =
     w\<lparr>va_events := va_events w @
        [\<lparr>ev_user_id = Some user, ev_kind = kind, ev_provider = ''credentials'', ev_ip = ve_ip env,
          ev_user_agent = ve_user_agent env, ev_target_service = Some target_service\<rparr>]\<rparr>"

definition get_raw ::
    "vault_env \<Rightarrow> uuid \<Rightarrow> string \<Rightarrow> string \<Rightarrow> vault \<Rightarrow> (credential_error + string option) \<times> vault" where
  "get_raw env user service field w =
     (case fetch_row env user service field w of
        (Inl e, w) \<Rightarrow> (Inl (CredStore e), w)
      | (Inr None, w) \<Rightarrow> (Inl (CredMissing service field), audit env user ''credential_missing'' service w)
      | (Inr (Some sealed), w) \<Rightarrow>
          (case decrypt (ve_aead env) (ve_key env) sealed of
             Inr plaintext \<Rightarrow> (Inr (Some plaintext), audit env user ''credential_access'' service w)
           | Inl DecryptFailed \<Rightarrow>
               (Inl (CredDecryptFailed service field), audit env user ''credential_decrypt_failed'' service w)))"

text \<open>\<open>ResolverSecretSource::fetch\<close>.\<close>

definition secret_fetch :: "vault_env \<Rightarrow> vault secret_source" where
  "secret_fetch env user service field w =
     (case get_raw env user service field w of
        (Inr opt, w) \<Rightarrow> (Inr opt, w)
      | (Inl (CredMissing s f), w) \<Rightarrow> (Inl (CredentialsMissing s f), w)
      | (Inl (CredDecryptFailed s f), w) \<Rightarrow> (Inl (CredentialsDecryptFailed s f), w)
      | (Inl (CredStore e), w) \<Rightarrow> (Inl (AgentFailed (''credentials store: '' @ db_error_text e)), w))"

definition crypto_error_text :: string where
  "crypto_error_text = ''AES-GCM decryption failed (wrong key, wrong nonce, or tampered ciphertext)''"

text \<open>Sealing the fields one after the other; \<open>Inl\<close> is the field whose sealing failed.\<close>

fun seal_fields ::
    "vault_env \<Rightarrow> (string \<times> string) list \<Rightarrow> nat \<Rightarrow> (string + (string \<times> encrypted_secret) list) \<times> nat" where
  "seal_fields env [] drawn = (Inr [], drawn)"
| "seal_fields env ((field_key, plaintext) # pairs) drawn =
     (case encrypt (ve_aead env) (ve_key env) plaintext drawn of
        (Inl _, drawn) \<Rightarrow> (Inl field_key, drawn)
      | (Inr sealed, drawn) \<Rightarrow>
          (case seal_fields env pairs drawn of
             (Inl f, drawn) \<Rightarrow> (Inl f, drawn)
           | (Inr rows, drawn) \<Rightarrow> (Inr ((field_key, sealed) # rows), drawn)))"

text \<open>\<open>SecretSinkImpl::update\<close>.\<close>

definition secret_update :: "vault_env \<Rightarrow> vault secret_sink" where
  "secret_update env user service pairs w =
     (if pairs = [] then (Inr (), w)
      else case seal_fields env pairs (va_drawn w) of
             (Inl field_key, drawn) \<Rightarrow>
               (Inl (AgentFailed (''X refresh write encrypt failed for '' @ service @ ''/'' @ field_key @ '': ''
                       @ crypto_error_text)), w\<lparr>va_drawn := drawn\<rparr>)
           | (Inr rows, drawn) \<Rightarrow>
               (case upsert env user service rows (w\<lparr>va_drawn := drawn\<rparr>) of
                  (Inl e, w) \<Rightarrow> (Inl (AgentFailed (''X refresh write DB error: '' @ db_error_text e)), w)
                | (Inr _, w) \<Rightarrow> (Inr (), audit env user ''credential_access'' service w)))"

section \<open>The routes\<close>

datatype integration_response = Summaries "service_summary list" | OneSummary service_summary | NoContent

fun build_plaintext_values ::
    "vault_env \<Rightarrow> string \<Rightarrow> string list \<Rightarrow> uuid \<Rightarrow> field_def list \<Rightarrow> (string, string) dash \<Rightarrow> vault
       \<Rightarrow> (string, string) dash \<times> vault" where
  "build_plaintext_values env svc filled user [] out w = (out, w)"
| "build_plaintext_values env svc filled user (f # fs) out w =
     (if fd_kind f \<notin> {FText, FUrl} \<or> \<not> fd_echo_on_edit f \<or> fd_key f \<notin> set filled
      then build_plaintext_values env svc filled user fs out w
      else case fetch_row env user svc (fd_key f) w of
             (Inr (Some sealed), w) \<Rightarrow>
               (case decrypt (ve_aead env) (ve_key env) sealed of
                  Inr secret \<Rightarrow> build_plaintext_values env svc filled user fs (dash_put (fd_key f) secret out) w
                | Inl _ \<Rightarrow> build_plaintext_values env svc filled user fs out w)
           | (_, w) \<Rightarrow> build_plaintext_values env svc filled user fs out w)"

fun list_services ::
    "vault_env \<Rightarrow> uuid \<Rightarrow> service_def list \<Rightarrow> vault \<Rightarrow> (auth_error + service_summary list) \<times> vault" where
  "list_services env user [] w = (Inr [], w)"
| "list_services env user (svc # svcs) w =
     (case list_field_keys env user (sd_id svc) w of
        (Inl e, w) \<Rightarrow> (Inl (auth_of_db_error e), w)
      | (Inr filled, w) \<Rightarrow>
          (case list_services env user svcs w of
             (Inl e, w) \<Rightarrow> (Inl e, w)
           | (Inr data, w) \<Rightarrow> (Inr (to_summary filled [] svc # data), w)))"

definition list_integrations ::
    "vault_env \<Rightarrow> service_registry \<Rightarrow> auth_user \<Rightarrow> vault \<Rightarrow> (auth_error + integration_response) \<times> vault" where
  "list_integrations env services user w =
     (case list_services env (au_id user) services w of
        (Inl e, w) \<Rightarrow> (Inl e, w)
      | (Inr data, w) \<Rightarrow> (Inr (Summaries data), w))"

definition get_integration ::
    "vault_env \<Rightarrow> service_registry \<Rightarrow> auth_user \<Rightarrow> string \<Rightarrow> vault \<Rightarrow> (auth_error + integration_response) \<times> vault" where
  "get_integration env services user sid w =
     (case service_get services sid of
        None \<Rightarrow> (Inl (AuthBadRequest (''unknown service: '' @ sid)), w)
      | Some svc \<Rightarrow>
          (case list_field_keys env (au_id user) (sd_id svc) w of
             (Inl e, w) \<Rightarrow> (Inl (auth_of_db_error e), w)
           | (Inr filled, w) \<Rightarrow>
               (let (plaintext, w) = build_plaintext_values env (sd_id svc) filled (au_id user) (sd_fields svc) [] w
                in (Inr (OneSummary (to_summary filled plaintext svc)), w))))"

text \<open>The body is a map; the list is the order in which its iteration visits it.\<close>

definition put_credentials ::
    "vault_env \<Rightarrow> service_registry \<Rightarrow> auth_user \<Rightarrow> header \<Rightarrow> string \<Rightarrow> (string, string) dash \<Rightarrow> vault
       \<Rightarrow> (auth_error + integration_response) \<times> vault" where
  "put_credentials env services user x_csrf_token sid pairs w =
     (case check_csrf x_csrf_token user of
        Inl e \<Rightarrow> (Inl e, w)
      | Inr _ \<Rightarrow>
          (case service_get services sid of
             None \<Rightarrow> (Inl (AuthBadRequest (''unknown service: '' @ sid)), w)
           | Some svc \<Rightarrow>
               (case List.find (\<lambda>(key, _). key \<notin> fd_key ` set (sd_fields svc)) pairs of
                  Some (key, _) \<Rightarrow>
                    (Inl (AuthBadRequest (''unknown field '' @ ve_debug env key @ '' for service ''
                            @ ve_debug env (sd_id svc) @ ''; declared: '' @ ve_debug_declared env svc)), w)
                | None \<Rightarrow>
                    (case seal_fields env pairs (va_drawn w) of
                       (Inl field_key, drawn) \<Rightarrow>
                         (Inl (AuthInternal (''encrypt failed for service='' @ sd_id svc @ '' field='' @ field_key
                                 @ '': '' @ crypto_error_text)), w\<lparr>va_drawn := drawn\<rparr>)
                     | (Inr rows, drawn) \<Rightarrow>
                         (case upsert env (au_id user) (sd_id svc) rows (w\<lparr>va_drawn := drawn\<rparr>) of
                            (Inl e, w) \<Rightarrow> (Inl (auth_of_db_error e), w)
                          | (Inr _, w) \<Rightarrow> (Inr NoContent, w))))))"

definition delete_credentials ::
    "vault_env \<Rightarrow> service_registry \<Rightarrow> auth_user \<Rightarrow> header \<Rightarrow> string \<Rightarrow> vault
       \<Rightarrow> (auth_error + integration_response) \<times> vault" where
  "delete_credentials env services user x_csrf_token sid w =
     (case check_csrf x_csrf_token user of
        Inl e \<Rightarrow> (Inl e, w)
      | Inr _ \<Rightarrow>
          (if service_get services sid = None then (Inl (AuthBadRequest (''unknown service: '' @ sid)), w)
           else case delete_service env (au_id user) sid w of
                  (Inl e, w) \<Rightarrow> (Inl (auth_of_db_error e), w)
                | (Inr _, w) \<Rightarrow> (Inr NoContent, w)))"

end
