(* ===== verification/Vault_Props.thy ===== *)
theory Vault_Props
  imports Vault
begin

text \<open>
  What the credentials vault promises: a stored field reads back as it was written, a user's
  requests are answered as if no other user existed, every read leaves one audit row, and the
  summaries never depend on a secret. \<open>secret_store\<close> is the interface the agents rely on; it is
  interpreted on the vault.
\<close>

section \<open>The table\<close>

definition row_of :: "uuid \<Rightarrow> string \<Rightarrow> string \<times> encrypted_secret \<Rightarrow> cred_row" where
  "row_of user service p = \<lparr>cr_user = user, cr_service = service, cr_field = fst p, cr_sealed = snd p\<rparr>"

definition user_rows :: "uuid \<Rightarrow> cred_row list \<Rightarrow> cred_row list" where
  "user_rows v rows = filter (\<lambda>r. cr_user r = v) rows"

lemma row_of_simps [simp]:
  "owned_by u s (row_of u' s' p) \<longleftrightarrow> u' = u \<and> s' = s" "cr_field (row_of u s p) = fst p"
  "cr_user (row_of u s p) = u" "cr_service (row_of u s p) = s" "cr_sealed (row_of u s p) = snd p"
  by (auto simp: row_of_def owned_by_def)

lemma insert_rows_Inr: "insert_rows env u s ps rows = Inr rows' \<Longrightarrow> rows' = rows @ map (row_of u s) ps"
  by (induction env u s ps rows rule: insert_rows.induct) (auto simp: row_of_def split: if_splits)

lemma insert_rows_distinct:
  "distinct (map fst ps) \<Longrightarrow> \<forall>p \<in> set ps. length (en_nonce (snd p)) = 12 \<Longrightarrow>
   \<forall>r \<in> set rows. owned_by u s r \<longrightarrow> cr_field r \<notin> fst ` set ps \<Longrightarrow>
   insert_rows env u s ps rows = Inr (rows @ map (row_of u s) ps)"
proof (induction env u s ps rows rule: insert_rows.induct)
  case (2 env user service field_key sealed pairs rows)
  let ?row = "\<lparr>cr_user = user, cr_service = service, cr_field = field_key, cr_sealed = sealed\<rparr>"
  have no: "\<not> (\<exists>r \<in> set rows. owned_by user service r \<and> cr_field r = field_key)" using 2(4) by auto
  have rest: "\<forall>r \<in> set (rows @ [?row]). owned_by user service r \<longrightarrow> cr_field r \<notin> fst ` set pairs"
    using 2(2,4) by auto
  have "insert_rows env user service pairs (rows @ [?row]) = Inr ((rows @ [?row]) @ map (row_of user service) pairs)"
    by (rule 2(1)) (use 2(2,3) no rest in auto)
  then show ?case using no 2(3) by (simp add: row_of_def)
qed simp

lemma stored_append: "stored u s k (xs @ ys) = (case stored u s k xs of Some e \<Rightarrow> Some e | None \<Rightarrow> stored u s k ys)"
  by (induction xs) (auto simp: stored_def)

lemma stored_other: "\<forall>r \<in> set xs. \<not> owned_by u s r \<Longrightarrow> stored u s k xs = None"
  by (induction xs) (auto simp: stored_def)

lemma stored_rows: "stored u s k (map (row_of u s) ps) = map_of ps k"
  by (induction ps) (auto simp: stored_def)

lemma stored_replaced: "stored u s k (filter (\<lambda>r. \<not> owned_by u s r) rows @ map (row_of u s) ps) = map_of ps k"
  by (simp add: stored_append stored_other stored_rows)

lemma stored_user_rows: "stored v s k (user_rows v rows) = stored v s k rows"
  by (induction rows) (auto simp: stored_def user_rows_def owned_by_def)

lemma user_rows_append [simp]: "user_rows v (xs @ ys) = user_rows v xs @ user_rows v ys"
  by (simp add: user_rows_def)

lemma user_rows_replace:
  "u \<noteq> v \<Longrightarrow> user_rows v (filter (\<lambda>r. \<not> owned_by u s r) rows) = user_rows v rows"
  by (induction rows) (auto simp: user_rows_def owned_by_def)

lemma user_rows_new: "u \<noteq> v \<Longrightarrow> user_rows v (map (row_of u s) ps) = []"
  by (induction ps) (auto simp: user_rows_def)

lemma upsert_ok:
  "upsert env u s ps w = (Inr (), w') \<Longrightarrow>
     va_rows w' = filter (\<lambda>r. \<not> owned_by u s r) (va_rows w) @ map (row_of u s) ps \<and> va_events w' = va_events w"
  by (auto simp: upsert_def db_call_def dest: insert_rows_Inr split: option.splits sum.splits)

lemma upsert_failed: "upsert env u s ps w = (Inl e, w') \<Longrightarrow> va_rows w' = va_rows w \<and> va_events w' = va_events w"
  by (auto simp: upsert_def db_call_def split: option.splits sum.splits)

section \<open>Sealing a list of fields\<close>

definition sealed_as :: "vault_env \<Rightarrow> string \<times> string \<Rightarrow> string \<times> encrypted_secret \<Rightarrow> bool" where
  "sealed_as env p q \<longleftrightarrow> fst q = fst p \<and> decrypt (ve_aead env) (ve_key env) (snd q) = Inr (snd p)
     \<and> length (en_nonce (snd q)) = 12"

lemma seal_fields_Inr:
  "aead_ok (ve_aead env) \<Longrightarrow> seal_fields env ps i = (Inr rows, j) \<Longrightarrow> \<forall>p \<in> set ps. valid_utf8 (snd p) \<Longrightarrow>
   list_all2 (sealed_as env) ps rows"
proof (induction env ps i arbitrary: rows j rule: seal_fields.induct)
  case (2 env k p ps i)
  obtain s where s: "encrypt (ve_aead env) (ve_key env) p i = (Inr s, Suc i)"
    using 2(3) by (cases "encrypt (ve_aead env) (ve_key env) p i") (auto split: sum.splits prod.splits dest: arg_cong [where f = snd])
  obtain rest where rest: "seal_fields env ps (Suc i) = (Inr rest, j)" and rows: "rows = (k, s) # rest"
    using 2(3) s by (auto split: sum.splits prod.splits)
  have "length (en_nonce s) = 12" using encrypt_nonce [OF 2(2) s] by blast
  then show ?case
    using 2(1) [OF s [symmetric] refl 2(2) rest] 2(2,4) rows decrypt_encrypt [OF 2(2) _ s] by (simp add: sealed_as_def)
qed simp

lemma sealed_keys: "list_all2 (sealed_as env) ps rows \<Longrightarrow> map fst rows = map fst ps"
  by (induction rule: list_all2_induct) (auto simp: sealed_as_def)

lemma sealed_nonces: "list_all2 (sealed_as env) ps rows \<Longrightarrow> \<forall>q \<in> set rows. length (en_nonce (snd q)) = 12"
  by (induction rule: list_all2_induct) (auto simp: sealed_as_def)

lemma sealed_map_of:
  "list_all2 (sealed_as env) ps rows \<Longrightarrow>
   map_option (decrypt (ve_aead env) (ve_key env)) (map_of rows k) = map_option Inr (map_of ps k)"
  by (induction rule: list_all2_induct) (auto simp: sealed_as_def)

section \<open>What one user sees\<close>

definition same_row :: "vault_env \<Rightarrow> cred_row \<Rightarrow> cred_row \<Rightarrow> bool" where
  "same_row env r r' \<longleftrightarrow> cr_user r = cr_user r' \<and> cr_service r = cr_service r' \<and> cr_field r = cr_field r'
     \<and> decrypt (ve_aead env) (ve_key env) (cr_sealed r) = decrypt (ve_aead env) (ve_key env) (cr_sealed r')"

definition same_view :: "vault_env \<Rightarrow> uuid \<Rightarrow> vault \<Rightarrow> vault \<Rightarrow> bool" where
  "same_view env v w w' \<longleftrightarrow> list_all2 (same_row env) (user_rows v (va_rows w)) (user_rows v (va_rows w'))"

lemma same_row_refl [simp]: "same_row env r r"
  by (simp add: same_row_def)

lemma same_view_rows: "user_rows v (va_rows w) = user_rows v (va_rows w') \<Longrightarrow> same_view env v w w'"
  by (simp add: same_view_def list_all2_same)

lemma same_view_cong:
  "same_view env v w1 w2 \<Longrightarrow> va_rows w1' = va_rows w1 \<Longrightarrow> va_rows w2' = va_rows w2 \<Longrightarrow> same_view env v w1' w2'"
  by (simp add: same_view_def)

lemma same_rows_stored:
  "list_all2 (same_row env) xs ys \<Longrightarrow>
   map_option (decrypt (ve_aead env) (ve_key env)) (stored v s k xs)
   = map_option (decrypt (ve_aead env) (ve_key env)) (stored v s k ys)"
  by (induction rule: list_all2_induct) (auto simp: stored_def same_row_def owned_by_def)

lemma same_view_stored:
  "same_view env v w w' \<Longrightarrow>
   map_option (decrypt (ve_aead env) (ve_key env)) (stored v s k (va_rows w))
   = map_option (decrypt (ve_aead env) (ve_key env)) (stored v s k (va_rows w'))"
  using same_rows_stored [of env "user_rows v (va_rows w)" "user_rows v (va_rows w')" v s k]
  by (simp add: same_view_def stored_user_rows)

lemma same_rows_keys:
  "list_all2 (same_row env) xs ys \<Longrightarrow>
   map cr_field (filter (owned_by v s) xs) = map cr_field (filter (owned_by v s) ys)"
  by (induction rule: list_all2_induct) (auto simp: same_row_def owned_by_def)

lemma owned_user_rows: "filter (owned_by v s) (user_rows v rows) = filter (owned_by v s) rows"
  by (induction rows) (auto simp: user_rows_def owned_by_def)

lemma same_view_keys:
  "same_view env v w w' \<Longrightarrow>
   map cr_field (filter (owned_by v s) (va_rows w)) = map cr_field (filter (owned_by v s) (va_rows w'))"
  using same_rows_keys [of env "user_rows v (va_rows w)" "user_rows v (va_rows w')" v s]
  by (simp add: same_view_def owned_user_rows)

lemma same_rows_filter:
  "list_all2 (same_row env) xs ys \<Longrightarrow>
   list_all2 (same_row env) (filter (\<lambda>r. \<not> owned_by v s r) xs) (filter (\<lambda>r. \<not> owned_by v s r) ys)"
  by (induction rule: list_all2_induct) (auto simp: same_row_def owned_by_def)

lemma user_rows_filter: "user_rows v (filter P rows) = filter P (user_rows v rows)"
  by (induction rows) (auto simp: user_rows_def)

lemma user_rows_own [simp]: "user_rows v (map (row_of v s) ps) = map (row_of v s) ps"
  by (induction ps) (auto simp: user_rows_def)

definition steady :: "vault_env \<Rightarrow> bool" where
  "steady env \<longleftrightarrow> aead_ok (ve_aead env) \<and> (\<forall>i. ve_fault env i = None)"

lemma steady_call [simp]: "steady env \<Longrightarrow> db_call env w = (None, w\<lparr>va_calls := Suc (va_calls w)\<rparr>)"
  by (simp add: steady_def db_call_def)

lemma upsert_same:
  assumes st: "steady env" and v: "same_view env v w w'"
    and rel: "list_all2 (sealed_as env) ps rows"
    and rel': "list_all2 (sealed_as env) ps rows'"
    and dist: "distinct (map fst ps)"
  shows "fst (upsert env v s rows w) = Inr () \<and> fst (upsert env v s rows' w') = Inr ()
       \<and> same_view env v (snd (upsert env v s rows w)) (snd (upsert env v s rows' w'))"
proof -
  have ins: "insert_rows env v s qs (filter (\<lambda>r. \<not> owned_by v s r) rs)
       = Inr (filter (\<lambda>r. \<not> owned_by v s r) rs @ map (row_of v s) qs)"
    if "list_all2 (sealed_as env) ps qs"
    for qs rs
    using dist sealed_keys [OF that] sealed_nonces [OF that] by (intro insert_rows_distinct) auto
  have new: "list_all2 (same_row env) (map (row_of v s) rows) (map (row_of v s) rows')"
    using rel rel' by (auto simp: list_all2_conv_all_nth same_row_def sealed_as_def)
  show ?thesis
    using v new by (simp add: upsert_def st ins [OF rel] ins [OF rel'] same_view_def user_rows_filter
        same_rows_filter list_all2_appendI)
qed


text \<open>Whether a field can be sealed depends on the field, not on the nonce.\<close>

definition nonce_blind :: "aead \<Rightarrow> bool" where
  "nonce_blind a \<longleftrightarrow> (\<forall>k n n' m. gcm_seal a k n m = None \<longrightarrow> gcm_seal a k n' m = None)"

lemma encrypt_blind:
  assumes "nonce_blind a"
  shows "(fst (encrypt a k p i) = Inl DecryptFailed \<and> fst (encrypt a k p j) = Inl DecryptFailed)
       \<or> (\<exists>s s'. fst (encrypt a k p i) = Inr s \<and> fst (encrypt a k p j) = Inr s')"
  using assms unfolding nonce_blind_def encrypt_def
  by (cases "gcm_seal a k (os_random a i) p"; cases "gcm_seal a k (os_random a j) p") (auto simp: Let_def)

lemma seal_fields_blind:
  assumes "nonce_blind (ve_aead env)"
  shows "(\<exists>f. fst (seal_fields env ps i) = Inl f \<and> fst (seal_fields env ps j) = Inl f)
       \<or> (\<exists>rows rows'. fst (seal_fields env ps i) = Inr rows \<and> fst (seal_fields env ps j) = Inr rows')"
proof (induction ps arbitrary: i j)
  case (Cons kp ps)
  obtain k p where kp: "kp = (k, p)" by (cases kp)
  have split: "encrypt (ve_aead env) (ve_key env) p i = (fst (encrypt (ve_aead env) (ve_key env) p i), Suc i)" for i
    by (simp add: prod_eq_iff)
  show ?case
    using encrypt_blind [OF assms, of "ve_key env" p i j] Cons.IH [of "Suc i" "Suc j"] unfolding kp
    by (subst (1 2 3 4) seal_fields.simps, subst (1 2 3 4) split) (auto split: sum.splits prod.splits simp: prod_eq_iff)
qed simp

lemma fetch_row_steady:
  "steady env \<Longrightarrow> fetch_row env u s f w = (Inr (stored u s f (va_rows w)), w\<lparr>va_calls := Suc (va_calls w)\<rparr>)"
  by (simp add: fetch_row_def)

lemma list_field_keys_steady:
  "steady env \<Longrightarrow> list_field_keys env u s w
     = (Inr (sort (map cr_field (filter (owned_by u s) (va_rows w)))), w\<lparr>va_calls := Suc (va_calls w)\<rparr>)"
  by (simp add: list_field_keys_def)

lemma get_raw_steady:
  "steady env \<Longrightarrow> fst (get_raw env u s f w)
     = (case map_option (decrypt (ve_aead env) (ve_key env)) (stored u s f (va_rows w)) of
          None \<Rightarrow> Inl (CredMissing s f)
        | Some (Inr p) \<Rightarrow> Inr (Some p)
        | Some (Inl _) \<Rightarrow> Inl (CredDecryptFailed s f))"
  by (auto simp: get_raw_def fetch_row_steady split: option.split sum.split crypto_error.split)

lemma get_raw_rows [simp]: "va_rows (snd (get_raw env u s f w)) = va_rows w"
  by (auto simp: get_raw_def fetch_row_def db_call_def audit_def split: option.split sum.split crypto_error.split)

lemma secret_fetch_rows [simp]: "va_rows (snd (secret_fetch env u s f w)) = va_rows w"
  using get_raw_rows [of env u s f w]
  by (cases "get_raw env u s f w") (auto simp: secret_fetch_def simp del: get_raw_rows split: sum.split credential_error.split)

lemma secret_fetch_steady:
  "steady env \<Longrightarrow> fst (secret_fetch env u s f w)
     = (case map_option (decrypt (ve_aead env) (ve_key env)) (stored u s f (va_rows w)) of
          None \<Rightarrow> Inl (CredentialsMissing s f)
        | Some (Inr p) \<Rightarrow> Inr (Some p)
        | Some (Inl _) \<Rightarrow> Inl (CredentialsDecryptFailed s f))"
  using get_raw_steady [of env u s f w]
  by (cases "get_raw env u s f w") (auto simp: secret_fetch_def split: sum.splits option.splits)

lemma build_plaintext_rows [simp]: "va_rows (snd (build_plaintext_values env svc filled u fs out w)) = va_rows w"
  by (induction env svc filled u fs out w rule: build_plaintext_values.induct)
     (auto simp: fetch_row_def db_call_def split: option.splits sum.splits)

lemma build_plaintext_same:
  assumes "steady env"
  shows "same_view env v w w' \<Longrightarrow>
    fst (build_plaintext_values env svc filled v fs out w) = fst (build_plaintext_values env svc filled v fs out w')"
proof (induction fs arbitrary: out w w')
  case (Cons f fs)
  let ?D = "decrypt (ve_aead env) (ve_key env)"
  have "same_view env v (w\<lparr>va_calls := Suc (va_calls w)\<rparr>) (w'\<lparr>va_calls := Suc (va_calls w')\<rparr>)"
    using Cons.prems by (rule same_view_cong) simp_all
  note next_view = Cons.IH [OF this]
  note same = Cons.IH [OF Cons.prems]
  have "map_option ?D (stored v svc (fd_key f) (va_rows w)) = map_option ?D (stored v svc (fd_key f) (va_rows w'))"
    by (rule same_view_stored [OF Cons.prems])
  then show ?case
    using next_view same
    by (cases "stored v svc (fd_key f) (va_rows w)"; cases "stored v svc (fd_key f) (va_rows w')")
       (auto simp: fetch_row_steady [OF assms] split: sum.splits)
qed simp

lemma list_services_rows [simp]: "va_rows (snd (list_services env u svcs w)) = va_rows w"
  by (induction env u svcs w rule: list_services.induct)
     (auto simp: list_field_keys_def db_call_def split: option.splits sum.splits prod.splits)

lemma list_services_same:
  assumes "steady env"
  shows "\<forall>s. map cr_field (filter (owned_by v s) (va_rows w)) = map cr_field (filter (owned_by v s) (va_rows w')) \<Longrightarrow>
    fst (list_services env v svcs w) = fst (list_services env v svcs w')"
proof (induction svcs arbitrary: w w')
  case (Cons svc svcs)
  from Cons.prems have "\<forall>s. map cr_field (filter (owned_by v s) (va_rows (w\<lparr>va_calls := Suc (va_calls w)\<rparr>)))
      = map cr_field (filter (owned_by v s) (va_rows (w'\<lparr>va_calls := Suc (va_calls w')\<rparr>)))" by simp
  note Cons.IH [OF this]
  then show ?case using Cons.prems by (auto simp: list_field_keys_steady [OF assms] split: sum.splits prod.splits)
qed simp

lemma list_integrations_same:
  assumes "steady env"
    and "\<forall>s. map cr_field (filter (owned_by (au_id user) s) (va_rows w)) = map cr_field (filter (owned_by (au_id user) s) (va_rows w'))"
  shows "fst (list_integrations env services user w) = fst (list_integrations env services user w')"
  using list_services_same [OF assms, of services]
  by (cases "list_services env (au_id user) services w"; cases "list_services env (au_id user) services w'")
     (auto simp: list_integrations_def split: sum.splits)

section \<open>Requests\<close>

datatype vault_op =
    OpList auth_user
  | OpGet auth_user string
  | OpPut auth_user header string "(string, string) dash"
  | OpDelete auth_user header string
  | OpFetch uuid string string
  | OpUpdate uuid string "(string \<times> string) list"

datatype vault_out =
    RouteOut "auth_error + integration_response"
  | FetchOut "agent_error + string option"
  | UpdateOut "agent_error + unit"

fun op_user :: "vault_op \<Rightarrow> uuid" where
  "op_user (OpList u) = au_id u"
| "op_user (OpGet u _) = au_id u"
| "op_user (OpPut u _ _ _) = au_id u"
| "op_user (OpDelete u _ _) = au_id u"
| "op_user (OpFetch u _ _) = u"
| "op_user (OpUpdate u _ _) = u"

text \<open>The values are Rust strings and the keys of one request are distinct.\<close>

fun op_ok :: "vault_op \<Rightarrow> bool" where
  "op_ok (OpPut _ _ _ ps) \<longleftrightarrow> distinct (map fst ps) \<and> list_all (\<lambda>p. valid_utf8 (snd p)) ps"
| "op_ok (OpUpdate _ _ ps) \<longleftrightarrow> distinct (map fst ps) \<and> list_all (\<lambda>p. valid_utf8 (snd p)) ps"
| "op_ok _ \<longleftrightarrow> True"

fun vault_exec :: "vault_env \<Rightarrow> service_registry \<Rightarrow> vault_op \<Rightarrow> vault \<Rightarrow> vault_out \<times> vault" where
  "vault_exec env services (OpList user) w = map_prod RouteOut id (list_integrations env services user w)"
| "vault_exec env services (OpGet user sid) w = map_prod RouteOut id (get_integration env services user sid w)"
| "vault_exec env services (OpPut user tok sid ps) w = map_prod RouteOut id (put_credentials env services user tok sid ps w)"
| "vault_exec env services (OpDelete user tok sid) w = map_prod RouteOut id (delete_credentials env services user tok sid w)"
| "vault_exec env services (OpFetch u s f) w = map_prod FetchOut id (secret_fetch env u s f w)"
| "vault_exec env services (OpUpdate u s ps) w = map_prod UpdateOut id (secret_update env u s ps w)"

fun vault_run :: "vault_env \<Rightarrow> service_registry \<Rightarrow> vault_op list \<Rightarrow> vault \<Rightarrow> (uuid \<times> vault_out) list" where
  "vault_run env services [] w = []"
| "vault_run env services (op # ops) w =
     (let (out, w) = vault_exec env services op w in (op_user op, out) # vault_run env services ops w)"

lemma upsert_other:
  "u \<noteq> v \<Longrightarrow> user_rows v (va_rows (snd (upsert env u s ps w))) = user_rows v (va_rows w)"
proof -
  assume "u \<noteq> v"
  then show ?thesis
    using upsert_ok [of env u s ps w "snd (upsert env u s ps w)"] upsert_failed [of env u s ps w _ "snd (upsert env u s ps w)"]
    by (cases "fst (upsert env u s ps w)") (auto simp: prod_eq_iff user_rows_replace user_rows_new)
qed

lemma delete_service_other:
  "u \<noteq> v \<Longrightarrow> user_rows v (va_rows (snd (delete_service env u s w))) = user_rows v (va_rows w)"
  by (auto simp: delete_service_def db_call_def user_rows_replace split: option.splits)

lemma upsert_drawn_other:
  "u \<noteq> v \<Longrightarrow> upsert env u s ps (w\<lparr>va_drawn := i\<rparr>) = (r, w') \<Longrightarrow> user_rows v (va_rows w') = user_rows v (va_rows w)"
  using upsert_other [of u v env s ps "w\<lparr>va_drawn := i\<rparr>"] by simp

lemma secret_update_other:
  "u \<noteq> v \<Longrightarrow> user_rows v (va_rows (snd (secret_update env u s ps w))) = user_rows v (va_rows w)"
  by (auto simp: secret_update_def audit_def dest: upsert_drawn_other split: sum.split prod.split)

lemma put_credentials_other:
  "au_id user \<noteq> v \<Longrightarrow> user_rows v (va_rows (snd (put_credentials env services user tok sid ps w))) = user_rows v (va_rows w)"
  by (auto simp: put_credentials_def dest: upsert_drawn_other split: sum.split prod.split option.split)

lemma exec_other:
  "op_user op \<noteq> v \<Longrightarrow> user_rows v (va_rows (snd (vault_exec env services op w))) = user_rows v (va_rows w)"
proof (induction env services op w rule: vault_exec.induct)
  case (1 env services user w)
  have "va_rows (snd (list_integrations env services user w)) = va_rows w"
    using list_services_rows [of env "au_id user" services w]
    by (cases "list_services env (au_id user) services w") (auto simp: list_integrations_def split: sum.split)
  then show ?case by simp
next
  case (2 env services user sid w)
  have "va_rows (snd (get_integration env services user sid w)) = va_rows w"
    by (auto simp: get_integration_def list_field_keys_def db_call_def case_prod_beta Let_def split: option.split sum.split)
  then show ?case by simp
next
  case (4 env services user tok sid w)
  then show ?case
    using delete_service_other [of "au_id user" v env sid w]
    by (cases "delete_service env (au_id user) sid w") (auto simp: delete_credentials_def split: sum.split)
qed (simp_all add: secret_update_other put_credentials_other)


section \<open>The same request in two vaults the user cannot tell apart\<close>

lemma seal_and_store_same:
  assumes st: "steady env" and blind: "nonce_blind (ve_aead env)" and v: "same_view env v w w'"
    and dist: "distinct (map fst ps)" and valid: "\<forall>p \<in> set ps. valid_utf8 (snd p)"
  shows "(\<exists>f i j. seal_fields env ps (va_drawn w) = (Inl f, i) \<and> seal_fields env ps (va_drawn w') = (Inl f, j))
       \<or> (\<exists>rows rows' i j u u'. seal_fields env ps (va_drawn w) = (Inr rows, i) \<and> seal_fields env ps (va_drawn w') = (Inr rows', j)
            \<and> upsert env v s rows (w\<lparr>va_drawn := i\<rparr>) = (Inr (), u) \<and> upsert env v s rows' (w'\<lparr>va_drawn := j\<rparr>) = (Inr (), u')
            \<and> same_view env v u u')"
proof -
  obtain r i where r: "seal_fields env ps (va_drawn w) = (r, i)" by fastforce
  obtain r' j where r': "seal_fields env ps (va_drawn w') = (r', j)" by fastforce
  consider f where "r = Inl f" "r' = Inl f" | rows rows' where "r = Inr rows" "r' = Inr rows'"
    using seal_fields_blind [OF blind, of ps "va_drawn w" "va_drawn w'"] r r' by auto
  then show ?thesis
  proof cases
    case 1
    then show ?thesis using r r' by blast
  next
    case 2
    have ok: "aead_ok (ve_aead env)" using st by (simp add: steady_def)
    have rel: "list_all2 (sealed_as env) ps rows" using r 2(1) valid by (auto intro: seal_fields_Inr [OF ok])
    have rel': "list_all2 (sealed_as env) ps rows'" using r' 2(2) valid by (auto intro: seal_fields_Inr [OF ok])
    have "same_view env v (w\<lparr>va_drawn := i\<rparr>) (w'\<lparr>va_drawn := j\<rparr>)" using v by (rule same_view_cong) simp_all
    note u = upsert_same [OF st this rel rel' dist, of s]
    then show ?thesis
      using r r' 2 by (intro disjI2 exI [of _ rows] exI [of _ rows'] exI [of _ i] exI [of _ j]
          exI [of _ "snd (upsert env v s rows (w\<lparr>va_drawn := i\<rparr>))"] exI [of _ "snd (upsert env v s rows' (w'\<lparr>va_drawn := j\<rparr>))"])
        (simp add: prod_eq_iff)
  qed
qed

lemma put_credentials_same:
  assumes "steady env" "nonce_blind (ve_aead env)" "same_view env (au_id user) w w'"
    and "distinct (map fst ps)" "\<forall>p \<in> set ps. valid_utf8 (snd p)"
  shows "fst (put_credentials env services user tok sid ps w) = fst (put_credentials env services user tok sid ps w')
       \<and> same_view env (au_id user) (snd (put_credentials env services user tok sid ps w))
            (snd (put_credentials env services user tok sid ps w'))"
proof -
  consider e where "check_csrf tok user = Inl e"
    | "check_csrf tok user = Inr ()" "service_get services sid = None"
    | svc kp where "check_csrf tok user = Inr ()" "service_get services sid = Some svc"
        "List.find (\<lambda>(key, _). key \<notin> fd_key ` set (sd_fields svc)) ps = Some kp"
    | svc where "check_csrf tok user = Inr ()" "service_get services sid = Some svc"
        "List.find (\<lambda>(key, _). key \<notin> fd_key ` set (sd_fields svc)) ps = None"
    by (cases "check_csrf tok user"; cases "service_get services sid";
        cases "List.find (\<lambda>(key, _). key \<notin> fd_key ` set (sd_fields (the (service_get services sid)))) ps") auto
  then show ?thesis
  proof cases
    case 4
    from seal_and_store_same [OF assms, of "sd_id (the (service_get services sid))"] show ?thesis
    proof (elim disjE exE conjE)
      fix f i j
      assume "seal_fields env ps (va_drawn w) = (Inl f, i)" "seal_fields env ps (va_drawn w') = (Inl f, j)"
      then show ?thesis using 4 assms(3) by (simp add: put_credentials_def same_view_def)
    qed (use 4 in \<open>simp add: put_credentials_def\<close>)
  qed (use assms(3) in \<open>auto simp: put_credentials_def split: prod.split\<close>)
qed

lemma secret_update_same:
  assumes "steady env" "nonce_blind (ve_aead env)" "same_view env v w w'"
    and "distinct (map fst ps)" "\<forall>p \<in> set ps. valid_utf8 (snd p)"
  shows "fst (secret_update env v s ps w) = fst (secret_update env v s ps w')
       \<and> same_view env v (snd (secret_update env v s ps w)) (snd (secret_update env v s ps w'))"
proof (cases "ps = []")
  case True
  then show ?thesis using assms(3) by (simp add: secret_update_def)
next
  case False
  from seal_and_store_same [OF assms, of s] show ?thesis
  proof (elim disjE exE conjE)
    fix f i j
    assume "seal_fields env ps (va_drawn w) = (Inl f, i)" "seal_fields env ps (va_drawn w') = (Inl f, j)"
    then show ?thesis using False assms(3) by (simp add: secret_update_def same_view_def)
  qed (use False in \<open>simp add: secret_update_def audit_def same_view_def\<close>)
qed

lemma delete_credentials_same:
  assumes "steady env" "same_view env (au_id user) w w'"
  shows "fst (delete_credentials env services user tok sid w) = fst (delete_credentials env services user tok sid w')
       \<and> same_view env (au_id user) (snd (delete_credentials env services user tok sid w))
            (snd (delete_credentials env services user tok sid w'))"
  using assms(2) by (auto simp: delete_credentials_def delete_service_def assms(1) same_view_def user_rows_filter
      same_rows_filter split: sum.split)

lemma get_integration_same:
  assumes "steady env" "same_view env (au_id user) w w'"
  shows "fst (get_integration env services user sid w) = fst (get_integration env services user sid w')
       \<and> same_view env (au_id user) (snd (get_integration env services user sid w)) (snd (get_integration env services user sid w'))"
proof (cases "service_get services sid")
  case None
  then show ?thesis using assms(2) by (simp add: get_integration_def)
next
  case (Some svc)
  have v: "same_view env (au_id user) (w\<lparr>va_calls := Suc (va_calls w)\<rparr>) (w'\<lparr>va_calls := Suc (va_calls w')\<rparr>)"
    using assms(2) by (rule same_view_cong) simp_all
  show ?thesis
    using Some same_view_keys [OF assms(2), of "sd_id svc"] build_plaintext_same [OF assms(1) v] assms(2)
    by (simp add: get_integration_def list_field_keys_steady [OF assms(1)] case_prod_beta Let_def same_view_def)
qed

lemma exec_same:
  assumes "steady env" "nonce_blind (ve_aead env)" "same_view env (op_user op) w w'" "op_ok op"
  shows "fst (vault_exec env services op w) = fst (vault_exec env services op w')
       \<and> same_view env (op_user op) (snd (vault_exec env services op w)) (snd (vault_exec env services op w'))"
proof (cases op)
  case (OpList user)
  then have v: "same_view env (au_id user) w w'" using assms(3) by simp
  have "va_rows (snd (list_integrations env services user w)) = va_rows w" for w
    using list_services_rows [of env "au_id user" services w]
    by (cases "list_services env (au_id user) services w") (auto simp: list_integrations_def split: sum.split)
  moreover have "fst (list_integrations env services user w) = fst (list_integrations env services user w')"
    by (intro list_integrations_same [OF assms(1)] allI same_view_keys [OF v])
  ultimately show ?thesis using OpList v by (simp add: same_view_def)
next
  case (OpFetch u s f)
  then show ?thesis
    using assms(3) same_view_stored [of env u w w' s f] by (simp add: secret_fetch_steady [OF assms(1)] same_view_def)
next
  case (OpPut user tok sid ps)
  then have "same_view env (au_id user) w w'" "distinct (map fst ps)" "\<forall>p \<in> set ps. valid_utf8 (snd p)"
    using assms(3,4) by (auto simp: list_all_iff)
  from put_credentials_same [OF assms(1,2) this] show ?thesis using OpPut by simp
next
  case (OpUpdate u s ps)
  then have "same_view env u w w'" "distinct (map fst ps)" "\<forall>p \<in> set ps. valid_utf8 (snd p)"
    using assms(3,4) by (auto simp: list_all_iff)
  from secret_update_same [OF assms(1,2) this] show ?thesis using OpUpdate by simp
qed (use assms get_integration_same delete_credentials_same in auto)

lemma noninterference_views:
  assumes "steady env" "nonce_blind (ve_aead env)"
  shows "list_all op_ok ops \<Longrightarrow> same_view env v w w' \<Longrightarrow>
    filter (\<lambda>(u, _). u = v) (vault_run env services ops w)
    = vault_run env services (filter (\<lambda>op. op_user op = v) ops) w'"
proof (induction ops arbitrary: w w')
  case (Cons op ops)
  show ?case
  proof (cases "op_user op = v")
    case True
    then show ?thesis
      using exec_same [OF assms, of op w w' services] Cons.IH Cons.prems
      by (simp add: case_prod_beta Let_def)
  next
    case False
    have "user_rows v (va_rows (snd (vault_exec env services op w))) = user_rows v (va_rows w)"
      using False by (rule exec_other)
    then have "same_view env v (snd (vault_exec env services op w)) w'" using Cons.prems(2) by (simp add: same_view_def)
    then show ?thesis using False Cons.IH Cons.prems(1) by (simp add: case_prod_beta Let_def)
  qed
qed simp


section \<open>The interface of the agents\<close>

locale secret_store =
  fixes fetch :: "'w secret_source" and update :: "'w secret_sink" and good :: "'w \<Rightarrow> bool"
  assumes update_replaces:
      "good w \<Longrightarrow> ps \<noteq> [] \<Longrightarrow> \<forall>p \<in> set ps. valid_utf8 (snd p) \<Longrightarrow> update u s ps w = (Inr (), w') \<Longrightarrow>
       good w' \<and> fst (fetch u s k w') = (case map_of ps k of Some v \<Rightarrow> Inr (Some v) | None \<Rightarrow> Inl (CredentialsMissing s k))"
    and fetch_keeps:
      "good w \<Longrightarrow> good (snd (fetch u s k w)) \<and> fst (fetch u' s' k' (snd (fetch u s k w))) = fst (fetch u' s' k' w)"
    and update_other:
      "good w \<Longrightarrow> u \<noteq> u' \<Longrightarrow> good (snd (update u s ps w)) \<and> fst (fetch u' s' k' (snd (update u s ps w))) = fst (fetch u' s' k' w)"
begin

text \<open>An agent that writes fields back leaves exactly those fields.\<close>

lemma write_back_reads:
  assumes "good w" "ps \<noteq> []" "\<forall>p \<in> set ps. valid_utf8 (snd p)"
    and "cx_sink ctx = Some update" "update_secret s ps ctx w = (Inr (), w')"
  shows "fst (fetch (cx_user_id ctx) s k w')
       = (case map_of ps k of Some v \<Rightarrow> Inr (Some v) | None \<Rightarrow> Inl (CredentialsMissing s k))"
  using assms update_replaces by (simp add: update_secret_def)

lemma unwritten_field_missing:
  assumes "good w" "ps \<noteq> []" "\<forall>p \<in> set ps. valid_utf8 (snd p)"
    and "cx_sink ctx = Some update" "update_secret s ps ctx w = (Inr (), w')" "k \<notin> fst ` set ps"
    and "cx_resolver ctx' = Some fetch" "cx_user_id ctx' = cx_user_id ctx"
    and "snd (sc_get now s k (cx_cache ctx')) = None"
  shows "fst (ctx_secret pos now now' s k ctx' w') = Inl (CredentialsMissing s k)"
proof -
  have "map_of ps k = None" using assms(6) by (simp add: map_of_eq_None_iff)
  then have "fst (fetch (cx_user_id ctx) s k w') = Inl (CredentialsMissing s k)"
    using write_back_reads [OF assms(1-5)] by simp
  then show ?thesis
    using assms(7-9)
    by (cases "sc_get now s k (cx_cache ctx')"; cases "fetch (cx_user_id ctx) s k w'") (simp add: ctx_secret_def)
qed

end

lemma stored_after_upsert:
  "upsert env u s rows w = (Inr (), w') \<Longrightarrow> stored u s k (va_rows w') = map_of rows k"
  using upsert_ok [of env u s rows w w'] by (simp add: stored_replaced)

lemma sealed_fetch:
  assumes "steady env" "list_all2 (sealed_as env) ps rows" "stored u s k (va_rows w) = map_of rows k"
  shows "fst (secret_fetch env u s k w) = (case map_of ps k of Some v \<Rightarrow> Inr (Some v) | None \<Rightarrow> Inl (CredentialsMissing s k))"
  using sealed_map_of [OF assms(2), of k] assms(3)
  by (cases "map_of ps k"; cases "map_of rows k") (auto simp: secret_fetch_steady [OF assms(1)])

lemma update_then_fetch:
  assumes "steady env" "ps \<noteq> []" "\<forall>p \<in> set ps. valid_utf8 (snd p)" "secret_update env u s ps w = (Inr (), w')"
  shows "fst (secret_fetch env u s k w') = (case map_of ps k of Some v \<Rightarrow> Inr (Some v) | None \<Rightarrow> Inl (CredentialsMissing s k))"
proof -
  obtain rows i where rows: "seal_fields env ps (va_drawn w) = (Inr rows, i)"
    using assms(2,4) by (auto simp: secret_update_def split: sum.splits prod.splits)
  obtain u' where up: "upsert env u s rows (w\<lparr>va_drawn := i\<rparr>) = (Inr (), u')" and w': "va_rows w' = va_rows u'"
    using assms(2,4) rows by (auto simp: secret_update_def audit_def split: sum.splits prod.splits)
  have "list_all2 (sealed_as env) ps rows"
    using assms(1,3) rows by (auto simp: steady_def intro: seal_fields_Inr)
  then show ?thesis using stored_after_upsert [OF up] w' by (intro sealed_fetch [OF assms(1)]) simp_all
qed

lemma stored_update_other:
  "u \<noteq> v \<Longrightarrow> stored v s' k (va_rows (snd (secret_update env u s ps w))) = stored v s' k (va_rows w)"
  using secret_update_other [of u v env s ps w] by (metis stored_user_rows)

interpretation vlt: secret_store "secret_fetch env" "secret_update env" "\<lambda>_. steady env" for env
  by unfold_locales (auto simp: update_then_fetch secret_fetch_steady stored_update_other)

section \<open>Properties\<close>

lemma secret_fetch_reads:
  "fst (secret_fetch env u s f w) =
     (case ve_fault env (va_calls w) of
        Some e \<Rightarrow> Inl (AgentFailed (''credentials store: '' @ db_error_text (DbDatabase e)))
      | None \<Rightarrow>
          (case map_option (decrypt (ve_aead env) (ve_key env)) (stored u s f (va_rows w)) of
             None \<Rightarrow> Inl (CredentialsMissing s f)
           | Some (Inr p) \<Rightarrow> Inr (Some p)
           | Some (Inl _) \<Rightarrow> Inl (CredentialsDecryptFailed s f)))"
  by (auto simp: secret_fetch_def get_raw_def fetch_row_def db_call_def split: option.splits sum.splits crypto_error.splits)

lemma put_stores:
  assumes "aead_ok (ve_aead env)" "\<forall>p \<in> set ps. valid_utf8 (snd p)"
    and "put_credentials env services user tok sid ps w = (Inr NoContent, w')"
  shows "fst (secret_fetch env (au_id user) sid k w') =
     (case ve_fault env (va_calls w') of
        Some e \<Rightarrow> Inl (AgentFailed (''credentials store: '' @ db_error_text (DbDatabase e)))
      | None \<Rightarrow> (case map_of ps k of Some v \<Rightarrow> Inr (Some v) | None \<Rightarrow> Inl (CredentialsMissing sid k)))"
proof -
  obtain svc where svc: "service_get services sid = Some svc"
    using assms(3) by (auto simp: put_credentials_def split: sum.splits option.splits)
  then have sid: "sd_id svc = sid" by (auto simp: service_get_def find_Some_iff)
  obtain rows i where rows: "seal_fields env ps (va_drawn w) = (Inr rows, i)"
    using assms(3) svc by (auto simp: put_credentials_def split: sum.splits option.splits prod.splits)
  have up: "upsert env (au_id user) sid rows (w\<lparr>va_drawn := i\<rparr>) = (Inr (), w')"
    using assms(3) svc sid rows by (auto simp: put_credentials_def split: sum.splits option.splits prod.splits)
  have "list_all2 (sealed_as env) ps rows" using assms(1,2) rows by (auto intro: seal_fields_Inr)
  from sealed_map_of [OF this, of k] show ?thesis
    using stored_after_upsert [OF up, of k]
    by (cases "map_of ps k"; cases "map_of rows k") (auto simp: secret_fetch_reads split: option.split)
qed

definition demo_vault_env :: vault_env where
  "demo_vault_env =
     \<lparr>ve_aead = demo_aead, ve_key = replicate 32 CHR ''k'', ve_fault = \<lambda>_. None, ve_debug = id,
      ve_debug_declared = sd_id, ve_ip = None, ve_user_agent = None\<rparr>"

definition empty_vault :: vault where
  "empty_vault = \<lparr>va_rows = [], va_events = [], va_calls = 0, va_drawn = 0\<rparr>"

definition bearer_user :: "nat \<Rightarrow> auth_user" where
  "bearer_user n =
     \<lparr>au_id = n, au_email = [], au_display_name = [], au_provider = [], au_roles = [], au_created_at = 0,
      au_csrf_token = [], au_session_expires_at = 0, au_session_token_hash = [], au_session_source = BearerToken\<rparr>"

lemma demo_blind: "nonce_blind demo_aead"
  by (simp add: nonce_blind_def demo_aead_def)

lemma demo_steady [simp]: "steady demo_vault_env" "nonce_blind (ve_aead demo_vault_env)"
  using demo_blind by (simp_all add: steady_def demo_vault_env_def)

text \<open>
  C13: After a \<open>PUT\<close> of the credentials of a service that succeeded, whatever faults the database has
  at other times, the read of the agents' resolver that follows returns for every field of the
  request the value that was sent, and reports every other field of that service as not configured,
  unless the database refuses that read, which is reported. The request replaces the whole service:
  the form of the web page leaves out the fields that were not typed again and takes them for kept.
\<close>

theorem stored_field_reads_back:
  assumes "aead_ok (ve_aead env)" "\<forall>p \<in> set ps. valid_utf8 (snd p)"
    and "put_credentials env services user tok sid ps w = (Inr NoContent, w')"
  shows "fst (secret_fetch env (au_id user) sid k w') =
     (case ve_fault env (va_calls w') of
        Some e \<Rightarrow> Inl (AgentFailed (''credentials store: '' @ db_error_text (DbDatabase e)))
      | None \<Rightarrow> (case map_of ps k of Some v \<Rightarrow> Inr (Some v) | None \<Rightarrow> Inl (CredentialsMissing sid k)))"
  by (rule put_stores [OF assms])

definition demo_creds :: "(string, string) dash" where
  "demo_creds = [(''host'', ''imap''), (''password'', ''s3'')]"

lemma demo_creds_valid: "\<forall>p \<in> set demo_creds. valid_utf8 (snd p)"
  by (simp add: demo_creds_def valid_ascii byte_def)

lemma demo_put:
  "fst (put_credentials demo_vault_env [demo_service] (bearer_user 1) None ''mail'' demo_creds empty_vault) = Inr NoContent"
  by code_simp

lemma stored_field_reads_back_witness:
  "\<exists>w'. put_credentials demo_vault_env [demo_service] (bearer_user 1) None ''mail'' demo_creds empty_vault = (Inr NoContent, w')
     \<and> fst (secret_fetch demo_vault_env 1 ''mail'' ''password'' w') = Inr (Some ''s3'')
     \<and> fst (secret_fetch demo_vault_env 1 ''mail'' ''port'' w') = Inl (CredentialsMissing ''mail'' ''port'')"
proof -
  obtain w' where w': "put_credentials demo_vault_env [demo_service] (bearer_user 1) None ''mail'' demo_creds empty_vault
      = (Inr NoContent, w')" using demo_put by (metis fst_conv surj_pair)
  have env: "aead_ok (ve_aead demo_vault_env)" "ve_fault demo_vault_env i = None" for i
    using demo_steady(1) by (simp_all add: steady_def)
  show ?thesis
    using w' stored_field_reads_back [OF env(1) demo_creds_valid w', of "''password''"]
      stored_field_reads_back [OF env(1) demo_creds_valid w', of "''port''"]
    by (simp add: bearer_user_def demo_creds_def env(2))
qed

text \<open>
  The form saved again with a new host and no password, as the page sends it: the password is gone.
\<close>

lemma omitted_field_lost:
  assumes "put_credentials demo_vault_env [demo_service] (bearer_user 1) None ''mail'' [(''host'', ''new'')] w = (Inr NoContent, w')"
  shows "fst (secret_fetch demo_vault_env 1 ''mail'' ''password'' w') = Inl (CredentialsMissing ''mail'' ''password'')"
proof -
  have env: "aead_ok (ve_aead demo_vault_env)" "ve_fault demo_vault_env i = None" for i
    using demo_steady(1) by (simp_all add: steady_def)
  have "\<forall>p \<in> set [(''host'', ''new'')]. valid_utf8 (snd p)" by (simp add: valid_ascii byte_def)
  from put_stores [OF env(1) this assms, of "''password''"] show ?thesis by (simp add: bearer_user_def env(2))
qed

text \<open>
  C14: Noninterference between the users of the vault: whatever requests other users interleave,
  every answer a user receives from the routes, the resolver and the write-back sink is the one
  the user would receive if the others had sent nothing.
\<close>

theorem vault_noninterference:
  assumes "steady env" "nonce_blind (ve_aead env)" "list_all op_ok ops"
  shows "filter (\<lambda>(u, _). u = v) (vault_run env services ops w)
       = vault_run env services (filter (\<lambda>op. op_user op = v) ops) w"
  by (rule noninterference_views [OF assms(1,2,3) same_view_rows [OF refl]])

definition demo_ops :: "vault_op list" where
  "demo_ops =
     [OpPut (bearer_user 1) None ''mail'' demo_creds, OpPut (bearer_user 2) None ''mail'' [(''host'', ''other'')],
      OpDelete (bearer_user 2) None ''mail'', OpFetch 1 ''mail'' ''host'']"

lemma vault_noninterference_witness:
  "filter (\<lambda>(u, _). u = 1) (vault_run demo_vault_env [demo_service] demo_ops empty_vault)
     = vault_run demo_vault_env [demo_service]
         [OpPut (bearer_user 1) None ''mail'' demo_creds, OpFetch 1 ''mail'' ''host''] empty_vault"
proof -
  have "list_all op_ok demo_ops" by (simp add: demo_ops_def demo_creds_def valid_ascii byte_def)
  from vault_noninterference [OF demo_steady this, of 1 "[demo_service]" empty_vault]
  show ?thesis by (simp add: demo_ops_def bearer_user_def del: vault_run.simps)
qed

text \<open>
  Every read of a credential that reaches the table leaves exactly one audit row for the user
  and the service, whose kind says whether the field was returned, absent or undecryptable; a
  read the database refused leaves none.
\<close>

theorem reads_audited:
  "va_events (snd (get_raw env u s f w))
   = va_events w @ (case fst (get_raw env u s f w) of
       Inl (CredStore _) \<Rightarrow> []
     | r \<Rightarrow> [\<lparr>ev_user_id = Some u,
              ev_kind = (case r of Inr _ \<Rightarrow> ''credential_access'' | Inl (CredMissing _ _) \<Rightarrow> ''credential_missing''
                         | Inl _ \<Rightarrow> ''credential_decrypt_failed''),
              ev_provider = ''credentials'', ev_ip = ve_ip env, ev_user_agent = ve_user_agent env,
              ev_target_service = Some s\<rparr>])"
  by (auto simp: get_raw_def fetch_row_def db_call_def audit_def split: option.split sum.split crypto_error.split)


text \<open>
  A request with no field at all is accepted and removes the stored credentials of the service,
  and a sink update keeps no field it does not mention.
\<close>

lemma empty_put_clears:
  assumes "steady env" "service_get services sid = Some svc" "au_session_source user = BearerToken"
  shows "\<exists>w'. put_credentials env services user tok sid [] w = (Inr NoContent, w')
           \<and> (\<forall>k. stored (au_id user) (sd_id svc) k (va_rows w') = None)"
proof -
  let ?r = "put_credentials env services user tok sid [] w"
  have "?r = (Inr NoContent, w\<lparr>va_calls := Suc (va_calls w),
      va_rows := filter (\<lambda>r. \<not> owned_by (au_id user) (sd_id svc) r) (va_rows w)\<rparr>)"
    using assms by (simp add: put_credentials_def check_csrf_def upsert_def)
  then show ?thesis by (auto intro!: exI stored_other)
qed


definition public_key :: "service_def \<Rightarrow> string \<Rightarrow> bool" where
  "public_key svc k \<longleftrightarrow> (\<exists>f \<in> set (sd_fields svc). fd_key f = k \<and> fd_kind f \<in> {FText, FUrl} \<and> fd_echo_on_edit f)"

text \<open>Two rows that differ at most in the sealed value of a field no summary echoes.\<close>

definition same_public :: "service_registry \<Rightarrow> cred_row \<Rightarrow> cred_row \<Rightarrow> bool" where
  "same_public services r r' \<longleftrightarrow> cr_user r = cr_user r' \<and> cr_service r = cr_service r' \<and> cr_field r = cr_field r'
     \<and> (cr_sealed r = cr_sealed r' \<or> (\<forall>svc \<in> set services. sd_id svc = cr_service r \<longrightarrow> \<not> public_key svc (cr_field r)))"

lemma same_public_keys:
  "list_all2 (same_public services) xs ys \<Longrightarrow>
   map cr_field (filter (owned_by v s) xs) = map cr_field (filter (owned_by v s) ys)"
  by (induction rule: list_all2_induct) (auto simp: same_public_def owned_by_def)

lemma same_public_stored:
  "list_all2 (same_public services) xs ys \<Longrightarrow> svc \<in> set services \<Longrightarrow> public_key svc k \<Longrightarrow>
   stored v (sd_id svc) k xs = stored v (sd_id svc) k ys"
  by (induction rule: list_all2_induct) (auto simp: same_public_def owned_by_def stored_def)

lemma build_plaintext_public:
  assumes "steady env" "svc \<in> set services"
  shows "list_all2 (same_public services) (va_rows w) (va_rows w') \<Longrightarrow> set fs \<subseteq> set (sd_fields svc) \<Longrightarrow>
    fst (build_plaintext_values env (sd_id svc) filled v fs out w)
    = fst (build_plaintext_values env (sd_id svc) filled v fs out w')"
proof (induction fs arbitrary: out w w')
  case (Cons f fs)
  from Cons.prems(1) have "list_all2 (same_public services) (va_rows (w\<lparr>va_calls := Suc (va_calls w)\<rparr>))
      (va_rows (w'\<lparr>va_calls := Suc (va_calls w')\<rparr>))" by simp
  note next_public = Cons.IH [OF this]
  show ?case
  proof (cases "fd_kind f \<in> {FText, FUrl} \<and> fd_echo_on_edit f \<and> fd_key f \<in> set filled")
    case True
    then have "public_key svc (fd_key f)" using Cons.prems(2) by (auto simp: public_key_def)
    from same_public_stored [OF Cons.prems(1) assms(2) this] show ?thesis
      using True next_public Cons.prems(2)
      by (cases "stored v (sd_id svc) (fd_key f) (va_rows w')") (auto simp: fetch_row_steady [OF assms(1)] split: sum.split)
  next
    case False
    then show ?thesis using Cons.IH Cons.prems by auto
  qed
qed simp

text \<open>
  C25: The settings pages never depend on a secret: two vaults whose rows differ only in the sealed
  values of fields that are passwords, choices or not marked for echoing give the same list of
  integrations and the same edit form.
\<close>

theorem integrations_hide_secrets:
  assumes "steady env" "list_all2 (same_public services) (va_rows w) (va_rows w')"
  shows "fst (list_integrations env services user w) = fst (list_integrations env services user w')
       \<and> fst (get_integration env services user sid w) = fst (get_integration env services user sid w')"
proof
  note keys = same_public_keys [OF assms(2)]
  show "fst (list_integrations env services user w) = fst (list_integrations env services user w')"
    by (intro list_integrations_same [OF assms(1)] allI keys)
  show "fst (get_integration env services user sid w) = fst (get_integration env services user sid w')"
  proof (cases "service_get services sid")
    case (Some svc)
    then have svc: "svc \<in> set services" by (auto simp: service_get_def find_Some_iff)
    from assms(2) have "list_all2 (same_public services) (va_rows (w\<lparr>va_calls := Suc (va_calls w)\<rparr>))
      (va_rows (w'\<lparr>va_calls := Suc (va_calls w')\<rparr>))" by simp
    from build_plaintext_public [OF assms(1) svc this order_refl]
    show ?thesis using Some keys by (simp add: get_integration_def list_field_keys_steady [OF assms(1)] case_prod_beta Let_def)
  qed (simp add: get_integration_def)
qed

definition secret_vault :: "string \<Rightarrow> vault" where
  "secret_vault password =
     empty_vault\<lparr>va_rows := [\<lparr>cr_user = 1, cr_service = ''mail'', cr_field = ''password'',
        cr_sealed = \<lparr>en_nonce = replicate 12 CHR ''n'', en_ciphertext = password\<rparr>\<rparr>]\<rparr>"

lemma integrations_hide_secrets_witness:
  "secret_vault ''a'' \<noteq> secret_vault ''b''
   \<and> fst (get_integration demo_vault_env [demo_service] (bearer_user 1) ''mail'' (secret_vault ''a''))
     = fst (get_integration demo_vault_env [demo_service] (bearer_user 1) ''mail'' (secret_vault ''b''))"
proof -
  have "list_all2 (same_public [demo_service]) (va_rows (secret_vault ''a'')) (va_rows (secret_vault ''b''))"
    by (simp add: secret_vault_def same_public_def public_key_def demo_service_def demo_field_def)
  moreover have "va_rows (secret_vault ''a'') \<noteq> va_rows (secret_vault ''b'')" by (simp add: secret_vault_def)
  ultimately show ?thesis using integrations_hide_secrets [OF demo_steady(1), of "[demo_service]"] by metis
qed

end
