(* ===== verification/X_Account.thy ===== *)
theory X_Account
  imports Vault_Props Egress
begin

text \<open>
  Connecting an X account: the three routes of \<open>nagent-server/src/oauth/x.rs\<close> over the store of
  pending states (\<open>Ttl_Clients\<close>) and the credentials vault. The OAuth client, the network, the
  clock and the \<open>uuid\<close> crate are parameters; the random bytes of a state token are arguments. The
  texts that only reach the log are left out.
\<close>

section \<open>Environment\<close>

record x_oauth_config =
  xc_enabled :: bool
  xc_client_id :: string
  xc_client_secret :: "string option"
  xc_redirect_path :: string
  xc_scopes :: "string list"
  xc_timeout_ms :: nat

definition redirect_url :: "x_oauth_config \<Rightarrow> string \<Rightarrow> string" where
  "redirect_url cfg public_url = trim_end_matches CHR ''/'' public_url @ xc_redirect_path cfg"

definition default_scopes :: "string list" where
  "default_scopes = [''tweet.read'', ''users.read'', ''follows.read'']"

definition requested_scopes :: "x_oauth_config \<Rightarrow> string list" where
  "requested_scopes cfg = (if xc_scopes cfg = [] then default_scopes else xc_scopes cfg)"

record token_response =
  tr_access_token :: string
  tr_refresh_token :: "string option"
  tr_expires_in :: "nat option"
  tr_scopes :: "string list option"

text \<open>\<open>oauth2::RequestTokenError\<close>.\<close>

datatype token_error =
    ServerResponse string | RequestFailed string | ParseFailed string string | OtherFailure string

record x_env =
  xo_cfg :: x_oauth_config
  xo_public_url :: string
  xo_encode :: "nat list \<Rightarrow> string"
  xo_challenge :: "string \<Rightarrow> string"
  xo_authorize :: "string \<Rightarrow> string \<Rightarrow> string list \<Rightarrow> string"
  xo_exchange :: "string \<Rightarrow> string \<Rightarrow> token_error + token_response"
  xo_me :: "string \<Rightarrow> string + nat \<times> (string + string)"
  xo_js :: json_codec
  xo_uuid_text :: "uuid \<Rightarrow> string"
  xo_uuid_parse :: "string \<Rightarrow> string + uuid"
  xo_time_text :: "int \<Rightarrow> string"
  xo_vault :: vault_env

record x_state =
  xs_pending :: "json state_store"
  xs_vault :: vault

record callback_query =
  cq_code :: "string option"
  cq_state :: "string option"
  cq_error :: "string option"
  cq_error_description :: "string option"

datatype x_response = RedirectToX string | RedirectError string | RedirectStatus string | Disconnected

text \<open>\<open>build_state\<close> refuses a disabled or unnamed client; building the client may also fail.\<close>

definition build_state :: "x_oauth_config \<Rightarrow> bool \<Rightarrow> json state_store option" where
  "build_state cfg client_builds =
     (if \<not> xc_enabled cfg \<or> xc_client_id cfg = [] then None
      else if \<not> client_builds then None else state_store_new)"

section \<open>The token endpoint\<close>

record x_token =
  xt_access_token :: string
  xt_refresh_token :: "string option"
  xt_expires_in :: nat
  xt_scope :: "string option"

text \<open>A lifetime below a minute, or none, is corrected.\<close>

definition token_of_response :: "token_response \<Rightarrow> x_token" where
  "token_of_response r =
     \<lparr>xt_access_token = tr_access_token r, xt_refresh_token = tr_refresh_token r,
      xt_expires_in = max (unwrap_or 3600 (tr_expires_in r)) 60,
      xt_scope = map_option (join_with '' '') (tr_scopes r)\<rparr>"

definition exchange_code :: "x_env \<Rightarrow> string \<Rightarrow> string \<Rightarrow> token_error + x_token" where
  "exchange_code env code pkce_verifier = map_sum id token_of_response (xo_exchange env code pkce_verifier)"

definition lookup_me :: "x_env \<Rightarrow> string \<Rightarrow> string + string \<times> string" where
  "lookup_me env bearer =
     (case xo_me env bearer of
        Inl e \<Rightarrow> Inl (''transport: '' @ e)
      | Inr (status, Inl e) \<Rightarrow> Inl (''read: '' @ e)
      | Inr (status, Inr body) \<Rightarrow>
          if \<not> is_success status then Inl (''non-success status '' @ nat_to_string status)
          else case js_parse (xo_js env) body of
                 None \<Rightarrow> Inl ''parse''
               | Some parsed \<Rightarrow>
                   (case jget ''data'' parsed of
                      None \<Rightarrow> Inl ''parse''
                    | Some data \<Rightarrow>
                        (case jget_str ''id'' data of
                           None \<Rightarrow> Inl ''missing id''
                         | Some user_id \<Rightarrow>
                             (case jget_str ''username'' data of
                                None \<Rightarrow> Inl ''missing username''
                              | Some screen_name \<Rightarrow> Inr (user_id, screen_name)))))"

definition account_fields :: "x_env \<Rightarrow> x_token \<Rightarrow> string \<Rightarrow> string \<Rightarrow> int \<Rightarrow> (string \<times> string) list" where
  "account_fields env tok x_screen_name x_user_id expires_at =
     [(''access_token'', xt_access_token tok), (''x_screen_name'', x_screen_name), (''x_user_id'', x_user_id),
      (''token_expires_at'', xo_time_text env expires_at), (''refresh_token'', unwrap_or [] (xt_refresh_token tok)),
      (''token_scope'', unwrap_or [] (xt_scope tok))]"

section \<open>The routes\<close>

definition oauth_audit :: "uuid \<Rightarrow> string \<Rightarrow> vault \<Rightarrow> vault" where
  "oauth_audit user kind w =
     w\<lparr>va_events := va_events w @
        [\<lparr>ev_user_id = Some user, ev_kind = kind, ev_provider = ''oauth_x'', ev_ip = None, ev_user_agent = None,
          ev_target_service = Some ''x_account''\<rparr>]\<rparr>"

text \<open>\<open>verifier\<close> is the random verifier of the new pair, \<open>bytes\<close> the random bytes of the state token.\<close>

definition start_handler ::
    "x_env \<Rightarrow> uuid \<Rightarrow> string \<Rightarrow> nat list \<Rightarrow> nat \<Rightarrow> instant \<Rightarrow> nat \<Rightarrow> x_state \<Rightarrow> (auth_error + x_response) \<times> x_state" where
  "start_handler env user verifier bytes pos now unix_now s =
     (let payload = JObj [(''user_id'', JStr (xo_uuid_text env user)), (''pkce_verifier'', JStr verifier),
                          (''created_at'', JStr (xo_time_text env (int unix_now)))];
          (pending, state_token) = state_push (xo_encode env) bytes pos now unix_now payload (xs_pending s)
      in (Inr (RedirectToX (xo_authorize env state_token (xo_challenge env verifier) (requested_scopes (xo_cfg env)))),
          s\<lparr>xs_pending := pending\<rparr>))"

definition connect :: "x_env \<Rightarrow> uuid \<Rightarrow> string \<Rightarrow> string \<Rightarrow> int \<Rightarrow> vault \<Rightarrow> (auth_error + x_response) \<times> vault" where
  "connect env session_user code pkce_verifier now w =
     (case exchange_code env code pkce_verifier of
        Inl _ \<Rightarrow> (Inr (RedirectError ''token_exchange_failed''), w)
      | Inr tok \<Rightarrow>
          (let expires_at = now + int (xt_expires_in tok)
           in case lookup_me env (xt_access_token tok) of
                Inl _ \<Rightarrow> (Inr (RedirectError ''users_me_failed''), w)
              | Inr (x_user_id, x_screen_name) \<Rightarrow>
                  (case seal_fields (xo_vault env) (account_fields env tok x_screen_name x_user_id expires_at) (va_drawn w) of
                     (Inl field_key, drawn) \<Rightarrow>
                       (Inl (AuthInternal (''x_oauth encrypt failed for field `'' @ field_key @ ''`: '' @ crypto_error_text)),
                        w\<lparr>va_drawn := drawn\<rparr>)
                   | (Inr rows, drawn) \<Rightarrow>
                       (case upsert (xo_vault env) session_user ''x_account'' rows (w\<lparr>va_drawn := drawn\<rparr>) of
                          (Inl e, w) \<Rightarrow>
                            (Inl (AuthInternal (''x_oauth credentials upsert: '' @ db_error_text e)), w)
                        | (Inr _, w) \<Rightarrow>
                            (Inr (RedirectStatus ''connected''),
                             oauth_audit session_user ''credential_oauth_x_connected'' w)))))"

text \<open>The clock is read twice: for the age of the state, and once the tokens are there.\<close>

definition callback_handler ::
    "x_env \<Rightarrow> uuid \<Rightarrow> callback_query \<Rightarrow> nat \<Rightarrow> int \<Rightarrow> x_state \<Rightarrow> (auth_error + x_response) \<times> x_state" where
  "callback_handler env session_user q unix_now exchanged_at s =
     (case cq_state q of
        None \<Rightarrow> (Inr (RedirectError ''missing_state''), s)
      | Some state_token \<Rightarrow>
          (case state_pop unix_now state_token (xs_pending s) of
             (pending, None) \<Rightarrow> (Inr (RedirectError ''expired_state''), s\<lparr>xs_pending := pending\<rparr>)
           | (pending, Some entry) \<Rightarrow>
               (let s = s\<lparr>xs_pending := pending\<rparr>
                in case jget_str ''user_id'' (payload entry) of
                     None \<Rightarrow> (Inl (AuthInternal ''x_oauth state payload missing user_id''), s)
                   | Some text \<Rightarrow>
                       (case xo_uuid_parse env text of
                          Inl e \<Rightarrow> (Inl (AuthInternal (''x_oauth user_id parse: '' @ e)), s)
                        | Inr state_user \<Rightarrow>
                            if state_user \<noteq> session_user then (Inr (RedirectError ''user_mismatch''), s)
                            else case jget_str ''pkce_verifier'' (payload entry) of
                                   None \<Rightarrow> (Inl (AuthInternal ''x_oauth state payload missing pkce_verifier''), s)
                                 | Some pkce_verifier \<Rightarrow>
                                     (if cq_error q \<noteq> None then (Inr (RedirectError ''oauth_error''), s)
                                      else case cq_code q of
                                             None \<Rightarrow> (Inr (RedirectError ''missing_code''), s)
                                           | Some code \<Rightarrow>
                                               (let (r, w) = connect env session_user code pkce_verifier exchanged_at (xs_vault s)
                                                in (r, s\<lparr>xs_vault := w\<rparr>)))))))"

definition disconnect_handler :: "x_env \<Rightarrow> uuid \<Rightarrow> x_state \<Rightarrow> (auth_error + x_response) \<times> x_state" where
  "disconnect_handler env user s =
     (case delete_service (xo_vault env) user ''x_account'' (xs_vault s) of
        (Inl e, w) \<Rightarrow> (Inl (AuthInternal (''x_oauth disconnect: '' @ db_error_text e)), s\<lparr>xs_vault := w\<rparr>)
      | (Inr _, w) \<Rightarrow> (Inr Disconnected, s\<lparr>xs_vault := oauth_audit user ''credential_oauth_x_disconnected'' w\<rparr>))"


section \<open>Whose account gets connected\<close>

datatype x_op =
    XStart uuid string "nat list" nat instant nat
  | XCallback uuid callback_query nat int
  | XDisconnect uuid

fun x_step :: "x_env \<Rightarrow> x_op \<Rightarrow> x_state \<Rightarrow> (auth_error + x_response) \<times> x_state" where
  "x_step env (XStart user verifier bytes pos now unix_now) s = start_handler env user verifier bytes pos now unix_now s"
| "x_step env (XCallback user q unix_now exchanged_at) s = callback_handler env user q unix_now exchanged_at s"
| "x_step env (XDisconnect user) s = disconnect_handler env user s"

fun x_run :: "x_env \<Rightarrow> x_op list \<Rightarrow> x_state \<Rightarrow> x_state" where
  "x_run env [] s = s"
| "x_run env (op # ops) s = x_run env ops (snd (x_step env op s))"

fun uses_token :: "string \<Rightarrow> x_op \<Rightarrow> bool" where
  "uses_token t (XCallback _ q _ _) \<longleftrightarrow> cq_state q = Some t"
| "uses_token t _ \<longleftrightarrow> False"

definition pending_payload :: "x_env \<Rightarrow> uuid \<Rightarrow> string \<Rightarrow> nat \<Rightarrow> json" where
  "pending_payload env user verifier unix_now =
     JObj [(''user_id'', JStr (xo_uuid_text env user)), (''pkce_verifier'', JStr verifier),
           (''created_at'', JStr (xo_time_text env (int unix_now)))]"

text \<open>Where a pending entry comes from: a start with its token, not followed by a callback with it.\<close>

definition started :: "x_env \<Rightarrow> x_op list \<Rightarrow> string \<Rightarrow> json state_store_entry \<Rightarrow> bool" where
  "started env ops t e \<longleftrightarrow>
     (\<exists>pre post u v bytes pos now un. ops = pre @ XStart u v bytes pos now un # post \<and> xo_encode env bytes = t
        \<and> e = \<lparr>created_at_unix = un, payload = pending_payload env u v un\<rparr> \<and> (\<forall>op \<in> set post. \<not> uses_token t op))"

lemma started_snoc: "started env ops t e \<Longrightarrow> \<not> uses_token t op \<Longrightarrow> started env (ops @ [op]) t e"
proof -
  assume "started env ops t e" "\<not> uses_token t op"
  then obtain pre post u v bytes pos now un where
    *: "ops = pre @ XStart u v bytes pos now un # post" "xo_encode env bytes = t"
       "e = \<lparr>created_at_unix = un, payload = pending_payload env u v un\<rparr>" "\<forall>op \<in> set post. \<not> uses_token t op"
    by (auto simp: started_def)
  then show ?thesis using \<open>\<not> uses_token t op\<close> unfolding started_def
    by (intro exI [of _ pre] exI [of _ "post @ [op]"] exI [of _ u] exI [of _ v] exI [of _ bytes] exI [of _ pos]
        exI [of _ now] exI [of _ un]) simp
qed

lemma ttl_insert_source:
  assumes "dash_ok (tm_inner m)" "dash_get (tm_inner (fst (ttl_insert pos now k v m))) k' = Some e"
  shows "(k' = k \<and> te_value e = v) \<or> dash_get (tm_inner m) k' = Some e"
proof (cases "dash_get (tm_inner m) k")
  case None
  have "dash_get (ttl_grown pos now k v m) k' = Some e"
    using assms(2) enforce_cap_submap [of "tm_max_entries m" "ttl_grown pos now k v m"]
    by (auto simp: ttl_insert_new [OF None] map_le_def) (metis domI)
  then show ?thesis by (auto simp: ttl_grown_get [OF assms(1) None] dash_get_retain [OF assms(1)] split: if_splits option.splits)
next
  case (Some e')
  then show ?thesis using assms(2) by (auto simp: ttl_insert_old [OF Some] dash_get_put split: if_splits)
qed

lemma callback_pending:
  "xs_pending (snd (callback_handler env user q un ex s))
   = (case cq_state q of None \<Rightarrow> xs_pending s | Some t \<Rightarrow> fst (state_pop un t (xs_pending s)))"
  by (auto simp: callback_handler_def Let_def case_prod_beta split: option.split sum.split prod.split)

lemma disconnect_pending: "xs_pending (snd (disconnect_handler env user s)) = xs_pending s"
  by (simp add: disconnect_handler_def split: prod.split sum.split)

definition pending_ok :: "x_env \<Rightarrow> x_op list \<Rightarrow> x_state \<Rightarrow> bool" where
  "pending_ok env ops s \<longleftrightarrow> dash_ok (tm_inner (xs_pending s))
     \<and> (\<forall>t e. dash_get (tm_inner (xs_pending s)) t = Some e \<longrightarrow> started env ops t (te_value e))"

lemma pending_ok_step:
  assumes "pending_ok env ops s"
  shows "pending_ok env (ops @ [op]) (snd (x_step env op s))"
proof (cases op)
  case (XStart user verifier bytes pos now un)
  let ?e = "\<lparr>created_at_unix = un, payload = pending_payload env user verifier un\<rparr>"
  let ?m = "fst (ttl_insert pos now (xo_encode env bytes) ?e (xs_pending s))"
  have s': "xs_pending (snd (x_step env op s)) = ?m"
    by (simp add: XStart start_handler_def state_push_def pending_payload_def Let_def)
  have ok: "dash_ok (tm_inner (xs_pending s))" using assms by (simp add: pending_ok_def)
  have "started env (ops @ [op]) t (te_value e)" if e: "dash_get (tm_inner ?m) t = Some e" for t e
    using ttl_insert_source [OF ok e]
  proof (elim disjE conjE)
    assume "t = xo_encode env bytes" "te_value e = ?e"
    then show ?thesis unfolding started_def XStart by (intro exI [of _ ops] exI [of _ "[]"]) auto
  next
    assume "dash_get (tm_inner (xs_pending s)) t = Some e"
    then have "started env ops t (te_value e)" using assms by (simp add: pending_ok_def)
    then show ?thesis by (rule started_snoc) (simp add: XStart)
  qed
  then show ?thesis using assms unfolding pending_ok_def s' by (auto simp: ttl_insert_dash_ok)
next
  case (XCallback user q un ex)
  show ?thesis
  proof (cases "cq_state q")
    case None
    then show ?thesis using assms XCallback by (auto simp: pending_ok_def callback_pending intro: started_snoc)
  next
    case (Some t)
    then show ?thesis using assms XCallback
      by (auto simp: pending_ok_def callback_pending state_pop_inner dash_get_remove intro: started_snoc split: if_splits)
  qed
next
  case (XDisconnect user)
  then show ?thesis using assms by (auto simp: pending_ok_def disconnect_pending intro: started_snoc)
qed

lemma pending_ok_run: "pending_ok env done s \<Longrightarrow> pending_ok env (done @ ops) (x_run env ops s)"
proof (induction ops arbitrary: "done" s)
  case (Cons op ops)
  then show ?case using Cons.IH [OF pending_ok_step [OF Cons.prems, of op]] by simp
qed simp


lemma callback_connectedD:
  assumes "fst (callback_handler env u q un ex s) = Inr (RedirectStatus r)"
  obtains t entry uid_text verifier code where
    "cq_state q = Some t" "snd (state_pop un t (xs_pending s)) = Some entry"
    "jget_str ''user_id'' (payload entry) = Some uid_text" "xo_uuid_parse env uid_text = Inr u"
    "jget_str ''pkce_verifier'' (payload entry) = Some verifier" "cq_code q = Some code"
    "fst (connect env u code verifier ex (xs_vault s)) = Inr (RedirectStatus r)"
    "xs_vault (snd (callback_handler env u q un ex s)) = snd (connect env u code verifier ex (xs_vault s))"
  using assms
  by (auto simp: callback_handler_def Let_def case_prod_beta split: option.splits sum.splits prod.splits if_splits)

lemma connectD:
  assumes "fst (connect env u code verifier now w) = Inr (RedirectStatus r)"
  obtains tok x_user_id x_screen_name rows i w' where
    "exchange_code env code verifier = Inr tok" "lookup_me env (xt_access_token tok) = Inr (x_user_id, x_screen_name)"
    "seal_fields (xo_vault env) (account_fields env tok x_screen_name x_user_id (now + int (xt_expires_in tok))) (va_drawn w)
       = (Inr rows, i)"
    "upsert (xo_vault env) u ''x_account'' rows (w\<lparr>va_drawn := i\<rparr>) = (Inr (), w')"
    "snd (connect env u code verifier now w) = oauth_audit u ''credential_oauth_x_connected'' w'"
  using assms by (auto simp: connect_def Let_def split: sum.splits prod.splits)

lemma connect_others:
  assumes "v \<noteq> u"
  shows "user_rows v (va_rows (snd (connect env u code verifier now w))) = user_rows v (va_rows w)"
  using not_sym [OF assms] by (auto simp: connect_def Let_def oauth_audit_def dest: upsert_drawn_other split: sum.split prod.split)

lemma callback_others:
  assumes "v \<noteq> u"
  shows "user_rows v (va_rows (xs_vault (snd (callback_handler env u q un ex s)))) = user_rows v (va_rows (xs_vault s))"
  using connect_others [OF assms]
  by (auto simp: callback_handler_def Let_def case_prod_beta split: option.split sum.split prod.split)

lemma state_pop_entry:
  assumes "snd (state_pop un t m) = Some entry"
  obtains e where "dash_get (tm_inner m) t = Some e" "te_value e = entry" "secs (un - created_at_unix entry) < state_ttl"
  using assms by (auto simp: state_pop_def ttl_remove_def is_expired_def split: option.splits if_splits)

lemma connected_from_start:
  assumes "\<And>u. xo_uuid_parse env (xo_uuid_text env u) = Inr u" and "tm_inner (xs_pending s) = []"
    and "fst (callback_handler env u q un ex (x_run env ops s)) = Inr (RedirectStatus r)"
  shows "\<exists>pre post verifier bytes pos now un' code tok. ops = pre @ XStart u verifier bytes pos now un' # post
       \<and> cq_state q = Some (xo_encode env bytes) \<and> secs (un - un') < state_ttl
       \<and> (\<forall>op \<in> set post. \<not> uses_token (xo_encode env bytes) op)
       \<and> cq_code q = Some code \<and> exchange_code env code verifier = Inr tok"
proof -
  from assms(3) obtain t entry uid_text verifier code where
    t: "cq_state q = Some t" "snd (state_pop un t (xs_pending (x_run env ops s))) = Some entry"
      "jget_str ''user_id'' (payload entry) = Some uid_text" "xo_uuid_parse env uid_text = Inr u"
      "jget_str ''pkce_verifier'' (payload entry) = Some verifier" "cq_code q = Some code"
      "fst (connect env u code verifier ex (xs_vault (x_run env ops s))) = Inr (RedirectStatus r)"
    by (rule callback_connectedD)
  from t(2) obtain e where e: "dash_get (tm_inner (xs_pending (x_run env ops s))) t = Some e" "te_value e = entry"
      "secs (un - created_at_unix entry) < state_ttl" by (rule state_pop_entry)
  have "pending_ok env ([] @ ops) (x_run env ops s)"
    using assms(2) by (intro pending_ok_run) (simp add: pending_ok_def)
  then have "started env ops t entry" using e(1,2) by (auto simp: pending_ok_def)
  then obtain pre post u' v bytes pos now un' where
    st: "ops = pre @ XStart u' v bytes pos now un' # post" "xo_encode env bytes = t"
      "entry = \<lparr>created_at_unix = un', payload = pending_payload env u' v un'\<rparr>" "\<forall>op \<in> set post. \<not> uses_token t op"
    by (auto simp: started_def)
  have u: "u' = u" and v: "v = verifier" using t(3-5) st(3) assms(1) by (auto simp: pending_payload_def jget_str_def)
  obtain tok where "exchange_code env code verifier = Inr tok" using t(7) by (rule connectD)
  then show ?thesis using st t(1,6) e(3) unfolding u v
    by (intro exI [of _ pre] exI [of _ post] exI [of _ verifier] exI [of _ bytes] exI [of _ pos] exI [of _ now]
        exI [of _ un'] exI [of _ code] exI [of _ tok]) simp
qed

text \<open>
  C15: A callback connects an X account only for the user who asked for it: the state it presents was
  issued to a start of the same user less than ten minutes earlier and has not been presented
  since, the code is redeemed with the verifier of that start, and the vault of every other user
  is left alone.
\<close>

theorem x_connect_bound_to_start:
  assumes "\<And>u. xo_uuid_parse env (xo_uuid_text env u) = Inr u" and "tm_inner (xs_pending s) = []"
    and "fst (callback_handler env u q un ex (x_run env ops s)) = Inr (RedirectStatus r)"
  shows "(\<exists>pre post verifier bytes pos now un' code tok. ops = pre @ XStart u verifier bytes pos now un' # post
        \<and> cq_state q = Some (xo_encode env bytes) \<and> secs (un - un') < state_ttl
        \<and> (\<forall>op \<in> set post. \<not> uses_token (xo_encode env bytes) op)
        \<and> cq_code q = Some code \<and> exchange_code env code verifier = Inr tok)
     \<and> (\<forall>v. v \<noteq> u \<longrightarrow> user_rows v (va_rows (xs_vault (snd (callback_handler env u q un ex (x_run env ops s)))))
                     = user_rows v (va_rows (xs_vault (x_run env ops s))))"
  using connected_from_start [OF assms] callback_others by blast

definition demo_x_env :: x_env where
  "demo_x_env =
     \<lparr>xo_cfg = \<lparr>xc_enabled = True, xc_client_id = ''id'', xc_client_secret = None, xc_redirect_path = ''/cb'',
                xc_scopes = [], xc_timeout_ms = 8000\<rparr>,
      xo_public_url = ''https://h'', xo_encode = \<lambda>_. ''A'', xo_challenge = id, xo_authorize = \<lambda>t c s. t,
      xo_exchange = \<lambda>code v. Inr \<lparr>tr_access_token = ''at'', tr_refresh_token = Some ''rt'', tr_expires_in = Some 7200,
                                  tr_scopes = None\<rparr>,
      xo_me = \<lambda>_. Inr (200, Inr ''me''),
      xo_js = \<lparr>js_parse = \<lambda>_. Some (JObj [(''data'', JObj [(''id'', JStr ''42''), (''username'', JStr ''neo'')])]),
               js_error = id, js_show = \<lambda>_. []\<rparr>,
      xo_uuid_text = \<lambda>u. replicate u CHR ''x'', xo_uuid_parse = \<lambda>s. Inr (length s),
      xo_time_text = \<lambda>_. ''t'', xo_vault = demo_vault_env\<rparr>"


definition demo_x_state :: x_state where
  "demo_x_state =
     \<lparr>xs_pending = \<lparr>tm_inner = [], tm_ttl = state_ttl, tm_max_entries = max_state_entries\<rparr>, xs_vault = empty_vault\<rparr>"

definition demo_callback :: callback_query where
  "demo_callback = \<lparr>cq_code = Some ''c'', cq_state = Some ''A'', cq_error = None, cq_error_description = None\<rparr>"

lemma demo_pending:
  "xs_pending (x_run demo_x_env [XStart 1 ''v'' [65] 0 0 100] demo_x_state)
   = \<lparr>tm_inner = [(''A'', \<lparr>te_value = \<lparr>created_at_unix = 100, payload = pending_payload demo_x_env 1 ''v'' 100\<rparr>,
        te_expires_at = state_ttl\<rparr>)], tm_ttl = state_ttl, tm_max_entries = max_state_entries\<rparr>"
  by (simp add: start_handler_def state_push_def ttl_insert_def demo_x_state_def demo_x_env_def pending_payload_def
      Let_def sweep_expired_at_def dash_retain_def insert_at_def max_state_entries_def enforce_cap_id)

lemma demo_vault_after_start:
  "xs_vault (x_run demo_x_env [XStart 1 ''v'' [65] 0 0 100] demo_x_state) = empty_vault"
  by (simp add: start_handler_def Let_def case_prod_beta demo_x_state_def)

lemma demo_connect:
  "fst (connect demo_x_env 1 ''c'' ''v'' 200 empty_vault) = Inr (RedirectStatus ''connected'')"
  by (simp add: connect_def exchange_code_def lookup_me_def token_of_response_def is_success_def jget_str_def Let_def
      demo_x_env_def demo_vault_env_def demo_aead_def empty_vault_def account_fields_def encrypt_def upsert_def db_call_def)

lemma demo_connected:
  "fst (callback_handler demo_x_env 1 demo_callback 200 200 (x_run demo_x_env [XStart 1 ''v'' [65] 0 0 100] demo_x_state))
   = Inr (RedirectStatus ''connected'')"
proof -
  let ?s = "x_run demo_x_env [XStart 1 ''v'' [65] 0 0 100] demo_x_state"
  let ?p = "pending_payload demo_x_env 1 ''v'' 100"
  have "snd (state_pop 200 ''A'' (xs_pending ?s)) = Some \<lparr>created_at_unix = 100, payload = ?p\<rparr>"
    unfolding demo_pending by (simp add: state_pop_def ttl_remove_def is_expired_def state_ttl_def ns_per_sec_def)
  then obtain m where m: "state_pop 200 ''A'' (xs_pending ?s) = (m, Some \<lparr>created_at_unix = 100, payload = ?p\<rparr>)"
    by (metis prod.collapse)
  obtain w where w: "connect demo_x_env 1 ''c'' ''v'' 200 empty_vault = (Inr (RedirectStatus ''connected''), w)"
    using demo_connect by (metis prod.collapse)
  have uid: "jget_str ''user_id'' ?p = Some ''x''" "jget_str ''pkce_verifier'' ?p = Some ''v''"
    "xo_uuid_parse demo_x_env ''x'' = Inr 1"
    by (simp_all add: pending_payload_def jget_str_def demo_x_env_def)
  show ?thesis
    unfolding callback_handler_def demo_callback_def using demo_vault_after_start
    by (simp add: m w uid del: x_run.simps One_nat_def)
qed

lemma x_connect_bound_to_start_witness:
  "\<exists>pre post verifier bytes pos now un' code tok. [XStart 1 ''v'' [65] 0 0 100] = pre @ XStart 1 verifier bytes pos now un' # post
        \<and> cq_state demo_callback = Some (xo_encode demo_x_env bytes) \<and> secs (200 - un') < state_ttl
        \<and> (\<forall>op \<in> set post. \<not> uses_token (xo_encode demo_x_env bytes) op)
        \<and> cq_code demo_callback = Some code \<and> exchange_code demo_x_env code verifier = Inr tok"
  using x_connect_bound_to_start [of demo_x_env demo_x_state 1 demo_callback 200 200 "[XStart 1 ''v'' [65] 0 0 100]", OF _ _ demo_connected]
  by (simp add: demo_x_env_def demo_x_state_def)

end
