(* ===== verification/X_Timeline.thy ===== *)
theory X_Timeline
  imports X_Account "HOL-Library.Option_ord"
begin

text \<open>
  The agent \<open>x_timeline\<close> (\<open>nagent-agents/src/agents/x_timeline/mod.rs\<close>): the answers it caches per
  user and mode, the decision to refresh the access token and the write-back of the new one, the
  request, and the projection of the answer. The OAuth client, the network, \<open>chrono\<close> and the
  process environment are parameters. A point of time is a number of nanoseconds; the clock is
  read where the code reads it, and \<open>timeline_clock\<close> holds the readings of one call. A token
  lifetime beyond the range of \<open>chrono\<close>, on which the code panics, is not considered.
\<close>

section \<open>Configuration, state, parameters\<close>

record timeline_config =
  tc_timeout_ms :: nat
  tc_max_posts :: nat
  tc_allowlist :: "string list"
  tc_cache_ttl_secs :: nat
  tc_base_url :: string

definition timeline_defaults :: timeline_config where
  "timeline_defaults =
     \<lparr>tc_timeout_ms = 8000, tc_max_posts = 20, tc_allowlist = [''api.x.com'', ''x.com''], tc_cache_ttl_secs = 60,
      tc_base_url = ''https://api.x.com''\<rparr>"

definition timeline_egress :: "timeline_config \<Rightarrow> egress_config" where
  "timeline_egress cfg =
     egress_finalize \<lparr>eg_timeout_ms = tc_timeout_ms cfg, eg_allow_public = True, eg_allowlist = tc_allowlist cfg,
                      eg_max_bytes = 2 * 1024 * 1024\<rparr>"

type_synonym timeline_cache = "(uuid \<times> string, int \<times> string) dash"

record timeline_request =
  tq_url :: string
  tq_bearer :: string

text \<open>\<open>ta_sent\<close> is the trace of the requests; no decision reads it.\<close>

record timeline_agent =
  ta_cache :: timeline_cache
  ta_sent :: "timeline_request list"

record client_creds =
  cc_client_id :: string
  cc_client_secret :: "string option"

record timeline_env =
  te_net :: egress_env
  te_env_var :: "string \<Rightarrow> string option"
  te_url_error :: "string \<Rightarrow> string option"
  te_refresh :: "string \<Rightarrow> client_creds \<Rightarrow> string \<Rightarrow> token_error + token_response"
  te_send :: "timeline_request \<Rightarrow> string + nat \<times> (string + string)"
  te_js :: json_codec
  te_parse_time :: "string \<Rightarrow> int option"
  te_time_text :: "int \<Rightarrow> string"
  te_addr_text :: "ip_addr \<Rightarrow> nat \<Rightarrow> string"

record timeline_clock =
  tk_secret :: "string \<Rightarrow> nat \<times> instant \<times> instant"
  tk_cache :: int
  tk_stale :: int
  tk_refreshed :: int
  tk_projected :: int
  tk_fetched :: int
  tk_put :: int

definition nanos :: "int \<Rightarrow> int" where
  "nanos s = s * 1000000000"

text \<open>\<open>num_seconds\<close> of a signed duration rounds toward zero.\<close>

definition num_seconds :: "int \<Rightarrow> int" where
  "num_seconds d = (if d < 0 then - (- d div nanos 1) else d div nanos 1)"

text \<open>\<open>as i64\<close>.\<close>

definition as_i64 :: "nat \<Rightarrow> int" where
  "as_i64 n = (if n mod 2 ^ 64 < 2 ^ 63 then int (n mod 2 ^ 64) else int (n mod 2 ^ 64) - 2 ^ 64)"

section \<open>The cache\<close>

definition cache_get :: "timeline_config \<Rightarrow> int \<Rightarrow> uuid \<Rightarrow> string \<Rightarrow> timeline_cache \<Rightarrow> string option" where
  "cache_get cfg now user mode cache =
     (if tc_cache_ttl_secs cfg = 0 then None
      else case dash_get cache (user, mode) of
             None \<Rightarrow> None
           | Some (fetched_at, answer) \<Rightarrow>
               (let age = num_seconds (now - fetched_at)
                in if age < 0 \<or> as_i64 (tc_cache_ttl_secs cfg) \<le> age then None else Some answer))"

definition cache_put :: "timeline_config \<Rightarrow> int \<Rightarrow> uuid \<Rightarrow> string \<Rightarrow> string \<Rightarrow> timeline_cache \<Rightarrow> timeline_cache" where
  "cache_put cfg now user mode answer cache =
     (if tc_cache_ttl_secs cfg = 0 then cache else dash_put (user, mode) (now, answer) cache)"

section \<open>Arguments\<close>

record timeline_args =
  tl_mode :: string
  tl_max_posts :: nat
  tl_since_hours :: "nat option"
  tl_language :: "string option"

definition parse_timeline_args :: "json \<Rightarrow> nat \<Rightarrow> agent_error + timeline_args" where
  "parse_timeline_args args cfg_cap =
     (if as_object args = None then Inl (InvalidArguments ''arguments must be a JSON object'')
      else let mode = unwrap_or ''following'' (jget_str ''mode'' args)
           in if mode \<noteq> ''following'' \<and> mode \<noteq> ''for_you''
              then Inl (InvalidArguments (''`mode` must be '' @ [CHR 0x27] @ ''following'' @ [CHR 0x27] @ '' or ''
                          @ [CHR 0x27] @ ''for_you'' @ [CHR 0x27] @ '', got `'' @ mode @ ''`''))
              else Inr \<lparr>tl_mode = mode,
                        tl_max_posts =
                          max (min (unwrap_or (min cfg_cap 20) (Option.bind (jget ''max_posts'' args) as_u64)) cfg_cap) 1,
                        tl_since_hours =
                          map_option (\<lambda>v. v mod 2 ^ 32) (Option.bind (jget ''since_hours'' args) as_u64),
                        tl_language = jget_str ''language'' args\<rparr>)"

section \<open>The tokens\<close>

definition token_endpoint_client_creds :: "(string \<Rightarrow> string option) \<Rightarrow> client_creds option" where
  "token_endpoint_client_creds env_var =
     (case env_var ''X_OAUTH_CLIENT_ID'' of
        None \<Rightarrow> None
      | Some client_id \<Rightarrow>
          if client_id = [] then None
          else Some \<lparr>cc_client_id = client_id,
                     cc_client_secret =
                       (case env_var ''X_OAUTH_CLIENT_SECRET'' of
                          None \<Rightarrow> None
                        | Some v \<Rightarrow> if v = [] then None else Some v)\<rparr>)"

record refreshed_token =
  rf_access_token :: string
  rf_new_refresh :: "string option"
  rf_expires_at :: int

fun refresh_error :: "token_error \<Rightarrow> agent_error" where
  "refresh_error (ServerResponse resp) = AgentFailed (''X OAuth refresh failed: refresh token rejected: '' @ resp)"
| "refresh_error (RequestFailed req) = AgentFailed (''X refresh transport: '' @ req)"
| "refresh_error (ParseFailed perr body) =
     AgentFailed (''X refresh parse: '' @ perr @ ''; body='' @ truncate_body (from_utf8_lossy body) 256)"
| "refresh_error (OtherFailure msg) = AgentFailed (''X refresh: '' @ msg)"

definition x_auth_url :: string where
  "x_auth_url = ''https://x.com/i/oauth2/authorize''"

definition refresh_access_token ::
    "timeline_env \<Rightarrow> timeline_config \<Rightarrow> int \<Rightarrow> string \<Rightarrow> agent_error + refreshed_token" where
  "refresh_access_token env cfg now refresh_token =
     (let url = trim_end_matches CHR ''/'' (tc_base_url cfg) @ ''/2/oauth2/token''
      in case te_url_error env url of
           Some e \<Rightarrow> Inl (AgentFailed (''X refresh: invalid token URL `'' @ url @ ''`: '' @ e))
         | None \<Rightarrow>
             (case te_url_error env x_auth_url of
                Some e \<Rightarrow> Inl (AgentFailed (''X refresh: invalid auth URL: '' @ e))
              | None \<Rightarrow>
                  (let creds = unwrap_or \<lparr>cc_client_id = ''x-agent-refresh'', cc_client_secret = None\<rparr>
                                 (token_endpoint_client_creds (te_env_var env))
                   in case te_refresh env url creds refresh_token of
                        Inl e \<Rightarrow> Inl (refresh_error e)
                      | Inr result \<Rightarrow>
                          Inr \<lparr>rf_access_token = tr_access_token result, rf_new_refresh = tr_refresh_token result,
                               rf_expires_at = now + nanos (int (unwrap_or 3600 (tr_expires_in result)))\<rparr>)))"

definition read_field ::
    "timeline_clock \<Rightarrow> string \<Rightarrow> 'w user_context \<Rightarrow> 'w \<Rightarrow> (agent_error + string) \<times> 'w user_context \<times> 'w" where
  "read_field ck field ctx w =
     (let (pos, now, now') = tk_secret ck field
      in case ctx_secret pos now now' ''x_account'' field ctx w of
           (Inl e, cw) \<Rightarrow> (Inl e, cw)
         | (Inr None, cw) \<Rightarrow> (Inl (CredentialsMissing ''x_account'' field), cw)
         | (Inr (Some s), cw) \<Rightarrow> (Inr s, cw))"

text \<open>\<open>.ok().flatten()\<close>: an error of the vault counts as an absent field.\<close>

definition optional_field ::
    "timeline_clock \<Rightarrow> string \<Rightarrow> 'w user_context \<Rightarrow> 'w \<Rightarrow> string option \<times> 'w user_context \<times> 'w" where
  "optional_field ck field ctx w =
     (let (pos, now, now') = tk_secret ck field
      in case ctx_secret pos now now' ''x_account'' field ctx w of
           (Inl e, cw) \<Rightarrow> (None, cw)
         | (Inr s, cw) \<Rightarrow> (s, cw))"

definition needs_refresh :: "timeline_env \<Rightarrow> int \<Rightarrow> string option \<Rightarrow> bool" where
  "needs_refresh env now token_expires_at =
     (case token_expires_at of
        None \<Rightarrow> True
      | Some raw \<Rightarrow>
          (case te_parse_time env raw of
             None \<Rightarrow> True
           | Some dt \<Rightarrow> num_seconds (now - dt) < 60))"

definition refreshed_fields :: "timeline_env \<Rightarrow> refreshed_token \<Rightarrow> (string \<times> string) list" where
  "refreshed_fields env r =
     [(''access_token'', rf_access_token r), (''token_expires_at'', te_time_text env (rf_expires_at r))]
     @ (case rf_new_refresh r of None \<Rightarrow> [] | Some t \<Rightarrow> [(''refresh_token'', t)])"

definition current_token ::
    "timeline_env \<Rightarrow> timeline_config \<Rightarrow> timeline_clock \<Rightarrow> string \<Rightarrow> string option \<Rightarrow> string option
       \<Rightarrow> 'w user_context \<Rightarrow> 'w \<Rightarrow> (agent_error + string) \<times> 'w" where
  "current_token env cfg ck access_token refresh_token token_expires_at ctx w =
     (if \<not> needs_refresh env (tk_stale ck) token_expires_at then (Inr access_token, w)
      else case refresh_token of
             None \<Rightarrow>
               (Inl (AgentFailed (''X access token is expired and no refresh token is configured; reconnect X ''
                       @ ''via /settings/integrations'')), w)
           | Some rt \<Rightarrow>
               (case refresh_access_token env cfg (tk_refreshed ck) rt of
                  Inl e \<Rightarrow> (Inl e, w)
                | Inr refreshed \<Rightarrow>
                    (case update_secret ''x_account'' (refreshed_fields env refreshed) ctx w of
                       (Inl e, w) \<Rightarrow> (Inl e, w)
                     | (Inr _, w) \<Rightarrow> (Inr (rf_access_token refreshed), w))))"


section \<open>The request\<close>

fun map_timeline_error :: "timeline_env \<Rightarrow> egress_error \<Rightarrow> agent_error" where
  "map_timeline_error env (EgScheme s) = InvalidArguments (''unsupported scheme `'' @ s @ ''`'')"
| "map_timeline_error env EgNoHost = InvalidArguments ''url has no host''"
| "map_timeline_error env (EgNotInAllowlist host) =
     SandboxDenied (''host `'' @ host @ ''` is not in the X timeline allowlist'')"
| "map_timeline_error env (EgDisallowedAddress host addr port) =
     SandboxDenied (''host `'' @ host @ ''` resolves to a disallowed address ('' @ te_addr_text env addr port @ '')'')"
| "map_timeline_error env (EgDns msg) = AgentFailed (''dns resolve: '' @ msg)"
| "map_timeline_error env (EgUpstream status body) = AgentUpstream status body"
| "map_timeline_error env (EgResponseExceeded budget) = ResponseExceeded budget"
| "map_timeline_error env (EgTransport msg) = AgentFailed (''transport: '' @ msg)"
| "map_timeline_error env (EgUrlParse msg) = InvalidArguments (''url parse: '' @ msg)"

definition timeline_endpoint :: "string \<Rightarrow> agent_error + string" where
  "timeline_endpoint mode =
     (if mode = ''following'' then Inr ''reverse_chronological''
      else if mode = ''for_you'' then Inr ''for_you''
      else Inl (InvalidArguments (''unknown mode `'' @ mode @ ''`'')))"

definition timeline_answer :: "timeline_env \<Rightarrow> nat \<times> (string + string) \<Rightarrow> agent_error + json" where
  "timeline_answer env resp =
     (case resp of
        (status, Inl e) \<Rightarrow> Inl (AgentFailed (''X timeline read: '' @ e))
      | (status, Inr body) \<Rightarrow>
          if status = 401 then
            Inl (AgentFailed (''X rejected the access token even after refresh; reconnect X via ''
                   @ ''/settings/integrations''))
          else if status = 429 then Inl (AgentUpstream 429 (truncate_body body 2048))
          else if \<not> is_success status then Inl (AgentUpstream status (truncate_body body 2048))
          else case js_parse (te_js env) body of
                 None \<Rightarrow> Inl (AgentFailed (''X timeline parse: '' @ js_error (te_js env) body))
               | Some parsed \<Rightarrow> Inr parsed)"

definition fetch_timeline ::
    "timeline_env \<Rightarrow> timeline_config \<Rightarrow> string \<Rightarrow> string \<Rightarrow> string \<Rightarrow> timeline_request list \<times> (agent_error + json)" where
  "fetch_timeline env cfg mode x_user_id token =
     (case timeline_endpoint mode of
        Inl e \<Rightarrow> ([], Inl e)
      | Inr endpoint \<Rightarrow>
          (let url = trim_end_matches CHR ''/'' (tc_base_url cfg) @ ''/2/users/'' @ x_user_id @ ''/timelines/'' @ endpoint
           in case egress_validate (te_net env) (timeline_egress cfg) url of
                Inl e \<Rightarrow> ([], Inl (map_timeline_error env e))
              | Inr ok \<Rightarrow>
                  (let rq = \<lparr>tq_url = pu_text (vo_url ok), tq_bearer = token\<rparr>
                   in ([rq],
                       case te_send env rq of
                         Inl e \<Rightarrow> Inl (AgentFailed (''X timeline transport: '' @ e))
                       | Inr resp \<Rightarrow> timeline_answer env resp))))"

section \<open>The projection\<close>

definition u64_field :: "string \<Rightarrow> json \<Rightarrow> json" where
  "u64_field k m = nat_json (unwrap_or 0 (Option.bind (jget k m) as_u64))"

definition author_username :: "json list \<Rightarrow> string \<Rightarrow> string option" where
  "author_username users uid =
     (case List.map_filter
             (\<lambda>u. if jget_str ''id'' u = Some uid
                  then or_else (map_option (\<lambda>n. CHR ''@'' # n) (jget_str ''username'' u)) (jget_str ''name'' u)
                  else None) users of
        [] \<Rightarrow> None | n # _ \<Rightarrow> Some n)"

definition author_display_name :: "json list \<Rightarrow> string \<Rightarrow> string option" where
  "author_display_name users uid =
     (case List.map_filter (\<lambda>u. if jget_str ''id'' u = Some uid then jget_str ''name'' u else None) users of
        [] \<Rightarrow> None | n # _ \<Rightarrow> Some n)"

definition entity_list :: "string \<Rightarrow> (json \<Rightarrow> string option) \<Rightarrow> json \<Rightarrow> json" where
  "entity_list k f p =
     JArr (case jget ''entities'' p of
             None \<Rightarrow> []
           | Some entities \<Rightarrow> map JStr (List.map_filter f (array_of k entities)))"

definition post_metrics :: "json \<Rightarrow> json" where
  "post_metrics p =
     (case jget ''public_metrics'' p of
        Some m \<Rightarrow> JObj [(''likes'', u64_field ''like_count'' m), (''retweets'', u64_field ''retweet_count'' m),
                        (''replies'', u64_field ''reply_count'' m), (''quotes'', u64_field ''quote_count'' m)]
      | None \<Rightarrow> JObj [(''likes'', nat_json 0), (''retweets'', nat_json 0), (''replies'', nat_json 0),
                      (''quotes'', nat_json 0)])"

definition shape_post :: "json list \<Rightarrow> string \<Rightarrow> json \<Rightarrow> json" where
  "shape_post users viewer_handle p =
     (let author_id = unwrap_or [] (jget_str ''author_id'' p)
      in JObj [(''id'', JStr (unwrap_or [] (jget_str ''id'' p))),
               (''author'', JStr (unwrap_or viewer_handle (author_username users author_id))),
               (''author_name'', JStr (unwrap_or [] (author_display_name users author_id))),
               (''created_at'', JStr (unwrap_or [] (jget_str ''created_at'' p))),
               (''lang'', opt_str (jget_str ''lang'' p)),
               (''text'', JStr (unwrap_or [] (jget_str ''text'' p))),
               (''urls'', entity_list ''urls'' (\<lambda>u. or_else (jget_str ''expanded_url'' u) (jget_str ''unwound_url'' u)) p),
               (''hashtags'', entity_list ''hashtags'' (jget_str ''tag'') p),
               (''mentions'', entity_list ''mentions'' (\<lambda>m. map_option (\<lambda>n. CHR ''@'' # n) (jget_str ''username'' m)) p),
               (''metrics'', post_metrics p)])"

definition too_old :: "timeline_env \<Rightarrow> int \<Rightarrow> nat option \<Rightarrow> json \<Rightarrow> bool" where
  "too_old env now since_hours p =
     (case since_hours of
        None \<Rightarrow> False
      | Some hrs \<Rightarrow>
          (case te_parse_time env (unwrap_or [] (jget_str ''created_at'' p)) of
             None \<Rightarrow> False
           | Some dt \<Rightarrow> nanos (int hrs * 3600) < now - dt))"

text \<open>A stable sort, greatest key first.\<close>

definition sort_desc :: "('a \<Rightarrow> 'k :: linorder) \<Rightarrow> 'a list \<Rightarrow> 'a list" where
  "sort_desc f xs = rev (sort_key f (rev xs))"

definition created_key :: "json \<Rightarrow> string option" where
  "created_key p = jget_str ''created_at'' p"

definition lang_match :: "string \<Rightarrow> json \<Rightarrow> bool" where
  "lang_match lang p \<longleftrightarrow> jget_str ''lang'' p = Some lang"

definition users_of :: "json \<Rightarrow> json list" where
  "users_of parsed = (case jget ''includes'' parsed of None \<Rightarrow> [] | Some i \<Rightarrow> array_of ''users'' i)"

definition shaped_posts :: "timeline_env \<Rightarrow> int \<Rightarrow> json \<Rightarrow> string \<Rightarrow> timeline_args \<Rightarrow> json list" where
  "shaped_posts env now parsed viewer_handle req =
     map (shape_post (users_of parsed) viewer_handle)
       (filter (\<lambda>p. \<not> too_old env now (tl_since_hours req) p) (array_of ''data'' parsed))"

definition project_timeline :: "timeline_env \<Rightarrow> int \<Rightarrow> json \<Rightarrow> string \<Rightarrow> timeline_args \<Rightarrow> json list" where
  "project_timeline env now parsed viewer_handle req =
     (let out = sort_desc created_key (shaped_posts env now parsed viewer_handle req);
          out = (case tl_language req of None \<Rightarrow> out | Some lang \<Rightarrow> sort_desc (lang_match lang) out)
      in take (tl_max_posts req) out)"

text \<open>\<open>seen.insert(s)\<close>: the first occurrence of every link is kept.\<close>

fun first_occurrences :: "string list \<Rightarrow> string list \<Rightarrow> string list" where
  "first_occurrences seen [] = []"
| "first_occurrences seen (s # ss) =
     (if s \<in> set seen then first_occurrences seen ss else s # first_occurrences (s # seen) ss)"

definition collect_shared_links :: "json list \<Rightarrow> string list" where
  "collect_shared_links posts =
     first_occurrences [] (concat (map (\<lambda>p. List.map_filter as_str (array_of ''urls'' p)) posts))"

section \<open>The invocation\<close>

definition timeline_hint :: string where
  "timeline_hint = ''Posts sorted newest-first. Cluster posts that share urls/hashtags/keywords for the theme dedup.''"

definition timeline_result :: "timeline_env \<Rightarrow> timeline_clock \<Rightarrow> json \<Rightarrow> string \<Rightarrow> timeline_args \<Rightarrow> string" where
  "timeline_result env ck parsed x_screen_name req =
     (let posts = project_timeline env (tk_projected ck) parsed x_screen_name req
      in js_show (te_js env)
           (JObj [(''mode'', JStr (tl_mode req)), (''fetched_at'', JStr (te_time_text env (tk_fetched ck))),
                  (''count'', nat_json (length posts)), (''posts'', JArr posts),
                  (''shared_links'', JArr (map JStr (collect_shared_links posts))),
                  (''hint'', JStr timeline_hint)]))"

definition timeline_invoke ::
    "timeline_env \<Rightarrow> timeline_config \<Rightarrow> timeline_clock \<Rightarrow> 'w user_context \<Rightarrow> json \<Rightarrow> timeline_agent \<Rightarrow> 'w
       \<Rightarrow> (agent_error + string) \<times> timeline_agent \<times> 'w" where
  "timeline_invoke env cfg ck ctx args a w =
     (case parse_timeline_args args (tc_max_posts cfg) of
        Inl e \<Rightarrow> (Inl e, a, w)
      | Inr req \<Rightarrow>
          (case cache_get cfg (tk_cache ck) (cx_user_id ctx) (tl_mode req) (ta_cache a) of
             Some cached \<Rightarrow> (Inr cached, a, w)
           | None \<Rightarrow>
               (case read_field ck ''access_token'' ctx w of
                  (Inl e, ctx, w) \<Rightarrow> (Inl e, a, w)
                | (Inr access_token, ctx, w) \<Rightarrow>
                    (let (refresh_token, ctx, w) = optional_field ck ''refresh_token'' ctx w
                     in case read_field ck ''x_user_id'' ctx w of
                          (Inl e, ctx, w) \<Rightarrow> (Inl e, a, w)
                        | (Inr x_user_id, ctx, w) \<Rightarrow>
                            (case read_field ck ''x_screen_name'' ctx w of
                               (Inl e, ctx, w) \<Rightarrow> (Inl e, a, w)
                             | (Inr x_screen_name, ctx, w) \<Rightarrow>
                                 (let (token_expires_at, ctx, w) = optional_field ck ''token_expires_at'' ctx w
                                  in case current_token env cfg ck access_token refresh_token token_expires_at ctx w of
                                       (Inl e, w) \<Rightarrow> (Inl e, a, w)
                                     | (Inr token, w) \<Rightarrow>
                                         (let (rqs, r) = fetch_timeline env cfg (tl_mode req) x_user_id token;
                                              a = a\<lparr>ta_sent := ta_sent a @ rqs\<rparr>
                                          in case r of
                                               Inl e \<Rightarrow> (Inl e, a, w)
                                             | Inr parsed \<Rightarrow>
                                                 (let encoded = timeline_result env ck parsed x_screen_name req
                                                  in (Inr encoded,
                                                      a\<lparr>ta_cache := cache_put cfg (tk_put ck) (cx_user_id ctx) (tl_mode req)
                                                                     encoded (ta_cache a)\<rparr>, w)))))))))"

end
