(* ===== verification/X_Timeline_Props.thy ===== *)
theory X_Timeline_Props
  imports X_Timeline "HOL-Library.Multiset"
begin

text \<open>
  What the agent \<open>x_timeline\<close> guarantees: whose answer the cache gives back, what the projection
  keeps and in which order, and what a refresh of the token does to the stored account. The
  lemmas about the vault are proved in the interface \<open>secret_store\<close>.
\<close>

section \<open>Runs of calls\<close>

record timeline_call =
  tcl_user :: uuid
  tcl_args :: json
  tcl_clock :: timeline_clock

text \<open>A run of calls; \<open>ctx_of\<close> builds the context of a user.\<close>

fun timeline_run ::
    "timeline_env \<Rightarrow> timeline_config \<Rightarrow> (uuid \<Rightarrow> 'w user_context) \<Rightarrow> timeline_call list \<Rightarrow> timeline_agent \<Rightarrow> 'w
       \<Rightarrow> (timeline_call \<times> (agent_error + string)) list \<times> timeline_agent \<times> 'w" where
  "timeline_run env cfg ctx_of [] a w = ([], a, w)"
| "timeline_run env cfg ctx_of (c # cs) a w =
     (let (r, a, w) = timeline_invoke env cfg (tcl_clock c) (ctx_of (tcl_user c)) (tcl_args c) a w;
          (rs, a, w) = timeline_run env cfg ctx_of cs a w
      in ((c, r) # rs, a, w))"

section \<open>Reading the account\<close>

context secret_store
begin

definition reading :: "uuid \<Rightarrow> 'w \<Rightarrow> string set \<Rightarrow> 'w user_context \<Rightarrow> 'w \<Rightarrow> bool" where
  "reading user w0 seen ctx w \<longleftrightarrow>
     cx_resolver ctx = Some fetch \<and> cx_sink ctx = Some update \<and> cx_user_id ctx = user \<and> good w
     \<and> dash_ok (tm_inner (cx_cache ctx)) \<and> dom (dash_get (tm_inner (cx_cache ctx))) \<subseteq> Pair ''x_account'' ` seen
     \<and> (\<forall>s k. fst (fetch user s k w) = fst (fetch user s k w0))"

lemma reading_sc_get:
  assumes "reading user w0 seen ctx w" "field \<notin> seen"
  shows "sc_get now ''x_account'' field (cx_cache ctx) = (cx_cache ctx, None)"
proof -
  have "dash_get (tm_inner (cx_cache ctx)) (''x_account'', field) = None"
    using assms unfolding reading_def by blast
  then show ?thesis by (simp add: sc_get_def ttl_get_def)
qed

lemma reading_step:
  assumes rd: "reading user w0 seen ctx w" and new: "field \<notin> seen"
    and c: "ctx_secret pos now now' ''x_account'' field ctx w = (r, ctx', w')"
  shows "r = (case fst (fetch user ''x_account'' field w0) of
                Inr None \<Rightarrow> Inl (CredentialsMissing ''x_account'' field) | x \<Rightarrow> x)
       \<and> reading user w0 (insert field seen) ctx' w'"
proof -
  note hit = reading_sc_get [OF assms(1,2)]
  obtain x w1 where ft: "fetch user ''x_account'' field w = (x, w1)" by (cases "fetch user ''x_account'' field w")
  have x: "x = fst (fetch user ''x_account'' field w0)" using rd ft unfolding reading_def by (metis fst_conv)
  have w1: "good w1" "\<forall>s k. fst (fetch user s k w1) = fst (fetch user s k w0)"
    using rd fetch_keeps [of w user "''x_account''" field] ft unfolding reading_def by (metis snd_conv)+
  have same: "ctx\<lparr>cx_cache := cx_cache ctx\<rparr> = ctx" by simp
  let ?c = "\<lambda>v. sc_insert pos now' ''x_account'' field v (cx_cache ctx)"
  have ins: "dash_ok (tm_inner (?c v))" "dom (dash_get (tm_inner (?c v))) \<subseteq> Pair ''x_account'' ` insert field seen" for v
  proof -
    have ok: "dash_ok (tm_inner (cx_cache ctx))" using rd by (simp add: reading_def)
    show "dash_ok (tm_inner (?c v))" using ttl_insert_dash_ok [OF ok] by (simp add: sc_insert_def)
    show "dom (dash_get (tm_inner (?c v))) \<subseteq> Pair ''x_account'' ` insert field seen"
    proof
      fix k assume "k \<in> dom (dash_get (tm_inner (?c v)))"
      then obtain e where "dash_get (tm_inner (?c v)) k = Some e" by blast
      then have "k = (''x_account'', field) \<or> k \<in> dom (dash_get (tm_inner (cx_cache ctx)))"
        using ttl_insert_source [OF ok] unfolding sc_insert_def by blast
      then show "k \<in> Pair ''x_account'' ` insert field seen" using rd unfolding reading_def by blast
    qed
  qed
  show ?thesis
  proof (cases "\<exists>s. x = Inr (Some s)")
    case True
    then obtain s where s: "x = Inr (Some s)" by blast
    have "r = Inr (Some s)" "ctx' = ctx\<lparr>cx_cache := ?c s\<rparr>" "w' = w1"
      using c hit ft s rd by (auto simp: ctx_secret_def reading_def)
    moreover have "fst (fetch user ''x_account'' field w0) = Inr (Some s)" using x s by simp
    ultimately show ?thesis using ins w1 rd by (simp add: reading_def)
  next
    case False
    then have "ctx' = ctx" "w' = w1" "r = (case x of Inr None \<Rightarrow> Inl (CredentialsMissing ''x_account'' field) | x \<Rightarrow> x)"
      using c hit ft rd by (auto simp: ctx_secret_def reading_def split: sum.splits option.splits)
    then show ?thesis using x w1 rd unfolding reading_def by auto
  qed
qed

lemma reading_start:
  assumes "good w" "cx_resolver ctx = Some fetch" "cx_sink ctx = Some update" "tm_inner (cx_cache ctx) = []"
  shows "reading (cx_user_id ctx) w {} ctx w"
  using assms by (simp add: reading_def)

lemma read_field_step:
  assumes "reading user w0 seen ctx w" "field \<notin> seen" "read_field ck field ctx w = (r, ctx', w')"
  shows "r = (case fst (fetch user ''x_account'' field w0) of
                Inl e \<Rightarrow> Inl e | Inr None \<Rightarrow> Inl (CredentialsMissing ''x_account'' field) | Inr (Some s) \<Rightarrow> Inr s)
       \<and> reading user w0 (insert field seen) ctx' w'"
proof -
  obtain pos now now' where ck: "tk_secret ck field = (pos, now, now')" by (metis prod_cases3)
  obtain r1 c1 w1 where s: "ctx_secret pos now now' ''x_account'' field ctx w = (r1, c1, w1)" by (metis prod_cases3)
  show ?thesis using reading_step [OF assms(1,2) s] assms(3) s ck
    by (auto simp: read_field_def split: sum.splits option.splits)
qed

lemma optional_field_step:
  assumes "reading user w0 seen ctx w" "field \<notin> seen" "optional_field ck field ctx w = (r, ctx', w')"
  shows "r = (case fst (fetch user ''x_account'' field w0) of Inl e \<Rightarrow> None | Inr s \<Rightarrow> s)
       \<and> reading user w0 (insert field seen) ctx' w'"
proof -
  obtain pos now now' where ck: "tk_secret ck field = (pos, now, now')" by (metis prod_cases3)
  obtain r1 c1 w1 where s: "ctx_secret pos now now' ''x_account'' field ctx w = (r1, c1, w1)" by (metis prod_cases3)
  show ?thesis using reading_step [OF assms(1,2) s] assms(3) s ck
    by (auto simp: optional_field_def split: sum.splits option.splits)
qed

text \<open>A successful call that is not answered from the cache has gone through its token.\<close>

lemma invoke_token:
  assumes "good w" "cx_resolver ctx = Some fetch" "cx_sink ctx = Some update" "tm_inner (cx_cache ctx) = []"
    and "timeline_invoke env cfg ck ctx args a w = (Inr ans, a', w')"
    and "parse_timeline_args args (tc_max_posts cfg) = Inr req"
    and "cache_get cfg (tk_cache ck) (cx_user_id ctx) (tl_mode req) (ta_cache a) = None"
  obtains tok refresh x_user_id token ctx1 w1 rqs where
    "fst (fetch (cx_user_id ctx) ''x_account'' ''access_token'' w) = Inr (Some tok)"
    "fst (fetch (cx_user_id ctx) ''x_account'' ''x_user_id'' w) = Inr (Some x_user_id)"
    "current_token env cfg ck tok refresh
       (case fst (fetch (cx_user_id ctx) ''x_account'' ''token_expires_at'' w) of Inl e \<Rightarrow> None | Inr s \<Rightarrow> s) ctx1 w1 = (Inr token, w')"
    "good w1" "cx_sink ctx1 = Some update" "cx_user_id ctx1 = cx_user_id ctx"
    "fst (fetch_timeline env cfg (tl_mode req) x_user_id token) = rqs" "ta_sent a' = ta_sent a @ rqs"
proof -
  let ?u = "cx_user_id ctx"
  note rd0 = reading_start [OF assms(1-4)]
  obtain r1 c1 w1 where r1: "read_field ck ''access_token'' ctx w = (r1, c1, w1)" by (metis prod_cases3)
  note rd1 = read_field_step [OF rd0 _ r1, simplified]
  obtain acc where acc: "r1 = Inr acc" using assms(5-7) r1 by (cases r1) (auto simp: timeline_invoke_def)
  obtain rt c2 w2 where r2: "optional_field ck ''refresh_token'' c1 w1 = (rt, c2, w2)" by (metis prod_cases3)
  note rd2 = optional_field_step [OF conjunct2 [OF rd1] _ r2, simplified]
  obtain r3 c3 w3 where r3: "read_field ck ''x_user_id'' c2 w2 = (r3, c3, w3)" by (metis prod_cases3)
  note rd3 = read_field_step [OF conjunct2 [OF rd2] _ r3, simplified]
  obtain xu where xu: "r3 = Inr xu" using assms(5-7) r1 acc r2 r3 by (cases r3) (auto simp: timeline_invoke_def)
  obtain r4 c4 w4 where r4: "read_field ck ''x_screen_name'' c3 w3 = (r4, c4, w4)" by (metis prod_cases3)
  note rd4 = read_field_step [OF conjunct2 [OF rd3] _ r4, simplified]
  obtain xs where xs: "r4 = Inr xs" using assms(5-7) r1 acc r2 r3 xu r4 by (cases r4) (auto simp: timeline_invoke_def)
  obtain te c5 w5 where r5: "optional_field ck ''token_expires_at'' c4 w4 = (te, c5, w5)" by (metis prod_cases3)
  note rd5 = optional_field_step [OF conjunct2 [OF rd4] _ r5, simplified]
  obtain r6 w6 where r6: "current_token env cfg ck acc rt te c5 w5 = (r6, w6)" by (metis prod.exhaust)
  obtain token where token: "r6 = Inr token"
    using assms(5-7) r1 acc r2 r3 xu r4 xs r5 r6 by (cases r6) (auto simp: timeline_invoke_def)
  obtain rqs r7 where r7: "fetch_timeline env cfg (tl_mode req) xu token = (rqs, r7)" by (metis prod.exhaust)
  have fin: "w' = w6" "ta_sent a' = ta_sent a @ rqs"
    using assms(5-7) r1 acc r2 r3 xu r4 xs r5 r6 token r7
    by (auto simp: timeline_invoke_def Let_def split: sum.splits)
  have "fst (fetch ?u ''x_account'' ''access_token'' w) = Inr (Some acc)"
    using rd1 acc by (auto split: sum.splits option.splits)
  moreover have "fst (fetch ?u ''x_account'' ''x_user_id'' w) = Inr (Some xu)"
    using rd3 xu by (auto split: sum.splits option.splits)
  moreover have "good w5 \<and> cx_sink c5 = Some update \<and> cx_user_id c5 = ?u" using rd5 by (simp add: reading_def)
  ultimately show thesis using that [of acc xu rt c5 w5 token rqs] rd5 r6 token r7 fin by simp
qed


lemma invoke_ok:
  assumes start: "good w" "cx_resolver ctx = Some fetch" "cx_sink ctx = Some update" "tm_inner (cx_cache ctx) = []"
    and req: "parse_timeline_args args (tc_max_posts cfg) = Inr req"
    and miss: "cache_get cfg (tk_cache ck) (cx_user_id ctx) (tl_mode req) (ta_cache a) = None"
    and acc: "fst (fetch (cx_user_id ctx) ''x_account'' ''access_token'' w) = Inr (Some acc)"
    and rt: "fst (fetch (cx_user_id ctx) ''x_account'' ''refresh_token'' w) = Inr rt"
    and xu: "fst (fetch (cx_user_id ctx) ''x_account'' ''x_user_id'' w) = Inr (Some xu)"
    and xs: "fst (fetch (cx_user_id ctx) ''x_account'' ''x_screen_name'' w) = Inr (Some xs)"
    and te: "fst (fetch (cx_user_id ctx) ''x_account'' ''token_expires_at'' w) = Inr te"
    and tok: "\<And>ctx1 w1. good w1 \<Longrightarrow> cx_sink ctx1 = Some update \<Longrightarrow> cx_user_id ctx1 = cx_user_id ctx \<Longrightarrow>
       \<exists>w2. current_token env cfg ck acc rt te ctx1 w1 = (Inr token, w2)"
    and ans: "fetch_timeline env cfg (tl_mode req) xu token = (rqs, Inr parsed)"
  shows "\<exists>w2. timeline_invoke env cfg ck ctx args a w =
     (Inr (timeline_result env ck parsed xs req),
      \<lparr>ta_cache = cache_put cfg (tk_put ck) (cx_user_id ctx) (tl_mode req) (timeline_result env ck parsed xs req) (ta_cache a),
       ta_sent = ta_sent a @ rqs\<rparr>, w2)"
proof -
  obtain r1 c1 w1 where r1: "read_field ck ''access_token'' ctx w = (r1, c1, w1)" by (metis prod_cases3)
  note rd1 = read_field_step [OF reading_start [OF start] _ r1, simplified]
  obtain r2 c2 w2 where r2: "optional_field ck ''refresh_token'' c1 w1 = (r2, c2, w2)" by (metis prod_cases3)
  note rd2 = optional_field_step [OF conjunct2 [OF rd1] _ r2, simplified]
  obtain r3 c3 w3 where r3: "read_field ck ''x_user_id'' c2 w2 = (r3, c3, w3)" by (metis prod_cases3)
  note rd3 = read_field_step [OF conjunct2 [OF rd2] _ r3, simplified]
  obtain r4 c4 w4 where r4: "read_field ck ''x_screen_name'' c3 w3 = (r4, c4, w4)" by (metis prod_cases3)
  note rd4 = read_field_step [OF conjunct2 [OF rd3] _ r4, simplified]
  obtain r5 c5 w5 where r5: "optional_field ck ''token_expires_at'' c4 w4 = (r5, c5, w5)" by (metis prod_cases3)
  note rd5 = optional_field_step [OF conjunct2 [OF rd4] _ r5, simplified]
  have r: "r1 = Inr acc" "r2 = rt" "r3 = Inr xu" "r4 = Inr xs" "r5 = te" "cx_user_id c5 = cx_user_id ctx"
    using rd1 rd2 rd3 rd4 rd5 acc rt xu xs te by (simp_all add: reading_def)
  obtain w6 where "current_token env cfg ck acc rt te c5 w5 = (Inr token, w6)"
    using tok [of w5 c5] rd5 by (auto simp: reading_def)
  then show ?thesis using req miss ans r1 r2 r3 r4 r5 r by (cases a) (simp add: timeline_invoke_def Let_def)
qed

text \<open>After a refresh only the fields of the token are left, and the next call has no account.\<close>

lemma next_call_fails:
  assumes "good w" "cx_resolver ctx = Some fetch" "cx_sink ctx = Some update" "tm_inner (cx_cache ctx) = []"
    and "fst (fetch (cx_user_id ctx) ''x_account'' ''access_token'' w) = Inr (Some tok)"
    and "fst (fetch (cx_user_id ctx) ''x_account'' ''x_user_id'' w) = Inl e"
    and "parse_timeline_args args (tc_max_posts cfg) = Inr req"
    and "cache_get cfg (tk_cache ck) (cx_user_id ctx) (tl_mode req) (ta_cache a) = None"
  shows "fst (timeline_invoke env cfg ck ctx args a w) = Inl e"
proof -
  note rd0 = reading_start [OF assms(1-4)]
  obtain r1 c1 w1 where r1: "read_field ck ''access_token'' ctx w = (r1, c1, w1)" by (metis prod_cases3)
  note rd1 = read_field_step [OF rd0 _ r1, simplified]
  have r1': "r1 = Inr tok" using rd1 assms(5) by simp
  obtain rt c2 w2 where r2: "optional_field ck ''refresh_token'' c1 w1 = (rt, c2, w2)" by (metis prod_cases3)
  note rd2 = optional_field_step [OF conjunct2 [OF rd1] _ r2, simplified]
  obtain r3 c3 w3 where r3: "read_field ck ''x_user_id'' c2 w2 = (r3, c3, w3)" by (metis prod_cases3)
  have "r3 = Inl e" using read_field_step [OF conjunct2 [OF rd2] _ r3, simplified] assms(6) by simp
  then show ?thesis using assms(7,8) r1 r1' r2 r3 by (simp add: timeline_invoke_def)
qed

lemma refresh_leaves:
  assumes start: "good w" "cx_resolver ctx = Some fetch" "cx_sink ctx = Some update" "tm_inner (cx_cache ctx) = []"
    and call: "timeline_invoke env cfg ck ctx args a w = (Inr ans, a', w')"
    and req: "parse_timeline_args args (tc_max_posts cfg) = Inr req"
    and miss: "cache_get cfg (tk_cache ck) (cx_user_id ctx) (tl_mode req) (ta_cache a) = None"
    and stale: "needs_refresh env (tk_stale ck)
       (case fst (fetch (cx_user_id ctx) ''x_account'' ''token_expires_at'' w) of Inl e \<Rightarrow> None | Inr s \<Rightarrow> s)"
    and utf8: "\<And>now rt r. refresh_access_token env cfg now rt = Inr r \<Longrightarrow> \<forall>p \<in> set (refreshed_fields env r). valid_utf8 (snd p)"
  shows "\<exists>tok. good w' \<and> fst (fetch (cx_user_id ctx) ''x_account'' ''access_token'' w') = Inr (Some tok)
    \<and> fst (fetch (cx_user_id ctx) ''x_account'' ''x_user_id'' w') = Inl (CredentialsMissing ''x_account'' ''x_user_id'')"
proof -
  obtain tok refresh token ctx1 w1 where
    tk: "current_token env cfg ck tok refresh
       (case fst (fetch (cx_user_id ctx) ''x_account'' ''token_expires_at'' w) of Inl e \<Rightarrow> None | Inr s \<Rightarrow> s) ctx1 w1 = (Inr token, w')"
    and c1: "good w1" "cx_sink ctx1 = Some update" "cx_user_id ctx1 = cx_user_id ctx"
    by (rule invoke_token [OF start call req miss])
  obtain rt r where r: "refresh_access_token env cfg (tk_refreshed ck) rt = Inr r"
    "update_secret ''x_account'' (refreshed_fields env r) ctx1 w1 = (Inr (), w')"
    using tk stale by (auto simp: current_token_def split: option.splits sum.splits prod.splits)
  have upd: "update (cx_user_id ctx) ''x_account'' (refreshed_fields env r) w1 = (Inr (), w')"
    using r(2) c1 by (simp add: update_secret_def)
  have ne: "refreshed_fields env r \<noteq> []" by (simp add: refreshed_fields_def)
  note rep = update_replaces [OF c1(1) ne utf8 [OF r(1)] upd]
  then show ?thesis
    by (intro exI [of _ "rf_access_token r"]) (auto simp: refreshed_fields_def split: option.splits)
qed

text \<open>
  A call leaves the fields of every other user alone, and those of its own user when its account is
  missing: \<open>watch\<close> is the user whose fields are looked at.
\<close>

definition kept :: "uuid \<Rightarrow> uuid \<Rightarrow> 'w \<Rightarrow> 'w user_context \<Rightarrow> 'w \<Rightarrow> bool" where
  "kept user watch w0 ctx w \<longleftrightarrow>
     cx_resolver ctx = Some fetch \<and> cx_sink ctx = Some update \<and> cx_user_id ctx = user \<and> good w
     \<and> (\<forall>s k. fst (fetch watch s k w) = fst (fetch watch s k w0))"

lemma ctx_secret_kept:
  assumes "kept user watch w0 ctx w" "ctx_secret pos now now' s f ctx w = (r, ctx', w')"
  shows "kept user watch w0 ctx' w'"
proof -
  have "w' = w \<or> w' = snd (fetch user s f w)" "cx_resolver ctx' = Some fetch" "cx_sink ctx' = Some update" "cx_user_id ctx' = user"
    using assms by (auto simp: ctx_secret_def kept_def Let_def split: option.splits sum.splits prod.splits)
  then show ?thesis using assms(1) fetch_keeps [of w user s f] by (auto simp: kept_def)
qed

lemma read_field_kept:
  "kept user watch w0 ctx w \<Longrightarrow> read_field ck f ctx w = (r, ctx', w') \<Longrightarrow> kept user watch w0 ctx' w'"
  by (auto simp: read_field_def dest: ctx_secret_kept split: option.splits sum.splits prod.splits)

lemma optional_field_kept:
  "kept user watch w0 ctx w \<Longrightarrow> optional_field ck f ctx w = (r, ctx', w') \<Longrightarrow> kept user watch w0 ctx' w'"
  by (auto simp: optional_field_def dest: ctx_secret_kept split: option.splits sum.splits prod.splits)

lemma current_token_kept:
  assumes "kept user watch w0 ctx w" "user \<noteq> watch" "current_token env cfg ck acc rt te ctx w = (r, w')"
  shows "kept user watch w0 ctx w'"
proof -
  have "w' = w \<or> (\<exists>ps. w' = snd (update user ''x_account'' ps w))"
    using assms(1,3)
    by (auto simp: current_token_def update_secret_def kept_def split: if_splits option.splits sum.splits prod.splits)
      (metis snd_conv)+
  then show ?thesis using assms(1,2) update_other [of w user watch "''x_account''"] by (auto simp: kept_def)
qed

lemma invoke_kept:
  assumes start: "kept user watch w ctx w" "tm_inner (cx_cache ctx) = []"
    and call: "timeline_invoke env cfg ck ctx args a w = (r, a', w')"
    and away: "user \<noteq> watch \<or> fst (fetch user ''x_account'' ''x_user_id'' w) = Inl e"
  shows "\<exists>ctx'. kept user watch w ctx' w'"
proof (cases "parse_timeline_args args (tc_max_posts cfg)")
  case (Inl e)
  then show ?thesis using start(1) call by (auto simp: timeline_invoke_def)
next
  case (Inr req)
  show ?thesis
  proof (cases "cache_get cfg (tk_cache ck) (cx_user_id ctx) (tl_mode req) (ta_cache a)")
    case (Some cached)
    then show ?thesis using start(1) call Inr by (auto simp: timeline_invoke_def)
  next
    case None
    obtain r1 c1 w1 where r1: "read_field ck ''access_token'' ctx w = (r1, c1, w1)" by (metis prod_cases3)
    obtain rt c2 w2 where r2: "optional_field ck ''refresh_token'' c1 w1 = (rt, c2, w2)" by (metis prod_cases3)
    obtain r3 c3 w3 where r3: "read_field ck ''x_user_id'' c2 w2 = (r3, c3, w3)" by (metis prod_cases3)
    obtain r4 c4 w4 where r4: "read_field ck ''x_screen_name'' c3 w3 = (r4, c4, w4)" by (metis prod_cases3)
    obtain te c5 w5 where r5: "optional_field ck ''token_expires_at'' c4 w4 = (te, c5, w5)" by (metis prod_cases3)
    note k1 = read_field_kept [OF start(1) r1]
    note k2 = optional_field_kept [OF k1 r2]
    note k3 = read_field_kept [OF k2 r3]
    note k4 = read_field_kept [OF k3 r4]
    note k5 = optional_field_kept [OF k4 r5]
    note dd = timeline_invoke_def Inr None Let_def r1 r2 r3 r4 r5
    have rd0: "reading user w {} ctx w" using start by (simp add: kept_def reading_def)
    note rd1 = read_field_step [OF rd0 _ r1, simplified]
    note rd2 = optional_field_step [OF conjunct2 [OF rd1] _ r2, simplified]
    note rd3 = read_field_step [OF conjunct2 [OF rd2] _ r3, simplified]
    show ?thesis
    proof (cases "\<exists>tok0 xu xs. r1 = Inr tok0 \<and> r3 = Inr xu \<and> r4 = Inr xs")
      case False
      then have "w' = w1 \<or> w' = w3 \<or> w' = w4" using call by (cases r1; cases r3; cases r4) (auto simp: dd)
      then show ?thesis using k1 k3 k4 by blast
    next
      case True
      then obtain tok0 xu xs where x: "r1 = Inr tok0" "r3 = Inr xu" "r4 = Inr xs" by blast
      then have other: "user \<noteq> watch" using away rd3 by auto
      obtain r6 w6 where r6: "current_token env cfg ck tok0 rt te c5 w5 = (r6, w6)" by (metis prod.exhaust)
      have "w' = w6"
      proof (cases r6)
        case (Inl e)
        then show ?thesis using call x r6 by (simp add: dd)
      next
        case (Inr token)
        obtain rqs r7 where "fetch_timeline env cfg (tl_mode req) xu token = (rqs, r7)" by (metis prod.exhaust)
        then show ?thesis using call x r6 Inr by (cases r7) (auto simp: dd)
      qed
      then show ?thesis using current_token_kept [OF k5 other r6] by blast
    qed
  qed
qed

lemma run_kept:
  assumes "\<And>u. cx_resolver (ctx_of u) = Some fetch \<and> cx_sink (ctx_of u) = Some update \<and> cx_user_id (ctx_of u) = u
      \<and> tm_inner (cx_cache (ctx_of u)) = []"
    and "good w" "fst (fetch watch ''x_account'' ''x_user_id'' w) = Inl e" "timeline_run env cfg ctx_of cs a w = (rs, b, v)"
  shows "good v \<and> (\<forall>s k. fst (fetch watch s k v) = fst (fetch watch s k w))"
  using assms(2-4)
proof (induction cs arbitrary: a w rs)
  case (Cons c cs)
  obtain r a1 w1 where c: "timeline_invoke env cfg (tcl_clock c) (ctx_of (tcl_user c)) (tcl_args c) a w = (r, a1, w1)"
    by (metis prod_cases3)
  obtain rs' where rs: "timeline_run env cfg ctx_of cs a1 w1 = (rs', b, v)" using Cons.prems(3) c by (auto split: prod.splits)
  have "kept (tcl_user c) watch w (ctx_of (tcl_user c)) w" using assms(1) Cons.prems(1) by (simp add: kept_def)
  moreover have "tcl_user c \<noteq> watch \<or> fst (fetch (tcl_user c) ''x_account'' ''x_user_id'' w) = Inl e"
    using Cons.prems(2) by auto
  ultimately obtain ctx' where "kept (tcl_user c) watch w ctx' w1"
    using invoke_kept [OF _ _ c] assms(1) by blast
  then have w1: "good w1" "\<forall>s k. fst (fetch watch s k w1) = fst (fetch watch s k w)" by (simp_all add: kept_def)
  from Cons.IH [OF w1(1) _ rs] w1(2) Cons.prems(2) show ?case by simp
qed simp

lemma refresh_forgets:
  assumes start: "good w" "\<And>u. cx_resolver (ctx_of u) = Some fetch \<and> cx_sink (ctx_of u) = Some update
      \<and> cx_user_id (ctx_of u) = u \<and> tm_inner (cx_cache (ctx_of u)) = []"
    and call: "timeline_invoke env cfg ck (ctx_of user) args a w = (Inr ans, a', w')"
    and req: "parse_timeline_args args (tc_max_posts cfg) = Inr req"
    and miss: "cache_get cfg (tk_cache ck) user (tl_mode req) (ta_cache a) = None"
    and stale: "needs_refresh env (tk_stale ck)
       (case fst (fetch user ''x_account'' ''token_expires_at'' w) of Inl e \<Rightarrow> None | Inr s \<Rightarrow> s)"
    and utf8: "\<And>now rt r. refresh_access_token env cfg now rt = Inr r \<Longrightarrow> \<forall>p \<in> set (refreshed_fields env r). valid_utf8 (snd p)"
    and run: "timeline_run env cfg ctx_of calls a' w' = (rs, b, v)"
    and req': "parse_timeline_args args' (tc_max_posts cfg) = Inr req'"
    and miss': "cache_get cfg (tk_cache ck') user (tl_mode req') (ta_cache b) = None"
  shows "fst (timeline_invoke env cfg ck' (ctx_of user) args' b v) = Inl (CredentialsMissing ''x_account'' ''x_user_id'')"
proof -
  obtain tok where left: "good w'" "fst (fetch user ''x_account'' ''access_token'' w') = Inr (Some tok)"
    "fst (fetch user ''x_account'' ''x_user_id'' w') = Inl (CredentialsMissing ''x_account'' ''x_user_id'')"
    using refresh_leaves [OF start(1) _ _ _ call req] start(2) miss stale utf8 by fastforce
  note later = run_kept [OF start(2) left(1,3) run]
  show ?thesis
    by (rule next_call_fails [OF _ _ _ _ _ _ req']) (use later left start(2) miss' in simp_all)
qed

text \<open>An expired token is sent as it is.\<close>

lemma expired_sent:
  assumes start: "good w" "cx_resolver ctx = Some fetch" "cx_sink ctx = Some update" "tm_inner (cx_cache ctx) = []"
    and call: "timeline_invoke env cfg ck ctx args a w = (Inr ans, a', w')"
    and req: "parse_timeline_args args (tc_max_posts cfg) = Inr req"
    and miss: "cache_get cfg (tk_cache ck) (cx_user_id ctx) (tl_mode req) (ta_cache a) = None"
    and stale: "\<not> needs_refresh env (tk_stale ck)
       (case fst (fetch (cx_user_id ctx) ''x_account'' ''token_expires_at'' w) of Inl e \<Rightarrow> None | Inr s \<Rightarrow> s)"
  shows "\<exists>tok x_user_id. fst (fetch (cx_user_id ctx) ''x_account'' ''access_token'' w) = Inr (Some tok)
     \<and> fst (fetch (cx_user_id ctx) ''x_account'' ''x_user_id'' w) = Inr (Some x_user_id)
     \<and> ta_sent a' = ta_sent a @ fst (fetch_timeline env cfg (tl_mode req) x_user_id tok)"
proof -
  obtain tok refresh x_user_id token ctx1 w1 rqs where
    i: "fst (fetch (cx_user_id ctx) ''x_account'' ''access_token'' w) = Inr (Some tok)"
      "fst (fetch (cx_user_id ctx) ''x_account'' ''x_user_id'' w) = Inr (Some x_user_id)"
      "current_token env cfg ck tok refresh
       (case fst (fetch (cx_user_id ctx) ''x_account'' ''token_expires_at'' w) of Inl e \<Rightarrow> None | Inr s \<Rightarrow> s) ctx1 w1 = (Inr token, w')"
      "fst (fetch_timeline env cfg (tl_mode req) x_user_id token) = rqs" "ta_sent a' = ta_sent a @ rqs"
    by (rule invoke_token [OF start call req miss])
  then have "token = tok" using stale by (simp add: current_token_def)
  then show ?thesis using i by blast
qed

end


section \<open>Refreshing\<close>

text \<open>The test of the age is turned around: the token that is still good is the one replaced.\<close>

lemma needs_refresh_iff:
  assumes "te_parse_time env raw = Some dt"
  shows "needs_refresh env now (Some raw) \<longleftrightarrow> now < dt + nanos 60"
proof -
  have "num_seconds d < 60 \<longleftrightarrow> d < nanos 60" for d
  proof (cases "d < 0")
    case True
    then have "0 \<le> - d div nanos 1" by (simp add: nanos_def div_int_pos_iff)
    then show ?thesis using True by (simp add: num_seconds_def nanos_def)
  next
    case False
    then obtain n where n: "d = int n" by (metis nonneg_int_cases not_less)
    have "n div 1000000000 < 60 \<longleftrightarrow> n < 60 * 1000000000" by (rule div_less_iff_less_mult) simp
    moreover have "int n div 1000000000 = int (n div 1000000000)" by (simp add: of_nat_div)
    ultimately have "d div nanos 1 < 60 \<longleftrightarrow> d < nanos 60" by (simp add: n nanos_def)
    then show ?thesis using False by (simp add: num_seconds_def nanos_def)
  qed
  then have "num_seconds (now - dt) < 60 \<longleftrightarrow> now < dt + nanos 60" by (metis less_diff_eq diff_less_eq add.commute)
  then show ?thesis using assms by (simp add: needs_refresh_def)
qed

definition timeline_ctx :: "vault_env \<Rightarrow> uuid \<Rightarrow> service_registry \<Rightarrow> secret_cache \<Rightarrow> vault user_context" where
  "timeline_ctx venv user services cache =
     \<lparr>cx_user_id = user, cx_services = services, cx_resolver = Some (secret_fetch venv),
      cx_sink = Some (secret_update venv), cx_memories = None, cx_cache = cache,
      cx_chat_session_id = None, cx_invoked = []\<rparr>"

lemma timeline_ctx_simps [simp]:
  "cx_user_id (timeline_ctx venv user services cache) = user"
  "cx_resolver (timeline_ctx venv user services cache) = Some (secret_fetch venv)"
  "cx_sink (timeline_ctx venv user services cache) = Some (secret_update venv)"
  "cx_cache (timeline_ctx venv user services cache) = cache"
  by (simp_all add: timeline_ctx_def)

lemma fresh_cache_empty [simp]: "tm_inner fresh_cache = []"
  by (simp add: fresh_cache_def sc_new_def sc_with_limits_def ttl_new_def secret_cache_max_entries_def
      secret_cache_default_ttl_def)

definition vault_value :: "vault_env \<Rightarrow> uuid \<Rightarrow> string \<Rightarrow> vault \<Rightarrow> string option" where
  "vault_value venv user field w = (case fst (secret_fetch venv user ''x_account'' field w) of Inl e \<Rightarrow> None | Inr s \<Rightarrow> s)"

text \<open>
  C23: When the database refuses no call, and a call of a user succeeds that is not answered from the
  cache while the token in the vault is not yet expired, or for less than a minute, then the account
  of that user is forgotten: the write-back of the new token replaces every field of the service.
  Whatever calls of whatever users follow, each later call of that user with valid arguments that is
  not answered from the cache fails because the identifier of the account is missing. A reconnection
  of the account in between is not among the steps.
\<close>

theorem timeline_refresh_forgets:
  assumes "steady venv" and "vault_value venv user ''token_expires_at'' w = Some raw"
    and "te_parse_time env raw = Some dt" "tk_stale ck < dt + nanos 60"
    and "timeline_invoke env cfg ck (timeline_ctx venv user services fresh_cache) args a w = (Inr ans, a', w')"
    and "parse_timeline_args args (tc_max_posts cfg) = Inr req"
    and "cache_get cfg (tk_cache ck) user (tl_mode req) (ta_cache a) = None"
    and "\<And>now rt r. refresh_access_token env cfg now rt = Inr r \<Longrightarrow> \<forall>p \<in> set (refreshed_fields env r). valid_utf8 (snd p)"
    and "timeline_run env cfg (\<lambda>u. timeline_ctx venv u services fresh_cache) calls a' w' = (rs, b, v)"
    and "parse_timeline_args args' (tc_max_posts cfg) = Inr req'"
    and "cache_get cfg (tk_cache ck') user (tl_mode req') (ta_cache b) = None"
  shows "fst (timeline_invoke env cfg ck' (timeline_ctx venv user services fresh_cache) args' b v)
       = Inl (CredentialsMissing ''x_account'' ''x_user_id'')"
proof (rule vlt.refresh_forgets [OF assms(1) _ assms(5-7) _ assms(8-11)])
  show "needs_refresh env (tk_stale ck)
    (case fst (secret_fetch venv user ''x_account'' ''token_expires_at'' w) of Inl e \<Rightarrow> None | Inr s \<Rightarrow> s)"
    using assms(2-4) needs_refresh_iff [OF assms(3)] by (simp add: vault_value_def)
qed simp_all

text \<open>
  A token that expired a minute ago or more is never refreshed: the call sends the stored token,
  in at most one request to the timeline of the stored account.
\<close>

theorem timeline_expired_sent:
  assumes "steady venv" and "vault_value venv user ''token_expires_at'' w = Some raw"
    and "te_parse_time env raw = Some dt" "dt + nanos 60 \<le> tk_stale ck"
    and "timeline_invoke env cfg ck (timeline_ctx venv user services fresh_cache) args a w = (Inr ans, a', w')"
    and "parse_timeline_args args (tc_max_posts cfg) = Inr req"
    and "cache_get cfg (tk_cache ck) user (tl_mode req) (ta_cache a) = None"
  shows "\<exists>tok x_user_id. vault_value venv user ''access_token'' w = Some tok
     \<and> vault_value venv user ''x_user_id'' w = Some x_user_id
     \<and> ta_sent a' = ta_sent a @ fst (fetch_timeline env cfg (tl_mode req) x_user_id tok)
     \<and> (\<forall>rq \<in> set (fst (fetch_timeline env cfg (tl_mode req) x_user_id tok)). tq_bearer rq = tok)"
proof -
  have "\<exists>tok x_user_id. fst (secret_fetch venv user ''x_account'' ''access_token'' w) = Inr (Some tok)
     \<and> fst (secret_fetch venv user ''x_account'' ''x_user_id'' w) = Inr (Some x_user_id)
     \<and> ta_sent a' = ta_sent a @ fst (fetch_timeline env cfg (tl_mode req) x_user_id tok)"
    using vlt.expired_sent [OF assms(1) _ _ _ assms(5,6)] assms(2,4,7) needs_refresh_iff [OF assms(3)]
    by (auto simp: vault_value_def)
  moreover have "rq \<in> set (fst (fetch_timeline env cfg mode x token)) \<Longrightarrow> tq_bearer rq = token" for rq mode x token
    by (auto simp: fetch_timeline_def Let_def split: sum.splits)
  ultimately show ?thesis by (fastforce simp: vault_value_def)
qed

section \<open>Which posts are kept\<close>

lemma sort_key_lexi:
  assumes "sorted_wrt R xs" "transp R"
  shows "sorted_wrt (\<lambda>a b. f a < f b \<or> f a = f b \<and> R a b) (sort_key f xs)"
  using assms(1)
proof (induction xs)
  case (Cons x xs)
  let ?S = "\<lambda>a b. f a < f b \<or> f a = f b \<and> R a b"
  have "sorted_wrt ?S (insort_key f x ys)" if "sorted_wrt ?S ys" "\<forall>y \<in> set ys. R x y" for ys
    using that by (induction ys) (auto simp: set_insort_key)
  then show ?case using Cons by simp
qed simp

lemma sort_desc_mset [simp]: "mset (sort_desc f xs) = mset xs"
  by (simp add: sort_desc_def)

lemma sort_desc_lexi:
  assumes "sorted_wrt R xs" "transp R"
  shows "sorted_wrt (\<lambda>a b. f b < f a \<or> f a = f b \<and> R a b) (sort_desc f xs)"
proof -
  have "sorted_wrt (\<lambda>a b. R b a) (rev xs)" "transp (\<lambda>a b. R b a)" using assms by (auto simp: sorted_wrt_rev transp_def)
  from sort_key_lexi [OF this, of f] show ?thesis
    unfolding sort_desc_def sorted_wrt_rev by (rule sorted_wrt_mono_rel [rotated]) auto
qed

definition rank_le :: "string option \<Rightarrow> json \<Rightarrow> json \<Rightarrow> bool" where
  "rank_le language b a \<longleftrightarrow>
     (case language of
        None \<Rightarrow> created_key b \<le> created_key a
      | Some l \<Rightarrow> (lang_match l a \<and> \<not> lang_match l b) \<or> lang_match l a = lang_match l b \<and> created_key b \<le> created_key a)"

lemma projection_sorted:
  "\<exists>out. project_timeline env now parsed h req = take (tl_max_posts req) out
     \<and> mset out = mset (shaped_posts env now parsed h req) \<and> sorted_wrt (\<lambda>a b. rank_le (tl_language req) b a) out"
proof -
  let ?xs = "shaped_posts env now parsed h req" and ?R = "\<lambda>a b. created_key b \<le> created_key a"
  have "sorted_wrt (\<lambda>a b. True) ?xs" "transp (\<lambda>a b :: json. True)" by (auto simp: sorted_wrt_iff_nth_less transp_def)
  from sort_desc_lexi [OF this, of created_key]
  have d: "sorted_wrt ?R (sort_desc created_key ?xs)" by (rule sorted_wrt_mono_rel [rotated]) auto
  have "transp ?R" by (auto simp: transp_def)
  note l = sort_desc_lexi [OF d this]
  show ?thesis
  proof (cases "tl_language req")
    case None
    then show ?thesis using d
      by (intro exI [of _ "sort_desc created_key ?xs"]) (auto simp: project_timeline_def rank_le_def)
  next
    case (Some lang)
    have "sorted_wrt (\<lambda>a b. rank_le (Some lang) b a) (sort_desc (lang_match lang) (sort_desc created_key ?xs))"
      using l [of "lang_match lang"] by (rule sorted_wrt_mono_rel [rotated]) (auto simp: rank_le_def)
    then show ?thesis using Some
      by (intro exI [of _ "sort_desc (lang_match lang) (sort_desc created_key ?xs)"]) (auto simp: project_timeline_def)
  qed
qed

text \<open>
  The projection loses no post except the ones past the time window and the lowest ranked ones:
  the answer has as many posts as the limit allows, in rank order (posts in the preferred language
  first, newest first among equals), and every post left out ranks no higher than every post kept.
\<close>

theorem timeline_keeps_best:
  "\<exists>dropped. mset (project_timeline env now parsed h req @ dropped) = mset (shaped_posts env now parsed h req)
     \<and> length (project_timeline env now parsed h req) = min (tl_max_posts req) (length (shaped_posts env now parsed h req))
     \<and> sorted_wrt (\<lambda>a b. rank_le (tl_language req) b a) (project_timeline env now parsed h req @ dropped)"
proof -
  let ?n = "tl_max_posts req"
  obtain out where out: "project_timeline env now parsed h req = take ?n out"
    "mset out = mset (shaped_posts env now parsed h req)" "sorted_wrt (\<lambda>a b. rank_le (tl_language req) b a) out"
    using projection_sorted by blast
  have "length out = length (shaped_posts env now parsed h req)" by (rule mset_eq_length [OF out(2)])
  then show ?thesis using out by (intro exI [of _ "drop ?n out"]) (simp add: min.commute)
qed

section \<open>The cache\<close>

definition call_mode :: "timeline_config \<Rightarrow> timeline_call \<Rightarrow> string option" where
  "call_mode cfg c = (case parse_timeline_args (tcl_args c) (tc_max_posts cfg) of Inl e \<Rightarrow> None | Inr req \<Rightarrow> Some (tl_mode req))"

definition cached_by :: "timeline_config \<Rightarrow> (timeline_call \<times> (agent_error + string)) list \<Rightarrow> timeline_agent \<Rightarrow> bool" where
  "cached_by cfg rs a \<longleftrightarrow>
     (\<forall>u m t ans. dash_get (ta_cache a) (u, m) = Some (t, ans) \<longrightarrow>
        (\<exists>c. (c, Inr ans) \<in> set rs \<and> tcl_user c = u \<and> call_mode cfg c = Some m \<and> tk_put (tcl_clock c) = t))"

text \<open>A call stores its own answer under its user and mode, or nothing.\<close>

lemma ctx_secret_user: "ctx_secret pos now now' s f ctx w = (r, ctx', w') \<Longrightarrow> cx_user_id ctx' = cx_user_id ctx"
  by (auto simp: ctx_secret_def Let_def split: option.splits sum.splits prod.splits)

lemma read_field_user: "read_field ck f ctx w = (r, ctx', w') \<Longrightarrow> cx_user_id ctx' = cx_user_id ctx"
  by (auto simp: read_field_def dest: ctx_secret_user split: option.splits sum.splits prod.splits)

lemma optional_field_user: "optional_field ck f ctx w = (r, ctx', w') \<Longrightarrow> cx_user_id ctx' = cx_user_id ctx"
  by (auto simp: optional_field_def dest: ctx_secret_user split: option.splits sum.splits prod.splits)


lemma timeline_invoke_cache:
  assumes "timeline_invoke env cfg ck ctx args a w = (r, a', w')"
  shows "ta_cache a' = ta_cache a
       \<or> (\<exists>req ans. parse_timeline_args args (tc_max_posts cfg) = Inr req \<and> r = Inr ans
            \<and> ta_cache a' = dash_put (cx_user_id ctx, tl_mode req) (tk_put ck, ans) (ta_cache a))"
proof (cases "parse_timeline_args args (tc_max_posts cfg)")
  case (Inl e)
  then show ?thesis using assms by (simp add: timeline_invoke_def)
next
  case (Inr req)
  note d = timeline_invoke_def Inr Let_def
  show ?thesis
  proof (cases "cache_get cfg (tk_cache ck) (cx_user_id ctx) (tl_mode req) (ta_cache a)")
    case (Some cached)
    then show ?thesis using assms by (simp add: d)
  next
    case None
    obtain r1 c1 w1 where r1: "read_field ck ''access_token'' ctx w = (r1, c1, w1)" by (metis prod_cases3)
    obtain rt c2 w2 where r2: "optional_field ck ''refresh_token'' c1 w1 = (rt, c2, w2)" by (metis prod_cases3)
    obtain r3 c3 w3 where r3: "read_field ck ''x_user_id'' c2 w2 = (r3, c3, w3)" by (metis prod_cases3)
    obtain r4 c4 w4 where r4: "read_field ck ''x_screen_name'' c3 w3 = (r4, c4, w4)" by (metis prod_cases3)
    obtain te c5 w5 where r5: "optional_field ck ''token_expires_at'' c4 w4 = (te, c5, w5)" by (metis prod_cases3)
    have u: "cx_user_id c5 = cx_user_id ctx"
      using read_field_user [OF r1] optional_field_user [OF r2] read_field_user [OF r3] read_field_user [OF r4]
        optional_field_user [OF r5] by simp
    note dd = d None r1 r2 r3 r4 r5 u
    show ?thesis
    proof (cases "\<exists>tok0 xu xs. r1 = Inr tok0 \<and> r3 = Inr xu \<and> r4 = Inr xs")
      case False
      then show ?thesis using assms by (cases r1; cases r3; cases r4) (auto simp: dd)
    next
      case True
      then obtain tok0 xu xs where x: "r1 = Inr tok0" "r3 = Inr xu" "r4 = Inr xs" by blast
      obtain r6 w6 where r6: "current_token env cfg ck tok0 rt te c5 w5 = (r6, w6)" by (metis prod.exhaust)
      show ?thesis
      proof (cases r6)
        case (Inl e)
        then show ?thesis using assms x r6 by (simp add: dd)
      next
        case (Inr token)
        obtain rqs r7 where r7: "fetch_timeline env cfg (tl_mode req) xu token = (rqs, r7)" by (metis prod.exhaust)
        show ?thesis using assms x r6 Inr r7 by (cases r7) (auto simp: dd cache_put_def)
      qed
    qed
  qed
qed

text \<open>An answer from the cache leaves everything as it was.\<close>

lemma timeline_hit:
  assumes "parse_timeline_args args (tc_max_posts cfg) = Inr req"
    and "cache_get cfg (tk_cache ck) (cx_user_id ctx) (tl_mode req) (ta_cache a) = Some ans"
  shows "timeline_invoke env cfg ck ctx args a w = (Inr ans, a, w)"
  using assms by (simp add: timeline_invoke_def)

lemma cached_by_step:
  assumes "\<And>u. cx_user_id (ctx_of u) = u" "cached_by cfg rs a"
    and "timeline_invoke env cfg (tcl_clock c) (ctx_of (tcl_user c)) (tcl_args c) a w = (r, a', w')"
  shows "cached_by cfg (rs @ [(c, r)]) a'"
  using timeline_invoke_cache [OF assms(3)]
proof (elim disjE exE conjE)
  assume "ta_cache a' = ta_cache a"
  then have "cached_by cfg rs a'" using assms(2) by (simp add: cached_by_def)
  then show ?thesis unfolding cached_by_def by (metis Un_iff set_append)
next
  fix req ans
  assume p: "parse_timeline_args (tcl_args c) (tc_max_posts cfg) = Inr req" "r = Inr ans"
    "ta_cache a' = dash_put (cx_user_id (ctx_of (tcl_user c)), tl_mode req) (tk_put (tcl_clock c), ans) (ta_cache a)"
  show ?thesis unfolding cached_by_def
  proof (intro allI impI)
    fix u m t ans'
    assume "dash_get (ta_cache a') (u, m) = Some (t, ans')"
    then have "u = tcl_user c \<and> m = tl_mode req \<and> t = tk_put (tcl_clock c) \<and> ans' = ans
        \<or> dash_get (ta_cache a) (u, m) = Some (t, ans')"
      unfolding p(3) by (simp add: dash_get_put assms(1) split: if_splits)
    then show "\<exists>ca. (ca, Inr ans') \<in> set (rs @ [(c, r)]) \<and> tcl_user ca = u \<and> call_mode cfg ca = Some m
        \<and> tk_put (tcl_clock ca) = t"
    proof
      assume "u = tcl_user c \<and> m = tl_mode req \<and> t = tk_put (tcl_clock c) \<and> ans' = ans"
      then show ?thesis using p(1,2) by (intro exI [of _ c]) (simp add: call_mode_def)
    next
      assume "dash_get (ta_cache a) (u, m) = Some (t, ans')"
      then obtain ca where "(ca, Inr ans') \<in> set rs" "tcl_user ca = u" "call_mode cfg ca = Some m" "tk_put (tcl_clock ca) = t"
        using assms(2) unfolding cached_by_def by metis
      then show ?thesis by (intro exI [of _ ca]) simp
    qed
  qed
qed

lemma cached_by_run:
  assumes "\<And>u. cx_user_id (ctx_of u) = u" "cached_by cfg before a" "timeline_run env cfg ctx_of cs a w = (rs, a', w')"
  shows "cached_by cfg (before @ rs) a'"
  using assms(2,3)
proof (induction cs arbitrary: before a w rs)
  case (Cons c cs)
  obtain r a1 w1 where c: "timeline_invoke env cfg (tcl_clock c) (ctx_of (tcl_user c)) (tcl_args c) a w = (r, a1, w1)"
    by (metis prod_cases3)
  obtain rs' where rs: "timeline_run env cfg ctx_of cs a1 w1 = (rs', a', w')" "rs = (c, r) # rs'"
    using Cons.prems(2) c by (auto split: prod.splits)
  show ?case using Cons.IH [OF cached_by_step [OF assms(1) Cons.prems(1) c] rs(1)] rs(2) by simp
qed simp

lemma cache_getD:
  assumes "cache_get cfg now u m cache = Some ans"
  obtains t where "dash_get cache (u, m) = Some (t, ans)" "0 \<le> num_seconds (now - t)"
    "num_seconds (now - t) < as_i64 (tc_cache_ttl_secs cfg)"
  using assms by (auto simp: cache_get_def Let_def split: if_splits option.splits)

text \<open>
  C24: What the cache gives back was computed for the same user and the same mode: a call answered
  without reading the vault returns the answer an earlier call of this user in this mode returned
  less than the time to live before, and leaves the vault and the cache alone.
\<close>

theorem timeline_cache_own:
  assumes "\<And>u. cx_user_id (ctx_of u) = u" and "ta_cache a = []"
    and "timeline_run env cfg ctx_of calls a w = (rs, a', w')"
    and "parse_timeline_args args (tc_max_posts cfg) = Inr req"
    and "cache_get cfg (tk_cache ck) u (tl_mode req) (ta_cache a') = Some ans"
  shows "timeline_invoke env cfg ck (ctx_of u) args a' w' = (Inr ans, a', w')
     \<and> (\<exists>c. (c, Inr ans) \<in> set rs \<and> tcl_user c = u \<and> call_mode cfg c = Some (tl_mode req)
          \<and> 0 \<le> num_seconds (tk_cache ck - tk_put (tcl_clock c))
          \<and> num_seconds (tk_cache ck - tk_put (tcl_clock c)) < as_i64 (tc_cache_ttl_secs cfg))"
proof
  show "timeline_invoke env cfg ck (ctx_of u) args a' w' = (Inr ans, a', w')"
    using assms(5) by (intro timeline_hit [OF assms(4)]) (simp add: assms(1))
  have "cached_by cfg ([] @ rs) a'"
    using assms(2) by (intro cached_by_run [OF assms(1) _ assms(3)]) (simp add: cached_by_def)
  then show "\<exists>c. (c, Inr ans) \<in> set rs \<and> tcl_user c = u \<and> call_mode cfg c = Some (tl_mode req)
      \<and> 0 \<le> num_seconds (tk_cache ck - tk_put (tcl_clock c))
      \<and> num_seconds (tk_cache ck - tk_put (tcl_clock c)) < as_i64 (tc_cache_ttl_secs cfg)"
    using cache_getD [OF assms(5)] unfolding cached_by_def by (metis append_Nil)
qed


section \<open>Examples\<close>

definition demo_account :: "(string \<times> string) list" where
  "demo_account =
     [(''access_token'', ''old''), (''refresh_token'', ''rt''), (''x_user_id'', ''7''), (''x_screen_name'', ''neo''),
      (''token_expires_at'', ''t'')]"

definition demo_timeline_env :: timeline_env where
  "demo_timeline_env =
     \<lparr>te_net = \<lparr>ee_parse = \<lambda>u. Inr \<lparr>pu_text = u, pu_scheme = ''https'', pu_host = Some ''h'', pu_port_or_known_default = None\<rparr>,
                ee_lookup = \<lambda>h p. Inr [V4 (IPv4 8 8 8 8)], ee_send = \<lambda>u. Inl []\<rparr>,
      te_env_var = \<lambda>_. None, te_url_error = \<lambda>_. None,
      te_refresh = \<lambda>u c t. Inr \<lparr>tr_access_token = ''new'', tr_refresh_token = None, tr_expires_in = None, tr_scopes = None\<rparr>,
      te_send = \<lambda>rq. Inr (200, Inr []),
      te_js = \<lparr>js_parse = \<lambda>_. Some JNull, js_error = \<lambda>_. [], js_show = \<lambda>_. ''answer''\<rparr>,
      te_parse_time = \<lambda>_. Some 0, te_time_text = \<lambda>_. ''t'', te_addr_text = \<lambda>a p. []\<rparr>"

definition demo_timeline_config :: "nat \<Rightarrow> timeline_config" where
  "demo_timeline_config ttl =
     \<lparr>tc_timeout_ms = 8000, tc_max_posts = 20, tc_allowlist = [], tc_cache_ttl_secs = ttl, tc_base_url = ''https://h''\<rparr>"

definition demo_clock :: "int \<Rightarrow> timeline_clock" where
  "demo_clock t =
     \<lparr>tk_secret = \<lambda>_. (0, 0, 0), tk_cache = t, tk_stale = t, tk_refreshed = t, tk_projected = t, tk_fetched = t, tk_put = t\<rparr>"

definition demo_timeline_agent :: timeline_agent where
  "demo_timeline_agent = \<lparr>ta_cache = [], ta_sent = []\<rparr>"

lemma demo_seal: "\<exists>rows. seal_fields demo_vault_env ps i = (Inr rows, i + length ps)"
proof (induction ps arbitrary: i)
  case (Cons p ps)
  obtain k v where p: "p = (k, v)" by (cases p)
  obtain s where s: "encrypt (ve_aead demo_vault_env) (ve_key demo_vault_env) v i = (Inr s, Suc i)"
    by (simp add: encrypt_def demo_vault_env_def demo_aead_def)
  obtain rows where "seal_fields demo_vault_env ps (Suc i) = (Inr rows, Suc i + length ps)" using Cons by blast
  then show ?case by (simp add: p s)
qed simp

lemma demo_update:
  assumes "distinct (map fst ps)" "\<forall>p \<in> set ps. valid_utf8 (snd p)"
  shows "\<exists>w'. secret_update demo_vault_env u s ps w = (Inr (), w')"
proof (cases "ps = []")
  case False
  obtain rows j where rows: "seal_fields demo_vault_env ps (va_drawn w) = (Inr rows, j)" using demo_seal by blast
  have rel: "list_all2 (sealed_as demo_vault_env) ps rows"
    using seal_fields_Inr [OF _ rows assms(2)] demo_steady(1) by (simp add: steady_def)
  obtain w' where "upsert demo_vault_env u s rows (w\<lparr>va_drawn := j\<rparr>) = (Inr (), w')"
    using upsert_same [of demo_vault_env u "w\<lparr>va_drawn := j\<rparr>" "w\<lparr>va_drawn := j\<rparr>" ps rows rows s,
        OF demo_steady(1) same_view_rows [OF refl] rel rel assms(1)] by (metis prod.collapse)
  then show ?thesis using False rows by (simp add: secret_update_def)
qed (simp add: secret_update_def)

lemma demo_account_valid: "distinct (map fst demo_account)" "\<forall>p \<in> set demo_account. valid_utf8 (snd p)" "demo_account \<noteq> []"
  by (simp_all add: demo_account_def valid_ascii byte_def)

definition account_stored :: "vault \<Rightarrow> bool" where
  "account_stored w \<longleftrightarrow> (\<forall>k. fst (secret_fetch demo_vault_env 1 ''x_account'' k w)
    = (case map_of demo_account k of Some v \<Rightarrow> Inr (Some v) | None \<Rightarrow> Inl (CredentialsMissing ''x_account'' k)))"

lemma demo_account_stored: "\<exists>w. account_stored w"
proof -
  obtain w' where w': "secret_update demo_vault_env 1 ''x_account'' demo_account empty_vault = (Inr (), w')"
    using demo_update [OF demo_account_valid(1,2)] by blast
  show ?thesis using vlt.update_replaces [OF demo_steady(1) demo_account_valid(3,2) w'] by (auto simp: account_stored_def)
qed

definition demo_req :: timeline_args where
  "demo_req = \<lparr>tl_mode = ''following'', tl_max_posts = 20, tl_since_hours = None, tl_language = None\<rparr>"

lemma demo_args: "parse_timeline_args (JObj []) (tc_max_posts (demo_timeline_config ttl)) = Inr demo_req"
  by (simp add: parse_timeline_args_def demo_timeline_config_def demo_req_def jget_str_def unwrap_or_def Let_def)

lemma demo_miss: "cache_get (demo_timeline_config ttl) now u m (ta_cache demo_timeline_agent) = None"
  by (simp add: cache_get_def demo_timeline_agent_def)

lemma demo_fetch:
  "\<exists>rqs. fetch_timeline demo_timeline_env (demo_timeline_config ttl) (tl_mode demo_req) x token = (rqs, Inr JNull)"
  by (simp add: fetch_timeline_def timeline_endpoint_def egress_validate_def timeline_egress_def egress_finalize_def
      demo_timeline_env_def demo_timeline_config_def demo_req_def timeline_answer_def is_success_def is_v4_allowed_def
      Let_def)

lemma demo_refreshed:
  "refresh_access_token demo_timeline_env cfg now rt
   = Inr \<lparr>rf_access_token = ''new'', rf_new_refresh = None, rf_expires_at = now + nanos 3600\<rparr>"
  by (simp add: refresh_access_token_def demo_timeline_env_def unwrap_or_def)

lemma demo_time_text: "te_time_text demo_timeline_env x = ''t''"
  by (simp add: demo_timeline_env_def)

lemma demo_fields_valid:
  "refresh_access_token demo_timeline_env cfg now rt = Inr r \<Longrightarrow> \<forall>p \<in> set (refreshed_fields demo_timeline_env r). valid_utf8 (snd p)"
  by (auto simp: demo_refreshed refreshed_fields_def demo_time_text valid_ascii byte_def)

lemma demo_token:
  assumes "cx_sink ctx = Some (secret_update demo_vault_env)"
  shows "\<exists>token w2. current_token demo_timeline_env cfg (demo_clock t) ''old'' (Some ''rt'') (Some ''t'') ctx w = (Inr token, w2)
     \<and> token = (if t < nanos 60 then ''new'' else ''old'')"
proof -
  have nr: "needs_refresh demo_timeline_env t (Some ''t'') \<longleftrightarrow> t < nanos 60"
    using needs_refresh_iff [of demo_timeline_env "''t''" 0 t] by (simp add: demo_timeline_env_def)
  let ?r = "\<lparr>rf_access_token = ''new'', rf_new_refresh = None, rf_expires_at = t + nanos 3600\<rparr>"
  have "\<exists>w2. secret_update demo_vault_env (cx_user_id ctx) ''x_account'' (refreshed_fields demo_timeline_env ?r) w = (Inr (), w2)"
    using demo_fields_valid [OF demo_refreshed] by (intro demo_update) (auto simp: refreshed_fields_def)
  then obtain w2 where "update_secret ''x_account'' (refreshed_fields demo_timeline_env ?r) ctx w = (Inr (), w2)"
    using assms by (auto simp: update_secret_def)
  then show ?thesis using nr by (simp add: current_token_def demo_clock_def demo_refreshed)
qed

lemma demo_invoke:
  assumes "account_stored w"
  shows "\<exists>a' w'. timeline_invoke demo_timeline_env (demo_timeline_config ttl) (demo_clock t)
      (timeline_ctx demo_vault_env 1 [] fresh_cache) (JObj []) demo_timeline_agent w = (Inr ''answer'', a', w')
     \<and> ta_cache a' = cache_put (demo_timeline_config ttl) t 1 ''following'' ''answer'' []"
proof -
  let ?ctx = "timeline_ctx demo_vault_env 1 [] fresh_cache"
  have f: "fst (secret_fetch demo_vault_env (cx_user_id ?ctx) ''x_account'' ''access_token'' w) = Inr (Some ''old'')"
    "fst (secret_fetch demo_vault_env (cx_user_id ?ctx) ''x_account'' ''refresh_token'' w) = Inr (Some ''rt'')"
    "fst (secret_fetch demo_vault_env (cx_user_id ?ctx) ''x_account'' ''x_user_id'' w) = Inr (Some ''7'')"
    "fst (secret_fetch demo_vault_env (cx_user_id ?ctx) ''x_account'' ''x_screen_name'' w) = Inr (Some ''neo'')"
    "fst (secret_fetch demo_vault_env (cx_user_id ?ctx) ''x_account'' ''token_expires_at'' w) = Inr (Some ''t'')"
    using assms by (simp_all add: account_stored_def demo_account_def)
  let ?token = "if t < nanos 60 then ''new'' else ''old''"
  obtain rqs where rqs: "fetch_timeline demo_timeline_env (demo_timeline_config ttl) (tl_mode demo_req) ''7'' ?token = (rqs, Inr JNull)"
    using demo_fetch by blast
  have "\<exists>w2. timeline_invoke demo_timeline_env (demo_timeline_config ttl) (demo_clock t) ?ctx (JObj []) demo_timeline_agent w =
     (Inr (timeline_result demo_timeline_env (demo_clock t) JNull ''neo'' demo_req),
      \<lparr>ta_cache = cache_put (demo_timeline_config ttl) (tk_put (demo_clock t)) (cx_user_id ?ctx) (tl_mode demo_req)
         (timeline_result demo_timeline_env (demo_clock t) JNull ''neo'' demo_req) (ta_cache demo_timeline_agent),
       ta_sent = ta_sent demo_timeline_agent @ rqs\<rparr>, w2)"
    by (rule vlt.invoke_ok [OF demo_steady(1) _ _ _ demo_args demo_miss f _ rqs]) (use demo_token in auto)
  then show ?thesis
    by (auto simp: timeline_result_def demo_timeline_env_def demo_clock_def demo_timeline_agent_def demo_req_def Let_def)
qed


lemma demo_expiry:
  assumes "account_stored w"
  shows "vault_value demo_vault_env 1 ''token_expires_at'' w = Some ''t''" "te_parse_time demo_timeline_env ''t'' = Some 0"
  using assms by (simp_all add: account_stored_def vault_value_def demo_account_def demo_timeline_env_def)

lemma timeline_refresh_forgets_witness:
  "\<exists>w a' w'. timeline_invoke demo_timeline_env (demo_timeline_config 0) (demo_clock 0)
      (timeline_ctx demo_vault_env 1 [] fresh_cache) (JObj []) demo_timeline_agent w = (Inr ''answer'', a', w')
   \<and> fst (timeline_invoke demo_timeline_env (demo_timeline_config 0) (demo_clock 1)
      (timeline_ctx demo_vault_env 1 [] fresh_cache) (JObj []) a' w') = Inl (CredentialsMissing ''x_account'' ''x_user_id'')"
proof -
  obtain w where w: "account_stored w" using demo_account_stored by blast
  obtain a' w' where c: "timeline_invoke demo_timeline_env (demo_timeline_config 0) (demo_clock 0)
      (timeline_ctx demo_vault_env 1 [] fresh_cache) (JObj []) demo_timeline_agent w = (Inr ''answer'', a', w')"
    using demo_invoke [OF w] by blast
  have "tk_stale (demo_clock 0) < 0 + nanos 60" by (simp add: demo_clock_def nanos_def)
  from timeline_refresh_forgets [OF demo_steady(1) demo_expiry [OF w] this c demo_args demo_miss demo_fields_valid timeline_run.simps(1) demo_args]
  show ?thesis using c by (intro exI conjI) (auto simp: cache_get_def demo_timeline_config_def)
qed

lemma timeline_expired_sent_witness:
  "\<exists>w a' w'. timeline_invoke demo_timeline_env (demo_timeline_config 0) (demo_clock (nanos 60))
      (timeline_ctx demo_vault_env 1 [] fresh_cache) (JObj []) demo_timeline_agent w = (Inr ''answer'', a', w')
   \<and> (\<forall>rq \<in> set (ta_sent a'). tq_bearer rq = ''old'')"
proof -
  obtain w where w: "account_stored w" using demo_account_stored by blast
  obtain a' w' where c: "timeline_invoke demo_timeline_env (demo_timeline_config 0) (demo_clock (nanos 60))
      (timeline_ctx demo_vault_env 1 [] fresh_cache) (JObj []) demo_timeline_agent w = (Inr ''answer'', a', w')"
    using demo_invoke [OF w] by blast
  have "0 + nanos 60 \<le> tk_stale (demo_clock (nanos 60))" by (simp add: demo_clock_def)
  from timeline_expired_sent [OF demo_steady(1) demo_expiry [OF w] this c demo_args demo_miss]
  have "\<forall>rq \<in> set (ta_sent a'). tq_bearer rq = ''old''"
    using w by (auto simp: account_stored_def vault_value_def demo_account_def demo_timeline_agent_def)
  then show ?thesis using c by blast
qed

lemma timeline_cache_own_witness:
  "\<exists>w a' w' rs. timeline_run demo_timeline_env (demo_timeline_config 60) (\<lambda>u. timeline_ctx demo_vault_env u [] fresh_cache)
       [\<lparr>tcl_user = 1, tcl_args = JObj [], tcl_clock = demo_clock 0\<rparr>] demo_timeline_agent w = (rs, a', w')
   \<and> timeline_invoke demo_timeline_env (demo_timeline_config 60) (demo_clock (nanos 59))
       (timeline_ctx demo_vault_env 1 [] fresh_cache) (JObj []) a' w' = (Inr ''answer'', a', w')"
proof -
  let ?ctx = "\<lambda>u. timeline_ctx demo_vault_env u [] fresh_cache"
  obtain w where w: "account_stored w" using demo_account_stored by blast
  obtain a' w' where c: "timeline_invoke demo_timeline_env (demo_timeline_config 60) (demo_clock 0)
      (?ctx 1) (JObj []) demo_timeline_agent w = (Inr ''answer'', a', w')"
    and a': "ta_cache a' = cache_put (demo_timeline_config 60) 0 1 ''following'' ''answer'' []"
    using demo_invoke [OF w] by blast
  let ?calls = "[\<lparr>tcl_user = 1, tcl_args = JObj [], tcl_clock = demo_clock 0\<rparr>]"
  have run: "timeline_run demo_timeline_env (demo_timeline_config 60) ?ctx ?calls demo_timeline_agent w
      = ([(\<lparr>tcl_user = 1, tcl_args = JObj [], tcl_clock = demo_clock 0\<rparr>, Inr ''answer'')], a', w')"
    using c by simp
  have hit: "cache_get (demo_timeline_config 60) (tk_cache (demo_clock (nanos 59))) 1 (tl_mode demo_req) (ta_cache a') = Some ''answer''"
    unfolding a' by (simp add: cache_get_def cache_put_def demo_timeline_config_def demo_clock_def demo_req_def num_seconds_def
        nanos_def as_i64_def dash_get_put)
  have "ta_cache demo_timeline_agent = []" by (simp add: demo_timeline_agent_def)
  from timeline_cache_own [OF _ this run demo_args hit] show ?thesis using run by auto
qed

end
