(* ===== verification/Doc_Pages.thy ===== *)
theory Doc_Pages
  imports Seal
begin

text \<open>
  The page store of uploaded PDFs (\<open>nagent-server/src/documents/pages.rs\<close>) over a model of the file
  system: a path is the list of its components, \<open>de_real\<close> resolves symbolic links, and a disk
  holds the contents of the files by resolved path and the directories created. \<open>de_fault\<close> says
  whether the file system refuses a call for another reason than a missing file. The PDF readers
  (\<open>lopdf\<close>, \<open>pdf-extract\<close>) and the JSON form of the index are parameters.
\<close>

section \<open>Files\<close>

type_synonym path = "string list"

datatype io_error = IoNotFound | IoOther string

fun io_text :: "io_error \<Rightarrow> string" where
  "io_text IoNotFound = ''No such file or directory (os error 2)''"
| "io_text (IoOther m) = m"

record disk =
  dk_files :: "(path, string) dash"
  dk_dirs :: "path list"
  dk_calls :: nat

record disk_env =
  de_fault :: "nat \<Rightarrow> string option"
  de_real :: "path \<Rightarrow> path"

definition path_text :: "path \<Rightarrow> string" where
  "path_text p = concat (map (\<lambda>c. CHR ''/'' # c) p)"

definition path_starts_with :: "path \<Rightarrow> path \<Rightarrow> bool" where
  "path_starts_with p base \<longleftrightarrow> take (length base) p = base"

definition fs_call :: "disk_env \<Rightarrow> disk \<Rightarrow> io_error option \<times> disk" where
  "fs_call env d = (map_option IoOther (de_fault env (dk_calls d)), d\<lparr>dk_calls := Suc (dk_calls d)\<rparr>)"

definition fs_exists :: "disk_env \<Rightarrow> path \<Rightarrow> disk \<Rightarrow> bool" where
  "fs_exists env p d \<longleftrightarrow>
     (\<exists>q \<in> set (dk_dirs d) \<union> fst ` set (dk_files d). path_starts_with q (de_real env p))"

definition create_dir_all :: "disk_env \<Rightarrow> path \<Rightarrow> disk \<Rightarrow> (io_error + unit) \<times> disk" where
  "create_dir_all env p d =
     (case fs_call env d of
        (Some e, d) \<Rightarrow> (Inl e, d)
      | (None, d) \<Rightarrow> (Inr (), d\<lparr>dk_dirs := List.insert (de_real env p) (dk_dirs d)\<rparr>))"

definition fs_write :: "disk_env \<Rightarrow> path \<Rightarrow> string \<Rightarrow> disk \<Rightarrow> (io_error + unit) \<times> disk" where
  "fs_write env p bytes d =
     (case fs_call env d of
        (Some e, d) \<Rightarrow> (Inl e, d)
      | (None, d) \<Rightarrow> (Inr (), d\<lparr>dk_files := dash_put (de_real env p) bytes (dk_files d)\<rparr>))"

definition fs_read :: "disk_env \<Rightarrow> path \<Rightarrow> disk \<Rightarrow> (io_error + string) \<times> disk" where
  "fs_read env p d =
     (case fs_call env d of
        (Some e, d) \<Rightarrow> (Inl e, d)
      | (None, d) \<Rightarrow>
          (case dash_get (dk_files d) (de_real env p) of None \<Rightarrow> (Inl IoNotFound, d) | Some b \<Rightarrow> (Inr b, d)))"

definition fs_rename :: "disk_env \<Rightarrow> path \<Rightarrow> path \<Rightarrow> disk \<Rightarrow> (io_error + unit) \<times> disk" where
  "fs_rename env a b d =
     (case fs_call env d of
        (Some e, d) \<Rightarrow> (Inl e, d)
      | (None, d) \<Rightarrow>
          (case dash_get (dk_files d) (de_real env a) of
             None \<Rightarrow> (Inl IoNotFound, d)
           | Some bytes \<Rightarrow>
               (Inr (), d\<lparr>dk_files := dash_put (de_real env b) bytes (dash_remove (de_real env a) (dk_files d))\<rparr>)))"

definition remove_file :: "disk_env \<Rightarrow> path \<Rightarrow> disk \<Rightarrow> (io_error + unit) \<times> disk" where
  "remove_file env p d =
     (case fs_call env d of
        (Some e, d) \<Rightarrow> (Inl e, d)
      | (None, d) \<Rightarrow>
          (if dash_get (dk_files d) (de_real env p) = None then (Inl IoNotFound, d)
           else (Inr (), d\<lparr>dk_files := dash_remove (de_real env p) (dk_files d)\<rparr>)))"

definition remove_dir_all :: "disk_env \<Rightarrow> path \<Rightarrow> disk \<Rightarrow> (io_error + unit) \<times> disk" where
  "remove_dir_all env p d =
     (case fs_call env d of
        (Some e, d) \<Rightarrow> (Inl e, d)
      | (None, d) \<Rightarrow>
          (if \<not> fs_exists env p d then (Inl IoNotFound, d)
           else (Inr (), d\<lparr>dk_files := dash_retain (\<lambda>q _. \<not> path_starts_with q (de_real env p)) (dk_files d),
                            dk_dirs := filter (\<lambda>q. \<not> path_starts_with q (de_real env p)) (dk_dirs d)\<rparr>)))"

definition canonicalize :: "disk_env \<Rightarrow> path \<Rightarrow> disk \<Rightarrow> (io_error + path) \<times> disk" where
  "canonicalize env p d =
     (case fs_call env d of
        (Some e, d) \<Rightarrow> (Inl e, d)
      | (None, d) \<Rightarrow> (if fs_exists env p d then (Inr (de_real env p), d) else (Inl IoNotFound, d)))"

definition file_len :: "disk_env \<Rightarrow> path \<Rightarrow> disk \<Rightarrow> (io_error + nat) \<times> disk" where
  "file_len env p d =
     (case fs_read env p d of (Inl e, d) \<Rightarrow> (Inl e, d) | (Inr b, d) \<Rightarrow> (Inr (length b), d))"

text \<open>The name and the length of every file directly in a directory.\<close>

definition read_dir :: "disk_env \<Rightarrow> path \<Rightarrow> disk \<Rightarrow> (io_error + (string \<times> nat) list) \<times> disk" where
  "read_dir env p d =
     (case fs_call env d of
        (Some e, d) \<Rightarrow> (Inl e, d)
      | (None, d) \<Rightarrow>
          (if \<not> fs_exists env p d then (Inl IoNotFound, d)
           else (Inr [(last q, length b). (q, b) \<leftarrow> dk_files d, q \<noteq> [] \<and> butlast q = de_real env p], d)))"

section \<open>File names\<close>

text \<open>What precedes and what follows the last dot; a leading dot does not count.\<close>

fun last_dot :: "string \<Rightarrow> (string \<times> string) option" where
  "last_dot [] = None"
| "last_dot (c # s) =
     (case last_dot s of
        Some (before, after) \<Rightarrow> Some (c # before, after)
      | None \<Rightarrow> if c = CHR ''.'' then Some ([], s) else None)"

definition file_stem_ext :: "string \<Rightarrow> string \<times> string option" where
  "file_stem_ext name =
     (if name = ''..'' then (name, None)
      else case last_dot name of
             None \<Rightarrow> (name, None)
           | Some (before, after) \<Rightarrow> if before = [] then (name, None) else (before, Some after))"

definition with_extension :: "string \<Rightarrow> path \<Rightarrow> path" where
  "with_extension ext p = butlast p @ [fst (file_stem_ext (last p)) @ ''.'' @ ext]"

definition pad4 :: "string \<Rightarrow> string" where
  "pad4 s = replicate (4 - length s) CHR ''0'' @ s"

definition page_path :: "path \<Rightarrow> nat \<Rightarrow> path" where
  "page_path dir page = dir @ [''page-'' @ pad4 (nat_to_string page) @ ''.bin'']"

definition meta_path :: "path \<Rightarrow> path" where
  "meta_path dir = dir @ [''meta.bin'']"

section \<open>Sealed files\<close>

datatype pages_error =
    PgParseFailed string | PgDirectoryMissing path | PgDecryptFailed string | PgIo path io_error

fun pages_error_text :: "pages_error \<Rightarrow> string" where
  "pages_error_text (PgParseFailed m) = ''pdf parse failed: '' @ m"
| "pages_error_text (PgDirectoryMissing p) = ''pages directory missing on disk: '' @ path_text p"
| "pages_error_text (PgDecryptFailed m) = ''page decryption failed: '' @ m"
| "pages_error_text (PgIo p e) = ''io error on '' @ path_text p @ '': '' @ io_text e"

definition crypto_text :: string where
  "crypto_text = ''AES-GCM decryption failed (wrong key, wrong nonce, or tampered ciphertext)''"

definition map_crypto_err :: "crypto_error \<Rightarrow> pages_error" where
  "map_crypto_err e = PgDecryptFailed crypto_text"

definition atomic_write :: "disk_env \<Rightarrow> path \<Rightarrow> string \<Rightarrow> disk \<Rightarrow> (pages_error + unit) \<times> disk" where
  "atomic_write env p bytes d =
     (let tmp = with_extension ''bin.tmp'' p
      in case fs_write env tmp bytes d of
           (Inl e, d) \<Rightarrow> (Inl (PgIo tmp e), d)
         | (Inr _, d) \<Rightarrow>
             (case fs_rename env tmp p d of
                (Inl e, d) \<Rightarrow> (Inl (PgIo p e), d)
              | (Inr _, d) \<Rightarrow> (Inr (), d)))"

definition write_encrypted_file :: "disk_env \<Rightarrow> path \<Rightarrow> encrypted_secret \<Rightarrow> disk \<Rightarrow> (pages_error + unit) \<times> disk" where
  "write_encrypted_file env p sealed d =
     (case create_dir_all env (butlast p) d of
        (Inl e, d) \<Rightarrow> (Inl (PgIo (butlast p) e), d)
      | (Inr _, d) \<Rightarrow> atomic_write env p (en_nonce sealed @ en_ciphertext sealed) d)"

definition read_encrypted_file :: "disk_env \<Rightarrow> path \<Rightarrow> disk \<Rightarrow> (pages_error + encrypted_secret) \<times> disk" where
  "read_encrypted_file env p d =
     (case fs_read env p d of
        (Inl IoNotFound, d) \<Rightarrow> (Inl (PgDirectoryMissing p), d)
      | (Inl e, d) \<Rightarrow> (Inl (PgIo p e), d)
      | (Inr bytes, d) \<Rightarrow>
          (if length bytes < 12
           then (Inl (PgParseFailed (''encrypted file '' @ path_text p @ '' too short to contain a 12-byte nonce'')), d)
           else (Inr \<lparr>en_nonce = take 12 bytes, en_ciphertext = drop 12 bytes\<rparr>, d)))"

section \<open>Extraction and reading\<close>

record toc_entry =
  toc_title :: string
  toc_page :: nat

datatype pages_index = PxMissing | PxIndexed nat nat string "toc_entry list"

definition index_page_count :: "pages_index \<Rightarrow> nat option" where
  "index_page_count ix = (case ix of PxIndexed n _ _ _ \<Rightarrow> Some n | PxMissing \<Rightarrow> None)"

definition index_unreadable :: "pages_index \<Rightarrow> nat" where
  "index_unreadable ix = (case ix of PxIndexed _ u _ _ \<Rightarrow> u | PxMissing \<Rightarrow> 0)"

text \<open>\<open>pe_load\<close> gives the text of each page, or the error of its extraction.\<close>

record pages_env =
  pe_disk :: disk_env
  pe_aead :: aead
  pe_load :: "string \<Rightarrow> string + (string + string) list"
  pe_index_show :: "pages_index \<Rightarrow> string + string"
  pe_index_parse :: "string \<Rightarrow> string + pages_index"

definition overview_preview_chars :: nat where "overview_preview_chars = 2000"

definition unreadable_page_marker :: string where
  "unreadable_page_marker =
     ''<this page could not be extracted; the PDF likely embeds a ToUnicode CMap or font the extractor cannot decode>''"

definition page_text :: "string + string \<Rightarrow> string" where
  "page_text r = (case r of Inl _ \<Rightarrow> unreadable_page_marker | Inr t \<Rightarrow> t)"

definition preview_push :: "string \<Rightarrow> string \<Rightarrow> string" where
  "preview_push acc text =
     (if text \<noteq> unreadable_page_marker \<and> char_count acc < overview_preview_chars
      then acc @ take_chars (overview_preview_chars - char_count acc) text else acc)"

definition note_unreadable :: "nat \<Rightarrow> string + string \<Rightarrow> nat" where
  "note_unreadable u r = (case r of Inl _ \<Rightarrow> sat_add u32_max u 1 | Inr _ \<Rightarrow> u)"

fun extract_loop ::
    "pages_env \<Rightarrow> string \<Rightarrow> path \<Rightarrow> nat \<Rightarrow> (string + string) list \<Rightarrow> string \<Rightarrow> nat \<Rightarrow> nat \<Rightarrow> disk
       \<Rightarrow> (pages_error + string \<times> nat) \<times> nat \<times> disk" where
  "extract_loop env key dir page [] preview unreadable drawn d = (Inr (preview, unreadable), drawn, d)"
| "extract_loop env key dir page (r # rs) preview unreadable drawn d =
     (let text = page_text r;
          unreadable = note_unreadable unreadable r;
          preview = preview_push preview text
      in case encrypt (pe_aead env) key text drawn of
           (Inl e, drawn) \<Rightarrow> (Inl (map_crypto_err e), drawn, d)
         | (Inr sealed, drawn) \<Rightarrow>
             (case write_encrypted_file (pe_disk env) (page_path dir page) sealed d of
                (Inl e, d) \<Rightarrow> (Inl e, drawn, d)
              | (Inr _, d) \<Rightarrow> extract_loop env key dir (Suc page) rs preview unreadable drawn d))"

definition extract_pages ::
    "pages_env \<Rightarrow> string \<Rightarrow> path \<Rightarrow> string \<Rightarrow> nat \<Rightarrow> disk \<Rightarrow> (pages_error + pages_index) \<times> nat \<times> disk" where
  "extract_pages env bytes dir key drawn d =
     (case create_dir_all (pe_disk env) dir d of
        (Inl e, d) \<Rightarrow> (Inl (PgIo dir e), drawn, d)
      | (Inr _, d) \<Rightarrow>
          (case pe_load env bytes of
             Inl e \<Rightarrow> (Inl (PgParseFailed e), drawn, d)
           | Inr pages \<Rightarrow>
               (let page_count = length pages mod 2 ^ 32
                in case extract_loop env key dir 1 (take page_count pages) [] 0 drawn d of
                     (Inl e, drawn, d) \<Rightarrow> (Inl e, drawn, d)
                   | (Inr (preview, unreadable), drawn, d) \<Rightarrow>
                       (let index = PxIndexed page_count unreadable preview []
                        in case pe_index_show env index of
                             Inl e \<Rightarrow> (Inl (PgParseFailed e), drawn, d)
                           | Inr meta \<Rightarrow>
                               (case encrypt (pe_aead env) key (if valid_utf8 meta then meta else []) drawn of
                                  (Inl e, drawn) \<Rightarrow> (Inl (map_crypto_err e), drawn, d)
                                | (Inr sealed, drawn) \<Rightarrow>
                                    (case write_encrypted_file (pe_disk env) (meta_path dir) sealed d of
                                       (Inl e, d) \<Rightarrow> (Inl e, drawn, d)
                                     | (Inr _, d) \<Rightarrow> (Inr index, drawn, d)))))))"

definition read_sealed :: "pages_env \<Rightarrow> string \<Rightarrow> path \<Rightarrow> disk \<Rightarrow> (pages_error + string) \<times> disk" where
  "read_sealed env key p d =
     (case read_encrypted_file (pe_disk env) p d of
        (Inl e, d) \<Rightarrow> (Inl e, d)
      | (Inr sealed, d) \<Rightarrow>
          (case decrypt (pe_aead env) key sealed of
             Inl e \<Rightarrow> (Inl (map_crypto_err e), d)
           | Inr plain \<Rightarrow> (Inr plain, d)))"

definition read_overview :: "pages_env \<Rightarrow> path \<Rightarrow> string \<Rightarrow> disk \<Rightarrow> (pages_error + pages_index) \<times> disk" where
  "read_overview env dir key d =
     (case read_sealed env key (meta_path dir) d of
        (Inl e, d) \<Rightarrow> (Inl e, d)
      | (Inr plain, d) \<Rightarrow>
          (case pe_index_parse env plain of Inl e \<Rightarrow> (Inl (PgParseFailed e), d) | Inr index \<Rightarrow> (Inr index, d)))"

definition page_heading :: "nat \<Rightarrow> string" where
  "page_heading page = ''--- page '' @ nat_to_string page @ '' ---'' @ [char_of (10 :: nat)]"

definition join_page :: "string \<Rightarrow> nat \<Rightarrow> string \<Rightarrow> string" where
  "join_page buf page text =
     (if buf = [] then [] else buf @ replicate 2 (char_of (10 :: nat))) @ page_heading page @ text"

fun read_pages_loop :: "pages_env \<Rightarrow> path \<Rightarrow> string \<Rightarrow> nat list \<Rightarrow> string \<Rightarrow> disk \<Rightarrow> (pages_error + string) \<times> disk" where
  "read_pages_loop env dir key [] buf d = (Inr buf, d)"
| "read_pages_loop env dir key (page # pages) buf d =
     (case read_sealed env key (page_path dir page) d of
        (Inl e, d) \<Rightarrow> (Inl e, d)
      | (Inr text, d) \<Rightarrow> read_pages_loop env dir key pages (join_page buf page text) d)"

definition read_pages :: "pages_env \<Rightarrow> path \<Rightarrow> string \<Rightarrow> nat \<Rightarrow> nat \<Rightarrow> disk \<Rightarrow> (pages_error + string) \<times> disk" where
  "read_pages env dir key start end_inclusive d = read_pages_loop env dir key [start..<Suc end_inclusive] [] d"

end
