(* ===== verification/Doc_Store.thy ===== *)
theory Doc_Store
  imports Doc_Pages Auth_Session Agents "HOL-Library.List_Lexorder" "HOL-Library.Char_ord"
begin

text \<open>
  Uploaded documents: the tables \<open>uploaded_documents\<close> and \<open>chat_sessions\<close>
  (\<open>nagent-db/src/documents.rs\<close>, \<open>nagent-db/src/chat_sessions.rs\<close>, as the SQLite engine has them),
  the disk layout (\<open>nagent-server/src/documents/storage.rs\<close>), the routes (\<open>documents/routes.rs\<close>,
  \<open>chat/sessions.rs\<close>) and the sweep (\<open>documents/purge.rs\<close>). Times in the table are texts,
  compared as texts. Every statement consults \<open>dn_fault\<close>. The columns nothing reads are left out.
\<close>

section \<open>The tables\<close>

datatype doc_error = DocSqlx string | SchemaMissing

record doc_row =
  dr_id :: uuid
  dr_session :: uuid
  dr_user :: uuid
  dr_name :: string
  dr_mime :: string
  dr_size :: nat
  dr_chars :: nat
  dr_page_count :: "nat option"
  dr_path :: path
  dr_pages_dir :: "path option"
  dr_created :: string
  dr_expires :: "string option"

record doc_world =
  dw_rows :: "doc_row list"
  dw_bindings :: "(uuid, uuid) dash"
  dw_disk :: disk
  dw_calls :: nat
  dw_drawn :: nat

record documents_config =
  dg_cache_dir :: path
  dg_max_file_size_bytes :: nat
  dg_max_extracted_chars :: nat
  dg_max_docs_per_session :: nat
  dg_max_pages_per_call :: nat
  dg_max_page_chars_per_call :: nat

datatype extraction_error =
    ExUnsupportedMime string | ExParseFailed string | ExTimeout | ExSaturated nat | ExSaturatedTimeout

record doc_env =
  dn_cfg :: documents_config
  dn_pages :: pages_env
  dn_key :: "string option"
  dn_fault :: "nat \<Rightarrow> string option"
  dn_sessions_wired :: bool
  dn_uuid_parse :: "string \<Rightarrow> string + uuid"
  dn_uuid_text :: "uuid \<Rightarrow> string"
  dn_uuid_simple :: "uuid \<Rightarrow> string"
  dn_extract_pdf :: "string \<Rightarrow> extraction_error + string"

definition doc_call :: "doc_env \<Rightarrow> doc_world \<Rightarrow> doc_error option \<times> doc_world" where
  "doc_call env w = (map_option DocSqlx (dn_fault env (dw_calls w)), w\<lparr>dw_calls := Suc (dw_calls w)\<rparr>)"

definition in_session :: "uuid \<Rightarrow> uuid \<Rightarrow> doc_row \<Rightarrow> bool" where
  "in_session user session r \<longleftrightarrow> dr_user r = user \<and> dr_session r = session"

definition doc_get_by_id ::
    "doc_env \<Rightarrow> uuid \<Rightarrow> uuid \<Rightarrow> uuid option \<Rightarrow> doc_world \<Rightarrow> (doc_error + doc_row option) \<times> doc_world" where
  "doc_get_by_id env i user session w =
     (case doc_call env w of
        (Some e, w) \<Rightarrow> (Inl e, w)
      | (None, w) \<Rightarrow>
          (Inr (case session of
                  Some sid \<Rightarrow> List.find (\<lambda>r. dr_id r = i \<and> dr_user r = user \<and> dr_session r = sid) (dw_rows w)
                | None \<Rightarrow> List.find (\<lambda>r. dr_id r = i \<and> dr_user r = user) (dw_rows w)), w))"

definition get_by_name ::
    "doc_env \<Rightarrow> string \<Rightarrow> uuid \<Rightarrow> uuid \<Rightarrow> doc_world \<Rightarrow> (doc_error + doc_row option) \<times> doc_world" where
  "get_by_name env name user session w =
     (case dn_uuid_parse env name of
        Inl e \<Rightarrow> (Inl (DocSqlx (''document id `'' @ name @ ''` is not a valid UUID: '' @ e)), w)
      | Inr i \<Rightarrow> doc_get_by_id env i user (Some session) w)"

definition doc_insert :: "doc_env \<Rightarrow> doc_row \<Rightarrow> doc_world \<Rightarrow> (doc_error + unit) \<times> doc_world" where
  "doc_insert env row w =
     (case doc_call env w of
        (Some e, w) \<Rightarrow> (Inl e, w)
      | (None, w) \<Rightarrow>
          (if dr_id row \<in> dr_id ` set (dw_rows w) then (Inl (DocSqlx ''UNIQUE constraint failed''), w)
           else (Inr (), w\<lparr>dw_rows := dw_rows w @ [row]\<rparr>)))"

text \<open>Newest first; between equal times the engine is free, the model keeps the later row first.\<close>

definition list_for_session :: "doc_env \<Rightarrow> uuid \<Rightarrow> uuid \<Rightarrow> doc_world \<Rightarrow> (doc_error + doc_row list) \<times> doc_world" where
  "list_for_session env user session w =
     (case doc_call env w of
        (Some e, w) \<Rightarrow> (Inl e, w)
      | (None, w) \<Rightarrow> (Inr (rev (sort_key dr_created (filter (in_session user session) (dw_rows w)))), w))"

definition newer :: "doc_env \<Rightarrow> doc_row \<Rightarrow> doc_row \<Rightarrow> bool" where
  "newer env a b \<longleftrightarrow> dr_created b < dr_created a
     \<or> dr_created a = dr_created b \<and> dn_uuid_text env (dr_id b) \<le> dn_uuid_text env (dr_id a)"

fun newest :: "doc_env \<Rightarrow> doc_row list \<Rightarrow> doc_row option" where
  "newest env [] = None"
| "newest env (r # rs) =
     (case newest env rs of None \<Rightarrow> Some r | Some r' \<Rightarrow> if newer env r r' then Some r else Some r')"

definition find_by_original_name ::
    "doc_env \<Rightarrow> uuid \<Rightarrow> uuid \<Rightarrow> string \<Rightarrow> doc_world \<Rightarrow> (doc_error + doc_row option) \<times> doc_world" where
  "find_by_original_name env user session name w =
     (case doc_call env w of
        (Some e, w) \<Rightarrow> (Inl e, w)
      | (None, w) \<Rightarrow> (Inr (newest env (filter (\<lambda>r. in_session user session r \<and> dr_name r = name) (dw_rows w))), w))"

definition count_for_session :: "doc_env \<Rightarrow> uuid \<Rightarrow> uuid \<Rightarrow> doc_world \<Rightarrow> (doc_error + nat) \<times> doc_world" where
  "count_for_session env user session w =
     (case doc_call env w of
        (Some e, w) \<Rightarrow> (Inl e, w)
      | (None, w) \<Rightarrow> (Inr (length (filter (in_session user session) (dw_rows w))), w))"

definition delete_with_pages_dir ::
    "doc_env \<Rightarrow> uuid \<Rightarrow> uuid \<Rightarrow> uuid \<Rightarrow> doc_world \<Rightarrow> (doc_error + (path \<times> path option) option) \<times> doc_world" where
  "delete_with_pages_dir env i user session w =
     (case doc_call env w of
        (Some e, w) \<Rightarrow> (Inl e, w)
      | (None, w) \<Rightarrow>
          (case List.find (\<lambda>r. dr_id r = i \<and> dr_user r = user \<and> dr_session r = session) (dw_rows w) of
             None \<Rightarrow> (Inr None, w)
           | Some row \<Rightarrow>
               (Inr (Some (dr_path row, dr_pages_dir row)), w\<lparr>dw_rows := filter (\<lambda>r. dr_id r \<noteq> i) (dw_rows w)\<rparr>)))"

definition delete_row_by_id :: "doc_env \<Rightarrow> uuid \<Rightarrow> doc_world \<Rightarrow> (doc_error + unit) \<times> doc_world" where
  "delete_row_by_id env i w =
     (case doc_call env w of
        (Some e, w) \<Rightarrow> (Inl e, w)
      | (None, w) \<Rightarrow> (Inr (), w\<lparr>dw_rows := filter (\<lambda>r. dr_id r \<noteq> i) (dw_rows w)\<rparr>))"

text \<open>\<open>cutoff\<close> is the text the statement binds.\<close>

definition overdue :: "string \<Rightarrow> doc_row \<Rightarrow> bool" where
  "overdue cutoff r \<longleftrightarrow> (\<exists>t. dr_expires r = Some t \<and> t \<le> cutoff) \<or> dr_created r \<le> cutoff"

definition sweep_older_than :: "doc_env \<Rightarrow> string \<Rightarrow> doc_world \<Rightarrow> (doc_error + doc_row list) \<times> doc_world" where
  "sweep_older_than env cutoff w =
     (case doc_call env w of
        (Some e, w) \<Rightarrow> (Inl e, w)
      | (None, w) \<Rightarrow> (Inr (sort_key dr_created (filter (overdue cutoff) (dw_rows w))), w))"

lemma overdue_code [code]:
  "overdue cutoff r \<longleftrightarrow> (case dr_expires r of Some t \<Rightarrow> t \<le> cutoff | None \<Rightarrow> False) \<or> dr_created r \<le> cutoff"
  by (auto simp: overdue_def split: option.split)

section \<open>Chat sessions\<close>

datatype chat_session_error = ChatSqlx doc_error | NotBound uuid uuid

definition bind_session :: "doc_env \<Rightarrow> uuid \<Rightarrow> uuid \<Rightarrow> doc_world \<Rightarrow> (chat_session_error + unit) \<times> doc_world" where
  "bind_session env session user w =
     (case doc_call env w of
        (Some e, w) \<Rightarrow> (Inl (ChatSqlx e), w)
      | (None, w) \<Rightarrow> (Inr (), w\<lparr>dw_bindings := dash_put session user (dw_bindings w)\<rparr>))"

definition touch_and_verify :: "doc_env \<Rightarrow> uuid \<Rightarrow> uuid \<Rightarrow> doc_world \<Rightarrow> (chat_session_error + unit) \<times> doc_world" where
  "touch_and_verify env session user w =
     (case doc_call env w of
        (Some e, w) \<Rightarrow> (Inl (ChatSqlx e), w)
      | (None, w) \<Rightarrow>
          (if dash_get (dw_bindings w) session = Some user then (Inr (), w)
           else (Inl (NotBound session user), w)))"

text \<open>\<open>mint_handler\<close>; \<open>new_id\<close> is the random identifier.\<close>

definition mint_handler :: "doc_env \<Rightarrow> auth_user \<Rightarrow> uuid \<Rightarrow> doc_world \<Rightarrow> (chat_session_error + uuid) \<times> doc_world" where
  "mint_handler env user new_id w =
     (case bind_session env new_id (au_id user) w of (Inl e, w) \<Rightarrow> (Inl e, w) | (Inr _, w) \<Rightarrow> (Inr new_id, w))"

section \<open>The disk\<close>

definition on_disk :: "(disk \<Rightarrow> 'a \<times> disk) \<Rightarrow> doc_world \<Rightarrow> 'a \<times> doc_world" where
  "on_disk f w = (let (r, d) = f (dw_disk w) in (r, w\<lparr>dw_disk := d\<rparr>))"

abbreviation dn_disk :: "doc_env \<Rightarrow> disk_env" where
  "dn_disk env \<equiv> pe_disk (dn_pages env)"

definition path_for_uuid :: "doc_env \<Rightarrow> path \<Rightarrow> uuid \<Rightarrow> string \<Rightarrow> path" where
  "path_for_uuid env cache_dir i extension =
     (let hex = dn_uuid_simple env i;
          shard_a = (if 2 \<le> length hex then take 2 hex else ''00'');
          shard_b = (if 4 \<le> length hex then take 2 (drop 2 hex) else ''00'');
          ext = (if extension = [] then ''bin'' else extension)
      in cache_dir @ [shard_a, shard_b, dn_uuid_text env i @ ''.'' @ ext])"

datatype disk_read_error = EscapesCacheDir string | DiskIo io_error

definition safe_disk_read :: "disk_env \<Rightarrow> path \<Rightarrow> path \<Rightarrow> disk \<Rightarrow> (disk_read_error + string) \<times> disk" where
  "safe_disk_read env disk_path cache_dir d =
     (case canonicalize env cache_dir d of
        (Inl e, d) \<Rightarrow> (Inl (DiskIo e), d)
      | (Inr canonical_cache, d) \<Rightarrow>
          (case canonicalize env disk_path d of
             (Inl e, d) \<Rightarrow> (Inl (DiskIo e), d)
           | (Inr canonical, d) \<Rightarrow>
               (if \<not> path_starts_with canonical canonical_cache then (Inl (EscapesCacheDir (path_text disk_path)), d)
                else case fs_read env canonical d of
                       (Inl e, d) \<Rightarrow> (Inl (DiskIo e), d)
                     | (Inr bytes, d) \<Rightarrow> (Inr bytes, d))))"

text \<open>\<open>write_atomic\<close>: the parent is created, the bytes go to a temporary file that is renamed.\<close>

definition write_atomic :: "disk_env \<Rightarrow> path \<Rightarrow> path \<Rightarrow> string \<Rightarrow> disk \<Rightarrow> (string + unit) \<times> disk" where
  "write_atomic env tmp target bytes d =
     (case create_dir_all env (butlast target) d of
        (Inl e, d) \<Rightarrow> (Inl (''create_dir_all('' @ path_text (butlast target) @ '') failed: '' @ io_text e), d)
      | (Inr _, d) \<Rightarrow>
          (case fs_write env tmp bytes d of
             (Inl e, d) \<Rightarrow> (Inl (''write('' @ path_text tmp @ '') failed: '' @ io_text e), d)
           | (Inr _, d) \<Rightarrow>
               (case fs_rename env tmp target d of
                  (Inl e, d) \<Rightarrow>
                    (Inl (''rename('' @ path_text tmp @ '' -> '' @ path_text target @ '') failed: '' @ io_text e), d)
                | (Inr _, d) \<Rightarrow> (Inr (), d))))"

section \<open>Names and texts\<close>

definition path_pieces :: "string \<Rightarrow> string list" where
  "path_pieces name = filter (\<lambda>s. s \<noteq> [] \<and> s \<noteq> ''.'') (split_char CHR ''/'' name)"

definition extension_from_filename :: "string \<Rightarrow> string" where
  "extension_from_filename name =
     (let ps = path_pieces name
      in if ps = [] \<or> last ps = ''..'' then []
         else to_ascii_lowercase (unwrap_or [] (snd (file_stem_ext (last ps)))))"

definition text_mime :: string where "text_mime = ''text/plain''"
definition pdf_mime :: string where "pdf_mime = ''application/pdf''"

definition sniff_mime :: "string \<Rightarrow> string" where
  "sniff_mime ext =
     (if ext = ''pdf'' then pdf_mime else if ext \<in> {''txt'', ''md'', ''log''} then text_mime
      else ''application/octet-stream'')"

definition is_supported :: "string \<Rightarrow> bool" where
  "is_supported ext \<longleftrightarrow> ext \<in> {''txt'', ''md'', ''log'', ''pdf''}"

definition extract_text :: "string \<Rightarrow> string \<Rightarrow> extraction_error + string" where
  "extract_text bytes extension =
     (let ext = to_ascii_lowercase extension
      in if ext \<in> {''txt'', ''md'', ''log'', []} then Inr (from_utf8_lossy bytes)
         else Inl (ExUnsupportedMime (''unsupported extension: .'' @ ext)))"

definition sanitise_for_disposition :: "string \<Rightarrow> string" where
  "sanitise_for_disposition name =
     map (\<lambda>c. if c = CHR 0x22 \<or> c = CHR 0x5C \<or> byte c < 32 then CHR ''_'' else c) name"

end
