(* ===== verification/Doc_Routes.thy ===== *)
theory Doc_Routes
  imports Doc_Store
begin

text \<open>
  The routes of \<open>/v1/documents\<close> (\<open>nagent-server/src/documents/routes.rs\<close>) and the sweep of old
  documents (\<open>documents/purge.rs\<close>). A multipart body is the list of its fields, each the list of
  its chunks; an error of the stream ends either list. The identifier of a new document and the
  current time are arguments.
\<close>

section \<open>Errors and headers\<close>

datatype doc_route_error =
    MissingSessionHeader
  | InvalidSessionHeader string
  | FileTooLarge nat nat
  | UnsupportedMediaType string
  | BadMultipart string
  | QuotaExceeded nat nat
  | ExtractFailed string
  | ExtractSaturated
  | DiskWrite string
  | DocDb doc_error
  | DocForbidden

fun doc_route_status :: "doc_route_error \<Rightarrow> nat" where
  "doc_route_status MissingSessionHeader = 400"
| "doc_route_status (InvalidSessionHeader _) = 400"
| "doc_route_status (FileTooLarge _ _) = 413"
| "doc_route_status (UnsupportedMediaType _) = 415"
| "doc_route_status (BadMultipart _) = 400"
| "doc_route_status (QuotaExceeded _ _) = 429"
| "doc_route_status (ExtractFailed _) = 422"
| "doc_route_status ExtractSaturated = 503"
| "doc_route_status (DiskWrite _) = 507"
| "doc_route_status (DocDb _) = 500"
| "doc_route_status DocForbidden = 403"

definition parse_session_header :: "doc_env \<Rightarrow> header \<Rightarrow> doc_route_error + uuid" where
  "parse_session_header env h =
     (case h of
        None \<Rightarrow> Inl MissingSessionHeader
      | Some None \<Rightarrow> Inl (InvalidSessionHeader ''failed to convert header to a str'')
      | Some (Some s) \<Rightarrow>
          (case dn_uuid_parse env (trim s) of Inl e \<Rightarrow> Inl (InvalidSessionHeader e) | Inr i \<Rightarrow> Inr i))"

definition verify_session_binding :: "doc_env \<Rightarrow> uuid \<Rightarrow> uuid \<Rightarrow> doc_world \<Rightarrow> (doc_route_error + unit) \<times> doc_world" where
  "verify_session_binding env user session w =
     (if \<not> dn_sessions_wired env then (Inl DocForbidden, w)
      else case touch_and_verify env session user w of
             (Inl _, w) \<Rightarrow> (Inl DocForbidden, w)
           | (Inr _, w) \<Rightarrow> (Inr (), w))"

text \<open>CSRF check, session header, binding.\<close>

definition guarded_session ::
    "doc_env \<Rightarrow> auth_user \<Rightarrow> header \<Rightarrow> header \<Rightarrow> doc_world \<Rightarrow> (doc_route_error + uuid) \<times> doc_world" where
  "guarded_session env user x_csrf_token session_header w =
     (case check_csrf x_csrf_token user of
        Inl _ \<Rightarrow> (Inl DocForbidden, w)
      | Inr _ \<Rightarrow>
          (case parse_session_header env session_header of
             Inl e \<Rightarrow> (Inl e, w)
           | Inr session \<Rightarrow>
               (case verify_session_binding env (au_id user) session w of
                  (Inl e, w) \<Rightarrow> (Inl e, w)
                | (Inr _, w) \<Rightarrow> (Inr session, w))))"

section \<open>The multipart body\<close>

record form_field =
  ff_name :: "string option"
  ff_file_name :: "string option"
  ff_chunks :: "(string + string) list"

fun read_chunks :: "nat \<Rightarrow> string \<Rightarrow> (string + string) list \<Rightarrow> doc_route_error + string" where
  "read_chunks max_bytes buf [] = Inr buf"
| "read_chunks max_bytes buf (Inl e # _) = Inl (BadMultipart e)"
| "read_chunks max_bytes buf (Inr chunk # rest) =
     (if max_bytes < length buf + length chunk then Inl (FileTooLarge (length buf + length chunk) max_bytes)
      else read_chunks max_bytes (buf @ chunk) rest)"

fun drain_chunks :: "(string + string) list \<Rightarrow> doc_route_error + unit" where
  "drain_chunks [] = Inr ()"
| "drain_chunks (Inl e # _) = Inl (BadMultipart e)"
| "drain_chunks (Inr _ # rest) = drain_chunks rest"

record uploaded_file =
  uf_name :: string
  uf_bytes :: string

fun find_file :: "nat \<Rightarrow> (string + form_field) list \<Rightarrow> doc_route_error + uploaded_file" where
  "find_file max_bytes [] = Inl (BadMultipart ''no `file` field in multipart body'')"
| "find_file max_bytes (Inl e # _) = Inl (BadMultipart e)"
| "find_file max_bytes (Inr f # rest) =
     (if ff_name f \<noteq> Some ''file''
      then (case drain_chunks (ff_chunks f) of Inl e \<Rightarrow> Inl e | Inr _ \<Rightarrow> find_file max_bytes rest)
      else case read_chunks max_bytes [] (ff_chunks f) of
             Inl e \<Rightarrow> Inl e
           | Inr bytes \<Rightarrow> Inr \<lparr>uf_name = unwrap_or ''upload.txt'' (ff_file_name f), uf_bytes = bytes\<rparr>)"

section \<open>Upload\<close>

record doc_summary =
  ds_id :: uuid
  ds_name :: string
  ds_mime :: string
  ds_size_bytes :: nat
  ds_page_count :: "nat option"
  ds_extracted_chars :: nat
  ds_created_at :: string

datatype doc_response =
    Created doc_summary | Listing "doc_summary list" | Download string string string | DocNoContent

text \<open>The lengths of the page files; the index is not a page.\<close>

definition pages_total_chars :: "disk_env \<Rightarrow> path \<Rightarrow> disk \<Rightarrow> (io_error + nat) \<times> disk" where
  "pages_total_chars env dir d =
     (case read_dir env dir d of
        (Inl e, d) \<Rightarrow> (Inl e, d)
      | (Inr entries, d) \<Rightarrow>
          (Inr (foldl (sat_add u64_max) 0
                  [n. (name, n) \<leftarrow> entries, snd (file_stem_ext name) = Some ''bin'' \<and> name \<noteq> ''meta.bin'']), d))"

definition summary_of :: "doc_row \<Rightarrow> string \<Rightarrow> doc_summary" where
  "summary_of r created_at =
     \<lparr>ds_id = dr_id r, ds_name = dr_name r, ds_mime = dr_mime r, ds_size_bytes = dr_size r,
      ds_page_count = dr_page_count r, ds_extracted_chars = dr_chars r, ds_created_at = created_at\<rparr>"

definition pages_root_of :: "path \<Rightarrow> path" where
  "pages_root_of p = butlast p @ [last p @ ''.pages'']"

definition written_len :: "doc_env \<Rightarrow> path \<Rightarrow> string \<Rightarrow> doc_world \<Rightarrow> nat \<times> doc_world" where
  "written_len env p bytes w =
     (case on_disk (file_len (dn_disk env) p) w of (Inl _, w) \<Rightarrow> (length bytes, w) | (Inr n, w) \<Rightarrow> (n, w))"

definition forget_file :: "doc_env \<Rightarrow> path \<Rightarrow> doc_world \<Rightarrow> doc_world" where
  "forget_file env p w = snd (on_disk (remove_file (dn_disk env) p) w)"

definition forget_dir :: "doc_env \<Rightarrow> path \<Rightarrow> doc_world \<Rightarrow> doc_world" where
  "forget_dir env p w = snd (on_disk (remove_dir_all (dn_disk env) p) w)"

definition run_extract ::
    "doc_env \<Rightarrow> string \<Rightarrow> path \<Rightarrow> string \<Rightarrow> doc_world \<Rightarrow> (pages_error + pages_index) \<times> doc_world" where
  "run_extract env bytes dir key w =
     (let (r, drawn, d) = extract_pages (dn_pages env) bytes dir key (dw_drawn w) (dw_disk w)
      in (r, w\<lparr>dw_disk := d, dw_drawn := drawn\<rparr>))"

definition missing_key_text :: string where
  "missing_key_text =
     ''[auth.credentials].key is required for PDF uploads so the per-page text store can be encrypted at rest; ''
     @ ''configure the key and restart the server, or upload a text-only document instead''"

definition store_row ::
    "doc_env \<Rightarrow> doc_row \<Rightarrow> string \<Rightarrow> (doc_world \<Rightarrow> doc_world) \<Rightarrow> doc_world \<Rightarrow> (doc_route_error + doc_response) \<times> doc_world" where
  "store_row env row now undo w =
     (case doc_insert env row w of
        (Inl e, w) \<Rightarrow> (Inl (DocDb e), undo w)
      | (Inr _, w) \<Rightarrow> (Inr (Created (summary_of row now)), w))"

definition place_file ::
    "doc_env \<Rightarrow> uuid \<Rightarrow> path \<Rightarrow> string \<Rightarrow> doc_world \<Rightarrow> (doc_route_error + nat) \<times> doc_world" where
  "place_file env new_id p bytes w =
     (case on_disk (write_atomic (dn_disk env) (dg_cache_dir (dn_cfg env) @ [''.tmp-'' @ dn_uuid_text env new_id]) p bytes) w of
        (Inl e, w) \<Rightarrow> (Inl (DiskWrite e), w)
      | (Inr _, w) \<Rightarrow> (let (n, w) = written_len env p bytes w in (Inr n, w)))"

text \<open>\<open>now\<close> is the time of the answer, \<open>created\<close> the text the table stores.\<close>

definition upload_pdf ::
    "doc_env \<Rightarrow> uuid \<Rightarrow> uuid \<Rightarrow> uploaded_file \<Rightarrow> string \<Rightarrow> string \<Rightarrow> uuid \<Rightarrow> string \<Rightarrow> string \<Rightarrow> doc_world
       \<Rightarrow> (doc_route_error + doc_response) \<times> doc_world" where
  "upload_pdf env user session file ext mime new_id now created w =
     (case dn_key env of
        None \<Rightarrow> (Inl (ExtractFailed missing_key_text), w)
      | Some key \<Rightarrow>
          (let p = path_for_uuid env (dg_cache_dir (dn_cfg env)) new_id ext
           in case place_file env new_id p (uf_bytes file) w of
                (Inl e, w) \<Rightarrow> (Inl e, w)
              | (Inr written, w) \<Rightarrow>
                  (let pages_root = pages_root_of p
                   in case run_extract env (uf_bytes file) pages_root key w of
                        (Inl (PgParseFailed m), w) \<Rightarrow> (Inl (ExtractFailed m), forget_file env p w)
                      | (Inl e, w) \<Rightarrow>
                          (Inl (ExtractFailed (''per-page extract failed: '' @ pages_error_text e)), forget_file env p w)
                      | (Inr index, w) \<Rightarrow>
                          (let (chars, w) = on_disk (pages_total_chars (dn_disk env) pages_root) w;
                               row = \<lparr>dr_id = new_id, dr_session = session, dr_user = user, dr_name = uf_name file,
                                      dr_mime = mime, dr_size = written,
                                      dr_chars = (case chars of Inl _ \<Rightarrow> 0 | Inr n \<Rightarrow> n),
                                      dr_page_count = index_page_count index, dr_path = p,
                                      dr_pages_dir = Some pages_root, dr_created = created, dr_expires = None\<rparr>
                           in store_row env row now (\<lambda>w. forget_dir env pages_root (forget_file env p w)) w))))"

definition upload_plain ::
    "doc_env \<Rightarrow> uuid \<Rightarrow> uuid \<Rightarrow> uploaded_file \<Rightarrow> string \<Rightarrow> string \<Rightarrow> uuid \<Rightarrow> string \<Rightarrow> string \<Rightarrow> doc_world
       \<Rightarrow> (doc_route_error + doc_response) \<times> doc_world" where
  "upload_plain env user session file ext mime new_id now created w =
     (case extract_text (uf_bytes file) ext of
        Inl (ExUnsupportedMime m) \<Rightarrow> (Inl (UnsupportedMediaType m), w)
      | Inl (ExParseFailed m) \<Rightarrow> (Inl (ExtractFailed m), w)
      | Inl ExTimeout \<Rightarrow> (Inl (ExtractFailed ''pdf extract exceeded the configured timeout''), w)
      | Inl _ \<Rightarrow> (Inl ExtractSaturated, w)
      | Inr extraction \<Rightarrow>
          (let p = path_for_uuid env (dg_cache_dir (dn_cfg env)) new_id ext
           in case place_file env new_id p (uf_bytes file) w of
                (Inl e, w) \<Rightarrow> (Inl e, w)
              | (Inr written, w) \<Rightarrow>
                  (let row = \<lparr>dr_id = new_id, dr_session = session, dr_user = user, dr_name = uf_name file,
                              dr_mime = mime, dr_size = written, dr_chars = char_count extraction,
                              dr_page_count = None, dr_path = p, dr_pages_dir = None, dr_created = created,
                              dr_expires = None\<rparr>
                   in store_row env row now (forget_file env p) w)))"

definition upload_handler ::
    "doc_env \<Rightarrow> auth_user \<Rightarrow> header \<Rightarrow> header \<Rightarrow> (string + form_field) list \<Rightarrow> uuid \<Rightarrow> string \<Rightarrow> string \<Rightarrow> doc_world
       \<Rightarrow> (doc_route_error + doc_response) \<times> doc_world" where
  "upload_handler env user x_csrf_token session_header multipart new_id now created w =
     (case guarded_session env user x_csrf_token session_header w of
        (Inl e, w) \<Rightarrow> (Inl e, w)
      | (Inr session, w) \<Rightarrow>
          (case count_for_session env (au_id user) session w of
             (Inl e, w) \<Rightarrow> (Inl (DocDb e), w)
           | (Inr current, w) \<Rightarrow>
               (if dg_max_docs_per_session (dn_cfg env) \<le> current
                then (Inl (QuotaExceeded current (dg_max_docs_per_session (dn_cfg env))), w)
                else case find_file (dg_max_file_size_bytes (dn_cfg env)) multipart of
                       Inl e \<Rightarrow> (Inl e, w)
                     | Inr file \<Rightarrow>
                         (let ext = extension_from_filename (uf_name file); mime = sniff_mime ext
                          in if \<not> is_supported ext
                             then (Inl (UnsupportedMediaType (''only .txt and .pdf are supported (got `'' @ uf_name file @ ''`)'')), w)
                             else if ext = ''pdf''
                             then upload_pdf env (au_id user) session file ext mime new_id now created w
                             else upload_plain env (au_id user) session file ext mime new_id now created w))))"

section \<open>List, download, delete\<close>

definition list_handler ::
    "doc_env \<Rightarrow> auth_user \<Rightarrow> header \<Rightarrow> doc_world \<Rightarrow> (doc_route_error + doc_response) \<times> doc_world" where
  "list_handler env user session_header w =
     (case parse_session_header env session_header of
        Inl e \<Rightarrow> (Inl e, w)
      | Inr session \<Rightarrow>
          (case verify_session_binding env (au_id user) session w of
             (Inl e, w) \<Rightarrow> (Inl e, w)
           | (Inr _, w) \<Rightarrow>
               (case list_for_session env (au_id user) session w of
                  (Inl e, w) \<Rightarrow> (Inl (DocDb e), w)
                | (Inr rows, w) \<Rightarrow> (Inr (Listing (map (\<lambda>r. summary_of r []) rows)), w))))"

text \<open>The media type of the table falls back to a generic one when it is no header value.\<close>

definition header_value_ok :: "string \<Rightarrow> bool" where
  "header_value_ok s \<longleftrightarrow> list_all (\<lambda>c. byte c = 9 \<or> (32 \<le> byte c \<and> byte c \<noteq> 127)) s"

definition download_handler ::
    "doc_env \<Rightarrow> auth_user \<Rightarrow> uuid \<Rightarrow> doc_world \<Rightarrow> (doc_route_error + doc_response) \<times> doc_world" where
  "download_handler env user i w =
     (case doc_get_by_id env i (au_id user) None w of
        (Inl e, w) \<Rightarrow> (Inl (DocDb e), w)
      | (Inr None, w) \<Rightarrow> (Inl (BadMultipart (''unknown document: '' @ dn_uuid_text env i)), w)
      | (Inr (Some row), w) \<Rightarrow>
          (case on_disk (safe_disk_read (dn_disk env) (dr_path row) (dg_cache_dir (dn_cfg env))) w of
             (Inl (EscapesCacheDir p), w) \<Rightarrow> (Inl (BadMultipart (''document path rejected: '' @ p)), w)
           | (Inl (DiskIo e), w) \<Rightarrow> (Inl (DiskWrite (''could not read document: '' @ io_text e)), w)
           | (Inr bytes, w) \<Rightarrow>
               (let disposition = ''attachment; filename='' @ [CHR 0x22] @ sanitise_for_disposition (dr_name row) @ [CHR 0x22]
                in (Inr (Download (if header_value_ok (dr_mime row) then dr_mime row else ''application/octet-stream'')
                           (if header_value_ok disposition then disposition else ''attachment'') bytes), w))))"

definition delete_handler ::
    "doc_env \<Rightarrow> auth_user \<Rightarrow> header \<Rightarrow> header \<Rightarrow> uuid \<Rightarrow> doc_world \<Rightarrow> (doc_route_error + doc_response) \<times> doc_world" where
  "delete_handler env user x_csrf_token session_header i w =
     (case guarded_session env user x_csrf_token session_header w of
        (Inl e, w) \<Rightarrow> (Inl e, w)
      | (Inr session, w) \<Rightarrow>
          (case delete_with_pages_dir env i (au_id user) session w of
             (Inl e, w) \<Rightarrow> (Inl (DocDb e), w)
           | (Inr None, w) \<Rightarrow> (Inl (BadMultipart (''unknown document: '' @ dn_uuid_text env i)), w)
           | (Inr (Some (p, pages_dir)), w) \<Rightarrow>
               (let w = forget_file env p w
                in (Inr DocNoContent, case pages_dir of None \<Rightarrow> w | Some dir \<Rightarrow> forget_dir env dir w))))"

section \<open>The sweep\<close>

text \<open>One row of the sweep; an error of the table ends the sweep.\<close>

definition purge_row :: "doc_env \<Rightarrow> path \<Rightarrow> doc_row \<Rightarrow> doc_world \<Rightarrow> (doc_error + unit) \<times> doc_world" where
  "purge_row env cache_dir row w =
     (let (canonical, w) = on_disk (canonicalize (dn_disk env) (dr_path row)) w;
          safe = (case canonical of Inr p \<Rightarrow> p | Inl _ \<Rightarrow> dr_path row)
      in if \<not> path_starts_with safe cache_dir then delete_row_by_id env (dr_id row) w
         else case on_disk (remove_file (dn_disk env) (dr_path row)) w of
                (Inl (IoOther _), w) \<Rightarrow> (Inr (), w)
              | (_, w) \<Rightarrow>
                  (let w = (case dr_pages_dir row of None \<Rightarrow> w | Some dir \<Rightarrow> forget_dir env dir w)
                   in delete_row_by_id env (dr_id row) w))"

fun purge_rows :: "doc_env \<Rightarrow> path \<Rightarrow> doc_row list \<Rightarrow> doc_world \<Rightarrow> (doc_error + unit) \<times> doc_world" where
  "purge_rows env cache_dir [] w = (Inr (), w)"
| "purge_rows env cache_dir (r # rs) w =
     (case purge_row env cache_dir r w of (Inl e, w) \<Rightarrow> (Inl e, w) | (Inr _, w) \<Rightarrow> purge_rows env cache_dir rs w)"

definition purge_older_than :: "doc_env \<Rightarrow> path \<Rightarrow> string \<Rightarrow> doc_world \<Rightarrow> (doc_error + nat) \<times> doc_world" where
  "purge_older_than env cache_dir cutoff w =
     (case sweep_older_than env cutoff w of
        (Inl e, w) \<Rightarrow> (Inl e, w)
      | (Inr rows, w) \<Rightarrow>
          (case purge_rows env cache_dir rows w of (Inl e, w) \<Rightarrow> (Inl e, w) | (Inr _, w) \<Rightarrow> (Inr (length rows), w)))"

end
