(* ===== verification/Doc_Agent.thy ===== *)
theory Doc_Agent
  imports Doc_Routes
begin

text \<open>
  The \<open>read_document\<close> agent (\<open>nagent-agents/src/agents/read_document.rs\<close>) and the source it reads
  from, \<open>StoreDocumentSource\<close> (\<open>nagent-server/src/agents/mod.rs\<close>). The agent runs in the world of the
  documents.
\<close>

section \<open>Arguments\<close>

record page_range =
  pr_start :: nat
  pr_end_inclusive :: nat

record read_args =
  rd_name :: string
  rd_page_range_raw :: "string option"

text \<open>\<open>str::parse::<u32>\<close>: an optional plus sign, then digits.\<close>

definition dec_digit :: "char \<Rightarrow> bool" where
  "dec_digit c \<longleftrightarrow> 48 \<le> byte c \<and> byte c \<le> 57"

definition parse_u32 :: "string \<Rightarrow> nat option" where
  "parse_u32 s =
     (let ds = (case s of [] \<Rightarrow> [] | c # cs \<Rightarrow> if c = CHR ''+'' then cs else s);
          n = foldl (\<lambda>a c. 10 * a + (byte c - 48)) 0 ds
      in if ds = [] \<or> \<not> list_all dec_digit ds \<or> u32_max < n then None else Some n)"

definition bad_range :: "string \<Rightarrow> agent_error" where
  "bad_range pr = InvalidArguments (''invalid page_range `'' @ pr @ ''`; expected `N` or `N-M` (1-indexed)'')"

definition bad_bounds :: "string \<Rightarrow> agent_error" where
  "bad_bounds pr = InvalidArguments (''invalid page_range `'' @ pr @ ''`; lo must be >= 1 and <= hi'')"

definition validate_page_range :: "string \<Rightarrow> agent_error + unit" where
  "validate_page_range pr =
     (case split_char CHR ''-'' pr of
        [n] \<Rightarrow> (if parse_u32 n = None then Inl (bad_range pr) else Inr ())
      | [lo, hi] \<Rightarrow>
          (case parse_u32 lo of
             None \<Rightarrow> Inl (bad_range pr)
           | Some lo_v \<Rightarrow>
               (case parse_u32 hi of
                  None \<Rightarrow> Inl (bad_range pr)
                | Some hi_v \<Rightarrow> if lo_v = 0 \<or> hi_v = 0 \<or> hi_v < lo_v then Inl (bad_bounds pr) else Inr ()))
      | _ \<Rightarrow> Inl (bad_range pr))"

text \<open>The bounds a text denotes, before the check of the span.\<close>

definition range_bounds :: "string \<Rightarrow> agent_error + nat \<times> nat" where
  "range_bounds raw =
     (case split_char CHR ''-'' raw of
        [n] \<Rightarrow> (case parse_u32 n of None \<Rightarrow> Inl (bad_range raw) | Some v \<Rightarrow> Inr (v, v))
      | [lo, hi] \<Rightarrow>
          (case parse_u32 lo of
             None \<Rightarrow> Inl (bad_range raw)
           | Some lo_v \<Rightarrow>
               (case parse_u32 hi of
                  None \<Rightarrow> Inl (bad_range raw)
                | Some hi_v \<Rightarrow>
                    if lo_v = 0 \<or> hi_v = 0 \<or> hi_v < lo_v then Inl (bad_bounds raw) else Inr (lo_v, hi_v)))
      | _ \<Rightarrow> Inl (bad_range raw))"

definition parse_page_range :: "string \<Rightarrow> nat \<Rightarrow> agent_error + page_range" where
  "parse_page_range raw max_pages =
     (case range_bounds raw of
        Inl e \<Rightarrow> Inl e
      | Inr (start, stop) \<Rightarrow>
          (let span = stop - start + 1
           in if max_pages < span
              then Inl (InvalidArguments (''page_range `'' @ raw @ ''` covers '' @ nat_to_string span
                @ '' pages but max_pages_per_call is '' @ nat_to_string max_pages
                @ ''; split the request into smaller ranges''))
              else Inr \<lparr>pr_start = start, pr_end_inclusive = stop\<rparr>))"

definition parse_read_args :: "json \<Rightarrow> agent_error + read_args" where
  "parse_read_args args =
     (if as_object args = None then Inl (InvalidArguments ''arguments must be a JSON object'')
      else case jget_str ''name'' args of
             None \<Rightarrow> Inl (InvalidArguments ''`name` (string) is required'')
           | Some s \<Rightarrow>
               (let name = trim s
                in if name = [] then Inl (InvalidArguments ''`name` must not be empty'')
                   else let page_range = Option.bind (jget_str ''page_range'' args)
                              (\<lambda>s. if trim s = [] then None else Some (trim s))
                        in case page_range of
                             None \<Rightarrow> Inr \<lparr>rd_name = name, rd_page_range_raw = None\<rparr>
                           | Some pr \<Rightarrow>
                               (case validate_page_range pr of
                                  Inl e \<Rightarrow> Inl e
                                | Inr _ \<Rightarrow> Inr \<lparr>rd_name = name, rd_page_range_raw = Some pr\<rparr>)))"

section \<open>The document source\<close>

datatype document_shape = Overview string | Range string | FullText string

record document_payload =
  dp_id :: uuid
  dp_original_name :: string
  dp_mime :: string
  dp_size_bytes :: nat
  dp_page_count :: "nat option"
  dp_extracted_chars :: nat
  dp_unreadable_pages :: nat
  dp_shape :: document_shape

definition payload_of :: "doc_row \<Rightarrow> nat option \<Rightarrow> nat \<Rightarrow> nat \<Rightarrow> document_shape \<Rightarrow> document_payload" where
  "payload_of row page_count chars unreadable shape =
     \<lparr>dp_id = dr_id row, dp_original_name = dr_name row, dp_mime = dr_mime row, dp_size_bytes = dr_size row,
      dp_page_count = page_count, dp_extracted_chars = chars, dp_unreadable_pages = unreadable, dp_shape = shape\<rparr>"

fun doc_error_text :: "doc_error \<Rightarrow> string" where
  "doc_error_text (DocSqlx m) = m"
| "doc_error_text SchemaMissing = ''uploaded_documents table is missing; run `nagent migrate up`''"

fun map_pages_err :: "pages_error \<Rightarrow> agent_error" where
  "map_pages_err (PgParseFailed m) =
     AgentFailed (''could not parse stored PDF index: '' @ m @ ''; ask the user to re-upload'')"
| "map_pages_err (PgDirectoryMissing p) =
     AgentFailed ''document per-page index is missing on disk; ask the user to re-upload''"
| "map_pages_err (PgDecryptFailed m) =
     AgentFailed (''could not decrypt document pages: '' @ m @ ''; check [auth.credentials].key was not rotated'')"
| "map_pages_err (PgIo p e) = AgentFailed (''io error on '' @ path_text p @ '': '' @ io_text e)"

fun map_disk_err :: "disk_read_error \<Rightarrow> agent_error" where
  "map_disk_err (EscapesCacheDir p) =
     AgentFailed ''document file no longer available on disk; ask the user to re-upload''"
| "map_disk_err (DiskIo IoNotFound) =
     AgentFailed ''document file no longer available on disk; ask the user to re-upload''"
| "map_disk_err (DiskIo e) = AgentFailed (''could not read document: io error: '' @ io_text e)"

fun map_extract_err :: "extraction_error \<Rightarrow> agent_error" where
  "map_extract_err (ExParseFailed m) =
     AgentFailed (''could not parse PDF: '' @ m @ ''; ask the user to re-upload a non-scanned copy'')"
| "map_extract_err ExTimeout =
     AgentFailed ''PDF extraction exceeded the configured timeout; try a smaller page range or a text-only document''"
| "map_extract_err (ExUnsupportedMime m) = AgentFailed (''document is not a supported PDF: '' @ m)"
| "map_extract_err _ = AgentFailed ''PDF extractor is saturated; please retry in a moment''"

definition extract_pdf :: "doc_env \<Rightarrow> string \<Rightarrow> agent_error + string" where
  "extract_pdf env bytes = (case dn_extract_pdf env bytes of Inl e \<Rightarrow> Inl (map_extract_err e) | Inr t \<Rightarrow> Inr t)"

definition read_pdf_bytes :: "doc_env \<Rightarrow> doc_row \<Rightarrow> doc_world \<Rightarrow> (agent_error + string) \<times> doc_world" where
  "read_pdf_bytes env row w =
     (case on_disk (safe_disk_read (dn_disk env) (dr_path row) (dg_cache_dir (dn_cfg env))) w of
        (Inl e, w) \<Rightarrow> (Inl (map_disk_err e), w)
      | (Inr bytes, w) \<Rightarrow> (Inr bytes, w))"

fun drop_chars :: "nat \<Rightarrow> string \<Rightarrow> string" where
  "drop_chars n [] = []"
| "drop_chars n (c # s) =
     (if is_continuation c then drop_chars n s
      else if n = 0 then c # s else drop_chars (n - 1) s)"

definition legacy_slice :: "string \<Rightarrow> nat \<Rightarrow> page_range \<Rightarrow> string" where
  "legacy_slice text pages rg =
     (let total = char_count text;
          chars_per_page = max 1 (total div max 1 pages);
          stop = min total (pr_end_inclusive rg * chars_per_page);
          start = min stop ((pr_start rg - 1) * chars_per_page)
      in take_chars (stop - start) (drop_chars start text))"

definition read_pdf_legacy ::
    "doc_env \<Rightarrow> doc_row \<Rightarrow> page_range option \<Rightarrow> doc_world \<Rightarrow> (agent_error + document_payload) \<times> doc_world" where
  "read_pdf_legacy env row page_range w =
     (case read_pdf_bytes env row w of
        (Inl e, w) \<Rightarrow> (Inl e, w)
      | (Inr bytes, w) \<Rightarrow>
          (case extract_pdf env bytes of
             Inl e \<Rightarrow> (Inl e, w)
           | Inr text \<Rightarrow>
               (Inr (payload_of row (dr_page_count row) (dr_chars row) 0
                  (FullText (case page_range of
                               None \<Rightarrow> text
                             | Some rg \<Rightarrow> legacy_slice text (unwrap_or 1 (dr_page_count row)) rg))), w)))"

definition no_key_text :: string where
  "no_key_text = ''this PDF was uploaded before the credentials vault was configured; ask the user to re-upload the document''"

definition read_pdf_pages ::
    "doc_env \<Rightarrow> doc_row \<Rightarrow> path \<Rightarrow> page_range option \<Rightarrow> doc_world \<Rightarrow> (agent_error + document_payload) \<times> doc_world" where
  "read_pdf_pages env row pages_dir page_range w =
     (case dn_key env of
        None \<Rightarrow> (Inl (AgentFailed no_key_text), w)
      | Some key \<Rightarrow>
          (case on_disk (read_overview (dn_pages env) pages_dir key) w of
             (Inl e, w) \<Rightarrow> (Inl (map_pages_err e), w)
           | (Inr PxMissing, w) \<Rightarrow> read_pdf_legacy env row page_range w
           | (Inr (PxIndexed page_count unreadable preview toc), w) \<Rightarrow>
               (case page_range of
                  None \<Rightarrow> (Inr (payload_of row (Some page_count) (dr_chars row) unreadable (Overview preview)), w)
                | Some rg \<Rightarrow>
                    (case on_disk (read_pages (dn_pages env) pages_dir key (pr_start rg) (pr_end_inclusive rg)) w of
                       (Inl e, w) \<Rightarrow> (Inl (map_pages_err e), w)
                     | (Inr text, w) \<Rightarrow>
                         (Inr (payload_of row (Some page_count) (char_count text) unreadable (Range text)), w)))))"

definition read_full_text :: "doc_env \<Rightarrow> doc_row \<Rightarrow> doc_world \<Rightarrow> (agent_error + document_payload) \<times> doc_world" where
  "read_full_text env row w =
     (case read_pdf_bytes env row w of
        (Inl e, w) \<Rightarrow> (Inl e, w)
      | (Inr bytes, w) \<Rightarrow>
          (if dr_mime row = pdf_mime
           then (case extract_pdf env bytes of
                   Inl e \<Rightarrow> (Inl e, w)
                 | Inr text \<Rightarrow> (Inr (payload_of row (dr_page_count row) (char_count text) 0 (FullText text)), w))
           else case extract_text bytes (unwrap_or ''txt'' (snd (file_stem_ext (last (dr_path row))))) of
                  Inl (ExUnsupportedMime m) \<Rightarrow> (Inl (AgentFailed (''unsupported document type: '' @ m)), w)
                | Inl (ExParseFailed m) \<Rightarrow> (Inl (AgentFailed (''could not read document text: pdf parse failed: '' @ m)), w)
                | Inl _ \<Rightarrow> (Inl (AgentFailed ''could not read document text''), w)
                | Inr text \<Rightarrow> (Inr (payload_of row (dr_page_count row) (char_count text) 0 (FullText text)), w)))"

definition not_bound_text :: string where
  "not_bound_text = ''chat session is not bound to the current user; ask the user to refresh the page''"

definition check_session :: "doc_env \<Rightarrow> uuid \<Rightarrow> uuid \<Rightarrow> doc_world \<Rightarrow> (agent_error + unit) \<times> doc_world" where
  "check_session env user session w =
     (if \<not> dn_sessions_wired env then (Inr (), w)
      else case touch_and_verify env session user w of
             (Inl _, w) \<Rightarrow> (Inl (AgentFailed not_bound_text), w)
           | (Inr _, w) \<Rightarrow> (Inr (), w))"

definition read_row ::
    "doc_env \<Rightarrow> doc_row \<Rightarrow> page_range option \<Rightarrow> doc_world \<Rightarrow> (agent_error + document_payload) \<times> doc_world" where
  "read_row env row page_range w =
     (if dr_mime row = pdf_mime
      then (case dr_pages_dir row of
              Some pages_dir \<Rightarrow> read_pdf_pages env row pages_dir page_range w
            | None \<Rightarrow> read_full_text env row w)
      else read_full_text env row w)"

definition read_with_request ::
    "doc_env \<Rightarrow> uuid \<Rightarrow> uuid \<Rightarrow> string \<Rightarrow> page_range option \<Rightarrow> doc_world \<Rightarrow> (agent_error + document_payload) \<times> doc_world" where
  "read_with_request env user session name page_range w =
     (case check_session env user session w of
        (Inl e, w) \<Rightarrow> (Inl e, w)
      | (Inr _, w) \<Rightarrow>
          (case get_by_name env name user session w of
             (Inl e, w) \<Rightarrow> (Inl (AgentFailed (''document lookup failed: '' @ doc_error_text e)), w)
           | (Inr None, w) \<Rightarrow> (Inl (InvalidArguments (''unknown document `'' @ name @ ''` in this chat session'')), w)
           | (Inr (Some row), w) \<Rightarrow> read_row env row page_range w))"

definition resolve_and_read ::
    "doc_env \<Rightarrow> uuid \<Rightarrow> uuid \<Rightarrow> string \<Rightarrow> page_range option \<Rightarrow> doc_world \<Rightarrow> (agent_error + document_payload) \<times> doc_world" where
  "resolve_and_read env user session name page_range w =
     (case dn_uuid_parse env name of
        Inr _ \<Rightarrow> read_with_request env user session name page_range w
      | Inl _ \<Rightarrow>
          (case check_session env user session w of
             (Inl e, w) \<Rightarrow> (Inl e, w)
           | (Inr _, w) \<Rightarrow>
               (case find_by_original_name env user session name w of
                  (Inl e, w) \<Rightarrow> (Inl (AgentFailed (''document lookup failed: '' @ doc_error_text e)), w)
                | (Inr None, w) \<Rightarrow>
                    (Inl (InvalidArguments (''no document with name `'' @ name @ ''` in this chat session; pass either the document UUID (the `data.name` returned by GET /v1/documents) or the exact original filename shown in the chat UI attachment card'')), w)
                | (Inr (Some row), w) \<Rightarrow>
                    read_with_request env user session (dn_uuid_text env (dr_id row)) page_range w)))"

section \<open>The answer\<close>

definition cut_text :: "nat \<Rightarrow> string \<Rightarrow> string" where
  "cut_text max_chars text =
     (if max_chars < char_count text
      then take_chars max_chars text @ [CHR 0x0A] @ ''['' @ [CHR 0xE2, CHR 0x80, CHR 0xA6] @ '' truncated at '' @ nat_to_string max_chars @ '' characters '' @ [CHR 0xE2, CHR 0x80, CHR 0xA6] @ '']''
      else text)"

definition was_cut :: "nat \<Rightarrow> string \<Rightarrow> json" where
  "was_cut max_chars text = JBool (max_chars < char_count text)"

definition range_hint :: "document_payload \<Rightarrow> string" where
  "range_hint p =
     (if dp_unreadable_pages p = unwrap_or 0 (dp_page_count p)
      then ''every page in this document failed text extraction; the per-page call will keep returning the unreadable-page marker regardless of page_range''
      else ''make additional read_document calls with different page_range arguments to read further sections'')"

definition overview_hint :: "document_payload \<Rightarrow> string" where
  "overview_hint p =
     (let n = dp_unreadable_pages p; total = unwrap_or 0 (dp_page_count p)
      in if 0 < n \<and> n = total
         then ''this document is entirely unreadable: every page ('' @ nat_to_string n @ '' pages) failed text extraction at upload time, likely because the PDF embeds a ToUnicode CMap or font lopdf cannot decode; the file itself is on disk, you can ask the user to open it in a PDF viewer or run it through an OCR tool''
         else if 0 < n
         then ''this document has '' @ nat_to_string n @ '' unreadable pages (ToUnicode CMap or font lopdf cannot decode) out of '' @ nat_to_string total @ ''; call read_document again with page_range to fetch specific pages that did extract''
         else ''call read_document again with page_range to fetch specific pages'')"

definition ignored_range_hint :: string where
  "ignored_range_hint = ''page_range is only honoured for PDFs '' @ [CHR 0xE2, CHR 0x80, CHR 0x94] @ '' this document is plain text and was returned in full''"

definition shape_fields :: "documents_config \<Rightarrow> document_payload \<Rightarrow> page_range option \<Rightarrow> (string \<times> json) list" where
  "shape_fields cfg p page_range =
     (let lim = dg_max_extracted_chars cfg
      in case (dp_shape p, page_range) of
           (Range text, Some rg) \<Rightarrow>
             [(''text'', JStr text), (''truncated'', JBool False),
              (''page_range_applied'', JStr (nat_to_string (pr_start rg) @ ''-'' @ nat_to_string (pr_end_inclusive rg))),
              (''hint'', JStr (range_hint p))]
         | (Overview preview, None) \<Rightarrow>
             [(''preview'', JStr preview), (''truncated'', JBool False), (''hint'', JStr (overview_hint p))]
         | (FullText text, None) \<Rightarrow> [(''text'', JStr (cut_text lim text)), (''truncated'', was_cut lim text)]
         | (FullText text, Some _) \<Rightarrow>
             [(''text'', JStr (cut_text lim text)), (''truncated'', was_cut lim text), (''hint'', JStr ignored_range_hint)]
         | (Overview text, Some _) \<Rightarrow> [(''text'', JStr (take_chars lim text)), (''truncated'', was_cut lim text)]
         | (Range text, None) \<Rightarrow> [(''text'', JStr (take_chars lim text)), (''truncated'', was_cut lim text)])"

definition read_summary :: "document_payload \<Rightarrow> page_range option \<Rightarrow> string" where
  "read_summary p page_range =
     dp_original_name p @ '' ('' @ nat_to_string (dp_size_bytes p) @ '' bytes, ''
     @ (case dp_page_count p of Some n \<Rightarrow> nat_to_string n | None \<Rightarrow> ''?'') @ '' pages''
     @ (case (dp_shape p, page_range) of
          (Range _, Some rg) \<Rightarrow>
            '', showing '' @ nat_to_string (pr_start rg) @ ''-'' @ nat_to_string (pr_end_inclusive rg)
        | _ \<Rightarrow> []) @ '')''"

definition read_envelope :: "doc_env \<Rightarrow> document_payload \<Rightarrow> page_range option \<Rightarrow> string \<Rightarrow> json" where
  "read_envelope env p page_range fetched_at =
     JObj [(''ok'', JBool True), (''summary'', JStr (read_summary p page_range)),
       (''data'', JObj ([(''name'', JStr (dn_uuid_text env (dp_id p))), (''original_name'', JStr (dp_original_name p)),
          (''mime'', JStr (dp_mime p)),
          (''page_count'', case dp_page_count p of Some n \<Rightarrow> nat_json n | None \<Rightarrow> JNull),
          (''extracted_chars'', nat_json (dp_extracted_chars p)),
          (''unreadable_pages'', nat_json (dp_unreadable_pages p))] @ shape_fields (dn_cfg env) p page_range)),
       (''source'', JStr ''local''), (''fetched_at'', JStr fetched_at)]"

definition read_document_invoke ::
    "doc_env \<Rightarrow> json_codec \<Rightarrow> string \<Rightarrow> doc_world user_context \<Rightarrow> json \<Rightarrow> doc_world \<Rightarrow> (agent_error + string) \<times> doc_world" where
  "read_document_invoke env js fetched_at ctx args w =
     (case parse_read_args args of
        Inl e \<Rightarrow> (Inl e, w)
      | Inr req \<Rightarrow>
          (case cx_chat_session_id ctx of
             None \<Rightarrow>
               (Inl (InvalidArguments ''read_document requires an active chat session id (X-Chat-Session-Id header)''), w)
           | Some session \<Rightarrow>
               (case (case rd_page_range_raw req of
                        None \<Rightarrow> Inr None
                      | Some raw \<Rightarrow>
                          (case parse_page_range raw (dg_max_pages_per_call (dn_cfg env)) of
                             Inl e \<Rightarrow> Inl e | Inr rg \<Rightarrow> Inr (Some rg))) of
                  Inl e \<Rightarrow> (Inl e, w)
                | Inr page_range \<Rightarrow>
                    (case resolve_and_read env (cx_user_id ctx) session (rd_name req) page_range w of
                       (Inl e, w) \<Rightarrow> (Inl e, w)
                     | (Inr p, w) \<Rightarrow> (Inr (js_show js (read_envelope env p page_range fetched_at)), w)))))"

end
