(* ===== verification/Doc_Pages_Props.thy ===== *)
theory Doc_Pages_Props
  imports Doc_Pages
begin

text \<open>
  What the page store promises: the pages and the index written by an extraction are the ones the
  reader returns, page by page, and the preview is bounded. Two pages never share a file.
\<close>

section \<open>Page numbers in file names\<close>

definition dec_value :: "nat \<Rightarrow> string \<Rightarrow> nat" where
  "dec_value = foldl (\<lambda>a c. 10 * a + (byte c - 48))"

lemma dec_value_digits: "dec_value 0 (digits_of 10 n acc) = dec_value n acc"
proof (induction n arbitrary: acc rule: less_induct)
  case (less n)
  let ?acc = "digit (n mod 10) # acc"
  have step: "dec_value (n div 10) ?acc = dec_value n acc"
    by (simp add: dec_value_def byte_digit)
  show ?case
  proof (cases "n < 10")
    case True
    then have "digits_of 10 n acc = ?acc" by (simp add: digits_of.simps [of 10 n acc])
    then show ?thesis using step True by simp
  next
    case False
    then have "digits_of 10 n acc = digits_of 10 (n div 10) ?acc" by (simp add: digits_of.simps [of 10 n acc])
    then show ?thesis using less.IH [of "n div 10" ?acc] False step by simp
  qed
qed

lemma dec_value_pad4: "dec_value 0 (pad4 s) = dec_value 0 s"
proof -
  have "dec_value 0 (replicate k CHR ''0'' @ s) = dec_value 0 s" for k
    by (induction k) (simp_all add: dec_value_def byte_def)
  then show ?thesis by (simp add: pad4_def)
qed

lemma pad4_inj [simp]: "pad4 (nat_to_string m) = pad4 (nat_to_string n) \<longleftrightarrow> m = n"
proof
  assume "pad4 (nat_to_string m) = pad4 (nat_to_string n)"
  then have "dec_value 0 (pad4 (nat_to_string m)) = dec_value 0 (pad4 (nat_to_string n))" by simp
  then show "m = n" by (simp add: dec_value_pad4 nat_to_string_def dec_value_digits) (simp add: dec_value_def)
qed simp

lemma last_dot_append: "CHR ''.'' \<notin> set t \<Longrightarrow> last_dot (s @ CHR ''.'' # t) = Some (s, t)"
proof (induction s)
  case Nil
  have "CHR ''.'' \<notin> set u \<Longrightarrow> last_dot u = None" for u by (induction u) auto
  then show ?case using Nil by simp
qed simp

lemma with_extension_bin:
  "stem \<noteq> [] \<Longrightarrow> with_extension ''bin.tmp'' (dir @ [stem @ ''.bin'']) = dir @ [stem @ ''.bin.tmp'']"
  using last_dot_append [of "''bin''" stem] by (auto simp: with_extension_def file_stem_ext_def)

lemma page_name_simps [simp]:
  "page_path dir m = page_path dir n \<longleftrightarrow> m = n" "page_path dir m \<noteq> meta_path dir" "meta_path dir \<noteq> page_path dir m"
  by (auto simp: page_path_def meta_path_def)

section \<open>Writing and reading one file\<close>

definition calm :: "disk_env \<Rightarrow> bool" where
  "calm env \<longleftrightarrow> (\<forall>i. de_fault env i = None)"

text \<open>No entry of the directory is a symbolic link.\<close>

definition plain_dir :: "disk_env \<Rightarrow> path \<Rightarrow> bool" where
  "plain_dir env dir \<longleftrightarrow> (\<forall>n. de_real env (dir @ [n]) = de_real env dir @ [n])"

lemma calm_call [simp]: "calm env \<Longrightarrow> fs_call env d = (None, d\<lparr>dk_calls := Suc (dk_calls d)\<rparr>)"
  by (simp add: calm_def fs_call_def)

lemma write_file:
  assumes "calm env" "plain_dir env dir" "stem \<noteq> []"
  shows "\<exists>d'. write_encrypted_file env (dir @ [stem @ ''.bin'']) sealed d = (Inr (), d')
     \<and> dash_get (dk_files d') = (dash_get (dk_files d))
         (de_real env dir @ [stem @ ''.bin.tmp''] := None,
          de_real env dir @ [stem @ ''.bin''] \<mapsto> en_nonce sealed @ en_ciphertext sealed)"
  using assms(1,2)
  by (auto simp: write_encrypted_file_def atomic_write_def create_dir_all_def fs_write_def fs_rename_def
      with_extension_bin [OF assms(3)] plain_dir_def Let_def dash_get_put dash_get_remove fun_eq_iff)

definition holds :: "pages_env \<Rightarrow> string \<Rightarrow> path \<Rightarrow> disk \<Rightarrow> path \<Rightarrow> string \<Rightarrow> bool" where
  "holds env key dir d p text \<longleftrightarrow>
     (\<exists>b. dash_get (dk_files d) (de_real (pe_disk env) p) = Some b \<and> 12 \<le> length b
        \<and> decrypt (pe_aead env) key \<lparr>en_nonce = take 12 b, en_ciphertext = drop 12 b\<rparr> = Inr text)"

lemma holds_cong: "dash_get (dk_files d) = dash_get (dk_files d') \<Longrightarrow> holds env key dir d p text = holds env key dir d' p text"
  by (simp add: holds_def)

lemma sealed_eta [simp]: "\<lparr>en_nonce = en_nonce s, en_ciphertext = en_ciphertext s\<rparr> = s"
  by (cases s) simp

lemma write_holds:
  assumes "calm (pe_disk env)" "plain_dir (pe_disk env) dir" "aead_ok (pe_aead env)" "stem \<noteq> []"
    and "valid_utf8 text" "encrypt (pe_aead env) key text i = (Inr sealed, j)"
    and "write_encrypted_file (pe_disk env) (dir @ [stem @ ''.bin'']) sealed d = (r, d')"
  shows "r = Inr () \<and> holds env key dir d' (dir @ [stem @ ''.bin'']) text
     \<and> (\<forall>n t. n \<noteq> stem @ ''.bin'' \<longrightarrow> n \<noteq> stem @ ''.bin.tmp'' \<longrightarrow> holds env key dir d (dir @ [n]) t \<longrightarrow> holds env key dir d' (dir @ [n]) t)"
proof -
  have n: "length (en_nonce sealed) = 12" using conjunct2 [OF encrypt_nonce [OF assms(3,6)]] .
  have "decrypt (pe_aead env) key sealed = Inr text" by (rule decrypt_encrypt [OF assms(3,5,6)])
  moreover have "\<lparr>en_nonce = take 12 (en_nonce sealed @ en_ciphertext sealed),
      en_ciphertext = drop 12 (en_nonce sealed @ en_ciphertext sealed)\<rparr> = sealed" using n by simp
  ultimately show ?thesis
    using write_file [OF assms(1,2,4), of sealed d] assms(2,7) n by (auto simp: holds_def plain_dir_def)
qed

lemma read_holds:
  assumes "calm (pe_disk env)" "holds env key dir d p text"
  shows "\<exists>d'. read_sealed env key p d = (Inr text, d') \<and> dk_files d' = dk_files d"
  using assms by (auto simp: holds_def read_sealed_def read_encrypted_file_def fs_read_def)

section \<open>The whole store\<close>

definition page_stem :: "nat \<Rightarrow> string" where
  "page_stem n = ''page-'' @ pad4 (nat_to_string n)"

lemma page_path_stem: "page_path dir n = dir @ [page_stem n @ ''.bin'']"
  by (simp add: page_path_def page_stem_def)

lemma page_stem_simps [simp]:
  "page_stem n \<noteq> []" "page_stem m = page_stem n \<longleftrightarrow> m = n"
  "page_stem m @ ''.bin'' \<noteq> page_stem n @ ''.bin.tmp''" "page_stem m @ ''.bin'' \<noteq> ''meta.bin.tmp''"
  "page_stem m @ ''.bin'' \<noteq> ''meta.bin''"
proof -
  show "page_stem m @ ''.bin'' \<noteq> page_stem n @ ''.bin.tmp''"
  proof
    assume "page_stem m @ ''.bin'' = page_stem n @ ''.bin.tmp''"
    then have "rev (page_stem m @ ''.bin'') = rev (page_stem n @ ''.bin.tmp'')" by simp
    then show False by simp
  qed
qed (auto simp: page_stem_def)

lemma preview_bounded: "char_count acc \<le> overview_preview_chars \<Longrightarrow> char_count (preview_push acc text) \<le> overview_preview_chars"
proof -
  assume a: "char_count acc \<le> overview_preview_chars"
  have "char_count (acc @ t) = char_count acc + char_count t" for t by (simp add: char_count_def)
  then show ?thesis using a take_chars_bound [of "overview_preview_chars - char_count acc" "text"]
    by (auto simp: preview_push_def)
qed

lemma extract_loop_holds:
  assumes "calm (pe_disk env)" "plain_dir (pe_disk env) dir" "aead_ok (pe_aead env)"
    and "\<forall>r \<in> set rs. valid_utf8 (page_text r)"
    and "extract_loop env key dir page rs preview unreadable drawn d = (Inr (preview', unreadable'), drawn', d')"
  shows "(\<forall>i < length rs. holds env key dir d' (page_path dir (page + i)) (page_text (rs ! i)))
     \<and> (\<forall>n t. n < page \<longrightarrow> holds env key dir d (page_path dir n) t \<longrightarrow> holds env key dir d' (page_path dir n) t)
     \<and> unreadable' = foldl note_unreadable unreadable rs
     \<and> preview' = foldl preview_push preview (map page_text rs)"
  using assms(4,5)
proof (induction rs arbitrary: page preview unreadable drawn d)
  case (Cons r rs)
  obtain sealed j where e: "encrypt (pe_aead env) key (page_text r) drawn = (Inr sealed, j)"
    using Cons.prems(2) by (auto simp: Let_def split: prod.splits sum.splits)
  obtain w d1 where w: "write_encrypted_file (pe_disk env) (page_path dir page) sealed d = (w, d1)" by (metis prod.exhaust)
  have pv: "valid_utf8 (page_text r)" using Cons.prems(1) by simp
  note wh0 = write_holds [OF assms(1-3) page_stem_simps(1) pv e w [unfolded page_path_stem]]
  have wh: "w = Inr () \<and> holds env key dir d1 (page_path dir page) (page_text r)
     \<and> (\<forall>n t. n \<noteq> page \<longrightarrow> holds env key dir d (page_path dir n) t \<longrightarrow> holds env key dir d1 (page_path dir n) t)"
  proof (intro conjI allI impI)
    fix n t assume "n \<noteq> page" "holds env key dir d (page_path dir n) t"
    then show "holds env key dir d1 (page_path dir n) t"
      using conjunct2 [OF conjunct2 [OF wh0], rule_format, of "page_stem n @ ''.bin''" t] by (simp add: page_path_stem)
  qed (use wh0 in \<open>simp_all add: page_path_stem\<close>)
  have rest: "extract_loop env key dir (Suc page) rs (preview_push preview (page_text r))
      (note_unreadable unreadable r) j d1 = (Inr (preview', unreadable'), drawn', d')"
    using Cons.prems(2) e w wh by (simp add: Let_def)
  have valid: "\<forall>r \<in> set rs. valid_utf8 (page_text r)" using Cons.prems(1) by simp
  note ih = Cons.IH [OF valid rest]
  show ?case
  proof (intro conjI)
    show "\<forall>i < length (r # rs). holds env key dir d' (page_path dir (page + i)) (page_text ((r # rs) ! i))"
    proof (intro allI impI)
      fix i assume "i < length (r # rs)"
      then show "holds env key dir d' (page_path dir (page + i)) (page_text ((r # rs) ! i))"
        using ih wh by (cases i) auto
    qed
    show "\<forall>n t. n < page \<longrightarrow> holds env key dir d (page_path dir n) t \<longrightarrow> holds env key dir d' (page_path dir n) t"
      using ih wh by (auto intro: less_SucI)
  qed (use ih in simp_all)
qed simp

lemma extract_pages_holds:
  assumes "calm (pe_disk env)" "plain_dir (pe_disk env) dir" "aead_ok (pe_aead env)"
    and "pe_load env bytes = Inr pages" "length pages < 2 ^ 32" "\<forall>r \<in> set pages. valid_utf8 (page_text r)"
    and codec: "\<And>ix s. pe_index_show env ix = Inr s \<Longrightarrow> valid_utf8 s \<and> pe_index_parse env s = Inr ix"
    and ex: "extract_pages env bytes dir key drawn d = (Inr index, drawn', d')"
  shows "(\<forall>i < length pages. holds env key dir d' (page_path dir (Suc i)) (page_text (pages ! i)))
     \<and> index = PxIndexed (length pages) (foldl note_unreadable 0 pages)
         (foldl preview_push [] (map page_text pages)) []
     \<and> (\<exists>meta. pe_index_parse env meta = Inr index \<and> holds env key dir d' (meta_path dir) meta)"
proof -
  have pc: "length pages mod 2 ^ 32 = length pages" "take (length pages) pages = pages" using assms(5) by simp_all
  obtain d0 where d0: "create_dir_all (pe_disk env) dir d = (Inr (), d0)" using assms(1) by (simp add: create_dir_all_def)
  obtain preview unreadable j d1 where
    l: "extract_loop env key dir 1 pages [] 0 drawn d0 = (Inr (preview, unreadable), j, d1)"
    using ex d0 assms(4) pc by (auto simp: extract_pages_def Let_def split: prod.splits sum.splits)
  note lh = extract_loop_holds [OF assms(1-3,6) l]
  let ?index = "PxIndexed (length pages) unreadable preview []"
  obtain meta where m: "pe_index_show env ?index = Inr meta"
    using ex d0 assms(4) pc l by (auto simp: extract_pages_def Let_def split: prod.splits sum.splits)
  have mv: "valid_utf8 meta" "pe_index_parse env meta = Inr ?index" using codec [OF m] by simp_all
  obtain sealed j1 where e: "encrypt (pe_aead env) key meta j = (Inr sealed, j1)"
    using ex d0 assms(4) pc l m mv by (auto simp: extract_pages_def Let_def split: prod.splits sum.splits)
  obtain w d2 where w: "write_encrypted_file (pe_disk env) (meta_path dir) sealed d1 = (w, d2)" by (metis prod.exhaust)
  have "meta_path dir = dir @ [''meta'' @ ''.bin'']" by (simp add: meta_path_def)
  note wh = write_holds [OF assms(1-3) _ mv(1) e w [unfolded this], simplified]
  have fin: "index = ?index" "d' = d2"
    using ex d0 assms(4) pc l m mv e w by (auto simp: extract_pages_def Let_def split: prod.splits sum.splits)
  have "holds env key dir d' (page_path dir (Suc i)) (page_text (pages ! i))" if "i < length pages" for i
  proof -
    have "holds env key dir d1 (page_path dir (Suc i)) (page_text (pages ! i))" using lh that by simp
    then show ?thesis using wh fin by (auto simp: page_path_stem)
  qed
  moreover have "holds env key dir d' (meta_path dir) meta" using wh fin by (simp add: meta_path_def)
  ultimately show ?thesis using fin lh mv by auto
qed

lemma read_pages_loop_holds:
  assumes "calm (pe_disk env)" "\<forall>n \<in> set ns. holds env key dir d (page_path dir n) (txt n)"
  shows "\<exists>d'. read_pages_loop env dir key ns buf d = (Inr (foldl (\<lambda>b n. join_page b n (txt n)) buf ns), d')"
  using assms(2)
proof (induction ns arbitrary: buf d)
  case (Cons n ns)
  obtain d1 where d1: "read_sealed env key (page_path dir n) d = (Inr (txt n), d1)" "dk_files d1 = dk_files d"
    using read_holds [OF assms(1), of key dir d "page_path dir n" "txt n"] Cons.prems by auto
  have "\<forall>n \<in> set ns. holds env key dir d1 (page_path dir n) (txt n)"
    using Cons.prems d1(2) holds_cong [of d1 d] by auto
  then show ?case using Cons.IH [of d1] d1(1) by simp
qed simp

text \<open>
  C21: The page store reads back what an upload wrote: after a successful extraction of a PDF the
  overview is the index the extraction returned, with the number of pages and a preview of at most
  2000 characters, and any range of pages reads as the texts of these pages in order, each under its
  heading, the marker standing for a page without text.
\<close>

theorem pages_read_back:
  assumes "calm (pe_disk env)" "plain_dir (pe_disk env) dir" "aead_ok (pe_aead env)"
    and "pe_load env bytes = Inr pages" "length pages < 2 ^ 32" "\<forall>r \<in> set pages. valid_utf8 (page_text r)"
    and "\<And>ix s. pe_index_show env ix = Inr s \<Longrightarrow> valid_utf8 s \<and> pe_index_parse env s = Inr ix"
    and "extract_pages env bytes dir key drawn d = (Inr index, drawn', d')"
    and "1 \<le> start" "start \<le> end_inclusive" "end_inclusive \<le> length pages"
  shows "fst (read_overview env dir key d') = Inr index
     \<and> fst (read_pages env dir key start end_inclusive d')
       = Inr (foldl (\<lambda>b n. join_page b n (page_text (pages ! (n - 1)))) [] [start..<Suc end_inclusive])
     \<and> (\<exists>unreadable preview. index = PxIndexed (length pages) unreadable preview [] \<and> char_count preview \<le> 2000)"
proof (intro conjI)
  note h = extract_pages_holds [OF assms(1-8)]
  obtain meta where m: "pe_index_parse env meta = Inr index" "holds env key dir d' (meta_path dir) meta" using h by blast
  show "fst (read_overview env dir key d') = Inr index"
    using read_holds [OF assms(1) m(2)] m(1) by (auto simp: read_overview_def)
  have "\<forall>n \<in> set [start..<Suc end_inclusive]. holds env key dir d' (page_path dir n) (page_text (pages ! (n - 1)))"
  proof
    fix n assume "n \<in> set [start..<Suc end_inclusive]"
    then have "n - 1 < length pages" "Suc (n - 1) = n" using assms(9-11) by auto
    then show "holds env key dir d' (page_path dir n) (page_text (pages ! (n - 1)))" using h by metis
  qed
  from read_pages_loop_holds [OF assms(1) this, of "[]"]
  show "fst (read_pages env dir key start end_inclusive d')
      = Inr (foldl (\<lambda>b n. join_page b n (page_text (pages ! (n - 1)))) [] [start..<Suc end_inclusive])"
    by (auto simp: read_pages_def)
  have "char_count acc \<le> overview_preview_chars \<Longrightarrow> char_count (foldl preview_push acc ts) \<le> overview_preview_chars" for acc ts
    by (induction ts arbitrary: acc) (simp_all add: preview_bounded)
  from this [of "[]"] show "\<exists>unreadable preview. index = PxIndexed (length pages) unreadable preview [] \<and> char_count preview \<le> 2000"
    using h by (simp add: overview_preview_chars_def char_count_def)
qed


text \<open>A PDF with one readable page and one that cannot be extracted.\<close>

definition demo_pages_env :: pages_env where
  "demo_pages_env =
     \<lparr>pe_disk = \<lparr>de_fault = \<lambda>_. None, de_real = id\<rparr>, pe_aead = demo_aead,
      pe_load = \<lambda>_. Inr [Inr ''hello'', Inl ''bad font''],
      pe_index_show = \<lambda>ix. if ix = PxIndexed 2 1 ''hello'' [] then Inr ''ix'' else Inl [],
      pe_index_parse = \<lambda>_. Inr (PxIndexed 2 1 ''hello'' [])\<rparr>"

definition empty_disk :: disk where
  "empty_disk = \<lparr>dk_files = [], dk_dirs = [], dk_calls = 0\<rparr>"

lemma marker_valid: "valid_utf8 unreadable_page_marker"
  by (rule valid_ascii) (simp add: unreadable_page_marker_def byte_def)

lemma demo_extract:
  "\<exists>drawn' d'. extract_pages demo_pages_env [] [''p''] (replicate 32 CHR ''k'') 0 empty_disk
     = (Inr (PxIndexed 2 1 ''hello'' []), drawn', d')"
proof -
  let ?env = demo_pages_env and ?k = "replicate 32 CHR ''k''"
  have env: "calm (pe_disk ?env)" "plain_dir (pe_disk ?env) [''p'']" by (simp_all add: demo_pages_env_def calm_def plain_dir_def)
  obtain d0 where d0: "create_dir_all (pe_disk ?env) [''p''] empty_disk = (Inr (), d0)" using env(1) by (simp add: create_dir_all_def)
  have enc: "\<exists>s. encrypt (pe_aead ?env) ?k t i = (Inr s, Suc i)" for t i
    by (simp add: encrypt_def demo_pages_env_def demo_aead_def)
  have wr: "\<exists>d'. write_encrypted_file (pe_disk ?env) (page_path [''p''] n) s d = (Inr (), d')" for n s d
    using write_file [OF env, of "page_stem n"] by (auto simp: page_path_stem)
  have wm: "\<exists>d'. write_encrypted_file (pe_disk ?env) (meta_path [''p'']) s d = (Inr (), d')" for s d
    using write_file [OF env, of "''meta''"] by (auto simp: meta_path_def)
  obtain s1 where s1: "encrypt (pe_aead ?env) ?k ''hello'' 0 = (Inr s1, Suc 0)" using enc by blast
  obtain d1 where d1: "write_encrypted_file (pe_disk ?env) (page_path [''p''] 1) s1 d0 = (Inr (), d1)" using wr by blast
  obtain s2 where s2: "encrypt (pe_aead ?env) ?k unreadable_page_marker (Suc 0) = (Inr s2, Suc (Suc 0))" using enc by blast
  obtain d2 where d2: "write_encrypted_file (pe_disk ?env) (page_path [''p''] (Suc 1)) s2 d1 = (Inr (), d2)" using wr by blast
  obtain s3 where s3: "encrypt (pe_aead ?env) ?k ''ix'' (Suc (Suc 0)) = (Inr s3, Suc (Suc (Suc 0)))" using enc by blast
  obtain d3 where d3: "write_encrypted_file (pe_disk ?env) (meta_path [''p'']) s3 d2 = (Inr (), d3)" using wm by blast
  have pv: "preview_push [] ''hello'' = ''hello''" "preview_push ''hello'' unreadable_page_marker = ''hello''"
    by (simp_all add: preview_push_def unreadable_page_marker_def overview_preview_chars_def char_count_def is_continuation_def byte_def)
  have lp: "extract_loop ?env ?k [''p''] 1 [Inr ''hello'', Inl ''bad font''] [] 0 0 d0 = (Inr (''hello'', 1), Suc (Suc 0), d2)"
    using s1 d1 s2 d2 pv by (simp add: page_text_def note_unreadable_def sat_add_def u32_max_def)
  have ix: "pe_index_show ?env (PxIndexed 2 1 ''hello'' []) = Inr ''ix''" "pe_load ?env [] = Inr [Inr ''hello'', Inl ''bad font'']"
    by (simp_all add: demo_pages_env_def)
  have v: "valid_utf8 ''ix''" by (simp add: valid_ascii byte_def)
  obtain pages :: "(string + string) list" where p: "pages = [Inr ''hello'', Inl ''bad font'']" by simp
  have "length pages mod 2 ^ 32 = 2" "take 2 pages = [Inr ''hello'', Inl ''bad font'']" "pe_load ?env [] = Inr pages"
    using ix by (simp_all add: p)
  then show ?thesis using d0 lp ix(1) s3 d3 v by (simp add: extract_pages_def Let_def del: extract_loop.simps)
qed

lemma pages_read_back_witness:
  "\<exists>drawn' d'. extract_pages demo_pages_env [] [''p''] (replicate 32 CHR ''k'') 0 empty_disk = (Inr (PxIndexed 2 1 ''hello'' []), drawn', d')
     \<and> fst (read_overview demo_pages_env [''p''] (replicate 32 CHR ''k'') d') = Inr (PxIndexed 2 1 ''hello'' [])
     \<and> fst (read_pages demo_pages_env [''p''] (replicate 32 CHR ''k'') 1 2 d')
       = Inr (join_page (join_page [] 1 ''hello'') 2 unreadable_page_marker)"
proof -
  obtain drawn' d' where ex: "extract_pages demo_pages_env [] [''p''] (replicate 32 CHR ''k'') 0 empty_disk
      = (Inr (PxIndexed 2 1 ''hello'' []), drawn', d')" using demo_extract by metis
  have env: "calm (pe_disk demo_pages_env)" "plain_dir (pe_disk demo_pages_env) [''p'']" "aead_ok (pe_aead demo_pages_env)"
    "pe_load demo_pages_env [] = Inr [Inr ''hello'', Inl ''bad font'']"
    by (simp_all add: demo_pages_env_def calm_def plain_dir_def)
  have valid: "\<forall>r \<in> set [Inr ''hello'', Inl ''bad font'']. valid_utf8 (page_text r)"
    using marker_valid by (simp add: page_text_def valid_ascii byte_def)
  have codec: "pe_index_show demo_pages_env ix = Inr s \<Longrightarrow> valid_utf8 s \<and> pe_index_parse demo_pages_env s = Inr ix" for ix s
  proof -
    assume "pe_index_show demo_pages_env ix = Inr s"
    then have "ix = PxIndexed 2 1 ''hello'' []" "s = ''ix''" by (simp_all add: demo_pages_env_def split: if_splits)
    then show "valid_utf8 s \<and> pe_index_parse demo_pages_env s = Inr ix" by (simp add: demo_pages_env_def valid_ascii byte_def)
  qed
  have len: "length [Inr ''hello'', Inl ''bad font'' :: string + string] < 2 ^ 32" "1 \<le> (1 :: nat)" "(1 :: nat) \<le> 2"
    "2 \<le> length [Inr ''hello'', Inl ''bad font'' :: string + string]" by simp_all
  from pages_read_back [OF env len(1) valid codec ex len(2-4)]
  show ?thesis using ex by (simp add: upt_conv_Cons eval_nat_numeral page_text_def)
qed

end
