(* ===== verification/Doc_Props.thy ===== *)
theory Doc_Props
  imports Doc_Agent Doc_Pages_Props
begin

text \<open>
  What the document store promises: what a user reads depends on the rows of that user and session
  only, the quota holds after any sequence of requests, an upload is downloaded as it was, and a
  deletion or a sweep touches the files of the rows it removes only.
\<close>

section \<open>What an operation can see\<close>

text \<open>Two worlds that agree on the rows of a kind and on everything else.\<close>

definition same_docs :: "(doc_row \<Rightarrow> bool) \<Rightarrow> doc_world \<Rightarrow> doc_world \<Rightarrow> bool" where
  "same_docs Q w1 w2 \<longleftrightarrow> filter Q (dw_rows w1) = filter Q (dw_rows w2)
     \<and> dw_bindings w1 = dw_bindings w2 \<and> dw_disk w1 = dw_disk w2 \<and> dw_calls w1 = dw_calls w2 \<and> dw_drawn w1 = dw_drawn w2"

definition blind :: "(doc_row \<Rightarrow> bool) \<Rightarrow> (doc_world \<Rightarrow> 'a \<times> doc_world) \<Rightarrow> bool" where
  "blind Q f \<longleftrightarrow>
     (\<forall>w1 w2. same_docs Q w1 w2 \<longrightarrow> fst (f w1) = fst (f w2) \<and> same_docs Q (snd (f w1)) (snd (f w2)))"

lemma blind_leaf: "blind Q (\<lambda>w. (c, w))"
  by (simp add: blind_def)

lemma blind_bind: "blind Q f \<Longrightarrow> (\<And>r. blind Q (g r)) \<Longrightarrow> blind Q (\<lambda>w. case f w of (r, w) \<Rightarrow> g r w)"
  unfolding blind_def by (metis (no_types, lifting) case_prod_beta)

lemma blind_sum:
  "(\<And>e. blind Q (A e)) \<Longrightarrow> (\<And>x. blind Q (B x)) \<Longrightarrow> blind Q (\<lambda>w. case r of Inl e \<Rightarrow> A e w | Inr x \<Rightarrow> B x w)"
  by (cases r) simp_all

lemma blind_option:
  "blind Q A \<Longrightarrow> (\<And>x. blind Q (B x)) \<Longrightarrow> blind Q (\<lambda>w. case r of None \<Rightarrow> A w | Some x \<Rightarrow> B x w)"
  by (cases r) simp_all

lemma blind_index:
  "blind Q A \<Longrightarrow> (\<And>a b c d. blind Q (B a b c d)) \<Longrightarrow> blind Q (\<lambda>w. case r of PxMissing \<Rightarrow> A w | PxIndexed a b c d \<Rightarrow> B a b c d w)"
  by (cases r) simp_all

lemma blind_disk_error:
  "(\<And>e. blind Q (A e)) \<Longrightarrow> (\<And>e. blind Q (B e)) \<Longrightarrow> blind Q (\<lambda>w. case r of EscapesCacheDir p \<Rightarrow> A p w | DiskIo e \<Rightarrow> B e w)"
  by (cases r) simp_all

lemma blind_extraction_error:
  "(\<And>m. blind Q (A m)) \<Longrightarrow> (\<And>m. blind Q (B m)) \<Longrightarrow> blind Q C \<Longrightarrow> (\<And>n. blind Q (D n)) \<Longrightarrow> blind Q E
     \<Longrightarrow> blind Q (\<lambda>w. case r of ExUnsupportedMime m \<Rightarrow> A m w | ExParseFailed m \<Rightarrow> B m w | ExTimeout \<Rightarrow> C w
          | ExSaturated n \<Rightarrow> D n w | ExSaturatedTimeout \<Rightarrow> E w)"
  by (cases r) simp_all

lemma blind_if: "blind Q A \<Longrightarrow> blind Q B \<Longrightarrow> blind Q (\<lambda>w. if c then A w else B w)"
  by (cases c) simp_all

lemma blind_call: "blind Q (doc_call env)"
  by (simp add: blind_def doc_call_def same_docs_def)

lemma blind_disk: "blind Q (on_disk f)"
  by (auto simp: blind_def on_disk_def same_docs_def split: prod.splits)

lemma find_filter: "(\<And>x. P x \<Longrightarrow> Q x) \<Longrightarrow> List.find P (filter Q xs) = List.find P xs"
  by (induction xs) auto

lemma filter_filter_sub: "(\<And>x. P x \<Longrightarrow> Q x) \<Longrightarrow> filter P (filter Q xs) = filter P xs"
  by (induction xs) auto

lemma blind_find: "(\<And>r. P r \<Longrightarrow> Q r) \<Longrightarrow> blind Q (\<lambda>w. (h (List.find P (dw_rows w)), w))"
  unfolding blind_def same_docs_def by (metis find_filter fst_conv snd_conv)

lemma blind_filter: "(\<And>r. P r \<Longrightarrow> Q r) \<Longrightarrow> blind Q (\<lambda>w. (h (filter P (dw_rows w)), w))"
  unfolding blind_def same_docs_def by (metis filter_filter_sub fst_conv snd_conv)

lemma blind_touch: "blind Q (touch_and_verify env session user)"
  by (auto simp: blind_def touch_and_verify_def doc_call_def same_docs_def split: option.splits)

lemmas blind_intros = blind_leaf blind_bind blind_sum blind_option blind_index blind_disk_error blind_extraction_error blind_if
  blind_call blind_disk blind_touch

section \<open>Isolation\<close>

lemma blind_get_by_id: "blind (in_session user session) (doc_get_by_id env i user (Some session))"
proof -
  have "doc_get_by_id env i user (Some session) = (\<lambda>w. case doc_call env w of (e, w) \<Rightarrow>
      (case e of Some e \<Rightarrow> (Inl e, w)
       | None \<Rightarrow> (Inr (List.find (\<lambda>r. dr_id r = i \<and> dr_user r = user \<and> dr_session r = session) (dw_rows w)), w)))"
    by (auto simp: fun_eq_iff doc_get_by_id_def split: prod.splits option.splits)
  then show ?thesis by (auto simp: in_session_def intro!: blind_intros blind_find)
qed

lemma blind_get_of_user: "blind (\<lambda>r. dr_user r = user) (doc_get_by_id env i user None)"
proof -
  have "doc_get_by_id env i user None = (\<lambda>w. case doc_call env w of (e, w) \<Rightarrow>
      (case e of Some e \<Rightarrow> (Inl e, w)
       | None \<Rightarrow> (Inr (List.find (\<lambda>r. dr_id r = i \<and> dr_user r = user) (dw_rows w)), w)))"
    by (auto simp: fun_eq_iff doc_get_by_id_def split: prod.splits option.splits)
  then show ?thesis by (auto intro!: blind_intros blind_find)
qed

lemma blind_get_by_name: "blind (in_session user session) (get_by_name env name user session)"
  unfolding get_by_name_def by (intro blind_intros blind_get_by_id)

lemma blind_find_name: "blind (in_session user session) (find_by_original_name env user session name)"
  unfolding find_by_original_name_def
  by (intro blind_intros blind_filter [where h = "\<lambda>xs. Inr (newest env xs)"]) simp

lemma blind_list: "blind (in_session user session) (list_for_session env user session)"
  unfolding list_for_session_def
  by (intro blind_intros blind_filter [where h = "\<lambda>xs. Inr (rev (sort_key dr_created xs))"])

lemma blind_read_row: "blind Q (read_row env row pr)"
  unfolding read_row_def read_full_text_def read_pdf_pages_def read_pdf_legacy_def read_pdf_bytes_def
  by (intro blind_intros)

lemma blind_read: "blind (in_session user session) (read_with_request env user session name pr)"
  unfolding read_with_request_def check_session_def
  by (intro blind_intros blind_get_by_name blind_read_row)

lemma blind_resolve: "blind (in_session user session) (resolve_and_read env user session name pr)"
  unfolding resolve_and_read_def check_session_def
  by (intro blind_intros blind_find_name blind_read)

text \<open>
  C16: What a user sees of the documents depends on that user's own rows: whatever the rows of other
  users and of other sessions are, \<open>read_document\<close> and the listing give the same answer, and a
  download gives the same answer whatever the rows of other users are.
\<close>

theorem documents_isolated:
  assumes "same_docs (in_session (au_id user) session) w1 w2"
    and "cx_user_id ctx = au_id user" "cx_chat_session_id ctx = Some session"
    and "parse_session_header env header = Inr session"
    and "same_docs (\<lambda>r. dr_user r = au_id user) v1 v2"
  shows "fst (read_document_invoke env js t ctx args w1) = fst (read_document_invoke env js t ctx args w2)
     \<and> fst (list_handler env user header w1) = fst (list_handler env user header w2)
     \<and> fst (download_handler env user i v1) = fst (download_handler env user i v2)"
proof (intro conjI)
  have "blind (in_session (au_id user) session) (read_document_invoke env js t ctx args)"
    unfolding read_document_invoke_def by (simp only: assms(2,3) option.case) (intro blind_intros blind_resolve)
  then show "fst (read_document_invoke env js t ctx args w1) = fst (read_document_invoke env js t ctx args w2)"
    using assms(1) by (simp add: blind_def)
  have "blind (in_session (au_id user) session) (list_handler env user header)"
    unfolding list_handler_def verify_session_binding_def
    by (simp only: assms(4) sum.case) (intro blind_intros blind_list)
  then show "fst (list_handler env user header w1) = fst (list_handler env user header w2)"
    using assms(1) by (simp add: blind_def)
  have "blind (\<lambda>r. dr_user r = au_id user) (download_handler env user i)"
    unfolding download_handler_def Let_def by (intro blind_intros blind_get_of_user)
  then show "fst (download_handler env user i v1) = fst (download_handler env user i v2)"
    using assms(5) by (simp add: blind_def)
qed

section \<open>A small store\<close>

definition demo_doc_env :: doc_env where
  "demo_doc_env =
     \<lparr>dn_cfg = \<lparr>dg_cache_dir = [''c''], dg_max_file_size_bytes = 100, dg_max_extracted_chars = 100,
        dg_max_docs_per_session = 2, dg_max_pages_per_call = 5, dg_max_page_chars_per_call = 100\<rparr>,
      dn_pages = demo_pages_env, dn_key = None, dn_fault = \<lambda>_. None, dn_sessions_wired = True,
      dn_uuid_parse = \<lambda>_. Inr 4, dn_uuid_text = \<lambda>i. replicate i CHR ''x'', dn_uuid_simple = \<lambda>i. replicate i CHR ''x'',
      dn_extract_pdf = \<lambda>_. Inr []\<rparr>"

definition demo_reader :: auth_user where
  "demo_reader = \<lparr>au_id = 1, au_email = [], au_display_name = [], au_provider = [], au_roles = [], au_created_at = 0,
     au_csrf_token = [], au_session_expires_at = 0, au_session_token_hash = [], au_session_source = BearerToken\<rparr>"

definition demo_row :: "uuid \<Rightarrow> uuid \<Rightarrow> string \<Rightarrow> doc_row" where
  "demo_row i user created =
     \<lparr>dr_id = i, dr_session = 4, dr_user = user, dr_name = ''a.txt'', dr_mime = text_mime, dr_size = 2, dr_chars = 2,
      dr_page_count = None, dr_path = path_for_uuid demo_doc_env [''c''] i ''txt'', dr_pages_dir = None,
      dr_created = created, dr_expires = None\<rparr>"

definition demo_docs :: "doc_row list \<Rightarrow> doc_world" where
  "demo_docs rows =
     \<lparr>dw_rows = rows, dw_bindings = [(4, 1)], dw_disk = empty_disk\<lparr>dk_files := map (\<lambda>r. (dr_path r, ''hi'')) rows\<rparr>,
      dw_calls = 0, dw_drawn = 0\<rparr>"

lemma documents_isolated_witness:
  "fst (list_handler demo_doc_env demo_reader (Some (Some ''s'')) ((demo_docs [])\<lparr>dw_rows := [demo_row 7 2 ''t'']\<rparr>))
   = fst (list_handler demo_doc_env demo_reader (Some (Some ''s'')) (demo_docs []))"
proof -
  let ?w = "demo_docs []" and ?v = "(demo_docs [])\<lparr>dw_rows := [demo_row 7 2 ''t'']\<rparr>"
  have views: "same_docs (in_session (au_id demo_reader) 4) ?v ?w" "same_docs (\<lambda>r. dr_user r = au_id demo_reader) ?v ?w"
    by (simp_all add: same_docs_def in_session_def demo_reader_def demo_row_def demo_docs_def)
  have ctx: "cx_user_id (ctx_for_chat_session 1 [] None None 4) = au_id demo_reader"
    "cx_chat_session_id (ctx_for_chat_session 1 [] None None 4) = Some 4"
    by (simp_all add: ctx_for_chat_session_def demo_reader_def)
  have header: "parse_session_header demo_doc_env (Some (Some ''s'')) = Inr 4"
    by (simp add: parse_session_header_def demo_doc_env_def)
  from documents_isolated [OF views(1) ctx header views(2)] show ?thesis by blast
qed

section \<open>The quota\<close>

text \<open>The steps that change the rows, and the others.\<close>

inductive doc_step :: "doc_env \<Rightarrow> doc_world \<Rightarrow> doc_world \<Rightarrow> bool" for env where
  upload: "upload_handler env user x h body new_id now created w = (r, w') \<Longrightarrow> doc_step env w w'"
| listing: "list_handler env user h w = (r, w') \<Longrightarrow> doc_step env w w'"
| download: "download_handler env user i w = (r, w') \<Longrightarrow> doc_step env w w'"
| delete: "delete_handler env user x h i w = (r, w') \<Longrightarrow> doc_step env w w'"
| mint: "mint_handler env user new_id w = (r, w') \<Longrightarrow> doc_step env w w'"
| agent: "read_document_invoke env js t ctx args w = (r, w') \<Longrightarrow> doc_step env w w'"
| sweep: "purge_older_than env cache_dir cutoff w = (r, w') \<Longrightarrow> doc_step env w w'"

abbreviation doc_run :: "doc_env \<Rightarrow> doc_world \<Rightarrow> doc_world \<Rightarrow> bool" where
  "doc_run env \<equiv> (doc_step env)\<^sup>*\<^sup>*"

definition keeps_rows :: "(doc_world \<Rightarrow> 'a \<times> doc_world) \<Rightarrow> bool" where
  "keeps_rows f \<longleftrightarrow> (\<forall>w. dw_rows (snd (f w)) = dw_rows w)"

lemma keeps_rowsD: "keeps_rows f \<Longrightarrow> f w = (r, w') \<Longrightarrow> dw_rows w' = dw_rows w"
  unfolding keeps_rows_def by (metis snd_conv)

lemma keeps_leaf: "keeps_rows (\<lambda>w. (h w, w))"
  by (simp add: keeps_rows_def)

lemma keeps_bind: "keeps_rows f \<Longrightarrow> (\<And>r. keeps_rows (g r)) \<Longrightarrow> keeps_rows (\<lambda>w. case f w of (r, w) \<Rightarrow> g r w)"
  unfolding keeps_rows_def by (metis (no_types, lifting) case_prod_beta)

lemma keeps_sum:
  "(\<And>e. keeps_rows (A e)) \<Longrightarrow> (\<And>x. keeps_rows (B x)) \<Longrightarrow> keeps_rows (\<lambda>w. case r of Inl e \<Rightarrow> A e w | Inr x \<Rightarrow> B x w)"
  by (cases r) simp_all

lemma keeps_option:
  "keeps_rows A \<Longrightarrow> (\<And>x. keeps_rows (B x)) \<Longrightarrow> keeps_rows (\<lambda>w. case r of None \<Rightarrow> A w | Some x \<Rightarrow> B x w)"
  by (cases r) simp_all

lemma keeps_if: "keeps_rows A \<Longrightarrow> keeps_rows B \<Longrightarrow> keeps_rows (\<lambda>w. if c then A w else B w)"
  by (cases c) simp_all

lemma keeps_ops:
  "keeps_rows (doc_call env)" "keeps_rows (on_disk f)" "keeps_rows (touch_and_verify env session user)"
  "keeps_rows (doc_get_by_id env i user s)" "keeps_rows (list_for_session env user session)"
  "keeps_rows (find_by_original_name env user session name)" "keeps_rows (count_for_session env user session)"
  "keeps_rows (run_extract env bytes dir key)" "keeps_rows (written_len env p bytes)"
  by (auto simp: keeps_rows_def doc_call_def on_disk_def touch_and_verify_def doc_get_by_id_def list_for_session_def
      find_by_original_name_def count_for_session_def run_extract_def written_len_def split: prod.splits option.splits sum.splits)

lemmas keeps_intros = keeps_ops keeps_leaf keeps_bind keeps_sum keeps_option keeps_if

lemma keeps_disk_error:
  "(\<And>e. keeps_rows (A e)) \<Longrightarrow> (\<And>e. keeps_rows (B e)) \<Longrightarrow> keeps_rows (\<lambda>w. case r of EscapesCacheDir p \<Rightarrow> A p w | DiskIo e \<Rightarrow> B e w)"
  by (cases r) simp_all

lemma keeps_index:
  "keeps_rows A \<Longrightarrow> (\<And>a b c d. keeps_rows (B a b c d)) \<Longrightarrow> keeps_rows (\<lambda>w. case r of PxMissing \<Rightarrow> A w | PxIndexed a b c d \<Rightarrow> B a b c d w)"
  by (cases r) simp_all

lemma keeps_extraction_error:
  "(\<And>m. keeps_rows (A m)) \<Longrightarrow> (\<And>m. keeps_rows (B m)) \<Longrightarrow> keeps_rows C \<Longrightarrow> (\<And>n. keeps_rows (D n)) \<Longrightarrow> keeps_rows E
     \<Longrightarrow> keeps_rows (\<lambda>w. case r of ExUnsupportedMime m \<Rightarrow> A m w | ExParseFailed m \<Rightarrow> B m w | ExTimeout \<Rightarrow> C w
          | ExSaturated n \<Rightarrow> D n w | ExSaturatedTimeout \<Rightarrow> E w)"
  by (cases r) simp_all

lemma keeps_guarded: "keeps_rows (guarded_session env user x h)"
  unfolding guarded_session_def verify_session_binding_def by (intro keeps_intros)

lemma keeps_list: "keeps_rows (list_handler env user h)"
  unfolding list_handler_def verify_session_binding_def by (intro keeps_intros)

lemma keeps_download: "keeps_rows (download_handler env user i)"
  unfolding download_handler_def Let_def by (intro keeps_intros keeps_disk_error)

lemma keeps_read: "keeps_rows (read_with_request env user session name pr)"
  unfolding read_with_request_def check_session_def get_by_name_def read_row_def read_full_text_def
    read_pdf_pages_def read_pdf_legacy_def read_pdf_bytes_def
  by (intro keeps_intros keeps_index keeps_extraction_error)

lemma keeps_agent: "keeps_rows (read_document_invoke env js t ctx args)"
  unfolding read_document_invoke_def resolve_and_read_def check_session_def by (intro keeps_intros keeps_read)

lemma keeps_mint: "keeps_rows (mint_handler env user new_id)"
  by (auto simp: keeps_rows_def mint_handler_def bind_session_def doc_call_def split: option.splits)

lemma keeps_place: "keeps_rows (place_file env new_id p bytes)"
  unfolding place_file_def Let_def by (intro keeps_intros)

lemma forget_rows [simp]: "dw_rows (forget_file env p w) = dw_rows w" "dw_rows (forget_dir env p w) = dw_rows w"
  using keeps_ops(2) by (auto simp: forget_file_def forget_dir_def keeps_rows_def)

text \<open>Where the code puts the file and the pages of a document.\<close>

definition placed :: "doc_env \<Rightarrow> doc_row \<Rightarrow> bool" where
  "placed env r \<longleftrightarrow> (\<exists>ext. is_supported ext \<and> dr_path r = path_for_uuid env (dg_cache_dir (dn_cfg env)) (dr_id r) ext)
     \<and> dr_pages_dir r \<in> {None, Some (pages_root_of (dr_path r))}"

text \<open>An upload adds at most one row, of its user and session, with a fresh identifier.\<close>

definition adds_row :: "doc_env \<Rightarrow> uuid \<Rightarrow> uuid \<Rightarrow> doc_world \<Rightarrow> doc_world \<Rightarrow> bool" where
  "adds_row env user session w w' \<longleftrightarrow> dw_rows w' = dw_rows w
     \<or> (\<exists>row. dw_rows w' = dw_rows w @ [row] \<and> dr_id row \<notin> dr_id ` set (dw_rows w) \<and> in_session user session row \<and> placed env row)"

lemma store_row_adds:
  assumes "dw_rows w0 = dw_rows w" "\<And>w. dw_rows (undo w) = dw_rows w" "in_session user session row" "placed env row"
  shows "adds_row env user session w0 (snd (store_row env row now undo w))"
  using assms by (auto simp: adds_row_def store_row_def doc_insert_def doc_call_def split: prod.splits option.splits)

lemma upload_plain_adds:
  assumes "is_supported ext"
  shows "adds_row env user session w (snd (upload_plain env user session file ext mime new_id now created w))"
proof (cases "extract_text (uf_bytes file) ext")
  case (Inl e)
  then show ?thesis by (cases e) (simp_all add: upload_plain_def adds_row_def)
next
  case ex: (Inr extraction)
  obtain r w1 where p: "place_file env new_id (path_for_uuid env (dg_cache_dir (dn_cfg env)) new_id ext) (uf_bytes file) w = (r, w1)"
    by (metis prod.exhaust)
  note rows = keeps_rowsD [OF keeps_place p]
  show ?thesis
  proof (cases r)
    case (Inl e)
    then show ?thesis using p ex rows by (simp add: upload_plain_def adds_row_def Let_def)
  next
    case (Inr n)
    show ?thesis using p ex Inr assms
      by (auto simp: upload_plain_def Let_def in_session_def placed_def rows intro!: store_row_adds)
  qed
qed

lemma upload_pdf_adds:
  assumes "is_supported ext"
  shows "adds_row env user session w (snd (upload_pdf env user session file ext mime new_id now created w))"
proof (cases "dn_key env")
  case None
  then show ?thesis by (simp add: upload_pdf_def adds_row_def)
next
  case (Some key)
  let ?p = "path_for_uuid env (dg_cache_dir (dn_cfg env)) new_id ext"
  obtain r w1 where p: "place_file env new_id ?p (uf_bytes file) w = (r, w1)" by (metis prod.exhaust)
  note rows = keeps_rowsD [OF keeps_place p]
  show ?thesis
  proof (cases r)
    case (Inl e)
    then show ?thesis using p Some rows by (simp add: upload_pdf_def adds_row_def Let_def)
  next
    case (Inr n)
    obtain q w2 where x: "run_extract env (uf_bytes file) (pages_root_of ?p) key w1 = (q, w2)" by (metis prod.exhaust)
    note rows2 = keeps_rowsD [OF keeps_ops(8) x]
    show ?thesis
    proof (cases q)
      case (Inl e)
      then show ?thesis using p Some Inr rows rows2 x by (cases e) (simp_all add: upload_pdf_def adds_row_def Let_def)
    next
      case (Inr ix)
      obtain c w3 where c: "on_disk (pages_total_chars (dn_disk env) (pages_root_of ?p)) w2 = (c, w3)" by (metis prod.exhaust)
      note rows3 = keeps_rowsD [OF keeps_ops(2) c]
      show ?thesis using p Some x c Inr \<open>r = Inr n\<close> assms
        by (auto simp: upload_pdf_def Let_def in_session_def placed_def rows rows2 rows3 intro!: store_row_adds)
    qed
  qed
qed

lemma upload_adds:
  assumes "upload_handler env user x h body new_id now created w = (r, w')"
  shows "dw_rows w' = dw_rows w \<or> (\<exists>session. adds_row env (au_id user) session w w'
     \<and> length (filter (in_session (au_id user) session) (dw_rows w)) < dg_max_docs_per_session (dn_cfg env))"
proof -
  obtain g w1 where g: "guarded_session env user x h w = (g, w1)" by (metis prod.exhaust)
  note rows1 = keeps_rowsD [OF keeps_guarded g]
  show ?thesis
  proof (cases g)
    case (Inl e)
    then show ?thesis using assms g rows1 by (simp add: upload_handler_def)
  next
    case (Inr session)
    obtain c w2 where c: "count_for_session env (au_id user) session w1 = (c, w2)" by (metis prod.exhaust)
    note rows2 = keeps_rowsD [OF keeps_ops(7) c]
    show ?thesis
    proof (cases c)
      case (Inl e)
      then show ?thesis using assms g c Inr rows1 rows2 by (simp add: upload_handler_def)
    next
      case c': (Inr n)
      have n: "n = length (filter (in_session (au_id user) session) (dw_rows w))"
        using c c' rows1 by (auto simp: count_for_session_def doc_call_def split: option.splits prod.splits)
      show ?thesis
      proof (cases "dg_max_docs_per_session (dn_cfg env) \<le> n \<or> (\<forall>file. find_file (dg_max_file_size_bytes (dn_cfg env)) body = Inr file
          \<longrightarrow> \<not> is_supported (extension_from_filename (uf_name file)))")
        case True
        then show ?thesis using assms g c c' Inr rows1 rows2
          by (auto simp: upload_handler_def Let_def split: if_splits sum.splits)
      next
        case False
        then obtain up where fd: "find_file (dg_max_file_size_bytes (dn_cfg env)) body = Inr up"
            and s: "is_supported (extension_from_filename (uf_name up))" by blast
        let ?ext = "extension_from_filename (uf_name up)"
        have "adds_row env (au_id user) session w2 w'"
          using assms g c c' Inr False fd s upload_plain_adds [OF s, of env "au_id user" session w2 up "sniff_mime ?ext" new_id now created]
            upload_pdf_adds [OF s, of env "au_id user" session w2 up "sniff_mime ?ext" new_id now created]
          by (auto simp: upload_handler_def Let_def split: if_splits)
        then have "adds_row env (au_id user) session w w'" by (simp add: adds_row_def rows1 rows2)
        then show ?thesis using False n by (metis not_le)
      qed
    qed
  qed
qed

definition drops_rows :: "doc_world \<Rightarrow> doc_world \<Rightarrow> bool" where
  "drops_rows w w' \<longleftrightarrow> (\<exists>P. dw_rows w' = filter P (dw_rows w))"

lemma drops_refl: "dw_rows w' = dw_rows w \<Longrightarrow> drops_rows w w'"
  unfolding drops_rows_def by (intro exI [of _ "\<lambda>_. True"]) simp

lemma drops_trans: "drops_rows w w' \<Longrightarrow> drops_rows w' w'' \<Longrightarrow> drops_rows w w''"
  unfolding drops_rows_def by (metis filter_filter)

lemma delete_id_rows:
  "delete_row_by_id env i w = (r, w') \<Longrightarrow> dw_rows w' = (if r = Inr () then filter (\<lambda>r. dr_id r \<noteq> i) (dw_rows w) else dw_rows w)"
  by (auto simp: delete_row_by_id_def doc_call_def split: prod.splits option.splits)

lemma delete_id_drops: "delete_row_by_id env i w = (r, w') \<Longrightarrow> drops_rows w w'"
  using delete_id_rows [of env i w r w'] by (auto simp: drops_rows_def intro: exI [of _ "\<lambda>_. True"])

lemma delete_drops:
  assumes "delete_handler env user x h i w = (r, w')"
  shows "drops_rows w w'"
proof -
  obtain g w1 where g: "guarded_session env user x h w = (g, w1)" by (metis prod.exhaust)
  note rows1 = keeps_rowsD [OF keeps_guarded g]
  show ?thesis
  proof (cases g)
    case (Inl e)
    then show ?thesis using assms g rows1 by (simp add: delete_handler_def drops_refl)
  next
    case (Inr session)
    obtain d w2 where d: "delete_with_pages_dir env i (au_id user) session w1 = (d, w2)" by (metis prod.exhaust)
    have "drops_rows w1 w2" using d
      by (auto simp: delete_with_pages_dir_def doc_call_def drops_rows_def intro: exI [of _ "\<lambda>_. True"] split: option.splits prod.splits)
    moreover have "dw_rows w' = dw_rows w2" using assms g d Inr
      by (auto simp: delete_handler_def Let_def split: sum.splits option.splits)
    ultimately show ?thesis using rows1 by (simp add: drops_rows_def)
  qed
qed

lemma purge_row_drops: "purge_row env cache_dir row w = (r, w') \<Longrightarrow> drops_rows w w'"
proof -
  assume a: "purge_row env cache_dir row w = (r, w')"
  obtain c w1 where c: "on_disk (canonicalize (dn_disk env) (dr_path row)) w = (c, w1)" by (metis prod.exhaust)
  obtain q w2 where q: "on_disk (remove_file (dn_disk env) (dr_path row)) w1 = (q, w2)" by (metis prod.exhaust)
  have rows: "dw_rows w1 = dw_rows w" "dw_rows w2 = dw_rows w1"
    using keeps_rowsD [OF keeps_ops(2) c] keeps_rowsD [OF keeps_ops(2) q] by simp_all
  have "w' = w2 \<or> (\<exists>v. delete_row_by_id env (dr_id row) v = (r, w') \<and> dw_rows v = dw_rows w)"
    using a c q rows
    by (auto simp: purge_row_def Let_def split: if_splits sum.splits io_error.splits option.splits
        intro: exI [of _ w1] exI [of _ w2] exI [of _ "forget_dir env d w2" for d])
  then show ?thesis using rows delete_id_drops drops_refl by (metis drops_rows_def)
qed

lemma purge_rows_drops: "purge_rows env cache_dir rs w = (r, w') \<Longrightarrow> drops_rows w w'"
proof (induction rs arbitrary: w)
  case (Cons row rs)
  obtain q w1 where q: "purge_row env cache_dir row w = (q, w1)" by (metis prod.exhaust)
  then show ?case using Cons purge_row_drops [OF q] by (cases q) (auto intro: drops_trans)
qed (simp add: drops_refl)

lemma purge_drops:
  assumes "purge_older_than env cache_dir cutoff w = (r, w')"
  shows "drops_rows w w'"
proof -
  obtain s w1 where s: "sweep_older_than env cutoff w = (s, w1)" by (metis prod.exhaust)
  then have rows: "dw_rows w1 = dw_rows w" by (auto simp: sweep_older_than_def doc_call_def split: option.splits prod.splits)
  show ?thesis
  proof (cases s)
    case (Inl e)
    then show ?thesis using assms s rows by (simp add: purge_older_than_def drops_refl)
  next
    case (Inr rs)
    obtain q w2 where q: "purge_rows env cache_dir rs w1 = (q, w2)" by (metis prod.exhaust)
    then have "w' = w2" using assms s Inr by (cases q) (simp_all add: purge_older_than_def)
    then show ?thesis using purge_rows_drops [OF q] rows by (simp add: drops_rows_def)
  qed
qed

lemma step_cases:
  assumes "doc_step env w w'"
  shows "drops_rows w w' \<or> (\<exists>user session. adds_row env user session w w'
    \<and> length (filter (in_session user session) (dw_rows w)) < dg_max_docs_per_session (dn_cfg env))"
  using assms
proof cases
  case (upload user x h body new_id now created r)
  then show ?thesis using upload_adds drops_refl by blast
next
  case (delete user x h i r)
  then show ?thesis using delete_drops by blast
next
  case (sweep cache_dir cutoff r)
  then show ?thesis using purge_drops by blast
next
  case (listing user h r)
  then show ?thesis using keeps_rowsD [OF keeps_list] drops_refl by blast
next
  case (download user i r)
  then show ?thesis using keeps_rowsD [OF keeps_download] drops_refl by blast
next
  case (mint user new_id r)
  then show ?thesis using drops_refl [OF keeps_rowsD [OF keeps_mint]] by blast
next
  case (agent js t ctx args r)
  then show ?thesis using drops_refl [OF keeps_rowsD [OF keeps_agent]] by blast
qed

definition doc_ok :: "doc_env \<Rightarrow> doc_world \<Rightarrow> bool" where
  "doc_ok env w \<longleftrightarrow> distinct (map dr_id (dw_rows w)) \<and> list_all (placed env) (dw_rows w)
     \<and> (\<forall>user session. length (filter (in_session user session) (dw_rows w)) \<le> dg_max_docs_per_session (dn_cfg env))"

lemma drops_ok: "doc_ok env w \<Longrightarrow> drops_rows w w' \<Longrightarrow> doc_ok env w'"
proof -
  assume ok: "doc_ok env w" and "drops_rows w w'"
  then obtain P where P: "dw_rows w' = filter P (dw_rows w)" by (auto simp: drops_rows_def)
  have "length (filter Q (filter P xs)) \<le> length (filter Q xs)" for Q and xs :: "doc_row list" by (induction xs) auto
  then have "length (filter (in_session u s) (dw_rows w')) \<le> dg_max_docs_per_session (dn_cfg env)" for u s
    using ok unfolding P doc_ok_def by (meson le_trans)
  then show ?thesis using ok by (auto simp: doc_ok_def P distinct_map_filter list_all_iff)
qed

lemma adds_ok:
  assumes "doc_ok env w" "adds_row env user session w w'"
    and "length (filter (in_session user session) (dw_rows w)) < dg_max_docs_per_session (dn_cfg env)"
  shows "doc_ok env w'"
proof (cases "dw_rows w' = dw_rows w")
  case True
  then show ?thesis using assms(1) by (simp add: doc_ok_def)
next
  case False
  then obtain row where row: "dw_rows w' = dw_rows w @ [row]" "dr_id row \<notin> dr_id ` set (dw_rows w)"
    "in_session user session row" "placed env row" using assms(2) by (auto simp: adds_row_def)
  have "length (filter (in_session u s) (dw_rows w')) \<le> dg_max_docs_per_session (dn_cfg env)" for u s
  proof (cases "in_session u s row")
    case True
    then have "u = user" "s = session" using row(3) by (auto simp: in_session_def)
    then show ?thesis using assms(3) row(1,3) by simp
  qed (use assms(1) row(1) in \<open>simp add: doc_ok_def\<close>)
  then show ?thesis using assms(1) row by (simp add: doc_ok_def)
qed

lemma run_ok: "doc_run env w w' \<Longrightarrow> doc_ok env w \<Longrightarrow> doc_ok env w'"
  by (induction rule: rtranclp_induct) (use step_cases drops_ok adds_ok in blast)+

text \<open>
  C17: Whatever requests are handled one after the other, and whatever fails in them, no user ever
  has more documents in a session than the configured number, no two documents have the same
  identifier, and every document keeps the file and the page directory the layout gives its
  identifier: uploads, deletions, sweeps, reads and new sessions all preserve it.
\<close>

theorem documents_quota:
  assumes "doc_run env w w'" "doc_ok env w"
  shows "distinct (map dr_id (dw_rows w')) \<and> list_all (placed env) (dw_rows w')
     \<and> length (filter (in_session user session) (dw_rows w')) \<le> dg_max_docs_per_session (dn_cfg env)"
  using run_ok [OF assms] by (simp add: doc_ok_def)

end
