(* ===== verification/Doc_Disk_Props.thy ===== *)
theory Doc_Disk_Props
  imports Doc_Props
begin

text \<open>
  The files of the document store: an upload is downloaded as it was, and a deletion or a sweep
  touches the files of the rows it removes only.
\<close>

section \<open>The layout of the cache directory\<close>

abbreviation cache_dir_of :: "doc_env \<Rightarrow> path" where
  "cache_dir_of env \<equiv> dg_cache_dir (dn_cfg env)"

abbreviation root_of :: "doc_env \<Rightarrow> path" where
  "root_of env \<equiv> de_real (dn_disk env) (cache_dir_of env)"

abbreviation files_of :: "doc_world \<Rightarrow> path \<Rightarrow> string option" where
  "files_of w \<equiv> dash_get (dk_files (dw_disk w))"

text \<open>
  No entry below the cache directory is a symbolic link; the disk may still refuse calls. In a plain
  cache it refuses none.
\<close>

definition unlinked_cache :: "doc_env \<Rightarrow> bool" where
  "unlinked_cache env \<longleftrightarrow>
     (\<forall>xs. de_real (dn_disk env) (cache_dir_of env @ xs) = root_of env @ xs)
     \<and> (\<forall>xs. de_real (dn_disk env) (root_of env @ xs) = root_of env @ xs)"

definition plain_cache :: "doc_env \<Rightarrow> bool" where
  "plain_cache env \<longleftrightarrow> calm (dn_disk env) \<and> unlinked_cache env"

lemma unlinked_cacheD:
  "unlinked_cache env \<Longrightarrow> de_real (dn_disk env) (cache_dir_of env @ xs) = root_of env @ xs"
  "unlinked_cache env \<Longrightarrow> de_real (dn_disk env) (root_of env @ xs) = root_of env @ xs"
  by (simp_all add: unlinked_cache_def)

lemma plain_cacheD [simp]:
  "plain_cache env \<Longrightarrow> calm (dn_disk env)"
  "plain_cache env \<Longrightarrow> unlinked_cache env"
  "plain_cache env \<Longrightarrow> de_real (dn_disk env) (cache_dir_of env @ xs) = root_of env @ xs"
  "plain_cache env \<Longrightarrow> de_real (dn_disk env) (root_of env @ xs) = root_of env @ xs"
  "plain_cache env \<Longrightarrow> de_real (dn_disk env) (root_of env) = root_of env"
  unfolding plain_cache_def unlinked_cache_def by (blast, blast, blast, blast) (metis append_Nil2)

definition shards :: "doc_env \<Rightarrow> uuid \<Rightarrow> path" where
  "shards env i = (let hex = dn_uuid_simple env i
     in [if 2 \<le> length hex then take 2 hex else ''00'', if 4 \<le> length hex then take 2 (drop 2 hex) else ''00''])"

definition file_name :: "doc_env \<Rightarrow> uuid \<Rightarrow> string \<Rightarrow> string" where
  "file_name env i ext = dn_uuid_text env i @ ''.'' @ ext"

lemma supported_nonempty: "is_supported ext \<Longrightarrow> ext \<noteq> []"
  by (auto simp: is_supported_def)

lemma path_for_uuid_split:
  "ext \<noteq> [] \<Longrightarrow> path_for_uuid env (cache_dir_of env) i ext = cache_dir_of env @ shards env i @ [file_name env i ext]"
  by (simp add: path_for_uuid_def shards_def file_name_def Let_def)

lemma pages_root_split:
  "ext \<noteq> [] \<Longrightarrow> pages_root_of (path_for_uuid env (cache_dir_of env) i ext)
     = cache_dir_of env @ shards env i @ [file_name env i ext @ ''.pages'']"
  by (simp add: path_for_uuid_split pages_root_of_def butlast_append)

lemma starts_append [simp]: "path_starts_with (p @ xs) (p @ ys) \<longleftrightarrow> path_starts_with xs ys"
  by (simp add: path_starts_with_def)

lemma starts_self [simp]: "path_starts_with (p @ xs) p" "path_starts_with p p"
  by (simp_all add: path_starts_with_def)

lemma length_shards [simp]: "length (shards env i) = 2"
  by (simp add: shards_def Let_def)

section \<open>Writing and reading\<close>

lemma place_file_plain:
  assumes "plain_cache env" "ext \<noteq> []"
    and "place_file env i (path_for_uuid env (cache_dir_of env) i ext) bytes w = (r, w')"
  shows "r = Inr (length bytes) \<and> files_of w' = (files_of w)
      (root_of env @ [''.tmp-'' @ dn_uuid_text env i] := None, root_of env @ shards env i @ [file_name env i ext] \<mapsto> bytes)"
proof -
  have "shards env i @ [file_name env i ext] \<noteq> [''.tmp-'' @ dn_uuid_text env i]"
    using length_shards [of env i] by (cases "shards env i") auto
  then show ?thesis using assms
    by (auto simp: path_for_uuid_split place_file_def on_disk_def write_atomic_def create_dir_all_def fs_write_def fs_rename_def
        written_len_def file_len_def fs_read_def Let_def dash_get_put dash_get_remove fun_eq_iff split: prod.splits)
qed

lemma fs_exists_calls [simp]: "fs_exists env p (d\<lparr>dk_calls := n\<rparr>) = fs_exists env p d"
  by (simp add: fs_exists_def)

lemma safe_read_plain:
  assumes "plain_cache env" "dash_get (dk_files d) (root_of env @ xs) = Some bytes"
  shows "fst (safe_disk_read (dn_disk env) (cache_dir_of env @ xs) (cache_dir_of env) d) = Inr bytes"
proof -
  have mem: "root_of env @ xs \<in> fst ` set (dk_files d)" using assms(2) by (force dest: map_of_SomeD)
  have ex: "fs_exists (dn_disk env) (cache_dir_of env) d" "fs_exists (dn_disk env) (cache_dir_of env @ xs) d"
    using assms(1) mem unfolding fs_exists_def
    by (auto intro!: bexI [of _ "root_of env @ xs"])
  show ?thesis using assms ex
    by (simp add: safe_disk_read_def canonicalize_def fs_read_def)
qed

lemma create_frame: "create_dir_all env p d = (r, d') \<Longrightarrow> dk_files d' = dk_files d"
  by (auto simp: create_dir_all_def fs_call_def split: option.splits)

lemma fs_write_frame: "fs_write env p b d = (r, d') \<Longrightarrow> q \<noteq> de_real env p \<Longrightarrow> dash_get (dk_files d') q = dash_get (dk_files d) q"
  by (auto simp: fs_write_def fs_call_def dash_get_put split: option.splits)

lemma fs_rename_frame:
  "fs_rename env p p' d = (r, d') \<Longrightarrow> q \<noteq> de_real env p \<Longrightarrow> q \<noteq> de_real env p'
     \<Longrightarrow> dash_get (dk_files d') q = dash_get (dk_files d) q"
  by (auto simp: fs_rename_def fs_call_def dash_get_put dash_get_remove split: option.splits)

lemma atomic_frame:
  assumes "atomic_write env p b d = (r, d')" "q \<noteq> de_real env p" "q \<noteq> de_real env (with_extension ''bin.tmp'' p)"
  shows "dash_get (dk_files d') q = dash_get (dk_files d) q"
proof -
  obtain c d1 where c: "fs_write env (with_extension ''bin.tmp'' p) b d = (c, d1)" by (metis prod.exhaust)
  obtain e d2 where e: "fs_rename env (with_extension ''bin.tmp'' p) p d1 = (e, d2)" by (metis prod.exhaust)
  have "d' = d1 \<or> d' = d2" using assms(1) c e by (cases c; cases e) (auto simp: atomic_write_def Let_def)
  then show ?thesis using fs_write_frame [OF c assms(3)] fs_rename_frame [OF e assms(3,2)] by auto
qed

lemma write_frame:
  assumes "plain_dir env dir" "\<not> path_starts_with q (de_real env dir)"
    and "write_encrypted_file env (dir @ [n]) sealed d = (r, d')"
  shows "dash_get (dk_files d') q = dash_get (dk_files d) q"
proof -
  obtain c d1 where c: "create_dir_all env dir d = (c, d1)" by (metis prod.exhaust)
  have q: "q \<noteq> de_real env (dir @ [m])" for m using assms(1,2) by (auto simp: plain_dir_def)
  show ?thesis
  proof (cases c)
    case (Inl e)
    then show ?thesis using assms(3) c create_frame [OF c] by (simp add: write_encrypted_file_def)
  next
    case (Inr u)
    then have "atomic_write env (dir @ [n]) (en_nonce sealed @ en_ciphertext sealed) d1 = (r, d')"
      using assms(3) c by (simp add: write_encrypted_file_def)
    from atomic_frame [OF this q] show ?thesis using q create_frame [OF c] by (simp add: with_extension_def)
  qed
qed

lemma loop_frame:
  assumes "plain_dir (pe_disk env) dir" "\<not> path_starts_with q (de_real (pe_disk env) dir)"
    and "extract_loop env key dir page rs preview unreadable drawn d = (r, drawn', d')"
  shows "dash_get (dk_files d') q = dash_get (dk_files d) q"
  using assms(3)
proof (induction rs arbitrary: page preview unreadable drawn d)
  case (Cons x rs)
  obtain e j where e: "encrypt (pe_aead env) key (page_text x) drawn = (e, j)" by (metis prod.exhaust)
  show ?case
  proof (cases e)
    case (Inl err)
    then show ?thesis using Cons.prems e by (simp add: Let_def)
  next
    case (Inr sealed)
    obtain wr d1 where wr: "write_encrypted_file (pe_disk env) (page_path dir page) sealed d = (wr, d1)" by (metis prod.exhaust)
    have "dash_get (dk_files d1) q = dash_get (dk_files d) q"
      using write_frame [OF assms(1,2)] wr by (simp add: page_path_def)
    then show ?thesis using Cons e Inr wr by (cases wr) (auto simp: Let_def)
  qed
qed simp

lemma extract_frame:
  assumes "plain_dir (pe_disk env) dir" "\<not> path_starts_with q (de_real (pe_disk env) dir)"
    and "extract_pages env bytes dir key drawn d = (r, drawn', d')"
  shows "dash_get (dk_files d') q = dash_get (dk_files d) q"
proof -
  obtain c d0 where c: "create_dir_all (pe_disk env) dir d = (c, d0)" by (metis prod.exhaust)
  note f0 = create_frame [OF c]
  show ?thesis
  proof (cases "c = Inr () \<and> (\<exists>pages. pe_load env bytes = Inr pages)")
    case False
    then show ?thesis using assms(3) c f0 by (auto simp: extract_pages_def split: sum.splits)
  next
    case True
    then obtain pages where p: "pe_load env bytes = Inr pages" "c = Inr ()" by blast
    let ?n = "length pages mod 2 ^ 32"
    obtain l j d1 where l: "extract_loop env key dir 1 (take ?n pages) [] 0 drawn d0 = (l, j, d1)" by (metis prod_cases3)
    note f1 = loop_frame [OF assms(1,2) l]
    have "d' = d1 \<or> (\<exists>w s. write_encrypted_file (pe_disk env) (meta_path dir) s d1 = (w, d'))"
      using assms(3) c p l by (auto simp: extract_pages_def Let_def split: sum.splits prod.splits if_splits)
    then show ?thesis using write_frame [OF assms(1,2)] f0 f1 by (metis meta_path_def)
  qed
qed

section \<open>Upload and download\<close>

text \<open>The row and the file a successful upload leaves.\<close>

definition keeps_upload :: "doc_env \<Rightarrow> uuid \<Rightarrow> uuid \<Rightarrow> uploaded_file \<Rightarrow> string \<Rightarrow> uuid \<Rightarrow> string \<Rightarrow> doc_world \<Rightarrow> doc_world \<Rightarrow> doc_summary \<Rightarrow> bool" where
  "keeps_upload env user session file ext new_id now w w' s \<longleftrightarrow>
     (\<exists>row. s = summary_of row now \<and> dr_id row = new_id \<and> in_session user session row \<and> dr_name row = uf_name file
        \<and> dr_size row = length (uf_bytes file) \<and> dr_path row = path_for_uuid env (cache_dir_of env) new_id ext
        \<and> dw_rows w' = dw_rows w @ [row] \<and> new_id \<notin> dr_id ` set (dw_rows w)
        \<and> files_of w' (root_of env @ shards env new_id @ [file_name env new_id ext]) = Some (uf_bytes file))"

lemma store_row_done:
  assumes "store_row env row now undo w = (Inr (Created s), w')"
  shows "s = summary_of row now \<and> dw_rows w' = dw_rows w @ [row] \<and> dr_id row \<notin> dr_id ` set (dw_rows w) \<and> dw_disk w' = dw_disk w"
  using assms by (auto simp: store_row_def doc_insert_def doc_call_def split: option.splits prod.splits if_splits)

lemma upload_plain_keeps:
  assumes "plain_cache env" "ext \<noteq> []"
    and "upload_plain env user session file ext mime new_id now created w = (Inr (Created s), w')"
  shows "keeps_upload env user session file ext new_id now w w' s"
proof (cases "extract_text (uf_bytes file) ext")
  case (Inl e)
  then show ?thesis using assms(3) by (cases e) (simp_all add: upload_plain_def)
next
  case ex: (Inr extraction)
  obtain r w1 where p: "place_file env new_id (path_for_uuid env (cache_dir_of env) new_id ext) (uf_bytes file) w = (r, w1)"
    by (metis prod.exhaust)
  note pf = place_file_plain [OF assms(1,2) p]
  then have r: "r = Inr (length (uf_bytes file))" by blast
  show ?thesis using assms(3) ex p r keeps_rowsD [OF keeps_place p] pf
    by (auto simp: upload_plain_def Let_def keeps_upload_def in_session_def dest!: store_row_done)
qed

lemma total_chars_files: "on_disk (pages_total_chars env dir) w = (r, w') \<Longrightarrow> dk_files (dw_disk w') = dk_files (dw_disk w)"
  by (auto simp: on_disk_def pages_total_chars_def read_dir_def fs_call_def Let_def split: prod.splits option.splits sum.splits if_splits)

lemma plain_pages_dir: "plain_cache env \<Longrightarrow> ext \<noteq> [] \<Longrightarrow> plain_dir (dn_disk env) (pages_root_of (path_for_uuid env (cache_dir_of env) i ext))"
  by (simp add: plain_dir_def pages_root_split)

lemma upload_pdf_keeps:
  assumes "plain_cache env" "ext \<noteq> []"
    and "upload_pdf env user session file ext mime new_id now created w = (Inr (Created s), w')"
  shows "keeps_upload env user session file ext new_id now w w' s"
proof -
  let ?p = "path_for_uuid env (cache_dir_of env) new_id ext"
  let ?q = "root_of env @ shards env new_id @ [file_name env new_id ext]"
  obtain key where key: "dn_key env = Some key" using assms(3) by (auto simp: upload_pdf_def split: option.splits)
  obtain r w1 where p: "place_file env new_id ?p (uf_bytes file) w = (r, w1)" by (metis prod.exhaust)
  note pf = place_file_plain [OF assms(1,2) p]
  then have r: "r = Inr (length (uf_bytes file))" by blast
  obtain q w2 where x: "run_extract env (uf_bytes file) (pages_root_of ?p) key w1 = (q, w2)" by (metis prod.exhaust)
  obtain e j d2 where e: "extract_pages (dn_pages env) (uf_bytes file) (pages_root_of ?p) key (dw_drawn w1) (dw_disk w1) = (e, j, d2)"
    by (metis prod_cases3)
  have "\<not> path_starts_with ?q (de_real (dn_disk env) (pages_root_of ?p))"
    using assms(1,2) by (simp add: pages_root_split) (simp add: path_starts_with_def)
  from extract_frame [OF plain_pages_dir [OF assms(1,2)] this e]
  have f2: "files_of w2 ?q = files_of w1 ?q" using x e by (auto simp: run_extract_def)
  obtain c w3 where c: "on_disk (pages_total_chars (dn_disk env) (pages_root_of ?p)) w2 = (c, w3)" by (metis prod.exhaust)
  note f3 = total_chars_files [OF c]
  have rows: "dw_rows w3 = dw_rows w"
    using keeps_rowsD [OF keeps_place p] keeps_rowsD [OF keeps_ops(8) x] keeps_rowsD [OF keeps_ops(2) c] by simp
  obtain ix where ix: "q = Inr ix" using assms(3) key p r x
    by (cases q) (auto simp: upload_pdf_def Let_def split: pages_error.splits)
  show ?thesis using assms(3) key p r x c ix rows pf f2 f3
    by (auto simp: upload_pdf_def Let_def keeps_upload_def in_session_def dest!: store_row_done)
qed

lemma keeps_upload_cong: "dw_rows w1 = dw_rows w2 \<Longrightarrow> keeps_upload env user session file ext i now w1 w' s = keeps_upload env user session file ext i now w2 w' s"
  by (simp add: keeps_upload_def)

lemma upload_keeps:
  assumes "plain_cache env" "upload_handler env user x h body new_id now created w = (Inr (Created s), w')"
  shows "\<exists>session file ext. parse_session_header env h = Inr session
     \<and> find_file (dg_max_file_size_bytes (dn_cfg env)) body = Inr file \<and> is_supported ext
     \<and> keeps_upload env (au_id user) session file ext new_id now w w' s"
proof -
  obtain g w1 where g: "guarded_session env user x h w = (g, w1)" by (metis prod.exhaust)
  obtain session where s: "g = Inr session" using assms(2) g by (auto simp: upload_handler_def split: sum.splits)
  have h: "parse_session_header env h = Inr session" using g s
    by (auto simp: guarded_session_def split: sum.splits prod.splits)
  obtain c w2 where c: "count_for_session env (au_id user) session w1 = (c, w2)" by (metis prod.exhaust)
  obtain n where n: "c = Inr n" using assms(2) g s c by (auto simp: upload_handler_def split: sum.splits)
  obtain up where up: "find_file (dg_max_file_size_bytes (dn_cfg env)) body = Inr up"
    using assms(2) g s c n by (auto simp: upload_handler_def split: sum.splits if_splits)
  let ?ext = "extension_from_filename (uf_name up)"
  have rows: "dw_rows w2 = dw_rows w" using keeps_rowsD [OF keeps_guarded g] keeps_rowsD [OF keeps_ops(7) c] by simp
  have sup: "is_supported ?ext" using assms(2) g s c n up by (auto simp: upload_handler_def Let_def split: if_splits)
  have "keeps_upload env (au_id user) session up ?ext new_id now w2 w' s"
    using assms(2) g s c n up upload_plain_keeps [OF assms(1) supported_nonempty [OF sup]]
      upload_pdf_keeps [OF assms(1) supported_nonempty [OF sup]]
    by (auto simp: upload_handler_def Let_def split: if_splits)
  then show ?thesis using h up sup keeps_upload_cong [OF rows] by blast
qed

lemma find_new: "i \<notin> dr_id ` set rs \<Longrightarrow> List.find (\<lambda>r. dr_id r = i \<and> P r) (rs @ rs') = List.find (\<lambda>r. dr_id r = i \<and> P r) rs'"
  by (induction rs) auto

text \<open>
  C18: A document is downloaded as it was uploaded: after an upload that answered with a document,
  with the name and the size of the sent file, a download of its identifier by the same user gives
  exactly the bytes of that file, for text files and for PDFs alike.
\<close>

theorem upload_download:
  assumes "plain_cache env" "\<And>i. dn_fault env i = None"
    and "upload_handler env user x h body new_id now created w = (Inr (Created s), w')"
  shows "\<exists>file mime disposition. find_file (dg_max_file_size_bytes (dn_cfg env)) body = Inr file
     \<and> ds_id s = new_id \<and> ds_name s = uf_name file \<and> ds_size_bytes s = length (uf_bytes file)
     \<and> fst (download_handler env user new_id w') = Inr (Download mime disposition (uf_bytes file))"
proof -
  obtain session up ext where fd: "find_file (dg_max_file_size_bytes (dn_cfg env)) body = Inr up" and sup: "is_supported ext"
    and k: "keeps_upload env (au_id user) session up ext new_id now w w' s" using upload_keeps [OF assms(1,3)] by blast
  then obtain row where row: "s = summary_of row now" "dr_id row = new_id" "in_session (au_id user) session row"
    "dr_name row = uf_name up" "dr_size row = length (uf_bytes up)" "dr_path row = path_for_uuid env (cache_dir_of env) new_id ext"
    "dw_rows w' = dw_rows w @ [row]" "new_id \<notin> dr_id ` set (dw_rows w)"
    "files_of w' (root_of env @ shards env new_id @ [file_name env new_id ext]) = Some (uf_bytes up)"
    by (auto simp: keeps_upload_def)
  have found: "List.find (\<lambda>r. dr_id r = new_id \<and> dr_user r = au_id user) (dw_rows w') = Some row"
    using row(2,3,7,8) by (simp add: find_new in_session_def)
  have call: "doc_call env w = (None, w\<lparr>dw_calls := Suc (dw_calls w)\<rparr>)" for w using assms(2) by (simp add: doc_call_def)
  have "fst (safe_disk_read (dn_disk env) (dr_path row) (cache_dir_of env) (dw_disk w')) = Inr (uf_bytes up)"
    using safe_read_plain [OF assms(1) row(9)] supported_nonempty [OF sup] by (simp add: row(6) path_for_uuid_split)
  then have "\<exists>m d. fst (download_handler env user new_id w') = Inr (Download m d (uf_bytes up))"
    using found call by (auto simp: download_handler_def doc_get_by_id_def on_disk_def Let_def split: prod.splits)
  then show ?thesis using fd row(1,2,4,5) by (auto simp: summary_of_def)
qed

section \<open>Whose file is whose\<close>

text \<open>The paths on the disk that belong to a row: its file and what is below its page directory.\<close>

definition own_files :: "doc_env \<Rightarrow> doc_row \<Rightarrow> path \<Rightarrow> bool" where
  "own_files env r q \<longleftrightarrow> q = de_real (dn_disk env) (dr_path r)
     \<or> (case dr_pages_dir r of None \<Rightarrow> False | Some dir \<Rightarrow> path_starts_with q (de_real (dn_disk env) dir))"

definition texts_ok :: "doc_env \<Rightarrow> bool" where
  "texts_ok env \<longleftrightarrow> inj (dn_uuid_text env) \<and> (\<forall>i. CHR ''.'' \<notin> set (dn_uuid_text env i))"

lemma before_dot: "CHR ''.'' \<notin> set a \<Longrightarrow> takeWhile (\<lambda>c. c \<noteq> CHR ''.'') (a @ CHR ''.'' # x) = a"
  by (induction a) auto

lemma file_names_differ: "texts_ok env \<Longrightarrow> i \<noteq> j \<Longrightarrow> file_name env i x @ y \<noteq> file_name env j z @ u"
proof
  assume ok: "texts_ok env" and ij: "i \<noteq> j" and eq: "file_name env i x @ y = file_name env j z @ u"
  then have "takeWhile (\<lambda>c. c \<noteq> CHR ''.'') (file_name env i x @ y) = takeWhile (\<lambda>c. c \<noteq> CHR ''.'') (file_name env j z @ u)" by simp
  then have "dn_uuid_text env i = dn_uuid_text env j" using ok before_dot by (simp add: file_name_def texts_ok_def)
  then show False using ok ij by (simp add: texts_ok_def inj_eq)
qed

text \<open>Every path of a row begins with a name that carries its identifier.\<close>

lemma own_prefix:
  assumes "unlinked_cache env" "placed env r" "own_files env r q"
  shows "\<exists>x y zs. q = root_of env @ shards env (dr_id r) @ (file_name env (dr_id r) x @ y) # zs"
proof -
  obtain ext where ext: "ext \<noteq> []" "dr_path r = path_for_uuid env (cache_dir_of env) (dr_id r) ext"
      "dr_pages_dir r \<in> {None, Some (pages_root_of (dr_path r))}"
    using assms(2) supported_nonempty unfolding placed_def by metis
  show ?thesis
  proof (cases "q = de_real (dn_disk env) (dr_path r)")
    case True
    then show ?thesis using assms(1) ext(1)
      by (intro exI [of _ ext] exI [of _ "[]"]) (simp add: ext(2) path_for_uuid_split unlinked_cacheD)
  next
    case False
    then have "path_starts_with q (root_of env @ shards env (dr_id r) @ [file_name env (dr_id r) ext @ ''.pages''])"
      using assms(1,3) ext by (auto simp: own_files_def pages_root_split unlinked_cacheD)
    then obtain zs where "q = (root_of env @ shards env (dr_id r) @ [file_name env (dr_id r) ext @ ''.pages'']) @ zs"
      unfolding path_starts_with_def by (metis append_take_drop_id)
    then show ?thesis by (intro exI [of _ ext] exI [of _ "''.pages''"] exI [of _ zs]) simp
  qed
qed

lemma own_disjoint:
  assumes "unlinked_cache env" "texts_ok env" "placed env r" "placed env r'" "dr_id r \<noteq> dr_id r'" "own_files env r q"
  shows "\<not> own_files env r' q"
proof
  assume "own_files env r' q"
  then obtain x y zs x' y' zs' where "q = root_of env @ shards env (dr_id r) @ (file_name env (dr_id r) x @ y) # zs"
      "q = root_of env @ shards env (dr_id r') @ (file_name env (dr_id r') x' @ y') # zs'"
    using own_prefix [OF assms(1,3,6)] own_prefix [OF assms(1,4)] by metis
  then have "file_name env (dr_id r) x @ y = file_name env (dr_id r') x' @ y'" by simp
  then show False using file_names_differ [OF assms(2,5)] by blast
qed

section \<open>Removing\<close>

lemma forget_file_files: "plain_cache env \<Longrightarrow> files_of (forget_file env p w) = (files_of w)(de_real (dn_disk env) p := None)"
  by (auto simp: forget_file_def on_disk_def remove_file_def dash_get_remove fun_eq_iff split: option.splits)

lemma dash_get_retain_key: "dash_get (dash_retain (\<lambda>k _. P k) m) q = (if P q then dash_get m q else None)"
  by (induction m) (auto simp: dash_retain_def)

lemma forget_dir_files:
  assumes "plain_cache env"
  shows "files_of (forget_dir env p w) q = (if path_starts_with q (de_real (dn_disk env) p) then None else files_of w q)"
proof (cases "fs_exists (dn_disk env) p (dw_disk w)")
  case True
  then show ?thesis using assms
    by (simp add: forget_dir_def on_disk_def remove_dir_all_def dash_get_retain_key)
next
  case False
  have "files_of w q = None" if "path_starts_with q (de_real (dn_disk env) p)"
  proof (rule ccontr)
    assume "files_of w q \<noteq> None"
    then have "q \<in> fst ` set (dk_files (dw_disk w))" by (force dest: map_of_SomeD)
    then show False using False that by (auto simp: fs_exists_def)
  qed
  then show ?thesis using assms False
    by (simp add: forget_dir_def on_disk_def remove_dir_all_def)
qed

lemma forget_both_files:
  assumes "plain_cache env"
  shows "files_of (case dr_pages_dir r of None \<Rightarrow> forget_file env (dr_path r) w
      | Some dir \<Rightarrow> forget_dir env dir (forget_file env (dr_path r) w)) q
    = (if own_files env r q then None else files_of w q)"
  using assms by (auto simp: own_files_def forget_file_files forget_dir_files split: option.splits)

text \<open>Whatever the disk refuses, a path is left as it was, or it belongs to the row and is gone.\<close>

definition only_forgets :: "doc_env \<Rightarrow> doc_row \<Rightarrow> doc_world \<Rightarrow> doc_world \<Rightarrow> bool" where
  "only_forgets env row w w' \<longleftrightarrow>
     (\<forall>q. files_of w' q = files_of w q \<or> own_files env row q \<and> files_of w' q = None)"

lemma forget_file_only:
  "files_of (forget_file env p w) q = files_of w q \<or> q = de_real (dn_disk env) p \<and> files_of (forget_file env p w) q = None"
  by (auto simp: forget_file_def on_disk_def remove_file_def fs_call_def dash_get_remove split: option.splits)

lemma forget_dir_only:
  "files_of (forget_dir env p w) q = files_of w q
   \<or> path_starts_with q (de_real (dn_disk env) p) \<and> files_of (forget_dir env p w) q = None"
  by (auto simp: forget_dir_def on_disk_def remove_dir_all_def fs_call_def dash_get_retain_key split: option.splits)

lemma forget_both_only:
  "only_forgets env r w (case dr_pages_dir r of None \<Rightarrow> forget_file env (dr_path r) w
      | Some dir \<Rightarrow> forget_dir env dir (forget_file env (dr_path r) w))"
proof (cases "dr_pages_dir r")
  case None
  then show ?thesis using forget_file_only [of env "dr_path r" w] by (auto simp: only_forgets_def own_files_def)
next
  case (Some dir)
  have "files_of (forget_dir env dir (forget_file env (dr_path r) w)) q = files_of w q
      \<or> own_files env r q \<and> files_of (forget_dir env dir (forget_file env (dr_path r) w)) q = None" for q
    using forget_file_only [of env "dr_path r" w q] forget_dir_only [of env dir "forget_file env (dr_path r) w" q] Some
    by (auto simp: own_files_def)
  then show ?thesis using Some by (simp add: only_forgets_def)
qed

lemma guarded_disk: "guarded_session env user x h w = (r, w') \<Longrightarrow> dw_disk w' = dw_disk w"
  by (auto simp: guarded_session_def verify_session_binding_def touch_and_verify_def doc_call_def
      split: sum.splits prod.splits if_splits option.splits)

lemma find_row: "List.find P xs = Some x \<Longrightarrow> x \<in> set xs \<and> P x"
  by (induction xs) (auto split: if_splits)

text \<open>
  C19: A deletion removes one document and nothing else. When it answers that it succeeded, the row
  was one of the user's and exactly its row is gone, the others kept in order; every path of the disk
  is as before or belonged to that row, being its file or below its page directory, and is gone; and
  the files of all other documents are as before. When the disk refused no call, its file and what
  was below its page directory are gone; a refused removal is not reported and leaves them behind.
  No entry below the cache directory is a symbolic link.
\<close>

theorem delete_is_local:
  assumes "unlinked_cache env" "texts_ok env" "doc_ok env w"
    and "delete_handler env user x h i w = (Inr resp, w')"
  shows "\<exists>row \<in> set (dw_rows w). dr_id row = i \<and> dr_user row = au_id user
     \<and> dw_rows w' = filter (\<lambda>r. dr_id r \<noteq> i) (dw_rows w)
     \<and> (\<forall>q. files_of w' q = files_of w q \<or> own_files env row q \<and> files_of w' q = None)
     \<and> list_all (\<lambda>r. \<forall>q. own_files env r q \<longrightarrow> files_of w' q = files_of w q) (dw_rows w')
     \<and> (calm (dn_disk env) \<longrightarrow> (\<forall>q. own_files env row q \<longrightarrow> files_of w' q = None))"
proof -
  obtain g w1 where g: "guarded_session env user x h w = (g, w1)" by (metis prod.exhaust)
  obtain session where s: "g = Inr session" using assms(4) g by (auto simp: delete_handler_def split: sum.splits)
  have w1: "dw_rows w1 = dw_rows w" "dw_disk w1 = dw_disk w" using keeps_rowsD [OF keeps_guarded g] guarded_disk [OF g] by simp_all
  obtain d w2 where d: "delete_with_pages_dir env i (au_id user) session w1 = (d, w2)" by (metis prod.exhaust)
  obtain p dir where pd: "d = Inr (Some (p, dir))" using assms(4) g s d
    by (auto simp: delete_handler_def split: sum.splits option.splits)
  obtain row where row: "List.find (\<lambda>r. dr_id r = i \<and> dr_user r = au_id user \<and> dr_session r = session) (dw_rows w) = Some row"
      "p = dr_path row" "dir = dr_pages_dir row" "dw_rows w2 = filter (\<lambda>r. dr_id r \<noteq> i) (dw_rows w)" "dw_disk w2 = dw_disk w"
    using d pd w1 by (auto simp: delete_with_pages_dir_def doc_call_def split: option.splits)
  have w': "w' = (case dr_pages_dir row of None \<Rightarrow> forget_file env (dr_path row) w2
      | Some dir \<Rightarrow> forget_dir env dir (forget_file env (dr_path row) w2))"
    using assms(4) g s d pd row(2,3) by (simp add: delete_handler_def Let_def split: option.splits)
  have rows: "dw_rows w' = filter (\<lambda>r. dr_id r \<noteq> i) (dw_rows w)" using row(4) by (simp add: w' split: option.split)
  have only: "files_of w' q = files_of w q \<or> own_files env row q \<and> files_of w' q = None" for q
    using forget_both_only [of env row w2] row(5) by (simp add: w' only_forgets_def)
  have gone: "files_of w' q = None" if "calm (dn_disk env)" "own_files env row q" for q
  proof -
    have "plain_cache env" using that(1) assms(1) unfolding plain_cache_def ..
    from forget_both_files [OF this, of row w2 q] that(2) show ?thesis by (simp only: w' if_True)
  qed
  have mem: "row \<in> set (dw_rows w)" "dr_id row = i" "dr_user row = au_id user" using find_row [OF row(1)] by simp_all
  have "files_of w' q = files_of w q" if r: "r \<in> set (dw_rows w')" and q: "own_files env r q" for r q
  proof -
    have "dr_id r \<noteq> dr_id row" "placed env r" "placed env row" using r rows mem assms(3) by (auto simp: doc_ok_def list_all_iff)
    then show ?thesis using own_disjoint [OF assms(1,2)] q only by metis
  qed
  then have "list_all (\<lambda>r. \<forall>q. own_files env r q \<longrightarrow> files_of w' q = files_of w q) (dw_rows w')"
    by (simp add: list_all_iff)
  with mem rows only gone show ?thesis by (intro bexI [of _ row] conjI allI impI) simp_all
qed

section \<open>The sweep\<close>

text \<open>The cache directory is given by its canonical path, as the sweep expects.\<close>

lemma purge_row_plain:
  assumes "plain_cache env" "root_of env = cache_dir_of env" "placed env row" "\<And>i. dn_fault env i = None"
    and "purge_row env (cache_dir_of env) row w = (r, w')"
  shows "r = Inr () \<and> dw_rows w' = filter (\<lambda>r. dr_id r \<noteq> dr_id row) (dw_rows w)
     \<and> (\<forall>q. files_of w' q = (if own_files env row q then None else files_of w q))"
proof -
  obtain xs where xs: "dr_path row = cache_dir_of env @ xs"
    using assms(3) supported_nonempty by (auto simp: placed_def path_for_uuid_split)
  obtain c w1 where c: "on_disk (canonicalize (dn_disk env) (dr_path row)) w = (c, w1)" by (metis prod.exhaust)
  have w1: "dw_rows w1 = dw_rows w" "files_of w1 = files_of w" "c = Inl IoNotFound \<or> c = Inr (cache_dir_of env @ xs)"
    using c assms(1,2) xs by (auto simp: on_disk_def canonicalize_def split: if_splits prod.splits)
  obtain q w2 where q: "on_disk (remove_file (dn_disk env) (dr_path row)) w1 = (q, w2)" by (metis prod.exhaust)
  have w2: "w2 = forget_file env (dr_path row) w1" using q by (simp add: forget_file_def)
  have ok: "q = Inr () \<or> q = Inl IoNotFound" using q assms(1)
    by (auto simp: on_disk_def remove_file_def split: if_splits prod.splits)
  let ?w = "case dr_pages_dir row of None \<Rightarrow> w2 | Some dir \<Rightarrow> forget_dir env dir w2"
  have del: "delete_row_by_id env (dr_id row) ?w = (r, w')"
    using assms(5) c q ok w1(3) xs by (auto simp: purge_row_def Let_def split: option.splits)
  then have "r = Inr ()" "dw_rows w' = filter (\<lambda>r. dr_id r \<noteq> dr_id row) (dw_rows ?w)" "dw_disk w' = dw_disk ?w"
    using assms(4) by (auto simp: delete_row_by_id_def doc_call_def)
  moreover have "dw_rows ?w = dw_rows w" using w1(1) w2 by (simp split: option.split)
  moreover have "files_of ?w p = (if own_files env row p then None else files_of w p)" for p
    using forget_both_files [OF assms(1), of row w1 p] w1(2) unfolding w2 by (simp only:)
  ultimately show ?thesis by simp
qed

lemma purge_rows_plain:
  assumes "plain_cache env" "root_of env = cache_dir_of env" "\<And>i. dn_fault env i = None"
    and "list_all (placed env) rs" "purge_rows env (cache_dir_of env) rs w = (r, w')"
  shows "r = Inr () \<and> dw_rows w' = filter (\<lambda>r. dr_id r \<notin> dr_id ` set rs) (dw_rows w)
     \<and> (\<forall>q. files_of w' q = (if \<exists>row \<in> set rs. own_files env row q then None else files_of w q))"
  using assms(4,5)
proof (induction rs arbitrary: w)
  case (Cons row rs)
  obtain e w1 where e: "purge_row env (cache_dir_of env) row w = (e, w1)" by (metis prod.exhaust)
  have "placed env row" using Cons.prems(1) by simp
  note p = purge_row_plain [OF assms(1,2) this assms(3) e]
  have "r = Inr () \<and> dw_rows w' = filter (\<lambda>r. dr_id r \<notin> dr_id ` set rs) (dw_rows w1)
     \<and> (\<forall>q. files_of w' q = (if \<exists>row \<in> set rs. own_files env row q then None else files_of w1 q))"
    using Cons.IH [of w1] Cons.prems e p by simp
  moreover have "filter (\<lambda>r. dr_id r \<notin> dr_id ` set rs) (filter (\<lambda>r. dr_id r \<noteq> dr_id row) (dw_rows w))
      = filter (\<lambda>r. dr_id r \<notin> dr_id ` set (row # rs)) (dw_rows w)" by (auto intro: filter_cong)
  ultimately show ?case using p by (metis (no_types, lifting) list.set_intros set_ConsD)
qed simp

lemma purge_row_linked:
  assumes "plain_cache env" "\<forall>xs. \<not> path_starts_with (root_of env @ xs) (cache_dir_of env)" "placed env row"
    and "\<And>i. dn_fault env i = None" "files_of w (de_real (dn_disk env) (dr_path row)) \<noteq> None"
    and "purge_row env (cache_dir_of env) row w = (r, w')"
  shows "r = Inr () \<and> dw_rows w' = filter (\<lambda>r. dr_id r \<noteq> dr_id row) (dw_rows w) \<and> files_of w' = files_of w"
proof -
  obtain xs where xs: "dr_path row = cache_dir_of env @ xs"
    using assms(3) supported_nonempty by (auto simp: placed_def path_for_uuid_split)
  have "root_of env @ xs \<in> fst ` set (dk_files (dw_disk w))" using assms(1,5) xs by (force dest: map_of_SomeD)
  then have ex: "fs_exists (dn_disk env) (dr_path row) (dw_disk w)"
    using assms(1) xs by (auto simp: fs_exists_def intro!: bexI [of _ "root_of env @ xs"])
  obtain c w1 where c: "on_disk (canonicalize (dn_disk env) (dr_path row)) w = (c, w1)" by (metis prod.exhaust)
  have w1: "dw_rows w1 = dw_rows w" "files_of w1 = files_of w" "c = Inr (root_of env @ xs)"
    using c assms(1) ex xs by (auto simp: on_disk_def canonicalize_def)
  have "delete_row_by_id env (dr_id row) w1 = (r, w')" using assms(2,6) c w1(3) by (simp add: purge_row_def)
  then show ?thesis using assms(4) w1 by (auto simp: delete_row_by_id_def doc_call_def)
qed

lemma purge_rows_linked:
  assumes "plain_cache env" "\<forall>xs. \<not> path_starts_with (root_of env @ xs) (cache_dir_of env)" "\<And>i. dn_fault env i = None"
    and "list_all (placed env) rs" "list_all (\<lambda>r. files_of w (de_real (dn_disk env) (dr_path r)) \<noteq> None) rs"
    and "purge_rows env (cache_dir_of env) rs w = (r, w')"
  shows "r = Inr () \<and> dw_rows w' = filter (\<lambda>r. dr_id r \<notin> dr_id ` set rs) (dw_rows w) \<and> files_of w' = files_of w"
  using assms(4-6)
proof (induction rs arbitrary: w)
  case (Cons row rs)
  obtain e w1 where e: "purge_row env (cache_dir_of env) row w = (e, w1)" by (metis prod.exhaust)
  have "placed env row" "files_of w (de_real (dn_disk env) (dr_path row)) \<noteq> None" using Cons.prems by simp_all
  note p = purge_row_linked [OF assms(1,2) this(1) assms(3) this(2) e]
  have "r = Inr () \<and> dw_rows w' = filter (\<lambda>r. dr_id r \<notin> dr_id ` set rs) (dw_rows w1) \<and> files_of w' = files_of w1"
    using Cons.IH [of w1] Cons.prems e p by simp
  moreover have "filter (\<lambda>r. dr_id r \<notin> dr_id ` set rs) (filter (\<lambda>r. dr_id r \<noteq> dr_id row) (dw_rows w))
      = filter (\<lambda>r. dr_id r \<notin> dr_id ` set (row # rs)) (dw_rows w)" by (auto intro: filter_cong)
  ultimately show ?case using p by metis
qed simp

lemma kept_rows:
  "doc_ok env w \<Longrightarrow> filter (\<lambda>x. dr_id x \<notin> dr_id ` set (sort_key dr_created (filter P (dw_rows w)))) (dw_rows w)
     = filter (\<lambda>x. \<not> P x) (dw_rows w)"
  by (rule filter_cong) (auto simp: doc_ok_def distinct_map inj_on_def)

text \<open>Whatever the disk refuses, the sweep removes rows it selected and files of theirs, and nothing else.\<close>

lemma purge_row_any:
  assumes "\<And>i. dn_fault env i = None" "purge_row env (cache_dir_of env) row w = (r, w')"
  shows "r = Inr () \<and> (\<exists>I. I \<subseteq> {dr_id row} \<and> dw_rows w' = filter (\<lambda>r. dr_id r \<notin> I) (dw_rows w)) \<and> only_forgets env row w w'"
proof -
  obtain c w1 where c: "on_disk (canonicalize (dn_disk env) (dr_path row)) w = (c, w1)" by (metis prod.exhaust)
  have w1: "dw_rows w1 = dw_rows w" "files_of w1 = files_of w"
    using c by (auto simp: on_disk_def canonicalize_def fs_call_def split: option.splits if_splits prod.splits)
  obtain q w2 where q: "on_disk (remove_file (dn_disk env) (dr_path row)) w1 = (q, w2)" by (metis prod.exhaust)
  have w2: "w2 = forget_file env (dr_path row) w1" using q by (simp add: forget_file_def)
  let ?w = "case dr_pages_dir row of None \<Rightarrow> w2 | Some dir \<Rightarrow> forget_dir env dir w2"
  have rows: "dw_rows ?w = dw_rows w" "dw_rows w2 = dw_rows w" using w1(1) w2 by (simp_all split: option.split)
  have forgets: "only_forgets env row w ?w" using forget_both_only [of env row w1] w1(2) unfolding w2 by (simp add: only_forgets_def)
  have file_only: "only_forgets env row w w2"
    using forget_file_only [of env "dr_path row" w1] w1(2) w2 by (auto simp: only_forgets_def own_files_def)
  have deleted: "x = Inr () \<and> dw_rows w4 = filter (\<lambda>r. dr_id r \<noteq> dr_id row) (dw_rows w3) \<and> dw_disk w4 = dw_disk w3"
    if "delete_row_by_id env (dr_id row) w3 = (x, w4)" for x w3 w4
    using that assms(1) by (auto simp: delete_row_by_id_def doc_call_def)
  consider "delete_row_by_id env (dr_id row) w1 = (r, w')" | "r = Inr ()" "w' = w2"
    | "delete_row_by_id env (dr_id row) ?w = (r, w')"
  proof (cases "path_starts_with (case c of Inr p \<Rightarrow> p | Inl _ \<Rightarrow> dr_path row) (cache_dir_of env)")
    case False
    then show ?thesis using assms(2) c that(1) by (simp add: purge_row_def)
  next
    case True
    then have eq: "(case q of Inl (IoOther _) \<Rightarrow> (Inr (), w2) | _ \<Rightarrow> delete_row_by_id env (dr_id row) ?w) = (r, w')"
      using assms(2) c q by (simp add: purge_row_def Let_def split: sum.splits io_error.splits)
    show ?thesis
    proof (cases "\<exists>m. q = Inl (IoOther m)")
      case True
      then show ?thesis using eq that(2) by auto
    next
      case False
      then show ?thesis using eq that(3) by (cases q) (auto split: io_error.splits)
    qed
  qed
  then show ?thesis
  proof cases
    case 1
    from deleted [OF this] w1 show ?thesis by (auto simp: only_forgets_def intro!: exI [of _ "{dr_id row}"])
  next
    case 2
    then show ?thesis using rows(2) file_only by (auto intro!: exI [of _ "{}"])
  next
    case 3
    from deleted [OF this] rows(1) forgets show ?thesis by (auto simp: only_forgets_def intro!: exI [of _ "{dr_id row}"])
  qed
qed

lemma purge_rows_any:
  assumes "\<And>i. dn_fault env i = None" "purge_rows env (cache_dir_of env) rs w = (r, w')"
  shows "r = Inr () \<and> (\<exists>I. I \<subseteq> dr_id ` set rs \<and> dw_rows w' = filter (\<lambda>r. dr_id r \<notin> I) (dw_rows w))
     \<and> (\<forall>q. files_of w' q = files_of w q \<or> (\<exists>row \<in> set rs. own_files env row q) \<and> files_of w' q = None)"
  using assms(2)
proof (induction rs arbitrary: w)
  case Nil
  then show ?case by (auto intro!: exI [of _ "{}"])
next
  case (Cons row rs)
  obtain e w1 where e: "purge_row env (cache_dir_of env) row w = (e, w1)" by (metis prod.exhaust)
  from purge_row_any [OF assms(1) e] obtain I where i: "e = Inr ()" "I \<subseteq> {dr_id row}"
    "dw_rows w1 = filter (\<lambda>r. dr_id r \<notin> I) (dw_rows w)" "only_forgets env row w w1" by blast
  have "purge_rows env (cache_dir_of env) rs w1 = (r, w')" using Cons.prems e i(1) by simp
  from Cons.IH [OF this] obtain J where j: "r = Inr ()" "J \<subseteq> dr_id ` set rs"
    "dw_rows w' = filter (\<lambda>r. dr_id r \<notin> J) (dw_rows w1)"
    "\<forall>q. files_of w' q = files_of w1 q \<or> (\<exists>row \<in> set rs. own_files env row q) \<and> files_of w' q = None" by blast
  have "dw_rows w' = filter (\<lambda>r. dr_id r \<notin> I \<union> J) (dw_rows w)"
    unfolding j(3) i(3) filter_filter by (rule filter_cong) auto
  moreover have "I \<union> J \<subseteq> dr_id ` set (row # rs)" using i(2) j(2) by auto
  moreover have "files_of w' q = files_of w q \<or> (\<exists>row \<in> set (row # rs). own_files env row q) \<and> files_of w' q = None" for q
    using i(4) j(4) unfolding only_forgets_def by (metis list.set_intros)
  ultimately show ?case using j(1) by blast
qed

lemma sweep_any:
  assumes "\<And>i. dn_fault env i = None" "doc_ok env w" "purge_older_than env (cache_dir_of env) cutoff w = (r, w')"
  shows "r = Inr (length (filter (overdue cutoff) (dw_rows w)))
     \<and> (\<exists>I. dw_rows w' = filter (\<lambda>r. \<not> (overdue cutoff r \<and> dr_id r \<in> I)) (dw_rows w))
     \<and> (\<forall>q. files_of w' q = files_of w q
          \<or> (\<exists>row \<in> set (dw_rows w). overdue cutoff row \<and> own_files env row q) \<and> files_of w' q = None)"
proof -
  let ?rs = "sort_key dr_created (filter (overdue cutoff) (dw_rows w))"
  obtain w1 where s: "sweep_older_than env cutoff w = (Inr ?rs, w1)" "dw_rows w1 = dw_rows w" "dw_disk w1 = dw_disk w"
    using assms(1) by (simp add: sweep_older_than_def doc_call_def)
  obtain e w2 where e: "purge_rows env (cache_dir_of env) ?rs w1 = (e, w2)" by (metis prod.exhaust)
  from purge_rows_any [OF assms(1) e] obtain I where i: "e = Inr ()" "I \<subseteq> dr_id ` set ?rs"
    "dw_rows w2 = filter (\<lambda>r. dr_id r \<notin> I) (dw_rows w1)"
    "\<forall>q. files_of w2 q = files_of w1 q \<or> (\<exists>row \<in> set ?rs. own_files env row q) \<and> files_of w2 q = None" by blast
  have r: "r = Inr (length ?rs)" "w' = w2" using assms(3) s(1) e i(1) by (simp_all add: purge_older_than_def)
  have "filter (\<lambda>r. dr_id r \<notin> I) (dw_rows w) = filter (\<lambda>r. \<not> (overdue cutoff r \<and> dr_id r \<in> I)) (dw_rows w)"
    using i(2) assms(2) by (intro filter_cong) (auto simp: doc_ok_def distinct_map inj_on_def)
  then have rows: "dw_rows w' = filter (\<lambda>r. \<not> (overdue cutoff r \<and> dr_id r \<in> I)) (dw_rows w)" using r(2) i(3) s(2) by simp
  have "files_of w' q = files_of w q
      \<or> (\<exists>row \<in> set (dw_rows w). overdue cutoff row \<and> own_files env row q) \<and> files_of w' q = None" for q
    using i(4) r(2) s(3) by (simp only: set_sort set_filter) blast
  with rows r(1) show ?thesis by (metis (no_types, lifting) length_sort)
qed

lemma sweep_plain:
  assumes "plain_cache env" "root_of env = cache_dir_of env" "\<And>i. dn_fault env i = None" "doc_ok env w"
    and "purge_older_than env (cache_dir_of env) cutoff w = (r, w')"
  shows "dw_rows w' = filter (\<lambda>r. \<not> overdue cutoff r) (dw_rows w)
     \<and> (\<forall>q. files_of w' q = (if \<exists>row \<in> set (dw_rows w). overdue cutoff row \<and> own_files env row q then None else files_of w q))"
proof -
  let ?rs = "sort_key dr_created (filter (overdue cutoff) (dw_rows w))"
  obtain w1 where s: "sweep_older_than env cutoff w = (Inr ?rs, w1)" "dw_rows w1 = dw_rows w" "dw_disk w1 = dw_disk w"
    using assms(3) by (simp add: sweep_older_than_def doc_call_def)
  obtain e w2 where e: "purge_rows env (cache_dir_of env) ?rs w1 = (e, w2)" by (metis prod.exhaust)
  have "list_all (placed env) ?rs" using assms(4) by (auto simp: doc_ok_def list_all_iff)
  note p = purge_rows_plain [OF assms(1-3) this e]
  have "w' = w2" using assms(5) s(1) e p by (simp add: purge_older_than_def)
  then show ?thesis using p s(2,3) kept_rows [OF assms(4)] by auto
qed

text \<open>
  C20: The sweep of old documents, when the table refuses no statement. A row is old when the text of
  its expiry or the text of its creation time is not after the text of the cutoff, compared as texts
  the way the statement does. Whatever the disk refuses, the sweep reports the number of old rows,
  removes old rows only and keeps the others in order, and every path is as before or belonged to an
  old row and is gone. When the disk refuses no call and the cache directory is given by its
  canonical path with no symbolic link below it, exactly the old rows are removed and exactly their
  files are gone; otherwise a row whose file could not be removed stays and is counted all the same.
\<close>

theorem sweep_exact:
  assumes "\<And>i. dn_fault env i = None" "doc_ok env w" "purge_older_than env (cache_dir_of env) cutoff w = (r, w')"
  shows "r = Inr (length (filter (overdue cutoff) (dw_rows w)))
     \<and> (\<exists>I. dw_rows w' = filter (\<lambda>r. \<not> (overdue cutoff r \<and> dr_id r \<in> I)) (dw_rows w))
     \<and> (\<forall>q. files_of w' q = files_of w q
          \<or> (\<exists>row \<in> set (dw_rows w). overdue cutoff row \<and> own_files env row q) \<and> files_of w' q = None)
     \<and> (plain_cache env \<and> root_of env = cache_dir_of env \<longrightarrow>
          dw_rows w' = filter (\<lambda>r. \<not> overdue cutoff r) (dw_rows w)
          \<and> (\<forall>q. files_of w' q =
               (if \<exists>row \<in> set (dw_rows w). overdue cutoff row \<and> own_files env row q then None else files_of w q)))"
  using sweep_any [OF assms] sweep_plain [OF _ _ assms] by blast

text \<open>
  C22: The sweep compares the canonical path of a file with the configured path of the cache
  directory, so when that path goes through a symbolic link the sweep deletes the rows of the old
  documents, counts them as removed, and leaves every one of their files on the disk, where no row
  refers to it any more.
\<close>

theorem sweep_behind_link:
  assumes "plain_cache env" "\<forall>xs. \<not> path_starts_with (root_of env @ xs) (cache_dir_of env)"
    and "\<And>i. dn_fault env i = None" "doc_ok env w"
    and "list_all (\<lambda>r. files_of w (de_real (dn_disk env) (dr_path r)) \<noteq> None) (dw_rows w)"
    and "purge_older_than env (cache_dir_of env) cutoff w = (r, w')"
  shows "r = Inr (length (filter (overdue cutoff) (dw_rows w)))
     \<and> dw_rows w' = filter (\<lambda>r. \<not> overdue cutoff r) (dw_rows w) \<and> files_of w' = files_of w"
proof -
  let ?rs = "sort_key dr_created (filter (overdue cutoff) (dw_rows w))"
  obtain w1 where s: "sweep_older_than env cutoff w = (Inr ?rs, w1)" "dw_rows w1 = dw_rows w" "dw_disk w1 = dw_disk w"
    using assms(3) by (simp add: sweep_older_than_def doc_call_def)
  obtain e w2 where e: "purge_rows env (cache_dir_of env) ?rs w1 = (e, w2)" by (metis prod.exhaust)
  have rs: "list_all (placed env) ?rs" "list_all (\<lambda>r. files_of w1 (de_real (dn_disk env) (dr_path r)) \<noteq> None) ?rs"
    using assms(4,5) s(3) by (auto simp: doc_ok_def list_all_iff)
  note p = purge_rows_linked [OF assms(1-3) rs e]
  have r: "r = Inr (length ?rs)" "w' = w2" using assms(6) s(1) e p by (simp_all add: purge_older_than_def)
  show ?thesis using r p s(2,3) kept_rows [OF assms(4)] by auto
qed

section \<open>The small store\<close>

lemma demo_plain: "plain_cache demo_doc_env"
  by (simp add: plain_cache_def unlinked_cache_def calm_def demo_doc_env_def demo_pages_env_def)

lemma demo_fields:
  "dg_max_docs_per_session (dn_cfg demo_doc_env) = 2" "dg_max_file_size_bytes (dn_cfg demo_doc_env) = 100"
  "cache_dir_of demo_doc_env = [''c'']" "au_id demo_reader = 1"
  by (simp_all add: demo_doc_env_def demo_reader_def)

lemma demo_no_fault: "dn_fault demo_doc_env i = None"
  by (simp add: demo_doc_env_def)

lemma demo_texts: "texts_ok demo_doc_env"
  by (auto simp: texts_ok_def demo_doc_env_def inj_def dest: arg_cong [of _ _ length])

lemma demo_upload:
  "\<exists>s w'. upload_handler demo_doc_env demo_reader None (Some (Some ''s''))
      [Inr \<lparr>ff_name = Some ''file'', ff_file_name = Some ''a.txt'', ff_chunks = [Inr ''hi'']\<rparr>] 9 ''now'' ''t'' (demo_docs [])
      = (Inr (Created s), w')"
proof -
  have "guarded_session demo_doc_env demo_reader None (Some (Some ''s'')) (demo_docs [])
      = (Inr 4, (demo_docs [])\<lparr>dw_calls := 1\<rparr>)"
    by (simp add: guarded_session_def check_csrf_def demo_reader_def parse_session_header_def verify_session_binding_def
        touch_and_verify_def doc_call_def demo_doc_env_def demo_docs_def)
  moreover have "count_for_session demo_doc_env (au_id demo_reader) 4 ((demo_docs [])\<lparr>dw_calls := 1\<rparr>)
      = (Inr 0, (demo_docs [])\<lparr>dw_calls := 2\<rparr>)"
    by (simp add: count_for_session_def doc_call_def demo_doc_env_def demo_docs_def)
  moreover have "extension_from_filename ''a.txt'' = ''txt''"
    by (simp add: extension_from_filename_def path_pieces_def file_stem_ext_def to_ascii_lowercase_def ascii_lower_def
        byte_def unwrap_or_def Let_def)
  moreover obtain t where "extract_text ''hi'' ''txt'' = Inr t"
    by (simp add: extract_text_def to_ascii_lowercase_def ascii_lower_def byte_def)
  moreover have "\<exists>w1. place_file demo_doc_env 9 (path_for_uuid demo_doc_env [''c''] 9 ''txt'') ''hi''
      ((demo_docs [])\<lparr>dw_calls := 2\<rparr>) = (Inr 2, w1) \<and> dw_rows w1 = []"
  proof -
    obtain r w1 where p: "place_file demo_doc_env 9 (path_for_uuid demo_doc_env (cache_dir_of demo_doc_env) 9 ''txt'') ''hi''
      ((demo_docs [])\<lparr>dw_calls := 2\<rparr>) = (r, w1)" by (metis prod.exhaust)
    have "r = Inr 2" using place_file_plain [OF demo_plain _ p] by simp
    then show ?thesis using p keeps_rowsD [OF keeps_place p] by (simp add: demo_doc_env_def demo_docs_def)
  qed
  ultimately show ?thesis
    by (auto simp: upload_handler_def upload_plain_def Let_def is_supported_def store_row_def doc_insert_def doc_call_def
        demo_fields demo_no_fault unwrap_or_def)
qed

lemma demo_ok: "distinct (map dr_id rows) \<Longrightarrow> length rows \<le> 2 \<Longrightarrow> rows = map (\<lambda>(i, t). demo_row i 1 t) xs \<Longrightarrow> doc_ok demo_doc_env (demo_docs rows)"
proof -
  assume d: "distinct (map dr_id rows)" "length rows \<le> 2" "rows = map (\<lambda>(i, t). demo_row i 1 t) xs"
  have "length (filter P rows) \<le> 2" for P using d(2) length_filter_le [of P rows] by linarith
  moreover have "list_all (placed demo_doc_env) rows"
    by (auto simp: d(3) list_all_iff placed_def demo_row_def is_supported_def demo_doc_env_def intro!: exI [of _ "''txt''"])
  ultimately show ?thesis using d(1) by (simp add: doc_ok_def demo_docs_def demo_doc_env_def)
qed

lemma documents_quota_witness:
  "\<exists>w'. doc_run demo_doc_env (demo_docs []) w' \<and> length (filter (in_session 1 4) (dw_rows w')) \<le> 2"
proof -
  obtain s w' where "upload_handler demo_doc_env demo_reader None (Some (Some ''s''))
      [Inr \<lparr>ff_name = Some ''file'', ff_file_name = Some ''a.txt'', ff_chunks = [Inr ''hi'']\<rparr>] 9 ''now'' ''t'' (demo_docs [])
      = (Inr (Created s), w')" using demo_upload by blast
  then have run: "doc_run demo_doc_env (demo_docs []) w'" by (intro r_into_rtranclp doc_step.upload)
  have ok: "doc_ok demo_doc_env (demo_docs [])" by (rule demo_ok [of _ "[]"]) simp_all
  have max: "dg_max_docs_per_session (dn_cfg demo_doc_env) = 2" by (simp add: demo_doc_env_def)
  show ?thesis using run documents_quota [OF run ok, of 1 4] unfolding max by blast
qed

lemma upload_download_witness:
  "\<exists>w' mime disposition. fst (download_handler demo_doc_env demo_reader 9 w') = Inr (Download mime disposition ''hi'')"
proof -
  let ?body = "[Inr \<lparr>ff_name = Some ''file'', ff_file_name = Some ''a.txt'', ff_chunks = [Inr ''hi'']\<rparr>]"
  obtain s w' where u: "upload_handler demo_doc_env demo_reader None (Some (Some ''s'')) ?body 9 ''now'' ''t'' (demo_docs [])
      = (Inr (Created s), w')" using demo_upload by blast
  have "find_file (dg_max_file_size_bytes (dn_cfg demo_doc_env)) ?body = Inr \<lparr>uf_name = ''a.txt'', uf_bytes = ''hi''\<rparr>"
    by (simp add: demo_doc_env_def unwrap_or_def)
  then show ?thesis using upload_download [OF demo_plain demo_no_fault u] by auto
qed

lemma delete_is_local_witness:
  "\<exists>w'. delete_handler demo_doc_env demo_reader None (Some (Some ''s'')) 7 (demo_docs [demo_row 7 1 ''a'', demo_row 8 1 ''b'']) = (Inr DocNoContent, w')
     \<and> dw_rows w' = [demo_row 8 1 ''b'']"
proof -
  let ?w = "demo_docs [demo_row 7 1 ''a'', demo_row 8 1 ''b'']"
  have ok: "doc_ok demo_doc_env ?w" by (rule demo_ok [of _ "[(7, ''a''), (8, ''b'')]"]) (simp_all add: demo_row_def)
  obtain w' where d: "delete_handler demo_doc_env demo_reader None (Some (Some ''s'')) 7 ?w = (Inr DocNoContent, w')"
    by (simp add: delete_handler_def guarded_session_def check_csrf_def demo_reader_def parse_session_header_def verify_session_binding_def
        touch_and_verify_def doc_call_def demo_doc_env_def demo_docs_def delete_with_pages_dir_def demo_row_def Let_def)
  show ?thesis using d delete_is_local [OF plain_cacheD(2) [OF demo_plain] demo_texts ok d] by (auto simp: demo_docs_def demo_row_def)
qed

lemma sweep_exact_witness:
  "\<exists>w'. purge_older_than demo_doc_env [''c''] ''b'' (demo_docs [demo_row 7 1 ''a'', demo_row 8 1 ''c'']) = (Inr 1, w')
     \<and> dw_rows w' = [demo_row 8 1 ''c'']"
proof -
  let ?w = "demo_docs [demo_row 7 1 ''a'', demo_row 8 1 ''c'']"
  have ok: "doc_ok demo_doc_env ?w" by (rule demo_ok [of _ "[(7, ''a''), (8, ''c'')]"]) (simp_all add: demo_row_def)
  have root: "root_of demo_doc_env = cache_dir_of demo_doc_env" "cache_dir_of demo_doc_env = [''c'']"
    by (simp_all add: demo_doc_env_def demo_pages_env_def)
  have old: "overdue ''b'' (demo_row 7 1 ''a'')" "\<not> overdue ''b'' (demo_row 8 1 ''c'')"
    by (simp_all add: overdue_def demo_row_def less_eq_char_def less_char_def)
  obtain r w' where p: "purge_older_than demo_doc_env (cache_dir_of demo_doc_env) ''b'' ?w = (r, w')" by (metis prod.exhaust)
  show ?thesis using p sweep_exact [OF demo_no_fault ok p] demo_plain root(1) old
    by (simp add: root(2)) (simp add: demo_docs_def)
qed

definition linked_env :: doc_env where
  "linked_env = demo_doc_env\<lparr>dn_pages := demo_pages_env\<lparr>pe_disk :=
     \<lparr>de_fault = \<lambda>_. None, de_real = \<lambda>p. if take 1 p = [''c''] then ''d'' # drop 1 p else p\<rparr>\<rparr>\<rparr>"

lemma sweep_behind_link_witness:
  "\<exists>w'. purge_older_than linked_env [''c''] ''b''
       ((demo_docs [demo_row 7 1 ''a''])\<lparr>dw_disk := empty_disk\<lparr>dk_files := [(''d'' # tl (dr_path (demo_row 7 1 ''a'')), ''hi'')]\<rparr>\<rparr>) = (Inr 1, w')
     \<and> dw_rows w' = [] \<and> files_of w' (''d'' # tl (dr_path (demo_row 7 1 ''a''))) = Some ''hi''"
proof -
  let ?row = "demo_row 7 1 ''a''"
  let ?w = "(demo_docs [?row])\<lparr>dw_disk := empty_disk\<lparr>dk_files := [(''d'' # tl (dr_path ?row), ''hi'')]\<rparr>\<rparr>"
  have env: "plain_cache linked_env" "\<forall>xs. \<not> path_starts_with (root_of linked_env @ xs) (cache_dir_of linked_env)"
    "\<And>i. dn_fault linked_env i = None" "cache_dir_of linked_env = [''c'']"
    by (simp_all add: linked_env_def plain_cache_def unlinked_cache_def calm_def demo_doc_env_def path_starts_with_def)
  have path: "dr_path ?row = path_for_uuid linked_env [''c''] 7 ''txt''"
    by (simp add: demo_row_def path_for_uuid_def linked_env_def demo_doc_env_def)
  have ok: "doc_ok linked_env ?w"
    using path env(4) length_filter_le [of _ "[?row]"]
    by (auto simp: doc_ok_def demo_docs_def placed_def is_supported_def demo_row_def linked_env_def demo_doc_env_def intro!: exI [of _ "''txt''"])
  have files: "list_all (\<lambda>r. files_of ?w (de_real (dn_disk linked_env) (dr_path r)) \<noteq> None) (dw_rows ?w)"
    using path by (simp add: demo_docs_def path_for_uuid_def linked_env_def Let_def)
  obtain r w' where p: "purge_older_than linked_env (cache_dir_of linked_env) ''b'' ?w = (r, w')" by (metis prod.exhaust)
  have old: "overdue ''b'' ?row" by (simp add: overdue_def demo_row_def less_eq_char_def less_char_def)
  show ?thesis using p sweep_behind_link [OF env(1-3) ok files p] old by (simp add: env(4)) (simp add: demo_docs_def)
qed

end
