(* ===== verification/Spec2Isabelle.thy ===== *)
theory Spec2Isabelle
  imports Stt_Props Float_Round Egress Llm_Chat_Props Memory_Agents Caldav_Props Blocking_Pool X_Timeline_Props Doc_Disk_Props
begin

text \<open>
  A verification library for nagent: an assistant server in Rust with a chat proxy in front of a
  language model, tool-calling agents, speech recognition over WebSockets, and accounts.

  The parts and how they interact. A request enters the server (\<open>crates/nagent-server\<close>) through
  the origin guard, the rate limits and the authentication middleware. A chat request goes to the
  proxy (\<open>src/llm\<close>), which rewrites its body, posts it upstream, and runs the tool loop: the model's
  calls are dispatched to agents (\<open>crates/nagent-agents\<close>) behind a permission gate, their answers are
  appended to the conversation, and the next round is posted. Agents reach the network through the
  egress client only and read secrets through the user context. Speech goes through a WebSocket
  handler to a pool of workers (\<open>crates/stt-core\<close>) with the wire format of \<open>crates/stt-proto\<close>.
  \<open>crates/nagent-support\<close> holds the buckets, the bounded map and the blocking pool they share.

  Theories and the code they model.

  \<^item> \<open>Prelude\<close>: generic lemmas, the clock (nanoseconds), saturating arithmetic, options, vectors
    and \<open>dash\<close>, an association list that stands for a \<open>DashMap\<close> or \<open>HashMap\<close>; the locale
    \<open>keyed_buckets\<close> states what a limiter promises per key and is interpreted on both limiters.
  \<^item> \<open>Float_Round\<close>, \<open>Buckets\<close>, \<open>Window_Buckets\<close>: \<open>nagent-support/src/ratelimit.rs\<close>; f64 arithmetic is
    real arithmetic through a rounding function, instantiated by round-half-even to 53 bits.
  \<^item> \<open>Rust_Str\<close>, \<open>Rust_Utf8\<close>: the standard library's strings as their bytes, and lossy decoding.
  \<^item> \<open>Ip_Addr\<close>, \<open>Ip_Rate_Limit\<close>: \<open>rate_limit.rs\<close>, \<open>config/trusted_proxies.rs\<close>, \<open>http/llm_guards.rs\<close>.
  \<^item> \<open>Login_Rate_Limit\<close>, \<open>Auth_Session\<close>: \<open>auth/login_rate_limit.rs\<close>, \<open>auth/session.rs\<close>,
    \<open>auth/middleware.rs\<close>, \<open>auth/password.rs\<close>.
  \<^item> \<open>Ttl_Map\<close>, \<open>Ttl_Clients\<close>: \<open>nagent-support/src/ttl_map.rs\<close> and its clients: the credential cache,
    the OAuth state store, the passkey ceremonies (\<open>auth/passkey.rs\<close>).
  \<^item> \<open>Origin_Guard\<close>, \<open>Ws_Concurrency\<close>: \<open>http/origin_guard.rs\<close>, \<open>stt/ws_concurrency.rs\<close>.
  \<^item> \<open>Stt_Proto\<close>, \<open>Stt_Server\<close>, \<open>Stt_Props\<close>: \<open>stt-proto/src/lib.rs\<close>, \<open>stt/*.rs\<close>, \<open>stt-core/src/worker.rs\<close>.
  \<^item> \<open>Egress\<close>: \<open>nagent-agents/src/egress.rs\<close>. \<open>Json\<close>: \<open>serde_json::Value\<close> and its accessors.
  \<^item> \<open>Services\<close>, \<open>Agents\<close>, \<open>Tools_Router\<close>, \<open>Memory_Agents\<close>: \<open>services.rs\<close>, \<open>agents.rs\<close>,
    \<open>tools_router.rs\<close>, \<open>agents/tool_search.rs\<close>, \<open>agents/memory.rs\<close>.
  \<^item> \<open>Llm_Client\<close>, \<open>Llm_Permission\<close>, \<open>Llm_Sse\<close>, \<open>Llm_Prompt\<close>, \<open>Llm_Tool_Loop\<close>, \<open>Llm_Chat\<close>: the files of
    \<open>nagent-server/src/llm\<close>; \<open>Llm_Sse_Props\<close>, \<open>Llm_Loop_Props\<close>, \<open>Llm_Chat_Props\<close> hold their properties.
  \<^item> \<open>Ical\<close>, \<open>Dav_Xml\<close>, \<open>Caldav_Agents\<close>: \<open>agents/caldav/*.rs\<close>; \<open>Ical_Props\<close>, \<open>Dav_Xml_Props\<close>, \<open>Caldav_Props\<close>
    hold their properties.
  \<^item> \<open>Blocking_Pool\<close>: \<open>nagent-support/src/cpu.rs\<close>.
  \<^item> \<open>Seal\<close>, \<open>Vault\<close>, \<open>Vault_Props\<close>: \<open>credentials/*.rs\<close>, \<open>nagent-db/src/credentials.rs\<close>, the adapters of
    \<open>agents/mod.rs\<close>; the locale \<open>secret_store\<close> states what the agents rely on and is interpreted on
    the resolver and the write-back sink. \<open>X_Account\<close>: \<open>oauth/x.rs\<close>; \<open>X_Timeline\<close>,
    \<open>X_Timeline_Props\<close>: \<open>agents/x_timeline/mod.rs\<close>.
  \<^item> \<open>Doc_Pages\<close>, \<open>Doc_Store\<close>, \<open>Doc_Routes\<close>, \<open>Doc_Agent\<close>: \<open>documents/*.rs\<close>, the tables of
    \<open>nagent-db\<close> they use, \<open>chat/sessions.rs\<close>, \<open>agents/read_document.rs\<close> and its adapter, over a model
    of the file system with faults and symbolic links; \<open>Doc_Pages_Props\<close>, \<open>Doc_Props\<close>,
    \<open>Doc_Disk_Props\<close> hold their properties.

  How the code is represented. A struct is a record, an enum a datatype, an error a value of a sum;
  a handler is one function from its inputs, the clock readings it makes and the state to its result
  and the state. Interior mutability is state passing: a shared map is a field of the state. Where
  accesses of several threads interleave (\<open>Ws_Concurrency\<close>, \<open>Blocking_Pool\<close>) the code is split at its
  shared accesses or await points and steps are a relation; safety is an invariant of its reachable
  states. A panic is the value \<open>Panicked\<close> where the code can panic on input from outside.

  What the groups of lemmas show. Budgets and lockouts of the limiters, and that sweeps are not
  observable; sessions: who is authenticated, with which source, and when a request is refused; the
  bounded map refines a map with expiry; the speech service keeps sessions apart and jobs in order;
  the egress policy is a list of networks and every byte received passed it; the event reader is
  independent of how the stream is cut into chunks and a round reports exactly what its events say;
  every agent that runs was allowed by its gate, a session override or an approval that the request
  itself carries, that was pending and is used once; the conversation posted upstream is made of
  complete turns; the calendar code reads back what it writes, to the second, and its tag scan agrees
  with a grammar of documents except for nested empty elements of the searched name; the waiters of
  the blocking pool are served in order, all of them; a stored credential
  reads back, users of the vault do not interfere, and an account is connected only for the user
  who started the flow; documents are seen by their user and session only, stay within the quota,
  are downloaded as uploaded, and are removed with their own files and no others.

  Termination and bounds. All loops are total functions. The tool loop decreases
  \<open>rounds_left\<close>, the tool rounds and automatic continuations that remain; its round counter is a
  natural number, which agrees with the \<open>u32\<close> of the code as long as \<open>max_rounds\<close> is below its
  maximum. The readers of streams and documents decrease the bytes that are left. Fixed-width
  integers are words where the code can overflow (durations, counters of the buckets) and natural
  numbers with an explicit bound elsewhere.

  Traces. The states of the tool loop and the results of the calendar agents carry the requests sent
  and the agents invoked. They are written only: no decision reads them.

  Parameters. Code that is not in the repository is an argument: \<open>serde_json\<close> (parse, print, error
  text) and derived deserialisation, \<open>postcard\<close>, \<open>url\<close>, \<open>ipnet\<close>, \<open>chrono\<close>, \<open>base64\<close>, \<open>sha2\<close>,
  \<open>argon2\<close>, WebAuthn, the HTTP transport, DNS, the database tables, the logarithm and Unicode
  lower-casing. The order in which a hash map is walked is a position or permutation argument. The
  properties that rely on such code name what they rely on as hypotheses, and a witness shows that
  they can hold. The HTTP client of the agents follows redirects inside the parameter: the requests
  it makes then are in no list of requests, and the policy is not applied to them.

  Not modelled: SQL (the tables are parameters, except those of the credentials, the
  documents and the chat sessions, whose statements are operations on the list of the rows), configuration files and environment variables, the
  command line, static assets, logging and metrics, the voice engine and the speech model, routers
  and wiring, and the remaining agents, each a request to one provider. The handler that finishes a
  passkey registration is modelled up to the credential it stores.
\<close>

end
